(* ===== verification/Prelude.thy ===== *)
theory Prelude
  imports Main
begin

text \<open>
  What every component shares: the part of the JavaScript runtime the code uses (string
  trimming and case mapping, decimal printing and parsing, UTF-8 length), JSON values and
  HTTP replies, and the collections of facts the component proofs draw on.

  Strings are lists of \<open>char\<close>, a \<open>char\<close> standing for a UTF-16 code unit below 256; where
  the code counts code units or bytes of text a person typed (password rules, label
  clipping) the model uses \<open>ustr\<close>, lists of arbitrary 16-bit code units, and \<open>units\<close> embeds
  the former in the latter.  JavaScript numbers are integers here: the code uses them for
  ids, counts and instants, all below \<open>2 ^ 53\<close>.
\<close>

named_theorems js_defs "definitions of the JavaScript runtime, for evaluating closed terms"
named_theorems tx_simps "evaluation rules of the transaction monad"
named_theorems frame_simps "components of the state an operation does not write"

section \<open>Characters and strings\<close>

definition is_ws :: "char \<Rightarrow> bool" where
  \<comment> \<open>WhiteSpace and LineTerminator below 256, as \<open>trim\<close>, \<open>parseInt\<close> and \<open>\s\<close> use it\<close>
  [js_defs]: "is_ws c \<longleftrightarrow> c = CHR 0x20 \<or> c = CHR 0x09 \<or> c = CHR 0x0A \<or> c = CHR 0x0B
     \<or> c = CHR 0x0C \<or> c = CHR 0x0D \<or> c = CHR 0xA0"

definition trim :: "string \<Rightarrow> string" where
  [js_defs]: "trim s = rev (dropWhile is_ws (rev (dropWhile is_ws s)))"

definition lower_char :: "char \<Rightarrow> char" where
  [js_defs]: "lower_char c = (let n = (of_char c :: nat) in
     if (65 \<le> n \<and> n \<le> 90) \<or> (192 \<le> n \<and> n \<le> 222 \<and> n \<noteq> 215) then char_of (n + 32) else c)"

definition toLowerCase :: "string \<Rightarrow> string" where
  [js_defs]: "toLowerCase s = map lower_char s"

definition upper_char :: "char \<Rightarrow> string" where
  \<comment> \<open>sharp s becomes two letters; the upper case of 0xB5 and 0xFF lies beyond 255 and they
     are kept, which no comparison of the code (all against ASCII) can tell\<close>
  [js_defs]: "upper_char c = (let n = (of_char c :: nat) in
     if (97 \<le> n \<and> n \<le> 122) \<or> (224 \<le> n \<and> n \<le> 254 \<and> n \<noteq> 247) then [char_of (n - 32)]
     else if n = 223 then ''SS'' else [c])"

definition toUpperCase :: "string \<Rightarrow> string" where
  [js_defs]: "toUpperCase s = concat (map upper_char s)"

fun startsWith :: "string \<Rightarrow> string \<Rightarrow> bool" where
  "startsWith s [] = True"
| "startsWith [] (c # p) = False"
| "startsWith (a # s) (c # p) = (a = c \<and> startsWith s p)"

lemma startsWith_iff: "startsWith s p \<longleftrightarrow> (\<exists>t. s = p @ t)"
  by (induction s p rule: startsWith.induct) auto

lemma startsWith_append [simp]: "startsWith (p @ t) p"
  by (auto simp: startsWith_iff)

definition split_head :: "char \<Rightarrow> string \<Rightarrow> string" where
  \<comment> \<open>\<open>s.split(c)[0]\<close>\<close>
  [js_defs]: "split_head c s = takeWhile (\<lambda>x. x \<noteq> c) s"

definition truthy :: "string option \<Rightarrow> bool" where
  \<comment> \<open>neither null, undefined nor empty\<close>
  "truthy s = (case s of None \<Rightarrow> False | Some x \<Rightarrow> x \<noteq> [])"

definition str_of :: "string option \<Rightarrow> string" where
  "str_of s = (case s of None \<Rightarrow> [] | Some x \<Rightarrow> x)"

lemma lower_char_idem [simp]: "lower_char (lower_char c) = lower_char c"
proof (cases "(65 \<le> (of_char c :: nat) \<and> (of_char c :: nat) \<le> 90)
    \<or> (192 \<le> (of_char c :: nat) \<and> (of_char c :: nat) \<le> 222 \<and> (of_char c :: nat) \<noteq> 215)")
  case True
  then have l: "lower_char c = char_of ((of_char c :: nat) + 32)"
    by (simp add: lower_char_def)
  have "(of_char (lower_char c) :: nat) = of_char c + 32"
    unfolding l using True by (auto simp: of_char_of)
  then show ?thesis
    using True unfolding lower_char_def [of "lower_char c"] by (auto simp: Let_def)
next
  case False
  then have "lower_char c = c" unfolding lower_char_def Let_def by (rule if_not_P)
  then show ?thesis by simp
qed

lemma toLowerCase_idem [simp]: "toLowerCase (toLowerCase s) = toLowerCase s"
  by (simp add: toLowerCase_def)

lemma toLowerCase_Nil [simp]: "toLowerCase [] = []"
  by (simp add: toLowerCase_def)

lemma trim_Nil [simp]: "trim [] = []"
  by (simp add: trim_def)

lemma trim_no_ws: "(\<forall>c \<in> set s. \<not> is_ws c) \<Longrightarrow> trim s = s"
proof -
  assume *: "\<forall>c \<in> set s. \<not> is_ws c"
  have d: "\<And>t. (\<forall>c \<in> set t. \<not> is_ws c) \<Longrightarrow> dropWhile is_ws t = t"
    by (case_tac t) auto
  show ?thesis using * by (simp add: trim_def d)
qed

section \<open>Decimal numbers\<close>

definition digit_char :: "nat \<Rightarrow> char" where
  [js_defs]: "digit_char d = char_of (48 + d)"

definition digit_val :: "char \<Rightarrow> nat" where
  [js_defs]: "digit_val c = of_char c - 48"

definition is_digit :: "char \<Rightarrow> bool" where
  [js_defs]: "is_digit c \<longleftrightarrow> 48 \<le> (of_char c :: nat) \<and> (of_char c :: nat) \<le> 57"

fun dec :: "nat \<Rightarrow> string" where
  "dec n = (if n < 10 then [digit_char n] else dec (n div 10) @ [digit_char (n mod 10)])"

declare dec.simps [simp del]

definition digits_val :: "string \<Rightarrow> nat" where
  [js_defs]: "digits_val s = foldl (\<lambda>a c. 10 * a + digit_val c) 0 s"

definition js_String :: "int \<Rightarrow> string" where
  [js_defs]: "js_String i = (if i < 0 then CHR ''-'' # dec (nat (- i)) else dec (nat i))"

definition sign_split :: "string \<Rightarrow> bool \<times> string" where
  [js_defs]: "sign_split s = (case s of [] \<Rightarrow> (False, [])
     | c # r \<Rightarrow> if c = CHR ''-'' then (True, r) else if c = CHR ''+'' then (False, r) else (False, s))"

definition js_parseInt :: "string \<Rightarrow> int option" where
  \<comment> \<open>\<open>parseInt(s, 10)\<close>; \<open>None\<close> is NaN\<close>
  [js_defs]: "js_parseInt s = (let (neg, u) = sign_split (dropWhile is_ws s);
       ds = takeWhile is_digit u
     in if ds = [] then None
        else Some (if neg then - int (digits_val ds) else int (digits_val ds)))"

definition js_Number :: "string \<Rightarrow> int option" where
  \<comment> \<open>\<open>Number(s)\<close> on the integer literals the code feeds it; \<open>None\<close> is NaN\<close>
  [js_defs]: "js_Number s = (let t = trim s in
     if t = [] then Some 0
     else let (neg, ds) = sign_split t in
       if ds \<noteq> [] \<and> list_all is_digit ds
       then Some (if neg then - int (digits_val ds) else int (digits_val ds)) else None)"

lemma of_char_digit: "d < 10 \<Longrightarrow> (of_char (digit_char d) :: nat) = 48 + d"
  by (simp add: digit_char_def of_char_of)

lemma digit_val_digit [simp]: "d < 10 \<Longrightarrow> digit_val (digit_char d) = d"
  by (simp add: digit_val_def of_char_digit)

lemma is_digit_digit [simp]: "d < 10 \<Longrightarrow> is_digit (digit_char d)"
  by (simp add: is_digit_def of_char_digit)

lemma is_digit_not_ws: "is_digit c \<Longrightarrow> \<not> is_ws c"
  by (auto simp: is_digit_def is_ws_def)

lemma is_digit_not_sign: "is_digit c \<Longrightarrow> c \<noteq> CHR ''-'' \<and> c \<noteq> CHR ''+''"
  by (auto simp: is_digit_def)

lemma dec_nonempty [simp]: "dec n \<noteq> []"
  by (subst dec.simps) simp

lemma dec_digits: "\<forall>c \<in> set (dec n). is_digit c"
proof (induction n rule: dec.induct)
  case (1 n)
  show ?case
    by (cases "n < 10") (use 1 in \<open>auto simp: dec.simps [of n]\<close>)
qed

lemma digits_val_snoc: "digits_val (s @ [c]) = 10 * digits_val s + digit_val c"
  by (simp add: digits_val_def)

lemma digits_val_dec [simp]: "digits_val (dec n) = n"
proof (induction n rule: dec.induct)
  case (1 n)
  show ?case
  proof (cases "n < 10")
    case True
    then show ?thesis by (simp add: dec.simps [of n] digits_val_def)
  next
    case False
    with 1 have "digits_val (dec (n div 10)) = n div 10" by simp
    with False show ?thesis by (simp add: dec.simps [of n] digits_val_snoc)
  qed
qed

lemma sign_split_dec: "sign_split (dec n) = (False, dec n)"
proof (cases "dec n")
  case (Cons c r)
  then have "is_digit c" using dec_digits [of n] by simp
  with Cons show ?thesis by (auto simp: sign_split_def dest: is_digit_not_sign)
qed simp

lemma dec_no_ws: "\<forall>c \<in> set (dec n). \<not> is_ws c"
  using dec_digits is_digit_not_ws by blast

lemma dropWhile_no_ws: "(\<forall>c \<in> set s. \<not> is_ws c) \<Longrightarrow> dropWhile is_ws s = s"
  by (cases s) auto

lemma js_String_no_ws: "\<forall>c \<in> set (js_String i). \<not> is_ws c"
  using dec_no_ws by (auto simp: js_String_def is_ws_def)

lemma sign_split_String:
  "sign_split (js_String i) = (i < 0, dec (nat \<bar>i\<bar>))"
  using sign_split_dec [of "nat i"] by (auto simp: js_String_def sign_split_def)

lemma js_String_nonempty [simp]: "js_String i \<noteq> []"
  by (simp add: js_String_def)

lemma js_Number_String [simp]: "js_Number (js_String i) = Some i"
  using dec_digits [of "nat \<bar>i\<bar>"]
  by (simp add: js_Number_def trim_no_ws [OF js_String_no_ws] sign_split_String list_all_iff)

lemma takeWhile_dec [simp]: "takeWhile is_digit (dec n) = dec n"
  using dec_digits by (simp add: takeWhile_eq_all_conv)

lemma js_parseInt_String [simp]: "js_parseInt (js_String i) = Some i"
  by (simp add: js_parseInt_def dropWhile_no_ws [OF js_String_no_ws] sign_split_String Let_def)

lemma js_String_inj [simp]: "js_String i = js_String j \<longleftrightarrow> i = j"
  by (metis js_Number_String option.inject)

section \<open>Text as code units\<close>

type_synonym ustr = "nat list"

definition units :: "string \<Rightarrow> ustr" where
  "units s = map of_char s"

definition is_high :: "nat \<Rightarrow> bool" where
  "is_high u \<longleftrightarrow> 0xD800 \<le> u \<and> u \<le> 0xDBFF"

definition is_low :: "nat \<Rightarrow> bool" where
  "is_low u \<longleftrightarrow> 0xDC00 \<le> u \<and> u \<le> 0xDFFF"

definition utf8_bmp :: "nat \<Rightarrow> nat list" where
  \<comment> \<open>one code point below 0x10000; a lone surrogate is replaced by U+FFFD\<close>
  "utf8_bmp u = (if u < 0x80 then [u]
     else if u < 0x800 then [0xC0 + u div 64, 0x80 + u mod 64]
     else if is_high u \<or> is_low u then [0xEF, 0xBF, 0xBD]
     else [0xE0 + u div 4096, 0x80 + u div 64 mod 64, 0x80 + u mod 64])"

definition utf8_pair :: "nat \<Rightarrow> nat \<Rightarrow> nat list" where
  "utf8_pair h l = (let p = 0x10000 + (h - 0xD800) * 0x400 + (l - 0xDC00)
     in [0xF0 + p div 262144, 0x80 + p div 4096 mod 64, 0x80 + p div 64 mod 64, 0x80 + p mod 64])"

fun utf8_encode :: "ustr \<Rightarrow> nat list" where
  \<comment> \<open>\<open>new TextEncoder().encode\<close>\<close>
  "utf8_encode [] = []"
| "utf8_encode [u] = utf8_bmp u"
| "utf8_encode (u # v # us) = (if is_high u \<and> is_low v then utf8_pair u v @ utf8_encode us
     else utf8_bmp u @ utf8_encode (v # us))"

lemma length_units [simp]: "length (units s) = length s"
  by (simp add: units_def)

lemma units_append [simp]: "units (s @ t) = units s @ units t"
  by (simp add: units_def)

lemma units_Nil [simp]: "units [] = []"
  by (simp add: units_def)

lemma utf8_length_ge: "length us \<le> length (utf8_encode us)"
proof (induction us rule: utf8_encode.induct)
  case (3 u v us)
  have "1 \<le> length (utf8_bmp u)" by (simp add: utf8_bmp_def)
  with 3 show ?case by (auto simp: utf8_pair_def Let_def)
qed (auto simp: utf8_bmp_def)

section \<open>JSON values and HTTP replies\<close>

datatype json = JNull | JBool bool | JNum int | JStr string
  | JArr "json list" | JObj "(string \<times> json) list"

definition opt_json :: "('a \<Rightarrow> json) \<Rightarrow> 'a option \<Rightarrow> json" where
  "opt_json f x = (case x of None \<Rightarrow> JNull | Some a \<Rightarrow> f a)"

definition jfield :: "json \<Rightarrow> string \<Rightarrow> json option" where
  \<comment> \<open>\<open>body?.k\<close>; \<open>None\<close> is undefined\<close>
  "jfield j k = (case j of JObj fs \<Rightarrow> map_of fs k | _ \<Rightarrow> None)"

section \<open>Lists\<close>

definition page_of :: "nat \<Rightarrow> nat \<Rightarrow> 'a list \<Rightarrow> 'a list" where
  \<comment> \<open>\<open>LIMIT k OFFSET o\<close>\<close>
  "page_of k offset xs = take k (drop offset xs)"

lemma concat_pages:
  "concat (map (\<lambda>p. page_of k (p * k) xs) [0..<n]) = take (n * k) xs"
proof (induction n)
  case (Suc n)
  then show ?case using take_add [of "n * k" k xs] by (simp add: page_of_def add.commute)
qed simp

lemma length_page_of: "length (page_of k offset xs) \<le> k"
  by (simp add: page_of_def)

fun insert_by :: "('a \<Rightarrow> 'a \<Rightarrow> bool) \<Rightarrow> 'a \<Rightarrow> 'a list \<Rightarrow> 'a list" where
  "insert_by le x [] = [x]"
| "insert_by le x (y # ys) = (if le x y then x # y # ys else y # insert_by le x ys)"

definition sort_by :: "('a \<Rightarrow> 'a \<Rightarrow> bool) \<Rightarrow> 'a list \<Rightarrow> 'a list" where
  \<comment> \<open>ORDER BY under a collation given as a comparison\<close>
  "sort_by le xs = foldr (insert_by le) xs []"

lemma set_insert_by [simp]: "set (insert_by le x ys) = insert x (set ys)"
  by (induction ys) auto

lemma set_sort_by [simp]: "set (sort_by le xs) = set xs"
  by (induction xs) (auto simp: sort_by_def)

lemma length_insert_by [simp]: "length (insert_by le x ys) = Suc (length ys)"
  by (induction ys) auto

lemma length_sort_by [simp]: "length (sort_by le xs) = length xs"
  by (induction xs) (auto simp: sort_by_def)

lemma find_Some_iff_filter:
  "List.find P xs = (case filter P xs of [] \<Rightarrow> None | x # _ \<Rightarrow> Some x)"
  by (induction xs) auto

lemma distinct_map_filter_unique:
  "distinct (map f xs) \<Longrightarrow> x \<in> set xs \<Longrightarrow> y \<in> set xs \<Longrightarrow> f x = f y \<Longrightarrow> x = y"
  by (metis distinct_map inj_onD)

end
