(* ===== verification/Datetime.thy ===== *)
theory Datetime
  imports Prelude
begin

text \<open>
  \<^verbatim>\<open>dashboard/src/lib/datetime.ts\<close>: wall-clock formatting in Tanzania time (a fixed +03:00)
  and the rounding of an instant up to a whole local day.  The proleptic Gregorian calendar
  that \<^verbatim>\<open>Date\<close> and \<^verbatim>\<open>Intl.DateTimeFormat\<close> share is written out, with the proof that it and its
  inverse agree, so that a date string has a meaning as a day number.
\<close>

section \<open>The calendar\<close>

definition month_of :: "int \<Rightarrow> int" where
  \<comment> \<open>calendar month of month \<open>mp\<close> of a year that begins in March\<close>
  "month_of mp = (if mp < 10 then mp + 3 else mp - 9)"

definition civil_from_days :: "int \<Rightarrow> int \<times> int \<times> int" where
  \<comment> \<open>year, month, day of the \<open>z\<close>-th day after 1970-01-01\<close>
  "civil_from_days z =
    (let z' = z + 719468; era = z' div 146097; doe = z' mod 146097;
         c = min (doe div 36524) 3; r1 = doe - c * 36524;
         q = r1 div 1461; r2 = r1 mod 1461;
         y1 = min (r2 div 365) 3; doy = r2 - y1 * 365;
         mp = (5 * doy + 2) div 153; m = month_of mp
     in (400 * era + 100 * c + 4 * q + y1 + (if m \<le> 2 then 1 else 0), m,
         doy - (153 * mp + 2) div 5 + 1))"

definition days_from_civil :: "int \<Rightarrow> int \<Rightarrow> int \<Rightarrow> int" where
  "days_from_civil y m d =
    (let y' = (if m \<le> 2 then y - 1 else y); era = y' div 400; yoe = y' mod 400;
         mp = (if m > 2 then m - 3 else m + 9); doy = (153 * mp + 2) div 5 + d - 1
     in era * 146097 + 365 * yoe + yoe div 4 - yoe div 100 + doy - 719468)"

lemma era_split:
  fixes doe :: int
  assumes "0 \<le> doe" "doe < 146097"
  obtains c q y1 doy where "c = min (doe div 36524) 3" "q = (doe - c * 36524) div 1461"
    "y1 = min ((doe - c * 36524) mod 1461 div 365) 3"
    "doy = (doe - c * 36524) mod 1461 - y1 * 365"
    "doe = 36524 * c + 1461 * q + 365 * y1 + doy"
    "0 \<le> c" "c \<le> 3" "0 \<le> q" "q \<le> 24" "0 \<le> y1" "y1 \<le> 3" "0 \<le> doy" "doy \<le> 365"
proof -
  define c where "c = min (doe div 36524) 3"
  define r1 where "r1 = doe - c * 36524"
  define r2 where "r2 = r1 mod 1461"
  define y1 where "y1 = min (r2 div 365) 3"
  have c: "0 \<le> c" "c \<le> 3" using assms by (auto simp: c_def min_def)
  have r1: "0 \<le> r1" "r1 \<le> 36524"
    using assms unfolding r1_def c_def min_def by (simp_all split: if_splits) linarith+
  have r2: "0 \<le> r2" "r2 \<le> 1460" by (auto simp: r2_def zle_diff1_eq)
  have y: "0 \<le> y1" "y1 \<le> 3" "0 \<le> r2 - y1 * 365" "r2 - y1 * 365 \<le> 365"
    using r2 by (auto simp: y1_def min_def)
  define q where "q = r1 div 1461"
  have q: "0 \<le> q" "q \<le> 24" using r1 unfolding q_def by linarith+
  have "1461 * q + r2 = r1" by (simp add: q_def r2_def)
  then have sum: "doe = 36524 * c + 1461 * q + 365 * y1 + (r2 - y1 * 365)"
    using r1_def by simp
  have e: "q = (doe - c * 36524) div 1461" "y1 = min ((doe - c * 36524) mod 1461 div 365) 3"
    "r2 - y1 * 365 = (doe - c * 36524) mod 1461 - y1 * 365"
    unfolding q_def y1_def r2_def r1_def by (rule refl)+
  show thesis by (rule that [OF c_def e sum c q y])
qed

lemma month_split:
  fixes doy :: int
  assumes "0 \<le> doy" "doy \<le> 365"
  shows "0 \<le> (5 * doy + 2) div 153" "(5 * doy + 2) div 153 \<le> 11"
    "0 \<le> doy - (153 * ((5 * doy + 2) div 153) + 2) div 5"
    "doy - (153 * ((5 * doy + 2) div 153) + 2) div 5 \<le> 30"
proof -
  define mp where "mp = (5 * doy + 2) div 153"
  define k where "k = (153 * mp + 2) div 5"
  have m: "153 * mp \<le> 5 * doy + 2" "5 * doy + 2 < 153 * mp + 153"
    unfolding mp_def by linarith+
  have k: "5 * k \<le> 153 * mp + 2" "153 * mp + 2 < 5 * k + 5"
    unfolding k_def by linarith+
  show "0 \<le> (5 * doy + 2) div 153" "(5 * doy + 2) div 153 \<le> 11"
    using m assms unfolding mp_def [symmetric] by linarith+
  show "0 \<le> doy - (153 * ((5 * doy + 2) div 153) + 2) div 5"
    "doy - (153 * ((5 * doy + 2) div 153) + 2) div 5 \<le> 30"
    using m k assms unfolding mp_def [symmetric] k_def [symmetric] by linarith+
qed

lemma civil_from_days_era:
  assumes "civil_from_days z = (y, m, d)"
  obtains era c q y1 doy where "z + 719468 = 146097 * era + 36524 * c + 1461 * q + 365 * y1 + doy"
    "0 \<le> c" "c \<le> 3" "0 \<le> q" "q \<le> 24" "0 \<le> y1" "y1 \<le> 3" "0 \<le> doy" "doy \<le> 365"
    "era = (z + 719468) div 146097"
    "m = month_of ((5 * doy + 2) div 153)"
    "d = doy - (153 * ((5 * doy + 2) div 153) + 2) div 5 + 1"
    "y = 400 * era + 100 * c + 4 * q + y1 + (if m \<le> 2 then 1 else 0)"
proof -
  have b: "0 \<le> (z + 719468) mod 146097" "(z + 719468) mod 146097 < 146097" by simp_all
  from era_split [OF b] obtain c q y1 doy where
    e: "c = min ((z + 719468) mod 146097 div 36524) 3"
      "q = ((z + 719468) mod 146097 - c * 36524) div 1461"
      "y1 = min (((z + 719468) mod 146097 - c * 36524) mod 1461 div 365) 3"
      "doy = ((z + 719468) mod 146097 - c * 36524) mod 1461 - y1 * 365"
    and s: "(z + 719468) mod 146097 = 36524 * c + 1461 * q + 365 * y1 + doy"
    and r: "0 \<le> c" "c \<le> 3" "0 \<le> q" "q \<le> 24" "0 \<le> y1" "y1 \<le> 3" "0 \<le> doy" "doy \<le> 365"
    by metis
  have z: "z + 719468 = 146097 * ((z + 719468) div 146097) + 36524 * c + 1461 * q + 365 * y1 + doy"
    using s mult_div_mod_eq [of 146097 "z + 719468"] by linarith
  from assms have "y = 400 * ((z + 719468) div 146097) + 100 * c + 4 * q + y1 + (if m \<le> 2 then 1 else 0)
    \<and> m = month_of ((5 * doy + 2) div 153)
    \<and> d = doy - (153 * ((5 * doy + 2) div 153) + 2) div 5 + 1"
    unfolding civil_from_days_def Let_def prod.inject e [symmetric] by (elim conjE) blast
  then have y: "y = 400 * ((z + 719468) div 146097) + 100 * c + 4 * q + y1 + (if m \<le> 2 then 1 else 0)"
    and m: "m = month_of ((5 * doy + 2) div 153)"
    and d: "d = doy - (153 * ((5 * doy + 2) div 153) + 2) div 5 + 1" by iprover+
  show thesis by (rule that [OF z r refl m d y])
qed

lemma month_range:
  "0 \<le> doy \<Longrightarrow> doy \<le> 365 \<Longrightarrow>
     1 \<le> month_of ((5 * doy + 2) div 153) \<and> month_of ((5 * doy + 2) div 153) \<le> 12"
  using month_split [of doy] by (auto simp: month_of_def)

theorem days_from_civil_from_days:
  "civil_from_days z = (y, m, d) \<Longrightarrow> days_from_civil y m d = z"
proof -
  assume "civil_from_days z = (y, m, d)"
  then obtain era c q y1 doy where
    z: "z + 719468 = 146097 * era + 36524 * c + 1461 * q + 365 * y1 + doy"
    and b: "0 \<le> c" "c \<le> 3" "0 \<le> q" "q \<le> 24" "0 \<le> y1" "y1 \<le> 3" "0 \<le> doy" "doy \<le> 365"
    and m: "m = month_of ((5 * doy + 2) div 153)"
    and d: "d = doy - (153 * ((5 * doy + 2) div 153) + 2) div 5 + 1"
    and y: "y = 400 * era + 100 * c + 4 * q + y1 + (if m \<le> 2 then 1 else 0)"
    by (rule civil_from_days_era)
  let ?mp = "(5 * doy + 2) div 153" and ?yoe = "100 * c + 4 * q + y1"
  have mp: "0 \<le> ?mp" "?mp \<le> 11" using month_split [OF b(7,8)] by auto
  have mp': "(if m > 2 then m - 3 else m + 9) = ?mp"
    unfolding m month_of_def using mp by auto
  have y': "(if m \<le> 2 then y - 1 else y) = 400 * era + ?yoe" unfolding y by simp
  have yoe: "0 \<le> ?yoe" "?yoe < 400" using b by linarith+
  have era: "(400 * era + ?yoe) div 400 = era" "(400 * era + ?yoe) mod 400 = ?yoe"
    using yoe by (simp_all add: div_mult_self3 mod_mult_self3)
  have q4: "?yoe div 4 = 25 * c + q" "?yoe div 100 = c" using b by linarith+
  define k where "k = (153 * ?mp + 2) div 5"
  have "days_from_civil y m d = era * 146097 + 365 * ?yoe + (25 * c + q) - c + (k + d - 1) - 719468"
    unfolding days_from_civil_def Let_def y' era mp' q4 k_def ..
  moreover have "d = doy - k + 1" unfolding d k_def ..
  ultimately show ?thesis using z by simp
qed

lemma civil_ranges:
  assumes "civil_from_days z = (y, m, d)" "0 \<le> z" "z < 2786860"
  shows "1969 \<le> y" "y \<le> 9600" "1 \<le> m" "m \<le> 12" "1 \<le> d" "d \<le> 31"
proof -
  from assms(1) obtain era c q y1 doy where
    z: "z + 719468 = 146097 * era + 36524 * c + 1461 * q + 365 * y1 + doy"
    and b: "0 \<le> c" "c \<le> 3" "0 \<le> q" "q \<le> 24" "0 \<le> y1" "y1 \<le> 3" "0 \<le> doy" "doy \<le> 365"
    and era: "era = (z + 719468) div 146097"
    and m: "m = month_of ((5 * doy + 2) div 153)"
    and d: "d = doy - (153 * ((5 * doy + 2) div 153) + 2) div 5 + 1"
    and y: "y = 400 * era + 100 * c + 4 * q + y1 + (if m \<le> 2 then 1 else 0)"
    by (rule civil_from_days_era)
  have "4 \<le> era" "era \<le> 23" using assms(2,3) era by linarith+
  moreover from this z assms(2) b have "1969 \<le> 400 * era + 100 * c + 4 * q + y1" by linarith
  moreover have "400 * era + 100 * c + 4 * q + y1 \<le> y" "y \<le> 400 * era + 100 * c + 4 * q + y1 + 1"
    unfolding y by simp_all
  ultimately show "1969 \<le> y" "y \<le> 9600" using b by linarith+
  show "1 \<le> m" "m \<le> 12" using month_range [OF b(7,8)] m by auto
  show "1 \<le> d" "d \<le> 31" using month_split [OF b(7,8)] d by linarith+
qed

section \<open>Date strings\<close>

definition pad :: "nat \<Rightarrow> nat \<Rightarrow> string" where
  [js_defs]: "pad w n = replicate (w - length (dec n)) CHR ''0'' @ dec n"

definition fmt_date :: "int \<Rightarrow> string" where
  \<comment> \<open>\<open>YYYY-MM-DD\<close> of a day number\<close>
  [js_defs]: "fmt_date z = (case civil_from_days z of (y, m, d) \<Rightarrow>
     pad 4 (nat y) @ ''-'' @ pad 2 (nat m) @ ''-'' @ pad 2 (nat d))"

definition parse_date :: "string \<Rightarrow> int" where
  \<comment> \<open>the day number of a \<open>YYYY-MM-DD\<close> string\<close>
  [js_defs]: "parse_date s = days_from_civil (int (digits_val (take 4 s)))
     (int (digits_val (take 2 (drop 5 s)))) (int (digits_val (take 2 (drop 8 s))))"

lemma length_dec: "length (dec n) = (if n < 10 then 1 else Suc (length (dec (n div 10))))"
  by (subst dec.simps) simp

lemma length_dec2: "n < 100 \<Longrightarrow> length (dec n) \<le> 2"
proof -
  assume "n < 100"
  then have "n div 10 < 10" by linarith
  then show ?thesis by (simp add: length_dec [of n] length_dec [of "n div 10"])
qed

lemma length_dec4: "n < 10000 \<Longrightarrow> length (dec n) \<le> 4"
proof -
  assume "n < 10000"
  then have "length (dec (n div 10 div 10)) \<le> 2" by (intro length_dec2) linarith
  then show ?thesis by (simp add: length_dec [of n] length_dec [of "n div 10"])
qed

lemma digits_val_zero: "digits_val (CHR ''0'' # s) = digits_val s"
  by (simp add: digits_val_def digit_val_def)

lemma digits_val_pad [simp]: "digits_val (pad w n) = n"
proof -
  have "\<And>k. digits_val (replicate k CHR ''0'' @ dec n) = n"
    by (induct_tac k) (simp_all add: digits_val_zero)
  then show ?thesis by (simp add: pad_def)
qed

lemma length_pad2: "n < 100 \<Longrightarrow> length (pad 2 n) = 2"
  by (simp add: pad_def length_dec2)

lemma length_pad4: "n < 10000 \<Longrightarrow> length (pad 4 n) = 4"
  by (simp add: pad_def length_dec4)

lemma parse_fmt_date:
  assumes "0 \<le> z" "z < 2786860"
  shows "parse_date (fmt_date z) = z"
proof -
  obtain y m d where c: "civil_from_days z = (y, m, d)" by (cases "civil_from_days z")
  note r = civil_ranges [OF c assms]
  have l: "length (pad 4 (nat y)) = 4" "length (pad 2 (nat m)) = 2" "length (pad 2 (nat d)) = 2"
    using r by (simp_all add: length_pad4 length_pad2)
  have "parse_date (fmt_date z) = days_from_civil y m d"
    using r l by (simp add: fmt_date_def c parse_date_def)
  with days_from_civil_from_days [OF c] show ?thesis by simp
qed

section \<open>Formatting and rounding\<close>

definition tz_secs :: int where
  \<comment> \<open>Africa/Dar_es_Salaam, all year round\<close>
  "tz_secs = 10800"

record dt_parts =
  p_day :: string      \<comment> \<open>year, month and day, joined by dashes\<close>
  p_hour :: string
  p_minute :: string
  p_second :: string

definition formatToParts :: "int \<Rightarrow> dt_parts" where
  \<comment> \<open>the parts \<open>_fmt\<close> yields for an instant in milliseconds\<close>
  "formatToParts ms = (let t = ms div 1000 + tz_secs; s = t mod 86400 in
     \<lparr>p_day = fmt_date (t div 86400), p_hour = pad 2 (nat (s div 3600)),
      p_minute = pad 2 (nat (s div 60 mod 60)), p_second = pad 2 (nat (s mod 60))\<rparr>)"

datatype ts_input = TsNull | TsString string | TsDate "int option"

definition em_dash :: ustr where "em_dash = [0x2014]"

definition fmtTs :: "(string \<Rightarrow> int option) \<Rightarrow> ts_input \<Rightarrow> ustr" where
  \<comment> \<open>the parameter is \<open>new Date(s).getTime()\<close>, \<open>None\<close> standing for NaN\<close>
  "fmtTs parse input =
    (let fmt = (\<lambda>ms. let p = formatToParts ms in
        units (p_day p @ '' '' @ p_hour p @ '':'' @ p_minute p @ '':'' @ p_second p))
     in case input of
          TsNull \<Rightarrow> em_dash
        | TsString s \<Rightarrow> if s = [] then em_dash
            else (case parse s of None \<Rightarrow> units s | Some ms \<Rightarrow> fmt ms)
        | TsDate t \<Rightarrow> (case t of None \<Rightarrow> em_dash | Some ms \<Rightarrow> fmt ms))"

definition ceilToLocalDate :: "int \<Rightarrow> string" where
  "ceilToLocalDate epochSeconds =
    (let p = formatToParts (epochSeconds * 1000); day = p_day p;
         midnight = (p_hour p = ''00'' \<and> p_minute p = ''00'' \<and> p_second p = ''00'')
     in if midnight then day else fmt_date (parse_date day + 1))"

definition local_midnight :: "int \<Rightarrow> int" where
  \<comment> \<open>the instant, in Unix seconds, at which local day \<open>z\<close> begins\<close>
  "local_midnight z = z * 86400 - tz_secs"

lemma digit_char_0: "digit_char 0 = CHR ''0''"
proof -
  have "(of_char CHR ''0'' :: nat) = 48" by simp
  then show ?thesis unfolding digit_char_def by (metis add.right_neutral char_of_char)
qed

lemma pad2_00: "n < 100 \<Longrightarrow> pad 2 n = ''00'' \<longleftrightarrow> n = 0"
proof
  assume "pad 2 n = ''00''"
  then have "digits_val (pad 2 n) = digits_val ''00''" by (rule arg_cong)
  moreover have "digits_val ''00'' = 0" by (simp add: digits_val_def digit_val_def)
  ultimately show "n = 0" by simp
qed (simp add: pad_def dec.simps [of 0] digit_char_0)

lemma hms_zero:
  fixes s :: int
  assumes "0 \<le> s" "s < 86400"
  shows "s div 3600 = 0 \<and> s div 60 mod 60 = 0 \<and> s mod 60 = 0 \<longleftrightarrow> s = 0"
proof
  assume *: "s div 3600 = 0 \<and> s div 60 mod 60 = 0 \<and> s mod 60 = 0"
  with assms have "s < 3600" by linarith
  then have "s div 60 < 60" by linarith
  with assms(1) have "s div 60 mod 60 = s div 60" by (simp add: mod_pos_pos_trivial)
  with * have "s div 60 = 0" by simp
  with * show "s = 0" using mult_div_mod_eq [of 60 s] by simp
qed simp

lemma nat_zero: "0 \<le> x \<Longrightarrow> nat x = 0 \<longleftrightarrow> x = (0 :: int)"
  by auto

lemma formatToParts_midnight:
  "p_hour (formatToParts (e * 1000)) = ''00'' \<and> p_minute (formatToParts (e * 1000)) = ''00''
     \<and> p_second (formatToParts (e * 1000)) = ''00'' \<longleftrightarrow> (e + tz_secs) mod 86400 = 0"
proof -
  define s where "s = (e + tz_secs) mod 86400"
  have s: "0 \<le> s" "s < 86400" by (simp_all add: s_def)
  have b: "0 \<le> s div 3600" "0 \<le> s div 60 mod 60" "0 \<le> s mod 60"
    using s by (simp_all add: pos_imp_zdiv_nonneg_iff)
  have "s div 3600 < 24" "s div 60 mod 60 < 60" "s mod 60 < 60"
    using s by (simp_all add: int_div_less_self div_less_iff_less_mult)
  then have n: "nat (s div 3600) < 100" "nat (s div 60 mod 60) < 100" "nat (s mod 60) < 100"
    by simp_all
  note z = nat_zero [OF b(1)] nat_zero [OF b(2)] nat_zero [OF b(3)]
  have "e * 1000 div 1000 = e" by simp
  then have "formatToParts (e * 1000) = \<lparr>p_day = fmt_date ((e + tz_secs) div 86400),
      p_hour = pad 2 (nat (s div 3600)), p_minute = pad 2 (nat (s div 60 mod 60)),
      p_second = pad 2 (nat (s mod 60))\<rparr>"
    unfolding formatToParts_def Let_def s_def by simp
  then show ?thesis
    unfolding s_def [symmetric]
    by (simp only: dt_parts.select_convs pad2_00 [OF n(1)] pad2_00 [OF n(2)] pad2_00 [OF n(3)]
        z hms_zero [OF s])
qed

lemma ceilToLocalDate_days:
  assumes "0 \<le> e" "e < 200000000000"
  shows "parse_date (ceilToLocalDate e)
    = (if (e + tz_secs) mod 86400 = 0 then (e + tz_secs) div 86400 else (e + tz_secs) div 86400 + 1)"
proof -
  have r: "0 \<le> (e + tz_secs) div 86400" "(e + tz_secs) div 86400 + 1 < 2786860"
    using assms unfolding tz_secs_def by linarith+
  have p: "p_day (formatToParts (e * 1000)) = fmt_date ((e + tz_secs) div 86400)"
    by (simp add: formatToParts_def Let_def)
  have f: "parse_date (fmt_date ((e + tz_secs) div 86400)) = (e + tz_secs) div 86400"
    "parse_date (fmt_date ((e + tz_secs) div 86400 + 1)) = (e + tz_secs) div 86400 + 1"
    using r by (auto intro: parse_fmt_date)
  show ?thesis
    unfolding ceilToLocalDate_def Let_def formatToParts_midnight p by (simp add: f)
qed

end
