(* ===== verification/Sql.thy ===== *)
theory Sql
  imports Datetime
begin

text \<open>
  The WHERE clauses the data layer builds, as syntax trees over numbered placeholders with
  the values pushed for them, and what they mean in PostgreSQL's three-valued logic.  The
  locale \<open>cond_builder\<close> is the interface between a module that builds a predicate and the
  query that embeds it: a builder only appends parameters, and its predicate keeps its meaning
  whatever is pushed afterwards.
\<close>

section \<open>Values, parameters, predicates\<close>

datatype sqlval = VNull | VInt int | VStr string | VBool bool | VTs int | VDate int

datatype pval = PNull | PInt int | PStr string | PBool bool | PInts "int list" | PStrs "string list"

datatype sexp =
    EPar nat                  \<comment> \<open>\<open>$n\<close>\<close>
  | EToTimestamp nat          \<comment> \<open>\<open>to_timestamp($n)\<close>\<close>
  | EDate nat                 \<comment> \<open>\<open>$n::date\<close>\<close>
  | ETimestamptz nat int      \<comment> \<open>\<open>$n::timestamptz + interval 'k seconds'\<close>\<close>
  | EDateStart nat            \<comment> \<open>\<open>$n::date\<close> compared with a timestamptz: its midnight\<close>
  | EDateEnd nat int          \<comment> \<open>\<open>$n::date + interval '1 day' + interval 'k seconds'\<close>\<close>

datatype cmp = OpEq | OpLt | OpLe | OpGe | OpGt

datatype sql_cond =
    CTrue
  | CFalse
  | CAny string nat           \<comment> \<open>\<open>col = ANY($n)\<close>\<close>
  | CCmp cmp string sexp      \<comment> \<open>\<open>col op exp\<close>\<close>
  | CColBool string bool      \<comment> \<open>\<open>col = TRUE\<close> or \<open>col = FALSE\<close>\<close>
  | CIsNull string
  | CIsNotNull string
  | CLike bool string nat     \<comment> \<open>\<open>col LIKE $n\<close>, or ILIKE when the flag is set\<close>
  | CAll "sql_cond list"      \<comment> \<open>joined by AND\<close>
  | CEx "sql_cond list"       \<comment> \<open>joined by OR\<close>

type_synonym row = "string \<Rightarrow> sqlval"

record pg =
  pg_timestamptz :: "string \<Rightarrow> int"  \<comment> \<open>the cast of a string to timestamptz, in microseconds\<close>
  pg_day_start :: "int \<Rightarrow> int"       \<comment> \<open>midnight of a date in the session time zone, likewise\<close>

definition param :: "pval list \<Rightarrow> nat \<Rightarrow> pval" where
  "param ps n = (if 1 \<le> n \<and> n \<le> length ps then ps ! (n - 1) else PNull)"

fun pval_val :: "pval \<Rightarrow> sqlval" where
  "pval_val (PInt i) = VInt i"
| "pval_val (PStr s) = VStr s"
| "pval_val (PBool b) = VBool b"
| "pval_val _ = VNull"

fun eval_exp :: "pg \<Rightarrow> pval list \<Rightarrow> sexp \<Rightarrow> sqlval" where
  "eval_exp g ps (EPar n) = pval_val (param ps n)"
| "eval_exp g ps (EToTimestamp n) =
     (case param ps n of PInt i \<Rightarrow> VTs (i * 1000000) | _ \<Rightarrow> VNull)"
| "eval_exp g ps (EDate n) = (case param ps n of PStr s \<Rightarrow> VDate (parse_date s) | _ \<Rightarrow> VNull)"
| "eval_exp g ps (ETimestamptz n k) =
     (case param ps n of PStr s \<Rightarrow> VTs (pg_timestamptz g s + k * 1000000) | _ \<Rightarrow> VNull)"
| "eval_exp g ps (EDateStart n) =
     (case param ps n of PStr s \<Rightarrow> VTs (pg_day_start g (parse_date s)) | _ \<Rightarrow> VNull)"
| "eval_exp g ps (EDateEnd n k) =
     (case param ps n of PStr s \<Rightarrow> VTs (pg_day_start g (parse_date s + 1) + k * 1000000)
      | _ \<Rightarrow> VNull)"

fun int_cmp :: "cmp \<Rightarrow> int \<Rightarrow> int \<Rightarrow> bool" where
  "int_cmp OpEq a b = (a = b)"
| "int_cmp OpLt a b = (a < b)"
| "int_cmp OpLe a b = (a \<le> b)"
| "int_cmp OpGe a b = (a \<ge> b)"
| "int_cmp OpGt a b = (a > b)"

fun sql_cmp :: "cmp \<Rightarrow> sqlval \<Rightarrow> sqlval \<Rightarrow> bool option" where
  "sql_cmp c (VInt a) (VInt b) = Some (int_cmp c a b)"
| "sql_cmp c (VTs a) (VTs b) = Some (int_cmp c a b)"
| "sql_cmp c (VDate a) (VDate b) = Some (int_cmp c a b)"
| "sql_cmp OpEq (VStr a) (VStr b) = Some (a = b)"
| "sql_cmp OpEq (VBool a) (VBool b) = Some (a = b)"
| "sql_cmp _ _ _ = None"

fun sql_any :: "sqlval \<Rightarrow> pval \<Rightarrow> bool option" where
  "sql_any (VInt a) (PInts xs) = Some (a \<in> set xs)"
| "sql_any (VStr a) (PStrs xs) = Some (a \<in> set xs)"
| "sql_any _ _ = None"

fun like_match :: "string \<Rightarrow> string \<Rightarrow> bool" where
  \<comment> \<open>pattern, text: percent is any text, underscore one character, backslash quotes\<close>
  "like_match [] t = (t = [])"
| "like_match (p # ps) t =
    (if p = CHR ''%'' then like_match ps t \<or> (case t of [] \<Rightarrow> False | _ # r \<Rightarrow> like_match (p # ps) r)
     else if p = CHR 0x5C then
       (case ps of [] \<Rightarrow> False | q # qs \<Rightarrow> (case t of [] \<Rightarrow> False | c # r \<Rightarrow> c = q \<and> like_match qs r))
     else (case t of [] \<Rightarrow> False | c # r \<Rightarrow> (p = CHR ''_'' \<or> c = p) \<and> like_match ps r))"

fun sql_like :: "bool \<Rightarrow> sqlval \<Rightarrow> pval \<Rightarrow> bool option" where
  "sql_like ci (VStr a) (PStr p) =
     Some (if ci then like_match (toLowerCase p) (toLowerCase a) else like_match p a)"
| "sql_like _ _ _ = None"

definition k_and :: "bool option list \<Rightarrow> bool option" where
  "k_and xs = (if Some False \<in> set xs then Some False else if None \<in> set xs then None else Some True)"

definition k_or :: "bool option list \<Rightarrow> bool option" where
  "k_or xs = (if Some True \<in> set xs then Some True else if None \<in> set xs then None else Some False)"

fun eval_cond :: "pg \<Rightarrow> pval list \<Rightarrow> row \<Rightarrow> sql_cond \<Rightarrow> bool option" where
  "eval_cond g ps r CTrue = Some True"
| "eval_cond g ps r CFalse = Some False"
| "eval_cond g ps r (CAny c n) = sql_any (r c) (param ps n)"
| "eval_cond g ps r (CCmp op c e) = sql_cmp op (r c) (eval_exp g ps e)"
| "eval_cond g ps r (CColBool c b) = sql_cmp OpEq (r c) (VBool b)"
| "eval_cond g ps r (CIsNull c) = Some (r c = VNull)"
| "eval_cond g ps r (CIsNotNull c) = Some (r c \<noteq> VNull)"
| "eval_cond g ps r (CLike ci c n) = sql_like ci (r c) (param ps n)"
| "eval_cond g ps r (CAll cs) = k_and (map (eval_cond g ps r) cs)"
| "eval_cond g ps r (CEx cs) = k_or (map (eval_cond g ps r) cs)"

definition holds :: "pg \<Rightarrow> pval list \<Rightarrow> row \<Rightarrow> sql_cond \<Rightarrow> bool" where
  \<comment> \<open>WHERE keeps a row only when the predicate is true, not when it is unknown\<close>
  "holds g ps r c \<longleftrightarrow> eval_cond g ps r c = Some True"

lemma holds_CTrue [simp]: "holds g ps r CTrue"
  and holds_CFalse [simp]: "\<not> holds g ps r CFalse"
  by (simp_all add: holds_def)

lemma k_and_True: "k_and xs = Some True \<longleftrightarrow> (\<forall>x \<in> set xs. x = Some True)"
proof
  assume "k_and xs = Some True"
  then have n: "Some False \<notin> set xs" "None \<notin> set xs" by (auto simp: k_and_def split: if_splits)
  show "\<forall>x \<in> set xs. x = Some True"
  proof
    fix x assume "x \<in> set xs"
    with n have "x \<noteq> Some False" "x \<noteq> None" by metis+
    then show "x = Some True" by (cases x) simp_all
  qed
next
  assume "\<forall>x \<in> set xs. x = Some True"
  then have "Some False \<notin> set xs" "None \<notin> set xs" by (metis option.inject option.distinct(1))+
  then show "k_and xs = Some True" by (simp add: k_and_def)
qed

lemma k_or_True: "k_or xs = Some True \<longleftrightarrow> Some True \<in> set xs"
  by (simp add: k_or_def)

lemma holds_CAll [simp]: "holds g ps r (CAll cs) \<longleftrightarrow> (\<forall>c \<in> set cs. holds g ps r c)"
  by (simp add: holds_def k_and_True)

lemma holds_CEx [simp]: "holds g ps r (CEx cs) \<longleftrightarrow> (\<exists>c \<in> set cs. holds g ps r c)"
  by (simp add: holds_def k_or_True image_iff) metis

lemma holds_CIsNull [simp]: "holds g ps r (CIsNull c) \<longleftrightarrow> r c = VNull"
  and holds_CIsNotNull [simp]: "holds g ps r (CIsNotNull c) \<longleftrightarrow> r c \<noteq> VNull"
  by (simp_all add: holds_def)

section \<open>Pushing parameters\<close>

definition push :: "pval list \<Rightarrow> pval \<Rightarrow> nat \<times> pval list" where
  \<comment> \<open>\<open>params.push(v); return `$${params.length}`\<close>\<close>
  "push ps v = (Suc (length ps), ps @ [v])"

lemma param_pushed [simp]: "param ((ps @ [v]) @ post) (Suc (length ps)) = v"
  by (simp add: param_def nth_append)

lemma param_pushed' [simp]: "param (ps @ v # post) (Suc (length ps)) = v"
  by (simp add: param_def nth_append)

fun cond_params :: "sql_cond \<Rightarrow> nat set" where
  \<comment> \<open>the placeholders a predicate mentions\<close>
  "cond_params (CAny c n) = {n}"
| "cond_params (CCmp op c (EPar n)) = {n}"
| "cond_params (CCmp op c (EToTimestamp n)) = {n}"
| "cond_params (CCmp op c (EDate n)) = {n}"
| "cond_params (CCmp op c (ETimestamptz n k)) = {n}"
| "cond_params (CCmp op c (EDateStart n)) = {n}"
| "cond_params (CCmp op c (EDateEnd n k)) = {n}"
| "cond_params (CLike ci c n) = {n}"
| "cond_params (CAll cs) = \<Union> (set (map cond_params cs))"
| "cond_params (CEx cs) = \<Union> (set (map cond_params cs))"
| "cond_params _ = {}"

section \<open>Optional conditions\<close>

definition push_cond :: "bool \<Rightarrow> (nat \<Rightarrow> sql_cond) \<Rightarrow> pval \<Rightarrow> sql_cond list \<times> pval list
    \<Rightarrow> sql_cond list \<times> pval list" where
  \<comment> \<open>\<open>if (b) push(clause, v)\<close>: the clause's question mark becomes the placeholder of \<open>v\<close>\<close>
  "push_cond b clause v cp = (if b then (let (n, ps) = push (snd cp) v in (fst cp @ [clause n], ps)) else cp)"

definition opt_str :: "string option \<Rightarrow> sqlval" where
  "opt_str s = (case s of None \<Rightarrow> VNull | Some x \<Rightarrow> VStr x)"

lemma push_cond_extends:
  "push_cond b cl v (cs, ps) = (cs', ps') \<Longrightarrow> \<exists>ext. ps' = ps @ ext"
  by (auto simp: push_cond_def push_def split: if_splits)

lemma push_cond_holds:
  assumes "push_cond b cl v (cs, ps) = (cs', ps')"
    and "\<And>post. holds g (ps @ post) r (CAll cs) \<longleftrightarrow> m"
    and "\<And>post. holds g (ps @ v # post) r (cl (Suc (length ps))) \<longleftrightarrow> m'"
  shows "holds g (ps' @ post) r (CAll cs') \<longleftrightarrow> m \<and> (b \<longrightarrow> m')"
  using assms(1) assms(2) [of "v # post"] assms(2) [of post] assms(3) [of post]
  by (auto simp: push_cond_def push_def split: if_splits)

lemma push_cond_step:
  assumes "\<And>post. holds g (snd cp @ post) r (CAll (fst cp)) \<longleftrightarrow> m"
    and "\<And>post. holds g (snd cp @ v # post) r (cl (Suc (length (snd cp)))) \<longleftrightarrow> m'"
  shows "holds g (snd (push_cond b cl v cp) @ post) r (CAll (fst (push_cond b cl v cp))) \<longleftrightarrow> m \<and> (b \<longrightarrow> m')"
  using push_cond_holds [of b cl v "fst cp" "snd cp" "fst (push_cond b cl v cp)" "snd (push_cond b cl v cp)" g r m m' post]
    assms by simp

lemma push_cond_prefix:
  "\<exists>ext. snd cp = ps @ ext \<Longrightarrow> \<exists>ext. snd (push_cond b cl v cp) = ps @ ext"
  by (auto simp: push_cond_def push_def)

lemma holds_no_cond: "holds g (ps @ post) r (CAll []) \<longleftrightarrow> True"
  by simp

lemma holds_ts_cmp:
  "holds g (ps @ PStr s # post) r (CCmp op c (ETimestamptz (Suc (length ps)) k)) \<longleftrightarrow>
     (\<exists>t. r c = VTs t \<and> int_cmp op t (pg_timestamptz g s + k * 1000000))"
  by (cases "r c") (simp_all add: holds_def)

lemma holds_str_eq:
  "holds g (ps @ PStr s # post) r (CCmp OpEq c (EPar (Suc (length ps)))) \<longleftrightarrow> r c = VStr s"
  by (cases "r c") (auto simp: holds_def)

lemma holds_like:
  "holds g (ps @ PStr p # post) r (CLike ci c (Suc (length ps))) \<longleftrightarrow>
     (\<exists>s. r c = VStr s \<and> (if ci then like_match (toLowerCase p) (toLowerCase s) else like_match p s))"
  by (cases "r c") (auto simp: holds_def)

section \<open>The interface of a predicate builder\<close>

text \<open>
  \<open>build a ps\<close> is the list of conjuncts built for \<open>a\<close> on top of the parameters \<open>ps\<close>, with
  the extended parameters; \<open>means a r\<close> is what they are to say of a row.
\<close>

locale cond_builder =
  fixes g :: pg
    and build :: "'a \<Rightarrow> pval list \<Rightarrow> sql_cond list \<times> pval list"
    and means :: "'a \<Rightarrow> row \<Rightarrow> bool"
  assumes extends: "build a ps = (cs, ps') \<Longrightarrow> \<exists>ext. ps' = ps @ ext"
    and correct: "build a ps = (cs, ps') \<Longrightarrow> holds g (ps' @ post) r (CAll cs) \<longleftrightarrow> means a r"
begin

lemma where_holds:
  assumes "build a ps = (cs, ps')"
  shows "holds g ps' r (CAll cs) \<longleftrightarrow> means a r"
  using correct [OF assms, of "[]"] by simp

lemma filtered_rows:
  assumes "build a ps = (cs, ps')"
  shows "filter (\<lambda>r. holds g ps' r (CAll cs)) rows = filter (means a) rows"
  using where_holds [OF assms] by simp

end

definition then_build :: "('a \<Rightarrow> pval list \<Rightarrow> sql_cond list \<times> pval list)
    \<Rightarrow> ('b \<Rightarrow> pval list \<Rightarrow> sql_cond list \<times> pval list)
    \<Rightarrow> 'a \<times> 'b \<Rightarrow> pval list \<Rightarrow> sql_cond list \<times> pval list" where
  \<comment> \<open>conjuncts pushed by one builder after those of another\<close>
  "then_build b1 b2 ab ps = (let (cs1, ps1) = b1 (fst ab) ps; (cs2, ps2) = b2 (snd ab) ps1
     in (cs1 @ cs2, ps2))"

locale cond_builder_pair = one: cond_builder g b1 m1 + two: cond_builder g b2 m2
  for g and b1 :: "'a \<Rightarrow> pval list \<Rightarrow> sql_cond list \<times> pval list" and m1
    and b2 :: "'b \<Rightarrow> pval list \<Rightarrow> sql_cond list \<times> pval list" and m2

sublocale cond_builder_pair \<subseteq> seq: cond_builder g "then_build b1 b2" "\<lambda>ab r. m1 (fst ab) r \<and> m2 (snd ab) r"
proof (unfold_locales)
  fix ab :: "'a \<times> 'b" and ps cs ps'
  assume b: "then_build b1 b2 ab ps = (cs, ps')"
  obtain cs1 ps1 cs2 where s: "b1 (fst ab) ps = (cs1, ps1)" "b2 (snd ab) ps1 = (cs2, ps')"
    "cs = cs1 @ cs2"
    using b by (auto simp: then_build_def Let_def split: prod.splits)
  from one.extends [OF s(1)] two.extends [OF s(2)] show "\<exists>ext. ps' = ps @ ext" by auto
  fix post r
  obtain ext where "ps' = ps1 @ ext" using two.extends [OF s(2)] by blast
  then show "holds g (ps' @ post) r (CAll cs) \<longleftrightarrow> m1 (fst ab) r \<and> m2 (snd ab) r"
    using one.correct [OF s(1), of "ext @ post" r] two.correct [OF s(2), of post r]
    by (auto simp: s(3))
qed

end
