(* ===== verification/Schema.thy ===== *)
theory Schema
  imports Prelude
begin

text \<open>
  The database the dashboard shares with the gateway (\<^verbatim>\<open>db/*.sql\<close>): one record per table
  row, a record of tables, the constraints an INSERT or UPDATE can violate, and the
  transaction discipline of \<^verbatim>\<open>dashboard/src/lib/db.ts\<close>.  Instants are microseconds since the
  epoch; \<open>now\<close> is the instant of the transaction, as PostgreSQL's \<open>now()\<close> is.
\<close>

section \<open>Rows\<close>

record role_row =
  r_id :: int
  r_key :: string
  r_label :: string

record user_row =
  u_id :: int
  u_email :: string
  u_name :: string
  u_phone :: "string option"
  u_role_id :: int
  u_active :: bool
  u_password_hash :: string
  u_password_version :: int
  u_created_by :: "int option"
  u_created_at :: int
  u_updated_at :: int
  u_last_login :: "int option"

record operator_row =
  op_id :: int
  op_name :: string
  op_display_name :: string
  op_active :: bool
  op_window :: "int option"
  op_created_at :: int

datatype environment = Sandbox | Production
datatype auth_mode = AuthNone | AuthBearer
datatype sc_status = Active | Maintenance | Deactivated
datatype payload_format = Gateway | Legacy

record shortcode_row =
  sc_id :: int
  sc_operator_id :: int
  sc_code :: string
  sc_label :: "ustr option"
  sc_environment :: environment
  sc_owner :: int
  sc_handler_url :: string
  sc_auth_mode :: auth_mode
  sc_bearer_token :: "string option"
  sc_timeout_secs :: int
  sc_active :: bool
  sc_status :: sc_status
  sc_status_message :: "string option"
  sc_status_set_by :: "int option"
  sc_status_set_at :: int
  sc_payload_format :: payload_format
  sc_verify_tls :: bool
  sc_created_at :: int
  sc_updated_at :: int
  sc_owner_since :: int

record grant_row =
  gr_user :: int
  gr_shortcode :: int
  gr_granted_at :: int

record token_row =
  t_id :: int
  t_user :: int
  t_hash :: string
  t_created_at :: int
  t_expires_at :: int
  t_used_at :: "int option"
  t_ip :: "string option"

datatype outcome = Success | Failure | Denied

record audit_row =
  a_id :: int
  a_ts :: int
  a_actor :: "string option"
  a_actor_kind :: string
  a_action :: string
  a_target :: "string option"
  a_outcome :: outcome
  a_ip :: "string option"
  a_user_agent :: "string option"
  a_detail :: "json option"

datatype export_status = Queued | Running | Ready | Failed | Expired
datatype granularity = Legs | Sessions

record export_filters =
  \<comment> \<open>the JSON a request stores and the worker reads back, a missing member as \<open>None\<close>\<close>
  xf_from :: "string option"
  xf_to :: "string option"
  xf_msisdn :: "string option"
  xf_session_id :: "string option"
  xf_error_class :: "string option"
  xf_operators :: "string list"
  xf_shortcodeIds :: "int list"
  xf_allowedShortcodeIds :: "int list option"
  xf_allowedShortcodeFrom :: "int list option"
  xf_requested_by_email :: string
  xf_requested_by_role :: string

record export_row =
  e_id :: int
  e_user :: int
  e_granularity :: granularity
  e_filters :: export_filters
  e_status :: export_status
  e_requested_at :: int
  e_started_at :: "int option"
  e_completed_at :: "int option"
  e_file_path :: "string option"
  e_row_count :: "int option"
  e_file_size :: "int option"
  e_error :: "string option"

record db =
  roles :: "role_row list"
  role_perms :: "(int \<times> string) list"   \<comment> \<open>role_permissions joined with permissions\<close>
  users :: "user_row list"
  operators :: "operator_row list"
  shortcodes :: "shortcode_row list"
  grants :: "grant_row list"
  tokens :: "token_row list"
  audit_log :: "audit_row list"
  exports :: "export_row list"
  next_id :: int                        \<comment> \<open>one counter above every id any sequence has given\<close>

section \<open>Lookups\<close>

definition fits :: "nat \<Rightarrow> string option \<Rightarrow> bool" where
  \<comment> \<open>a VARCHAR(n) column takes the value\<close>
  "fits n s = (case s of None \<Rightarrow> True | Some x \<Rightarrow> length x \<le> n)"

definition find_user :: "db \<Rightarrow> int \<Rightarrow> user_row option" where
  "find_user d i = List.find (\<lambda>u. u_id u = i) (users d)"

definition find_role :: "db \<Rightarrow> int \<Rightarrow> role_row option" where
  "find_role d i = List.find (\<lambda>r. r_id r = i) (roles d)"

definition find_shortcode :: "db \<Rightarrow> int \<Rightarrow> shortcode_row option" where
  "find_shortcode d i = List.find (\<lambda>s. sc_id s = i) (shortcodes d)"

definition find_operator :: "db \<Rightarrow> int \<Rightarrow> operator_row option" where
  "find_operator d i = List.find (\<lambda>s. op_id s = i) (operators d)"

definition role_key_of :: "db \<Rightarrow> int \<Rightarrow> string option" where
  "role_key_of d i = map_option r_key (find_role d i)"

definition upd_user :: "int \<Rightarrow> (user_row \<Rightarrow> user_row) \<Rightarrow> db \<Rightarrow> db" where
  \<comment> \<open>UPDATE portal_users SET ... WHERE id = i\<close>
  "upd_user i f d = d\<lparr>users := map (\<lambda>u. if u_id u = i then f u else u) (users d)\<rparr>"

definition upd_shortcode :: "int \<Rightarrow> (shortcode_row \<Rightarrow> shortcode_row) \<Rightarrow> db \<Rightarrow> db" where
  "upd_shortcode i f d = d\<lparr>shortcodes := map (\<lambda>s. if sc_id s = i then f s else s) (shortcodes d)\<rparr>"

lemma upd_user_simps [simp, frame_simps]:
  "roles (upd_user i f d) = roles d" "role_perms (upd_user i f d) = role_perms d"
  "operators (upd_user i f d) = operators d" "shortcodes (upd_user i f d) = shortcodes d"
  "grants (upd_user i f d) = grants d" "tokens (upd_user i f d) = tokens d"
  "audit_log (upd_user i f d) = audit_log d" "exports (upd_user i f d) = exports d"
  "next_id (upd_user i f d) = next_id d"
  by (simp_all add: upd_user_def)

lemma upd_shortcode_simps [simp, frame_simps]:
  "roles (upd_shortcode i f d) = roles d" "role_perms (upd_shortcode i f d) = role_perms d"
  "operators (upd_shortcode i f d) = operators d" "users (upd_shortcode i f d) = users d"
  "grants (upd_shortcode i f d) = grants d" "tokens (upd_shortcode i f d) = tokens d"
  "audit_log (upd_shortcode i f d) = audit_log d" "exports (upd_shortcode i f d) = exports d"
  "next_id (upd_shortcode i f d) = next_id d"
  by (simp_all add: upd_shortcode_def)

lemma find_map_upd:
  "(\<And>x. k (f x) = k x) \<Longrightarrow>
     List.find (\<lambda>x. k x = j) (map (\<lambda>x. if k x = i then f x else x) xs)
     = (if j = i then map_option f (List.find (\<lambda>x. k x = j) xs) else List.find (\<lambda>x. k x = j) xs)"
  by (induction xs) auto

lemma find_user_upd:
  "(\<And>u. u_id (f u) = u_id u) \<Longrightarrow>
     find_user (upd_user i f d) j = (if j = i then map_option f (find_user d j) else find_user d j)"
  by (simp add: find_user_def upd_user_def find_map_upd)

lemma find_shortcode_upd:
  "(\<And>s. sc_id (f s) = sc_id s) \<Longrightarrow>
     find_shortcode (upd_shortcode i f d) j
     = (if j = i then map_option f (find_shortcode d j) else find_shortcode d j)"
  by (simp add: find_shortcode_def upd_shortcode_def find_map_upd)

lemma find_SomeD: "List.find P xs = Some x \<Longrightarrow> x \<in> set xs \<and> P x"
  by (auto simp: find_Some_iff)

lemma find_unique:
  "distinct (map k xs) \<Longrightarrow> x \<in> set xs \<Longrightarrow> List.find (\<lambda>y. k y = k x) xs = Some x"
  by (induction xs) auto

lemma find_user_frame: "users d' = users d \<Longrightarrow> find_user d' = find_user d"
  by (simp add: find_user_def fun_eq_iff)

lemma role_key_frame: "roles d' = roles d \<Longrightarrow> role_key_of d' = role_key_of d"
  by (simp add: role_key_of_def find_role_def fun_eq_iff)

section \<open>Exceptions\<close>

datatype nolockout_reason = NL_user_not_found | NL_deactivate_yourself | NL_demote_yourself
  | NL_last_super_admin

datatype scope_reason = SE_no_grants | SE_shortcode_not_found int | SE_not_owned int
  | SE_viewer_limit int | SE_role_missing | SE_viewer_not_found | SE_not_a_viewer
  | SE_email_not_allowed

datatype exn =
    PgError string "string option"      \<comment> \<open>SQLSTATE code and constraint name\<close>
  | EmailTakenError
  | NoLockoutError nolockout_reason
  | ScopeError scope_reason
  | JsError string

abbreviation unique_violation :: string where "unique_violation \<equiv> ''23505''"
abbreviation fk_violation :: string where "fk_violation \<equiv> ''23503''"

section \<open>Statements and transactions\<close>

text \<open>
  A computation over the database returns a value or throws, and leaves a database state
  behind: inside a transaction that state is provisional.  A statement that throws changes
  nothing.
\<close>

type_synonym 'a txn = "db \<Rightarrow> (exn + 'a) \<times> db"

definition tx_return :: "'a \<Rightarrow> 'a txn" where
  "tx_return a d = (Inr a, d)"

definition tx_throw :: "exn \<Rightarrow> 'a txn" where
  "tx_throw e d = (Inl e, d)"

definition tx_bind :: "'a txn \<Rightarrow> ('a \<Rightarrow> 'b txn) \<Rightarrow> 'b txn" where
  "tx_bind m k d = (case m d of (Inl e, d') \<Rightarrow> (Inl e, d') | (Inr a, d') \<Rightarrow> k a d')"

definition tx_read :: "(db \<Rightarrow> 'a) \<Rightarrow> 'a txn" where
  "tx_read q d = (Inr (q d), d)"

definition tx_exec :: "(db \<Rightarrow> exn + db) \<Rightarrow> unit txn" where
  \<comment> \<open>a statement that writes: it succeeds with the new state or throws\<close>
  "tx_exec st d = (case st d of Inl e \<Rightarrow> (Inl e, d) | Inr d' \<Rightarrow> (Inr (), d'))"

definition tx_catch :: "'a txn \<Rightarrow> (exn \<Rightarrow> exn) \<Rightarrow> 'a txn" where
  \<comment> \<open>\<open>.catch(rethrow)\<close>: the handler only chooses which exception to throw\<close>
  "tx_catch m h d = (case m d of (Inl e, d') \<Rightarrow> (Inl (h e), d') | r \<Rightarrow> r)"

fun tx_for :: "'a list \<Rightarrow> ('a \<Rightarrow> unit txn) \<Rightarrow> unit txn" where
  "tx_for [] f = tx_return ()"
| "tx_for (x # xs) f = tx_bind (f x) (\<lambda>_. tx_for xs f)"

definition withTx :: "'a txn \<Rightarrow> 'a txn" where
  \<comment> \<open>BEGIN; fn; COMMIT, or ROLLBACK and rethrow\<close>
  "withTx fn d = (case fn d of (Inr r, d') \<Rightarrow> (Inr r, d') | (Inl e, _) \<Rightarrow> (Inl e, d))"

lemma tx_eval [tx_simps]:
  "tx_return a d = (Inr a, d)" "tx_throw e d = (Inl e, d)" "tx_read q d = (Inr (q d), d)"
  "tx_bind m k d = (case m d of (Inl e, d') \<Rightarrow> (Inl e, d') | (Inr x, d') \<Rightarrow> k x d')"
  by (simp_all add: tx_return_def tx_throw_def tx_read_def tx_bind_def)

lemma withTx_Inl [simp]: "withTx fn d = (Inl e, d') \<longleftrightarrow> (\<exists>d2. fn d = (Inl e, d2)) \<and> d' = d"
  by (auto simp: withTx_def split: prod.splits sum.splits)

lemma withTx_Inr [simp]: "withTx fn d = (Inr a, d') \<longleftrightarrow> fn d = (Inr a, d')"
  by (auto simp: withTx_def split: prod.splits sum.splits)

lemma tx_bind_Inr:
  "tx_bind m k d = (Inr b, d') \<longleftrightarrow> (\<exists>a d1. m d = (Inr a, d1) \<and> k a d1 = (Inr b, d'))"
  by (auto simp: tx_bind_def split: prod.splits sum.splits)

lemma tx_exec_Inr: "tx_exec st d = (Inr u, d') \<longleftrightarrow> st d = Inr d'"
  by (auto simp: tx_exec_def split: sum.splits)

lemma tx_catch_Inr: "tx_catch m h d = (Inr a, d') \<longleftrightarrow> m d = (Inr a, d')"
  by (auto simp: tx_catch_def split: prod.splits sum.splits)

lemma tx_return_Inr: "tx_return a d = (Inr b, d') \<longleftrightarrow> b = a \<and> d' = d"
  by (auto simp: tx_return_def)

lemma tx_read_Inr: "tx_read q d = (Inr b, d') \<longleftrightarrow> b = q d \<and> d' = d"
  by (auto simp: tx_read_def)

lemma tx_throw_Inr: "\<not> tx_throw e d = (Inr b, d')"
  by (auto simp: tx_throw_def)

lemmas tx_success = tx_bind_Inr tx_exec_Inr tx_catch_Inr tx_return_Inr tx_read_Inr tx_throw_Inr

lemma tx_for_invariant:
  assumes "tx_for xs f d = (Inr u, d')" and "P d"
    and "\<And>x d1 d2 v. x \<in> set xs \<Longrightarrow> P d1 \<Longrightarrow> f x d1 = (Inr v, d2) \<Longrightarrow> P d2"
  shows "P d'"
  using assms
proof (induction xs arbitrary: d)
  case Nil
  then show ?case by (simp add: tx_return_def)
next
  case (Cons x xs)
  then obtain v d1 where "f x d = (Inr v, d1)" "tx_for xs f d1 = (Inr u, d')"
    by (auto simp: tx_bind_Inr)
  with Cons show ?case by (metis list.set_intros)
qed

section \<open>Well-formed databases\<close>

definition wf_users :: "db \<Rightarrow> bool" where
  \<comment> \<open>primary key, uq_portal_users_email_lower and the foreign key to roles\<close>
  "wf_users d \<longleftrightarrow> distinct (map u_id (users d))
     \<and> distinct (map (\<lambda>u. toLowerCase (u_email u)) (users d))
     \<and> (\<forall>u \<in> set (users d). u_id u < next_id d \<and> u_role_id u \<in> r_id ` set (roles d))
     \<and> distinct (map r_id (roles d)) \<and> distinct (map r_key (roles d))"

definition wf_shortcodes :: "db \<Rightarrow> bool" where
  \<comment> \<open>primary key and uq_shortcodes_op_code_env\<close>
  "wf_shortcodes d \<longleftrightarrow> distinct (map sc_id (shortcodes d))
     \<and> distinct (map (\<lambda>s. (sc_operator_id s, sc_code s, sc_environment s)) (shortcodes d))
     \<and> (\<forall>s \<in> set (shortcodes d). sc_id s < next_id d)"

definition wf_grants :: "db \<Rightarrow> bool" where
  \<comment> \<open>the primary key of portal_user_shortcodes\<close>
  "wf_grants d \<longleftrightarrow> distinct (map (\<lambda>g. (gr_user g, gr_shortcode g)) (grants d))"

definition wf_refs :: "db \<Rightarrow> bool" where
  \<comment> \<open>the foreign keys to portal_users and shortcodes\<close>
  "wf_refs d \<longleftrightarrow> (\<forall>s \<in> set (shortcodes d). sc_owner s \<in> u_id ` set (users d))
     \<and> (\<forall>g \<in> set (grants d). gr_user g \<in> u_id ` set (users d)
          \<and> gr_shortcode g \<in> sc_id ` set (shortcodes d))
     \<and> (\<forall>t \<in> set (tokens d). t_user t \<in> u_id ` set (users d))"

definition wf_db :: "db \<Rightarrow> bool" where
  "wf_db d \<longleftrightarrow> wf_users d \<and> wf_shortcodes d \<and> wf_grants d \<and> wf_refs d"

lemma wf_find_user: "wf_users d \<Longrightarrow> u \<in> set (users d) \<Longrightarrow> find_user d (u_id u) = Some u"
  by (simp add: find_user_def wf_users_def find_unique)

lemma wf_find_role: "wf_users d \<Longrightarrow> r \<in> set (roles d) \<Longrightarrow> find_role d (r_id r) = Some r"
  by (simp add: find_role_def wf_users_def find_unique)

lemma find_user_mem: "find_user d i = Some u \<Longrightarrow> u \<in> set (users d) \<and> u_id u = i"
  unfolding find_user_def by (drule find_SomeD) simp

lemma find_role_mem: "find_role d i = Some r \<Longrightarrow> r \<in> set (roles d) \<and> r_id r = i"
  unfolding find_role_def by (drule find_SomeD) simp

lemma find_shortcode_mem: "find_shortcode d i = Some s \<Longrightarrow> s \<in> set (shortcodes d) \<and> sc_id s = i"
  unfolding find_shortcode_def by (drule find_SomeD) simp

lemma wf_user_unique:
  "wf_users d \<Longrightarrow> u \<in> set (users d) \<Longrightarrow> v \<in> set (users d) \<Longrightarrow> u_id u = u_id v \<Longrightarrow> u = v"
  by (metis wf_find_user option.inject)

end
