(* ===== verification/Rbac.thy ===== *)
theory Rbac
  imports Prelude
begin

text \<open>
  The permission catalogue and the route gate of \<^verbatim>\<open>dashboard/src/lib/rbac.ts\<close>, and the
  role grants the migrations under \<^verbatim>\<open>db/\<close> seed.  A path is mapped to the list of
  permissions any of which opens it; \<open>None\<close> is a public path.
\<close>

section \<open>Permission keys\<close>

abbreviation REPORTS_VIEW_OWN :: string where "REPORTS_VIEW_OWN \<equiv> ''reports.view_own''"
abbreviation REPORTS_VIEW_ALL :: string where "REPORTS_VIEW_ALL \<equiv> ''reports.view_all''"
abbreviation SHORTCODES_VIEW :: string where "SHORTCODES_VIEW \<equiv> ''shortcodes.view''"
abbreviation SHORTCODES_MANAGE :: string where "SHORTCODES_MANAGE \<equiv> ''shortcodes.manage''"
abbreviation SHORTCODES_MANAGE_SANDBOX :: string
  where "SHORTCODES_MANAGE_SANDBOX \<equiv> ''shortcodes.manage_sandbox''"
abbreviation OPERATORS_VIEW :: string where "OPERATORS_VIEW \<equiv> ''operators.view''"
abbreviation PORTAL_USERS_VIEW :: string where "PORTAL_USERS_VIEW \<equiv> ''portal_users.view''"
abbreviation PORTAL_USERS_MANAGE :: string where "PORTAL_USERS_MANAGE \<equiv> ''portal_users.manage''"
abbreviation VIEWERS_MANAGE_OWN :: string where "VIEWERS_MANAGE_OWN \<equiv> ''viewers.manage_own''"
abbreviation AUDIT_VIEW :: string where "AUDIT_VIEW \<equiv> ''audit.view''"
abbreviation ARCHIVE_VIEW :: string where "ARCHIVE_VIEW \<equiv> ''archive.view''"
abbreviation PORTAL_USERS_IMPERSONATE :: string
  where "PORTAL_USERS_IMPERSONATE \<equiv> ''portal_users.impersonate''"

definition Perms :: "string list" where
  "Perms = [REPORTS_VIEW_OWN, REPORTS_VIEW_ALL, SHORTCODES_VIEW, SHORTCODES_MANAGE,
     SHORTCODES_MANAGE_SANDBOX, OPERATORS_VIEW, PORTAL_USERS_VIEW, PORTAL_USERS_MANAGE,
     VIEWERS_MANAGE_OWN, AUDIT_VIEW, ARCHIVE_VIEW, PORTAL_USERS_IMPERSONATE]"

section \<open>The route gate\<close>

definition requiredPermFor :: "string \<Rightarrow> string list option" where
  "requiredPermFor pathname =
    (if pathname = ''/login'' then None
     else if pathname = ''/api/auth/login'' then None
     else if pathname = ''/api/auth/logout'' then None
     else if pathname = ''/forgot-password'' \<or> pathname = ''/reset-password'' then None
     else if pathname = ''/api/auth/forgot-password'' then None
     else if pathname = ''/api/auth/reset-password'' then None
     else if pathname = ''/api/auth/impersonate/stop'' then None
     else if pathname = ''/healthz'' then None
     else if startsWith pathname ''/_next/'' then None
     else if startsWith pathname ''/favicon'' then None
     else if pathname = ''/integration'' \<or> startsWith pathname ''/integration/'' then None
     else if pathname = ''/''
         \<or> startsWith pathname ''/reports'' \<or> startsWith pathname ''/sessions''
         \<or> startsWith pathname ''/summary''
         \<or> startsWith pathname ''/simulator''
         \<or> startsWith pathname ''/api/reports'' \<or> startsWith pathname ''/api/sessions''
         \<or> startsWith pathname ''/api/summary''
       then Some [REPORTS_VIEW_OWN, REPORTS_VIEW_ALL]
     else if startsWith pathname ''/shortcodes'' \<or> startsWith pathname ''/api/shortcodes''
       then Some [SHORTCODES_VIEW, SHORTCODES_MANAGE]
     else if startsWith pathname ''/operators'' \<or> startsWith pathname ''/api/operators''
       then Some [OPERATORS_VIEW, SHORTCODES_MANAGE]
     else if startsWith pathname ''/exports'' \<or> startsWith pathname ''/api/exports''
       then Some [REPORTS_VIEW_OWN, REPORTS_VIEW_ALL]
     else if startsWith pathname ''/users'' \<or> startsWith pathname ''/api/users''
       then Some [PORTAL_USERS_VIEW, PORTAL_USERS_MANAGE, VIEWERS_MANAGE_OWN]
     else if startsWith pathname ''/audit'' \<or> startsWith pathname ''/api/audit''
       then Some [AUDIT_VIEW]
     else if pathname = ''/api/auth/impersonate'' then Some [PORTAL_USERS_IMPERSONATE]
     else if startsWith pathname ''/archive'' \<or> startsWith pathname ''/api/archive''
       then Some [ARCHIVE_VIEW]
     else if pathname = ''/account'' \<or> startsWith pathname ''/account/''
       then Some [REPORTS_VIEW_OWN, REPORTS_VIEW_ALL]
     else Some [REPORTS_VIEW_OWN, REPORTS_VIEW_ALL])"

definition gate_lists :: "string list list" where
  \<comment> \<open>every list \<open>requiredPermFor\<close> can return\<close>
  "gate_lists = [[REPORTS_VIEW_OWN, REPORTS_VIEW_ALL], [SHORTCODES_VIEW, SHORTCODES_MANAGE],
     [OPERATORS_VIEW, SHORTCODES_MANAGE],
     [PORTAL_USERS_VIEW, PORTAL_USERS_MANAGE, VIEWERS_MANAGE_OWN],
     [AUDIT_VIEW], [PORTAL_USERS_IMPERSONATE], [ARCHIVE_VIEW]]"

definition gate_ok :: "string list option \<Rightarrow> bool" where
  "gate_ok r \<longleftrightarrow> (case r of None \<Rightarrow> True | Some ks \<Rightarrow> ks \<in> set gate_lists)"

lemma gate_ok_if: "gate_ok a \<Longrightarrow> gate_ok b \<Longrightarrow> gate_ok (if c then a else b)"
  by simp

lemma gate_ok_None: "gate_ok None"
  by (simp add: gate_ok_def)

lemma gate_ok_Some: "ks \<in> set gate_lists \<Longrightarrow> gate_ok (Some ks)"
  by (simp add: gate_ok_def)

lemma requiredPermFor_gate_ok: "gate_ok (requiredPermFor p)"
  unfolding requiredPermFor_def
  by (intro gate_ok_if gate_ok_None gate_ok_Some) (simp_all add: gate_lists_def)

lemma requiredPermFor_gate: "requiredPermFor p = Some ks \<Longrightarrow> ks \<in> set gate_lists"
  using requiredPermFor_gate_ok [of p] by (simp add: gate_ok_def)

lemma if_None_iff: "((if c then None else x) = None) \<longleftrightarrow> c \<or> x = None"
  by simp

lemma if_Some_iff: "((if c then Some a else x) = None) \<longleftrightarrow> \<not> c \<and> x = None"
  by simp

definition public_paths :: "string list" where
  "public_paths = [''/login'', ''/api/auth/login'', ''/api/auth/logout'', ''/forgot-password'',
     ''/reset-password'', ''/api/auth/forgot-password'', ''/api/auth/reset-password'',
     ''/api/auth/impersonate/stop'', ''/healthz'', ''/integration'']"

definition public_prefixes :: "string list" where
  "public_prefixes = [''/_next/'', ''/favicon'', ''/integration/'']"

lemma requiredPermFor_public:
  "requiredPermFor p = None \<longleftrightarrow>
     p \<in> set public_paths \<or> (\<exists>q \<in> set public_prefixes. startsWith p q)"
  unfolding requiredPermFor_def public_paths_def public_prefixes_def
  by (simp only: if_None_iff if_Some_iff option.distinct list.set bex_simps insert_iff
        empty_iff simp_thms disj_ac)

definition passes_gate :: "string list \<Rightarrow> string \<Rightarrow> bool" where
  \<comment> \<open>\<open>required.some((p) => perms.includes(p))\<close> for a gated path\<close>
  "passes_gate perms p = (case requiredPermFor p of None \<Rightarrow> True
     | Some required \<Rightarrow> list_ex (\<lambda>k. k \<in> set perms) required)"

section \<open>Seeded roles\<close>

definition role_seed :: "(string \<times> string list) list" where
  "role_seed = [(''super_admin'', Perms),
     (''client'', [REPORTS_VIEW_OWN, VIEWERS_MANAGE_OWN, SHORTCODES_MANAGE_SANDBOX]),
     (''auditor'', [REPORTS_VIEW_ALL, SHORTCODES_VIEW, OPERATORS_VIEW, PORTAL_USERS_VIEW,
        AUDIT_VIEW, PORTAL_USERS_IMPERSONATE]),
     (''client_viewer'', [REPORTS_VIEW_OWN])]"

end
