(* ===== verification/Acl.thy ===== *)
theory Acl
  imports Sql
begin

text \<open>
  \<^verbatim>\<open>dashboard/src/lib/acl.ts\<close>: the time-scoped shortcode allowlist of a session and the SQL
  predicate built from it.  \<open>acl_allows\<close> is the promise (which rows a caller may read) and
  \<open>aclClause\<close> the code; they are related through the \<open>cond_builder\<close> interface.
\<close>

section \<open>Allowlists\<close>

record ShortcodeGrant =
  g_id :: int
  g_from :: int   \<comment> \<open>Unix seconds; 0 is no lower bound\<close>

type_synonym ShortcodeAcl = "ShortcodeGrant list option"   \<comment> \<open>\<open>None\<close> is unrestricted\<close>

definition aclIds :: "ShortcodeAcl \<Rightarrow> int list option" where
  "aclIds acl = (case acl of None \<Rightarrow> None | Some gs \<Rightarrow> Some (map g_id gs))"

definition aclDeniesAll :: "ShortcodeAcl \<Rightarrow> bool" where
  "aclDeniesAll acl \<longleftrightarrow> (case acl of None \<Rightarrow> False | Some gs \<Rightarrow> length gs = 0)"

definition aclIntersect :: "ShortcodeAcl \<Rightarrow> int list \<Rightarrow> ShortcodeAcl" where
  "aclIntersect acl ids =
    (if ids = [] then acl
     else case acl of
       None \<Rightarrow> Some (map (\<lambda>i. \<lparr>g_id = i, g_from = 0\<rparr>) ids)
     | Some gs \<Rightarrow> Some (filter (\<lambda>g. g_id g \<in> set ids) gs))"

section \<open>The predicate\<close>

datatype grain = GTs | GDate

fun byFrom_add :: "(int \<times> int list) list \<Rightarrow> ShortcodeGrant \<Rightarrow> (int \<times> int list) list" where
  \<comment> \<open>one step of the loop that fills \<open>byFrom\<close>, a Map in insertion order\<close>
  "byFrom_add [] g = [(g_from g, [g_id g])]"
| "byFrom_add ((f, ids) # rest) g =
     (if f = g_from g then (f, ids @ [g_id g]) # rest else (f, ids) # byFrom_add rest g)"

fun acl_branches :: "string \<Rightarrow> string \<Rightarrow> grain \<Rightarrow> (int \<times> int list) list \<Rightarrow> pval list
    \<Rightarrow> sql_cond list \<times> pval list" where
  "acl_branches scCol tsCol grain [] ps = ([], ps)"
| "acl_branches scCol tsCol grain ((f, ids) # rest) ps =
    (let (n, ps1) = push ps (PInts ids); idsP = CAny scCol n in
     if f \<le> 0 then
       (let (bs, ps2) = acl_branches scCol tsCol grain rest ps1 in (idsP # bs, ps2))
     else
       (let (m, ps2) = push ps1 (case grain of GTs \<Rightarrow> PInt f | GDate \<Rightarrow> PStr (ceilToLocalDate f));
            floor = (case grain of GTs \<Rightarrow> EToTimestamp m | GDate \<Rightarrow> EDate m);
            (bs, ps3) = acl_branches scCol tsCol grain rest ps2
        in (CAll [idsP, CCmp OpGe tsCol floor] # bs, ps3)))"

definition aclClause :: "ShortcodeAcl \<Rightarrow> string \<Rightarrow> string \<Rightarrow> grain \<Rightarrow> pval list
    \<Rightarrow> sql_cond \<times> pval list" where
  "aclClause acl scCol tsCol grain ps =
    (case acl of
       None \<Rightarrow> (CTrue, ps)
     | Some [] \<Rightarrow> (CFalse, ps)
     | Some gs \<Rightarrow>
        (let byFrom = foldl byFrom_add [] gs;
             (branches, ps') = acl_branches scCol tsCol grain byFrom ps
         in (if length branches = 1 then hd branches else CEx branches, ps')))"

section \<open>What it promises\<close>

definition floor_ok :: "grain \<Rightarrow> int \<Rightarrow> sqlval \<Rightarrow> bool" where
  \<comment> \<open>the row's time is not before the floor of its grant\<close>
  "floor_ok grain f t \<longleftrightarrow> f \<le> 0 \<or> (case (grain, t) of
       (GTs, VTs u) \<Rightarrow> f * 1000000 \<le> u
     | (GDate, VDate d) \<Rightarrow> parse_date (ceilToLocalDate f) \<le> d
     | _ \<Rightarrow> False)"

definition acl_allows :: "grain \<Rightarrow> string \<Rightarrow> string \<Rightarrow> ShortcodeAcl \<Rightarrow> row \<Rightarrow> bool" where
  "acl_allows grain scCol tsCol acl r \<longleftrightarrow> (case acl of None \<Rightarrow> True
     | Some gs \<Rightarrow> \<exists>g \<in> set gs. r scCol = VInt (g_id g) \<and> floor_ok grain (g_from g) (r tsCol))"

definition groups_allow :: "grain \<Rightarrow> string \<Rightarrow> string \<Rightarrow> (int \<times> int list) list \<Rightarrow> row \<Rightarrow> bool" where
  "groups_allow grain scCol tsCol grps r \<longleftrightarrow>
     (\<exists>(f, ids) \<in> set grps. \<exists>i \<in> set ids. r scCol = VInt i \<and> floor_ok grain f (r tsCol))"

lemma groups_allow_add:
  "groups_allow gr sc ts (byFrom_add grps g) r \<longleftrightarrow>
     groups_allow gr sc ts grps r \<or> (r sc = VInt (g_id g) \<and> floor_ok gr (g_from g) (r ts))"
  by (induction grps g rule: byFrom_add.induct) (auto simp: groups_allow_def)

lemma groups_allow_fold:
  "groups_allow gr sc ts (foldl byFrom_add grps gs) r \<longleftrightarrow>
     groups_allow gr sc ts grps r
     \<or> (\<exists>g \<in> set gs. r sc = VInt (g_id g) \<and> floor_ok gr (g_from g) (r ts))"
  by (induction gs arbitrary: grps) (auto simp: groups_allow_add)

lemma groups_allow_byFrom:
  "groups_allow gr sc ts (foldl byFrom_add [] gs) r \<longleftrightarrow> acl_allows gr sc ts (Some gs) r"
  by (simp add: groups_allow_fold acl_allows_def groups_allow_def [of _ _ _ "[]"])

lemma byFrom_add_nonempty [simp]: "byFrom_add grps g \<noteq> []"
  by (induction grps g rule: byFrom_add.induct) auto

lemma byFrom_nonempty: "gs \<noteq> [] \<Longrightarrow> foldl byFrom_add [] gs \<noteq> []"
  by (induction gs rule: rev_induct) auto

lemma byFrom_add_keys:
  "fst ` set (byFrom_add grps g) = insert (g_from g) (fst ` set grps)"
  by (induction grps g rule: byFrom_add.induct) auto

lemma byFrom_add_distinct:
  "distinct (map fst grps) \<Longrightarrow> distinct (map fst (byFrom_add grps g))"
proof (induction grps g rule: byFrom_add.induct)
  case (2 f ids rest g)
  then show ?case using byFrom_add_keys [of rest g] by auto
qed simp

lemma byFrom_distinct: "distinct (map fst (foldl byFrom_add [] gs))"
  by (induction gs rule: rev_induct) (auto simp: byFrom_add_distinct)

lemma holds_any_ints:
  "holds g (ps @ PInts ids # post) r (CAny c (Suc (length ps))) \<longleftrightarrow> (\<exists>i \<in> set ids. r c = VInt i)"
  by (cases "r c") (auto simp: holds_def)

lemma holds_floor_ts:
  "0 < f \<Longrightarrow> holds g (ps @ PInt f # post) r (CCmp OpGe c (EToTimestamp (Suc (length ps))))
     \<longleftrightarrow> floor_ok GTs f (r c)"
  by (cases "r c") (auto simp: holds_def floor_ok_def)

lemma holds_floor_date:
  "0 < f \<Longrightarrow> holds g (ps @ PStr (ceilToLocalDate f) # post) r (CCmp OpGe c (EDate (Suc (length ps))))
     \<longleftrightarrow> floor_ok GDate f (r c)"
  by (cases "r c") (auto simp: holds_def floor_ok_def)

lemma acl_branches_extends:
  "acl_branches sc ts gr grps ps = (bs, ps') \<Longrightarrow> \<exists>ext. ps' = ps @ ext"
  by (induction sc ts gr grps ps arbitrary: bs ps' rule: acl_branches.induct)
    (fastforce simp: push_def Let_def split: prod.splits if_splits)+

lemma acl_branches_length:
  "acl_branches sc ts gr grps ps = (bs, ps') \<Longrightarrow> length bs = length grps"
  by (induction sc ts gr grps ps arbitrary: bs ps' rule: acl_branches.induct)
    (fastforce simp: push_def Let_def split: prod.splits if_splits)+

lemma acl_branches_correct:
  "acl_branches sc ts gr grps ps = (bs, ps') \<Longrightarrow>
     holds g (ps' @ post) r (CEx bs) \<longleftrightarrow> groups_allow gr sc ts grps r"
proof (induction sc ts gr grps ps arbitrary: bs ps' rule: acl_branches.induct)
  case (1 sc ts gr ps)
  then show ?case by (simp add: groups_allow_def)
next
  case (2 sc ts gr f ids rest ps)
  let ?ps1 = "ps @ [PInts ids]"
  show ?case
  proof (cases "f \<le> 0")
    case True
    with "2.prems" obtain bs2 where b: "acl_branches sc ts gr rest ?ps1 = (bs2, ps')"
      "bs = CAny sc (Suc (length ps)) # bs2"
      by (auto simp: push_def Let_def split: prod.splits)
    obtain ext where e: "ps' = ?ps1 @ ext" using acl_branches_extends [OF b(1)] by blast
    have "holds g (ps' @ post) r (CEx bs2) \<longleftrightarrow> groups_allow gr sc ts rest r"
      using True by (intro "2.IH"(1) [OF _ _ _ _ b(1)]) (simp_all add: push_def)
    then show ?thesis
      using True holds_any_ints [of g ps ids "ext @ post" r sc]
      by (auto simp: b(2) e groups_allow_def floor_ok_def)
  next
    case False
    let ?v = "case gr of GTs \<Rightarrow> PInt f | GDate \<Rightarrow> PStr (ceilToLocalDate f)"
    let ?fl = "case gr of GTs \<Rightarrow> EToTimestamp (Suc (length ?ps1)) | GDate \<Rightarrow> EDate (Suc (length ?ps1))"
    from False "2.prems" obtain bs2 where
      b: "acl_branches sc ts gr rest (?ps1 @ [?v]) = (bs2, ps')"
      "bs = CAll [CAny sc (Suc (length ps)), CCmp OpGe ts ?fl] # bs2"
      by (auto simp: push_def Let_def split: prod.splits)
    obtain ext where e: "ps' = (?ps1 @ [?v]) @ ext" using acl_branches_extends [OF b(1)] by blast
    have ih: "holds g (ps' @ post) r (CEx bs2) \<longleftrightarrow> groups_allow gr sc ts rest r"
      using False by (intro "2.IH"(2) [OF _ _ _ _ _ _ _ b(1)]) (simp_all add: push_def)
    have fl: "holds g (ps' @ post) r (CCmp OpGe ts ?fl) \<longleftrightarrow> floor_ok gr f (r ts)"
      using False holds_floor_ts [of f g ?ps1 "ext @ post" r ts]
        holds_floor_date [of f g ?ps1 "ext @ post" r ts] by (cases gr) (simp_all add: e)
    have ids: "holds g (ps' @ post) r (CAny sc (Suc (length ps))) \<longleftrightarrow> (\<exists>i \<in> set ids. r sc = VInt i)"
      using holds_any_ints [of g ps ids "?v # ext @ post" r sc] by (simp add: e)
    have "holds g (ps' @ post) r (CEx bs) \<longleftrightarrow>
        ((\<exists>i \<in> set ids. r sc = VInt i) \<and> floor_ok gr f (r ts)) \<or> groups_allow gr sc ts rest r"
      unfolding b(2) using ih ids fl by simp
    then show ?thesis by (auto simp: groups_allow_def)
  qed
qed

lemma aclClause_extends:
  "aclClause acl sc ts gr ps = (c, ps') \<Longrightarrow> \<exists>ext. ps' = ps @ ext"
  by (auto simp: aclClause_def Let_def dest: acl_branches_extends
      split: option.splits list.splits prod.splits)

lemma aclClause_correct:
  assumes "aclClause acl sc ts gr ps = (c, ps')"
  shows "holds g (ps' @ post) r c \<longleftrightarrow> acl_allows gr sc ts acl r"
proof (cases acl)
  case None
  with assms show ?thesis by (auto simp: aclClause_def acl_allows_def)
next
  case (Some gs)
  show ?thesis
  proof (cases "gs = []")
    case True
    with Some assms show ?thesis by (auto simp: aclClause_def acl_allows_def)
  next
    case False
    obtain bs where b: "acl_branches sc ts gr (foldl byFrom_add [] gs) ps = (bs, ps')"
      and c: "c = (if length bs = 1 then hd bs else CEx bs)"
      using assms Some False
      by (cases gs) (auto simp: aclClause_def Let_def split: prod.splits)
    have "holds g (ps' @ post) r c \<longleftrightarrow> holds g (ps' @ post) r (CEx bs)"
    proof (cases "length bs = 1")
      case True
      then obtain b1 where "bs = [b1]" by (cases bs) auto
      then show ?thesis by (simp add: c)
    qed (simp add: c)
    also have "\<dots> \<longleftrightarrow> acl_allows gr sc ts (Some gs) r"
      using acl_branches_correct [OF b] groups_allow_byFrom by simp
    finally show ?thesis using Some by simp
  qed
qed

definition acl_conds :: "string \<Rightarrow> string \<Rightarrow> grain \<Rightarrow> ShortcodeAcl \<Rightarrow> pval list
    \<Rightarrow> sql_cond list \<times> pval list" where
  \<comment> \<open>how every caller adds the clause: nothing is pushed for an unrestricted caller\<close>
  "acl_conds scCol tsCol gr acl ps = (case acl of None \<Rightarrow> ([], ps)
     | Some _ \<Rightarrow> (let (c, ps') = aclClause acl scCol tsCol gr ps in ([c], ps')))"

interpretation acl_builder: cond_builder g "acl_conds sc ts gr" "acl_allows gr sc ts"
  for g sc ts gr
proof (unfold_locales)
  fix acl ps cs ps'
  assume b: "acl_conds sc ts gr acl ps = (cs, ps')"
  then show "\<exists>ext. ps' = ps @ ext"
    by (auto simp: acl_conds_def dest: aclClause_extends split: option.splits prod.splits)
  fix post r
  show "holds g (ps' @ post) r (CAll cs) \<longleftrightarrow> acl_allows gr sc ts acl r"
  proof (cases acl)
    case None
    with b show ?thesis by (auto simp: acl_conds_def acl_allows_def)
  next
    case (Some gs)
    then obtain c where c: "aclClause acl sc ts gr ps = (c, ps')" "cs = [c]"
      using b by (auto simp: acl_conds_def split: prod.splits)
    show ?thesis using aclClause_correct [OF c(1)] by (simp add: c(2))
  qed
qed

lemma acl_allows_intersect:
  "acl_allows gr sc ts (aclIntersect acl ids) r \<longleftrightarrow>
     acl_allows gr sc ts acl r \<and> (ids = [] \<or> (\<exists>i \<in> set ids. r sc = VInt i))"
  by (cases acl) (auto simp: aclIntersect_def acl_allows_def floor_ok_def)

lemma aclDeniesAll_allows: "aclDeniesAll acl \<Longrightarrow> \<not> acl_allows gr sc ts acl r"
  by (auto simp: aclDeniesAll_def acl_allows_def split: option.splits)

section \<open>Day grain\<close>

lemma floor_ok_date:
  assumes "0 < f" "f < 200000000000"
  shows "floor_ok GDate f (VDate d) \<longleftrightarrow> f \<le> local_midnight d"
proof -
  define q where "q = (f + tz_secs) div 86400"
  define s where "s = (f + tz_secs) mod 86400"
  have fs: "f + tz_secs = 86400 * q + s" by (simp add: q_def s_def)
  have s: "0 \<le> s" "s < 86400" by (simp_all add: s_def)
  have "parse_date (ceilToLocalDate f) = (if s = 0 then q else q + 1)"
    using ceilToLocalDate_days [of f] assms by (simp add: q_def s_def)
  then have "floor_ok GDate f (VDate d) \<longleftrightarrow> (if s = 0 then q else q + 1) \<le> d"
    using assms by (simp add: floor_ok_def)
  also have "\<dots> \<longleftrightarrow> f \<le> local_midnight d"
  proof -
    have "(f \<le> local_midnight d) = (86400 * q + s \<le> 86400 * d)"
      using fs unfolding local_midnight_def by linarith
    also have "\<dots> = ((if s = 0 then q else q + 1) \<le> d)" using s by auto
    finally show ?thesis by simp
  qed
  finally show ?thesis .
qed

end
