(* ===== verification/Auth.thy ===== *)
theory Auth
  imports Rbac Acl Schema
begin

text \<open>
  \<^verbatim>\<open>dashboard/src/lib/auth.ts\<close>: the claims a session carries, minting and reading a session,
  its revocation through the user's password version, the claims of an impersonated session,
  and the claims materialised from the database at login.

  \<^verbatim>\<open>jose\<close> is not part of the repository: \<open>sign\<close> and \<open>verify\<close> are parameters, and \<open>jose_laws\<close>
  states what the library documents of HS256 and of the \<^verbatim>\<open>exp\<close> claim.
\<close>

section \<open>Claims\<close>

record ImpersonationOrigin =
  i_sub :: string
  i_email :: string
  i_name :: string
  i_role :: string
  i_pwv :: "int option"

record SessionClaims =
  c_sub :: string
  c_email :: string
  c_name :: string
  c_role :: string
  c_perms :: "string list"
  c_shortcodeIds :: "int list option"                 \<comment> \<open>\<open>None\<close> is unrestricted\<close>
  c_shortcodeFrom :: "(string \<times> int) list option"    \<comment> \<open>\<open>None\<close> is an absent field\<close>
  c_pwv :: "int option"
  c_imp :: "ImpersonationOrigin option"

record jwt_payload =
  j_claims :: SessionClaims
  j_iat :: int
  j_exp :: int

record auth_env =
  ae_secret :: string
  ae_ttl :: int                  \<comment> \<open>TTL_SECONDS\<close>
  ae_impersonation_ttl :: int    \<comment> \<open>IMPERSONATION_TTL_SECONDS\<close>

definition secretBytes :: "auth_env \<Rightarrow> exn + string" where
  "secretBytes env = (let raw = ae_secret env in
     if length raw < 48
     then Inl (JsError ''SESSION_SECRET unset or shorter than 48 chars'')
     else if card (set raw) < 16
     then Inl (JsError ''SESSION_SECRET has <16 distinct chars'')
     else Inr raw)"

section \<open>Permissions of an impersonated session\<close>

definition IMPLIES :: "string \<Rightarrow> string list" where
  "IMPLIES p = (if p = REPORTS_VIEW_ALL then [REPORTS_VIEW_OWN]
     else if p = SHORTCODES_MANAGE then [SHORTCODES_VIEW, SHORTCODES_MANAGE_SANDBOX]
     else if p = PORTAL_USERS_MANAGE then [PORTAL_USERS_VIEW]
     else [])"

definition expandPerms :: "string list \<Rightarrow> string set" where
  "expandPerms perms = set perms \<union> (\<Union>p \<in> set perms. set (IMPLIES p))"

definition impersonatedClaims :: "SessionClaims \<Rightarrow> SessionClaims \<Rightarrow> SessionClaims" where
  "impersonatedClaims actor target =
    (let actorPerms = expandPerms (c_perms actor)
     in target\<lparr>c_perms := filter (\<lambda>p. p \<in> actorPerms) (c_perms target),
          c_imp := Some \<lparr>i_sub = c_sub actor, i_email = c_email actor, i_name = c_name actor,
            i_role = c_role actor, i_pwv = c_pwv actor\<rparr>\<rparr>)"

definition isImpersonating :: "SessionClaims option \<Rightarrow> bool" where
  "isImpersonating session = (case session of None \<Rightarrow> False | Some c \<Rightarrow> c_imp c \<noteq> None)"

definition hasPerm :: "SessionClaims option \<Rightarrow> string \<Rightarrow> bool" where
  "hasPerm session key = (case session of None \<Rightarrow> False | Some c \<Rightarrow> key \<in> set (c_perms c))"

definition sessionAcl :: "SessionClaims option \<Rightarrow> ShortcodeAcl" where
  "sessionAcl session = (case session of None \<Rightarrow> Some []
     | Some c \<Rightarrow> (case c_shortcodeIds c of None \<Rightarrow> None
        | Some ids \<Rightarrow>
           (let from = (case c_shortcodeFrom c of None \<Rightarrow> [] | Some m \<Rightarrow> m)
            in Some (map (\<lambda>i. \<lparr>g_id = i, g_from = (case map_of from (js_String i) of
                  None \<Rightarrow> 0 | Some f \<Rightarrow> f)\<rparr>) ids))))"

lemma expandPerms_iff:
  "p \<in> expandPerms ps \<longleftrightarrow> p \<in> set ps \<or> (\<exists>q \<in> set ps. p \<in> set (IMPLIES q))"
  by (auto simp: expandPerms_def)

lemma impersonated_perms:
  "set (c_perms (impersonatedClaims a t)) = set (c_perms t) \<inter> expandPerms (c_perms a)"
  by (auto simp: impersonatedClaims_def Let_def)

lemma impersonated_other [simp]:
  "c_sub (impersonatedClaims a t) = c_sub t" "c_email (impersonatedClaims a t) = c_email t"
  "c_shortcodeIds (impersonatedClaims a t) = c_shortcodeIds t"
  "c_shortcodeFrom (impersonatedClaims a t) = c_shortcodeFrom t"
  "c_pwv (impersonatedClaims a t) = c_pwv t" "c_role (impersonatedClaims a t) = c_role t"
  "c_imp (impersonatedClaims a t) = Some \<lparr>i_sub = c_sub a, i_email = c_email a, i_name = c_name a,
     i_role = c_role a, i_pwv = c_pwv a\<rparr>"
  by (simp_all add: impersonatedClaims_def Let_def)

text \<open>Every list of permissions the route gate asks for is closed under domination.\<close>

definition dominated_closed :: "string list \<Rightarrow> bool" where
  "dominated_closed ks \<longleftrightarrow> (\<forall>q \<in> set Perms. list_ex (\<lambda>p. p \<in> set ks) (IMPLIES q) \<longrightarrow> q \<in> set ks)"

lemma IMPLIES_Perms: "p \<in> set (IMPLIES q) \<Longrightarrow> q \<in> set Perms"
  by (auto simp: IMPLIES_def Perms_def split: if_splits)

lemma gate_lists_closed: "ks \<in> set gate_lists \<Longrightarrow> dominated_closed ks"
  by (auto simp: gate_lists_def dominated_closed_def Perms_def IMPLIES_def)

lemma expand_passes_gate:
  assumes "passes_gate ps path" and "set ps \<subseteq> expandPerms qs"
  shows "passes_gate qs path"
proof (cases "requiredPermFor path")
  case (Some ks)
  then obtain p where p: "p \<in> set ks" "p \<in> set ps"
    using assms(1) by (auto simp: passes_gate_def list_ex_iff)
  with assms(2) have "p \<in> set qs \<or> (\<exists>q \<in> set qs. p \<in> set (IMPLIES q))"
    by (auto simp: expandPerms_iff)
  then have "\<exists>k \<in> set ks. k \<in> set qs"
  proof
    assume "\<exists>q \<in> set qs. p \<in> set (IMPLIES q)"
    then obtain q where q: "q \<in> set qs" "p \<in> set (IMPLIES q)" by blast
    have "dominated_closed ks" using gate_lists_closed requiredPermFor_gate Some by blast
    with q p(1) IMPLIES_Perms [OF q(2)] have "q \<in> set ks"
      by (auto simp: dominated_closed_def list_ex_iff)
    with q show ?thesis by blast
  qed (use p in blast)
  with Some show ?thesis by (auto simp: passes_gate_def list_ex_iff)
qed (simp add: passes_gate_def)

section \<open>Minting and reading a session\<close>

type_synonym 'j signer = "string \<Rightarrow> jwt_payload \<Rightarrow> 'j"
type_synonym 'j verifier = "string \<Rightarrow> int \<Rightarrow> 'j \<Rightarrow> jwt_payload option"

definition jose_laws :: "'j signer \<Rightarrow> 'j verifier \<Rightarrow> bool" where
  \<comment> \<open>a signed token verifies under its secret until it expires, and nothing else does\<close>
  "jose_laws sign verify \<longleftrightarrow>
     (\<forall>k now p. verify k now (sign k p) = (if now < j_exp p then Some p else None))
     \<and> (\<forall>k now j p. verify k now j = Some p \<longrightarrow> j = sign k p)"

definition signSession :: "'j signer \<Rightarrow> auth_env \<Rightarrow> int \<Rightarrow> SessionClaims \<Rightarrow> exn + 'j" where
  \<comment> \<open>the clock is \<open>Date.now()\<close> in milliseconds\<close>
  "signSession sign env ms claims =
    (let now = ms div 1000;
         ttl = (if c_imp claims \<noteq> None then ae_impersonation_ttl env else ae_ttl env)
     in case secretBytes env of Inl e \<Rightarrow> Inl e
        | Inr k \<Rightarrow> Inr (sign k \<lparr>j_claims = claims, j_iat = now, j_exp = now + ttl\<rparr>))"

definition verifySession :: "'j verifier \<Rightarrow> auth_env \<Rightarrow> int \<Rightarrow> 'j \<Rightarrow> SessionClaims option" where
  "verifySession verify env ms jwt = (case secretBytes env of Inl e \<Rightarrow> None
     | Inr k \<Rightarrow> map_option j_claims (verify k (ms div 1000) jwt))"

definition userStillValid :: "db \<Rightarrow> string \<Rightarrow> int \<Rightarrow> bool" where
  "userStillValid d sub pwv = (case js_Number sub of None \<Rightarrow> False
     | Some i \<Rightarrow> (case List.find (\<lambda>u. u_id u = i \<and> u_active u) (users d) of None \<Rightarrow> False
         | Some row \<Rightarrow> u_password_version row = pwv))"

definition or0 :: "int option \<Rightarrow> int" where
  \<comment> \<open>\<open>x ?? 0\<close>\<close>
  "or0 x = (case x of None \<Rightarrow> 0 | Some v \<Rightarrow> v)"

definition getSession :: "'j verifier \<Rightarrow> auth_env \<Rightarrow> int \<Rightarrow> db \<Rightarrow> 'j option \<Rightarrow> SessionClaims option" where
  "getSession verify env ms d cookie = (case cookie of None \<Rightarrow> None
     | Some jwt \<Rightarrow> (case verifySession verify env ms jwt of None \<Rightarrow> None
        | Some claims \<Rightarrow>
            if \<not> userStillValid d (c_sub claims) (or0 (c_pwv claims)) then None
            else (case c_imp claims of None \<Rightarrow> Some claims
               | Some o' \<Rightarrow> if \<not> userStillValid d (i_sub o') (or0 (i_pwv o')) then None
                           else Some claims)))"

datatype same_site = SameSiteStrict | SameSiteLax | SameSiteNone

record 'j cookie =
  ck_value :: "'j option"     \<comment> \<open>\<open>None\<close> is the empty value\<close>
  ck_httpOnly :: bool
  ck_secure :: bool
  ck_sameSite :: same_site
  ck_path :: string
  ck_maxAge :: int

definition setSessionCookie :: "auth_env \<Rightarrow> bool \<Rightarrow> 'j \<Rightarrow> int option \<Rightarrow> 'j cookie" where
  \<comment> \<open>the flag is \<open>COOKIE_INSECURE\<close>\<close>
  "setSessionCookie env insecure jwt ttlSeconds =
     \<lparr>ck_value = Some jwt, ck_httpOnly = True, ck_secure = (\<not> insecure),
      ck_sameSite = SameSiteStrict, ck_path = ''/'',
      ck_maxAge = (case ttlSeconds of None \<Rightarrow> ae_ttl env | Some t \<Rightarrow> t)\<rparr>"

definition clearSessionCookie :: "bool \<Rightarrow> 'j cookie" where
  "clearSessionCookie insecure =
     \<lparr>ck_value = None, ck_httpOnly = True, ck_secure = (\<not> insecure),
      ck_sameSite = SameSiteStrict, ck_path = ''/'', ck_maxAge = 0\<rparr>"

lemma find_active:
  "distinct (map u_id us) \<Longrightarrow>
     List.find (\<lambda>u. u_id u = i \<and> u_active u) us
     = (case List.find (\<lambda>u. u_id u = i) us of None \<Rightarrow> None
        | Some u \<Rightarrow> if u_active u then Some u else None)"
proof (induction us)
  case (Cons u us)
  have "u_id u \<notin> u_id ` set us \<Longrightarrow> List.find (\<lambda>v. u_id v = u_id u \<and> u_active v) us = None"
    by (auto simp: find_None_iff) (metis image_eqI)
  with Cons show ?case by auto
qed simp

lemma userStillValid_iff:
  "wf_users d \<Longrightarrow> userStillValid d (js_String i) v \<longleftrightarrow>
     (\<exists>u. find_user d i = Some u \<and> u_active u \<and> u_password_version u = v)"
  by (auto simp: userStillValid_def find_user_def wf_users_def find_active split: option.splits)

lemma getSession_Some:
  "getSession verify env ms d cookie = Some c \<Longrightarrow>
     userStillValid d (c_sub c) (or0 (c_pwv c))
     \<and> (\<forall>o'. c_imp c = Some o' \<longrightarrow> userStillValid d (i_sub o') (or0 (i_pwv o')))"
  by (auto simp: getSession_def split: option.splits if_splits)

lemma verify_minted:
  assumes "jose_laws sign verify" and "signSession sign env t0 c = Inr j"
  shows "verifySession verify env t j =
    (if t div 1000 < t0 div 1000 + (if c_imp c \<noteq> None then ae_impersonation_ttl env else ae_ttl env)
     then Some c else None)"
  using assms unfolding jose_laws_def
  by (cases "secretBytes env") (auto simp: signSession_def verifySession_def Let_def)

text \<open>
  The users a session depends on: its subject and, when it is impersonated, its driver; and the
  password version it carries for each.
\<close>

definition session_of :: "SessionClaims \<Rightarrow> int \<Rightarrow> bool" where
  "session_of c i \<longleftrightarrow> c_sub c = js_String i \<or> (\<exists>o'. c_imp c = Some o' \<and> i_sub o' = js_String i)"

definition session_version :: "SessionClaims \<Rightarrow> int \<Rightarrow> int option" where
  "session_version c i = (if c_sub c = js_String i then Some (or0 (c_pwv c))
     else (case c_imp c of None \<Rightarrow> None
       | Some o' \<Rightarrow> if i_sub o' = js_String i then Some (or0 (i_pwv o')) else None))"

lemma session_of_version:
  assumes "getSession verify env ms d cookie = Some c" "session_of c i"
  shows "\<exists>v. session_version c i = Some v \<and> userStillValid d (js_String i) v"
  using getSession_Some [OF assms(1)] assms(2)
  by (auto simp: session_of_def session_version_def split: option.splits)

lemma getSession_verified:
  assumes "getSession verify env ms d cookie = Some c"
  obtains jwt k pl where "cookie = Some jwt" "secretBytes env = Inr k"
    "verify k (ms div 1000) jwt = Some pl" "j_claims pl = c"
  using assms by (auto simp: getSession_def verifySession_def split: option.splits sum.splits if_splits)

lemma getSession_stale:
  assumes j: "jose_laws sign verify" and ses: "getSession verify env ms d cookie = Some c"
    and v: "session_version c i = Some v" and stale: "\<not> userStillValid d' (js_String i) v"
  shows "getSession verify env ms' d' cookie = None"
proof (rule ccontr)
  assume "getSession verify env ms' d' cookie \<noteq> None"
  then obtain c' where c': "getSession verify env ms' d' cookie = Some c'" by blast
  obtain jwt k pl where a: "cookie = Some jwt" "secretBytes env = Inr k"
    "verify k (ms div 1000) jwt = Some pl" "j_claims pl = c"
    by (rule getSession_verified [OF ses])
  obtain jwt' k' pl' where b: "cookie = Some jwt'" "secretBytes env = Inr k'"
    "verify k' (ms' div 1000) jwt' = Some pl'" "j_claims pl' = c'"
    by (rule getSession_verified [OF c'])
  have "jwt = sign k pl" using j a(3) unfolding jose_laws_def by blast
  then have "verify k (ms' div 1000) jwt = (if ms' div 1000 < j_exp pl then Some pl else None)"
    using j unfolding jose_laws_def by blast
  then have "c' = c" using a b by (auto split: if_splits)
  then show False
    using getSession_Some [OF c'] v stale by (auto simp: session_version_def split: if_splits option.splits)
qed

section \<open>Claims from the database\<close>

definition perms_of_role :: "db \<Rightarrow> int \<Rightarrow> string list" where
  "perms_of_role d rid = map snd (filter (\<lambda>p. fst p = rid) (role_perms d))"

definition round_secs :: "int \<Rightarrow> int" where
  \<comment> \<open>\<open>EXTRACT(EPOCH FROM t)::bigint\<close>: the cast rounds to the nearest second, half away from 0\<close>
  "round_secs us = sgn us * ((\<bar>us\<bar> + 500000) div 1000000)"

definition access_rows :: "db \<Rightarrow> int \<Rightarrow> (int \<times> int \<times> bool) list" where
  \<comment> \<open>the UNION ALL: shortcode, when access began, whether a floor applies\<close>
  "access_rows d uid =
     map (\<lambda>s. (sc_id s, sc_owner_since s, sc_owner_since s > sc_created_at s))
       (filter (\<lambda>s. sc_owner s = uid) (shortcodes d))
     @ map (\<lambda>g. (gr_shortcode g, gr_granted_at g, True)) (filter (\<lambda>g. gr_user g = uid) (grants d))"

definition access_groups :: "db \<Rightarrow> int \<Rightarrow> (int \<times> int \<times> bool) list" where
  \<comment> \<open>GROUP BY id ORDER BY id, with MIN(from_ts)::bigint and bool_or(floored)\<close>
  "access_groups d uid = (let rows = access_rows d uid in
     map (\<lambda>i. let grp = filter (\<lambda>r. fst r = i) rows in
        (i, round_secs (Min (set (map (fst \<circ> snd) grp))), list_ex (snd \<circ> snd) grp))
       (sort (remdups (map fst rows))))"

definition loadUserClaims :: "db \<Rightarrow> int \<Rightarrow> SessionClaims option" where
  "loadUserClaims d userId =
    (case List.find (\<lambda>u. u_id u = userId \<and> u_active u) (users d) of None \<Rightarrow> None
     | Some row \<Rightarrow> (case find_role d (u_role_id row) of None \<Rightarrow> None
        | Some role \<Rightarrow>
           (let perms = perms_of_role d (u_role_id row);
                (shortcodeIds, shortcodeFrom) =
                  (if REPORTS_VIEW_ALL \<in> set perms then (None, [])
                   else (let sc = access_groups d userId in
                     (Some (map fst sc),
                      map (\<lambda>(i, f, _). (js_String i, f)) (filter (\<lambda>(_, _, re). re) sc))))
            in Some \<lparr>c_sub = js_String (u_id row), c_email = u_email row, c_name = u_name row,
                 c_role = r_key role, c_perms = perms, c_shortcodeIds = shortcodeIds,
                 c_shortcodeFrom = Some shortcodeFrom, c_pwv = Some (u_password_version row),
                 c_imp = None\<rparr>)))"

lemma loadUserClaims_row:
  assumes "loadUserClaims d i = Some c"
  obtains u role where "u \<in> set (users d)" "u_id u = i" "u_active u"
    "find_role d (u_role_id u) = Some role" "c_sub c = js_String i" "c_email c = u_email u"
    "c_role c = r_key role" "c_perms c = perms_of_role d (u_role_id u)"
    "c_pwv c = Some (u_password_version u)" "c_imp c = None"
proof -
  obtain u where u: "List.find (\<lambda>u. u_id u = i \<and> u_active u) (users d) = Some u"
    using assms by (auto simp: loadUserClaims_def split: option.splits)
  obtain role where r: "find_role d (u_role_id u) = Some role"
    using assms u by (auto simp: loadUserClaims_def split: option.splits)
  have "u \<in> set (users d)" "u_id u = i" "u_active u" using find_SomeD [OF u] by auto
  with assms u r show thesis
    by (intro that [of u role]) (auto simp: loadUserClaims_def Let_def split: if_splits)
qed

lemma loadUserClaims_SomeD:
  assumes "loadUserClaims d i = Some c"
  shows "c_sub c = js_String i" "c_imp c = None"
    "\<exists>u \<in> set (users d). u_id u = i \<and> u_active u \<and> c_pwv c = Some (u_password_version u)
       \<and> c_email c = u_email u \<and> c_perms c = perms_of_role d (u_role_id u)
       \<and> role_key_of d (u_role_id u) = Some (c_role c)"
proof -
  obtain u role where u: "u \<in> set (users d)" "u_id u = i" "u_active u"
    "find_role d (u_role_id u) = Some role" "c_sub c = js_String i" "c_email c = u_email u"
    "c_role c = r_key role" "c_perms c = perms_of_role d (u_role_id u)"
    "c_pwv c = Some (u_password_version u)" "c_imp c = None"
    by (rule loadUserClaims_row [OF assms])
  show "c_sub c = js_String i" "c_imp c = None" by (fact u)+
  show "\<exists>u \<in> set (users d). u_id u = i \<and> u_active u \<and> c_pwv c = Some (u_password_version u)
       \<and> c_email c = u_email u \<and> c_perms c = perms_of_role d (u_role_id u)
       \<and> role_key_of d (u_role_id u) = Some (c_role c)"
    by (rule bexI [OF _ u(1)]) (simp add: u role_key_of_def)
qed

lemma loadUserClaims_valid:
  assumes "wf_users d" "loadUserClaims d i = Some c"
  shows "userStillValid d (c_sub c) (or0 (c_pwv c))"
proof -
  obtain u where u: "u \<in> set (users d)" "u_id u = i" "u_active u" "c_pwv c = Some (u_password_version u)"
    using loadUserClaims_SomeD(3) [OF assms(2)] by blast
  then show ?thesis
    using wf_find_user [OF assms(1) u(1)]
    by (auto simp: loadUserClaims_SomeD(1) [OF assms(2)] userStillValid_iff [OF assms(1)] or0_def)
qed

lemma access_groups_ids: "map fst (access_groups d uid) = sort (remdups (map fst (access_rows d uid)))"
  by (simp add: access_groups_def Let_def comp_def)

lemma floor_lookup:
  "distinct (map fst xs) \<Longrightarrow> (i, f, re) \<in> set xs \<Longrightarrow>
     map_of (map (\<lambda>(i, f, _). (js_String i, f)) (filter (\<lambda>(_, _, re). re) xs)) (js_String i)
     = (if re then Some f else None)"
proof (induction xs)
  case (Cons x xs)
  have n: "i \<notin> fst ` set xs \<Longrightarrow>
      map_of (map (\<lambda>(i, f, _). (js_String i, f)) (filter (\<lambda>(_, _, re). re) xs)) (js_String i) = None" for i
    by (induction xs) auto
  obtain i' f' re' where x: "x = (i', f', re')" by (cases x)
  show ?case
  proof (cases "(i, f, re) = x")
    case True
    with Cons.prems x n [of i] show ?thesis by auto
  next
    case False
    then have "(i, f, re) \<in> set xs" using Cons.prems by simp
    moreover from this have "i \<noteq> i'" using Cons.prems x by force
    ultimately show ?thesis using Cons x by simp
  qed
qed simp

lemma sessionAcl_claims:
  assumes "loadUserClaims d uid = Some c" "REPORTS_VIEW_ALL \<notin> set (c_perms c)"
  shows "sessionAcl (Some c) = Some (map (\<lambda>(i, f, re). \<lparr>g_id = i, g_from = if re then f else 0\<rparr>)
    (access_groups d uid))"
proof -
  let ?gs = "access_groups d uid"
  have c: "c_shortcodeIds c = Some (map fst ?gs)"
    "c_shortcodeFrom c = Some (map (\<lambda>(i, f, _). (js_String i, f)) (filter (\<lambda>(_, _, re). re) ?gs))"
    using assms by (auto simp: loadUserClaims_def Let_def split: option.splits if_splits)
  have d: "distinct (map fst ?gs)" by (simp add: access_groups_ids)
  show ?thesis
    unfolding sessionAcl_def Let_def option.case c
    by (auto simp: floor_lookup [OF d] simp del: map_map)
      (auto simp: floor_lookup [OF d])
qed

definition access_started :: "db \<Rightarrow> int \<Rightarrow> int \<Rightarrow> int \<Rightarrow> bool" where
  \<comment> \<open>the user's access to shortcode \<open>i\<close> had begun at instant \<open>t\<close>, or never had a beginning:
     every row that gives it is an ownership as old as the shortcode\<close>
  "access_started d uid i t \<longleftrightarrow>
     (\<exists>(j, s, fl) \<in> set (access_rows d uid). j = i \<and> s \<le> t)
     \<or> (\<exists>(j, s, fl) \<in> set (access_rows d uid). j = i)
       \<and> (\<forall>(j, s, fl) \<in> set (access_rows d uid). j = i \<longrightarrow> \<not> fl)"

lemma access_groups_mem:
  assumes "(i, f, re) \<in> set (access_groups d uid)"
  obtains s fl where "(i, s, fl) \<in> set (access_rows d uid)" "f = round_secs s"
    "re \<longleftrightarrow> (\<exists>(j, s, fl) \<in> set (access_rows d uid). j = i \<and> fl)"
proof -
  let ?grp = "filter (\<lambda>r. fst r = i) (access_rows d uid)"
  have m: "i \<in> fst ` set (access_rows d uid)" "f = round_secs (Min (set (map (fst \<circ> snd) ?grp)))"
    "re = list_ex (snd \<circ> snd) ?grp"
    using assms by (auto simp: access_groups_def Let_def)
  from m(1) obtain x where "x \<in> set ?grp" by auto
  then have "set (map (fst \<circ> snd) ?grp) \<noteq> {}" by (metis empty_iff image_is_empty set_map)
  then have "Min (set (map (fst \<circ> snd) ?grp)) \<in> set (map (fst \<circ> snd) ?grp)"
    by (intro Min_in) auto
  then obtain s fl where "(i, s, fl) \<in> set (access_rows d uid)"
    "s = Min (set (map (fst \<circ> snd) ?grp))" by auto
  moreover have "re \<longleftrightarrow> (\<exists>(j, s, fl) \<in> set (access_rows d uid). j = i \<and> fl)"
    unfolding m(3) by (auto simp: list_ex_iff)
  ultimately show thesis using m(2) by (intro that) auto
qed

lemma round_secs_bounds: "0 \<le> s \<Longrightarrow> s - 500000 \<le> round_secs s * 1000000"
proof (cases "s = 0")
  case False
  assume "0 \<le> s"
  then have "round_secs s = (s + 500000) div 1000000" using False by (simp add: round_secs_def)
  then show ?thesis by linarith
qed (simp add: round_secs_def)

lemma round_secs_nonneg: "0 \<le> s \<Longrightarrow> 0 \<le> round_secs s"
  by (cases "s = 0") (auto simp: round_secs_def pos_imp_zdiv_nonneg_iff)

end
