(* ===== verification/Users.thy ===== *)
theory Users
  imports Sql Schema Auth
begin

text \<open>
  \<^verbatim>\<open>dashboard/src/lib/users.ts\<close>: the portal accounts.  Creation, the profile update with its
  no-lockout rule, the password operations, and the operations with which a shortcode owner
  manages viewers of their own shortcodes.  Two interfaces state what the rest of the program
  relies on: \<open>account_op\<close> (what every operation keeps of the accounts) and \<open>session_revoker\<close>
  (an operation that signs a user out everywhere).

  \<^verbatim>\<open>bcrypt\<close> is not part of the repository; it is a parameter, with the salt explicit.
\<close>

section \<open>Statements on portal_users\<close>

record bcrypt =
  bc_hash :: "nat \<Rightarrow> ustr \<Rightarrow> string"   \<comment> \<open>salt, password\<close>
  bc_compare :: "ustr \<Rightarrow> string \<Rightarrow> bool"

definition user_check :: "db \<Rightarrow> user_row \<Rightarrow> exn option" where
  \<comment> \<open>the column widths, the two unique indexes and the foreign key a written row must meet\<close>
  "user_check d u =
    (if \<not> (fits 255 (Some (u_email u)) \<and> fits 150 (Some (u_name u)) \<and> fits 32 (u_phone u)
         \<and> fits 255 (Some (u_password_hash u)))
     then Some (PgError ''22001'' None)
     else if list_ex (\<lambda>v. u_id v \<noteq> u_id u \<and> u_email v = u_email u) (users d)
     then Some (PgError unique_violation (Some ''portal_users_email_key''))
     else if list_ex (\<lambda>v. u_id v \<noteq> u_id u \<and> toLowerCase (u_email v) = toLowerCase (u_email u)) (users d)
     then Some (PgError unique_violation (Some ''uq_portal_users_email_lower''))
     else if find_role d (u_role_id u) = None
     then Some (PgError fk_violation (Some ''portal_users_role_id_fkey''))
     else None)"

definition insert_user :: "user_row \<Rightarrow> db \<Rightarrow> exn + db" where
  "insert_user u d = (case user_check d u of Some e \<Rightarrow> Inl e
     | None \<Rightarrow> (case u_created_by u of
         Some c \<Rightarrow> (if find_user d c = None
           then Inl (PgError fk_violation (Some ''portal_users_created_by_user_id_fkey''))
           else Inr (d\<lparr>users := users d @ [u], next_id := next_id d + 1\<rparr>))
       | None \<Rightarrow> Inr (d\<lparr>users := users d @ [u], next_id := next_id d + 1\<rparr>)))"

definition tx_insert_user :: "(int \<Rightarrow> user_row) \<Rightarrow> int txn" where
  \<comment> \<open>INSERT ... RETURNING id, the id drawn from the sequence\<close>
  "tx_insert_user mk = tx_bind (tx_read next_id)
     (\<lambda>i. tx_bind (tx_exec (insert_user (mk i))) (\<lambda>_. tx_return i))"

definition update_user :: "int \<Rightarrow> (user_row \<Rightarrow> user_row) \<Rightarrow> db \<Rightarrow> exn + db" where
  \<comment> \<open>UPDATE portal_users SET ... WHERE id = i; no row is no error\<close>
  "update_user i f d = (case find_user d i of None \<Rightarrow> Inr d
     | Some u \<Rightarrow> (case user_check d (f u) of Some e \<Rightarrow> Inl e | None \<Rightarrow> Inr (upd_user i f d)))"

lemma user_check_None:
  "user_check d u = None \<longleftrightarrow>
     fits 255 (Some (u_email u)) \<and> fits 150 (Some (u_name u)) \<and> fits 32 (u_phone u)
     \<and> fits 255 (Some (u_password_hash u))
     \<and> (\<forall>v \<in> set (users d). u_id v \<noteq> u_id u \<longrightarrow> toLowerCase (u_email v) \<noteq> toLowerCase (u_email u))
     \<and> find_role d (u_role_id u) \<noteq> None"
  unfolding user_check_def by (auto simp: list_ex_iff)

lemma find_role_None: "find_role d i \<noteq> None \<longleftrightarrow> i \<in> r_id ` set (roles d)"
  by (auto simp: find_role_def find_None_iff image_iff)

lemma insert_user_Inr:
  "insert_user u d = Inr d' \<longleftrightarrow> user_check d u = None
     \<and> (\<forall>c. u_created_by u = Some c \<longrightarrow> find_user d c \<noteq> None)
     \<and> d' = d\<lparr>users := users d @ [u], next_id := next_id d + 1\<rparr>"
  by (auto simp: insert_user_def split: option.splits)

lemma tx_insert_user_Inr:
  "tx_insert_user mk d = (Inr i, d') \<longleftrightarrow> i = next_id d \<and> insert_user (mk i) d = Inr d'"
  by (auto simp: tx_insert_user_def tx_success)

lemma insert_user_wf:
  assumes "insert_user u d = Inr d'" "wf_users d" "u_id u = next_id d"
  shows "wf_users d'"
proof -
  from assms(1) have c: "user_check d u = None" and d': "users d' = users d @ [u]"
    "next_id d' = next_id d + 1" "roles d' = roles d"
    by (auto simp: insert_user_Inr)
  have fresh: "\<forall>v \<in> set (users d). u_id v < u_id u" using assms(2,3) by (auto simp: wf_users_def)
  then have e: "\<forall>v \<in> set (users d). toLowerCase (u_email v) \<noteq> toLowerCase (u_email u)"
    using c by (auto simp: user_check_None)
  show ?thesis
    using assms(2) c fresh e unfolding wf_users_def d' user_check_None find_role_None
    by (auto simp: assms(3))
qed

lemma update_user_wf:
  assumes u: "update_user i f d = Inr d'" "wf_users d" and id: "\<And>u. u_id (f u) = u_id u"
  shows "wf_users d'"
proof (cases "find_user d i")
  case (Some u)
  with u have c: "user_check d (f u) = None" and d': "d' = upd_user i f d"
    by (auto simp: update_user_def split: option.splits)
  have m: "u \<in> set (users d)" "u_id u = i" using find_user_mem [OF Some] by auto
  have uniq: "v = u" if "v \<in> set (users d)" "u_id v = i" for v
    using wf_user_unique [OF u(2)] m that by blast
  let ?g = "\<lambda>u. if u_id u = i then f u else u"
  have us: "users d' = map ?g (users d)" by (simp add: d' upd_user_def)
  have ids: "map u_id (map ?g (users d)) = map u_id (users d)" by (auto simp: id)
  have clash: "\<forall>v \<in> set (users d). u_id v \<noteq> i \<longrightarrow> toLowerCase (u_email v) \<noteq> toLowerCase (u_email (f u))"
    using c m(2) by (auto simp: user_check_None id)
  have inj: "inj_on (\<lambda>v. toLowerCase (u_email v)) (set (users d))"
    and dist: "distinct (users d)"
    using u(2) by (auto simp: wf_users_def distinct_map)
  have "inj_on (\<lambda>v. toLowerCase (u_email (?g v))) (set (users d))"
  proof (rule inj_onI)
    fix v w assume v: "v \<in> set (users d)" and w: "w \<in> set (users d)"
      and e: "toLowerCase (u_email (?g v)) = toLowerCase (u_email (?g w))"
    show "v = w"
    proof (cases "u_id v = i \<longleftrightarrow> u_id w = i")
      case True
      then show ?thesis using e uniq [OF v] uniq [OF w] inj_onD [OF inj _ v w] by (auto split: if_splits)
    next
      case False
      then show ?thesis using e clash v w uniq [OF v] uniq [OF w] by (metis (full_types))
    qed
  qed
  then have em: "distinct (map (\<lambda>u. toLowerCase (u_email u)) (map ?g (users d)))"
    using dist by (simp add: distinct_map comp_def)
  have ro: "find_role d (u_role_id (f u)) \<noteq> None" using c by (simp add: user_check_None)
  have roles: "u_role_id (?g v) \<in> r_id ` set (roles d) \<and> u_id (?g v) < next_id d"
    if "v \<in> set (users d)" for v
    using that ro [unfolded find_role_None] u(2) uniq [OF that] m by (auto simp: wf_users_def id)
  show ?thesis
    unfolding wf_users_def us ids
  proof (intro conjI)
    show "\<forall>v \<in> set (map ?g (users d)). u_id v < next_id d' \<and> u_role_id v \<in> r_id ` set (roles d')"
      using roles unfolding d' upd_user_simps set_map by blast
  qed (use u(2) em in \<open>simp_all add: wf_users_def d'\<close>)
qed (use u in \<open>simp add: update_user_def\<close>)

lemma update_user_find:
  assumes "update_user i f d = Inr d'" "\<And>u. u_id (f u) = u_id u"
  shows "find_user d' j = (if j = i then map_option f (find_user d j) else find_user d j)"
  using assms by (auto simp: update_user_def find_user_upd split: option.splits)

lemma update_user_frame:
  assumes "update_user i f d = Inr d'"
  shows "roles d' = roles d" "role_perms d' = role_perms d" "shortcodes d' = shortcodes d"
    "grants d' = grants d" "tokens d' = tokens d" "audit_log d' = audit_log d"
    "next_id d' = next_id d" "operators d' = operators d" "exports d' = exports d"
  using assms by (auto simp: update_user_def split: option.splits)

section \<open>Active super admins\<close>

definition is_super :: "db \<Rightarrow> user_row \<Rightarrow> bool" where
  "is_super d u \<longleftrightarrow> role_key_of d (u_role_id u) = Some ''super_admin''"

definition active_supers :: "db \<Rightarrow> user_row list" where
  "active_supers d = filter (\<lambda>u. u_active u \<and> is_super d u) (users d)"

lemma active_supers_iff:
  assumes wf: "wf_users d"
  shows "active_supers d \<noteq> [] \<longleftrightarrow> (\<exists>i u. find_user d i = Some u \<and> u_active u \<and> is_super d u)"
proof
  assume "active_supers d \<noteq> []"
  then obtain u where "u \<in> set (users d)" "u_active u" "is_super d u"
    by (auto simp: active_supers_def filter_empty_conv)
  with wf_find_user [OF wf this(1)]
  show "\<exists>i u. find_user d i = Some u \<and> u_active u \<and> is_super d u" by blast
next
  assume "\<exists>i u. find_user d i = Some u \<and> u_active u \<and> is_super d u"
  then obtain i u where "find_user d i = Some u" "u_active u" "is_super d u" by blast
  with find_user_mem [OF this(1)] show "active_supers d \<noteq> []"
    by (auto simp: active_supers_def filter_empty_conv)
qed

lemma is_super_frame: "roles d' = roles d \<Longrightarrow> is_super d' = is_super d"
  using role_key_frame [of d' d] by (simp add: is_super_def fun_eq_iff)

section \<open>The interfaces\<close>

locale account_op =
  fixes step :: "db \<Rightarrow> db \<Rightarrow> bool"   \<comment> \<open>the operation may take the database there\<close>
  assumes keeps_wf: "step d d' \<Longrightarrow> wf_users d \<Longrightarrow> wf_users d'"
    and keeps_roles: "step d d' \<Longrightarrow> wf_users d \<Longrightarrow> roles d' = roles d"
    and keeps_super: "step d d' \<Longrightarrow> wf_users d \<Longrightarrow> active_supers d \<noteq> [] \<Longrightarrow> active_supers d' \<noteq> []"
    and keeps_user: "step d d' \<Longrightarrow> wf_users d \<Longrightarrow> find_user d i = Some u \<Longrightarrow>
      \<exists>u'. find_user d' i = Some u' \<and> u_password_version u \<le> u_password_version u'"
begin

lemma chain:
  assumes "step\<^sup>*\<^sup>* d d'" "wf_users d"
  shows "wf_users d'" and "roles d' = roles d"
    and "active_supers d \<noteq> [] \<Longrightarrow> active_supers d' \<noteq> []"
    and "find_user d i = Some u \<Longrightarrow>
      \<exists>u'. find_user d' i = Some u' \<and> u_password_version u \<le> u_password_version u'"
proof -
  have "wf_users d' \<and> roles d' = roles d \<and> (active_supers d \<noteq> [] \<longrightarrow> active_supers d' \<noteq> [])
     \<and> (\<forall>u. find_user d i = Some u \<longrightarrow>
          (\<exists>u'. find_user d' i = Some u' \<and> u_password_version u \<le> u_password_version u'))"
    using assms(1)
  proof induction
    case base
    then show ?case using assms(2) by simp
  next
    case (step y z)
    then show ?case using keeps_wf [of y z] keeps_roles [of y z] keeps_super [of y z]
        keeps_user [of y z i] by (metis order.trans)
  qed
  then show "wf_users d'" and "roles d' = roles d"
    and "active_supers d \<noteq> [] \<Longrightarrow> active_supers d' \<noteq> []"
    and "find_user d i = Some u \<Longrightarrow>
      \<exists>u'. find_user d' i = Some u' \<and> u_password_version u \<le> u_password_version u'"
    by blast+
qed

lemma stale_forever:
  assumes "step\<^sup>*\<^sup>* d d'" "wf_users d" "find_user d i = Some u" "v < u_password_version u"
  shows "\<not> userStillValid d' (js_String i) v"
  using chain(4) [OF assms(1,2,3)] assms(4) chain(1) [OF assms(1,2)]
  by (auto simp: userStillValid_iff)

end

locale session_revoker = account_op step for step +
  fixes target :: int
  assumes bumps: "step d d' \<Longrightarrow> wf_users d \<Longrightarrow> find_user d target = Some u \<Longrightarrow>
      \<exists>u'. find_user d' target = Some u' \<and> u_password_version u < u_password_version u'"
begin

lemma revokes:
  assumes "jose_laws sign verify" "step d d'" "wf_users d"
    and ses: "getSession verify env ms d cookie = Some c" and of: "session_of c target"
  shows "getSession verify env ms' d' cookie = None"
proof -
  obtain v where v: "session_version c target = Some v" "userStillValid d (js_String target) v"
    using session_of_version [OF ses of] by blast
  then obtain u where u: "find_user d target = Some u" "u_password_version u = v"
    by (auto simp: userStillValid_iff [OF assms(3)])
  obtain u' where "find_user d' target = Some u'" "u_password_version u < u_password_version u'"
    using bumps [OF assms(2,3) u(1)] by blast
  with u have "\<not> userStillValid d' (js_String target) v"
    by (auto simp: userStillValid_iff [OF keeps_wf [OF assms(2,3)]])
  then show ?thesis using getSession_stale [OF assms(1) ses v(1)] by blast
qed

end

lemma update_user_laws:
  assumes up: "update_user i f d = Inr d'" and wf: "wf_users d"
    and id: "\<And>u. u_id (f u) = u_id u"
    and mono: "\<And>u. u_password_version u \<le> u_password_version (f u)"
    and sup: "\<And>u. find_user d i = Some u \<Longrightarrow> u_active u \<Longrightarrow> is_super d u \<Longrightarrow>
      u_active (f u) \<and> is_super d (f u)
      \<or> (\<exists>j v. j \<noteq> i \<and> find_user d j = Some v \<and> u_active v \<and> is_super d v)"
  shows "wf_users d'" "roles d' = roles d"
    "active_supers d \<noteq> [] \<Longrightarrow> active_supers d' \<noteq> []"
    "find_user d j = Some u \<Longrightarrow>
       \<exists>u'. find_user d' j = Some u' \<and> u_password_version u \<le> u_password_version u'"
proof -
  show wf': "wf_users d'" by (rule update_user_wf [OF up wf id])
  show ro: "roles d' = roles d" by (rule update_user_frame [OF up])
  have fu: "find_user d' k = (if k = i then map_option f (find_user d k) else find_user d k)" for k
    by (rule update_user_find [OF up id])
  show "find_user d j = Some u \<Longrightarrow>
       \<exists>u'. find_user d' j = Some u' \<and> u_password_version u \<le> u_password_version u'"
    using mono [of u] by (auto simp: fu)
  assume "active_supers d \<noteq> []"
  then obtain k w where w: "find_user d k = Some w" "u_active w" "is_super d w"
    by (auto simp: active_supers_iff [OF wf])
  have "\<exists>k w. find_user d' k = Some w \<and> u_active w \<and> is_super d w"
  proof (cases "k = i")
    case True
    with w have "find_user d i = Some w" by simp
    from sup [OF this w(2,3)] show ?thesis
    proof (elim disjE)
      assume "u_active (f w) \<and> is_super d (f w)"
      then show ?thesis using w True by (intro exI [of _ i] exI [of _ "f w"]) (simp add: fu)
    next
      assume "\<exists>j v. j \<noteq> i \<and> find_user d j = Some v \<and> u_active v \<and> is_super d v"
      then obtain j v where "j \<noteq> i" "find_user d j = Some v" "u_active v" "is_super d v" by blast
      then show ?thesis by (intro exI [of _ j] exI [of _ v]) (simp add: fu)
    qed
  next
    case False
    with w show ?thesis by (intro exI [of _ k] exI [of _ w]) (simp add: fu)
  qed
  then show "active_supers d' \<noteq> []"
    unfolding active_supers_iff [OF wf'] is_super_frame [OF ro] .
qed

lemma insert_user_laws:
  assumes ins: "insert_user u d = Inr d'" and wf: "wf_users d" and id: "u_id u = next_id d"
  shows "wf_users d'" "roles d' = roles d"
    "active_supers d \<noteq> [] \<Longrightarrow> active_supers d' \<noteq> []"
    "find_user d j = Some v \<Longrightarrow>
       \<exists>u'. find_user d' j = Some u' \<and> u_password_version v \<le> u_password_version u'"
proof -
  show wf': "wf_users d'" by (rule insert_user_wf [OF ins wf id])
  have d': "roles d' = roles d" "users d' = users d @ [u]" using ins by (auto simp: insert_user_Inr)
  then show "roles d' = roles d" by simp
  show "active_supers d \<noteq> [] \<Longrightarrow> active_supers d' \<noteq> []"
    by (simp add: active_supers_def d' is_super_frame [OF d'(1)])
  assume "find_user d j = Some v"
  from find_user_mem [OF this] have "v \<in> set (users d')" "u_id v = j" by (simp_all add: d')
  with wf_find_user [OF wf' this(1)] show
    "\<exists>u'. find_user d' j = Some u' \<and> u_password_version v \<le> u_password_version u'" by auto
qed

section \<open>Creating and updating accounts\<close>

record UserCreate =
  uc_email :: string
  uc_name :: string
  uc_phone :: "string option"
  uc_role_id :: int
  uc_password :: ustr

record UserUpdate =
  uu_email :: string
  uu_name :: string
  uu_phone :: "string option"
  uu_role_id :: int
  uu_active :: bool

definition rethrowEmailTaken :: "exn \<Rightarrow> exn" where
  "rethrowEmailTaken e = (case e of
       PgError code constraint \<Rightarrow>
         (if code = ''23505'' \<and> (constraint = Some ''uq_portal_users_email_lower''
               \<or> constraint = Some ''portal_users_email_key'')
          then EmailTakenError else e)
     | _ \<Rightarrow> e)"

definition canChangeEmail :: "int \<Rightarrow> bool \<Rightarrow> int option \<Rightarrow> bool" where
  \<comment> \<open>the actor's id and \<open>isSuperAdmin\<close>, the target's creator\<close>
  "canChangeEmail actor isSuperAdmin created_by \<longleftrightarrow> isSuperAdmin \<or> created_by = Some actor"

definition new_user_row :: "int \<Rightarrow> string \<Rightarrow> string \<Rightarrow> string option \<Rightarrow> int \<Rightarrow> string \<Rightarrow> int \<Rightarrow> int
    \<Rightarrow> user_row" where
  \<comment> \<open>the inserted columns, with the table's defaults for the others\<close>
  "new_user_row now email name phone role hash creator i =
     \<lparr>u_id = i, u_email = email, u_name = name, u_phone = phone, u_role_id = role, u_active = True,
      u_password_hash = hash, u_password_version = 0, u_created_by = Some creator,
      u_created_at = now, u_updated_at = now, u_last_login = None\<rparr>"

definition createUser :: "bcrypt \<Rightarrow> nat \<Rightarrow> int \<Rightarrow> UserCreate \<Rightarrow> int \<Rightarrow> int txn" where
  "createUser bc salt now c creatorId =
    (let hash = bc_hash bc salt (uc_password c)
     in tx_catch (tx_insert_user (new_user_row now (uc_email c) (uc_name c) (uc_phone c) (uc_role_id c)
          hash creatorId)) rethrowEmailTaken)"

definition isSuperAdminRole :: "db \<Rightarrow> int \<Rightarrow> bool" where
  "isSuperAdminRole d roleId \<longleftrightarrow> role_key_of d roleId = Some ''super_admin''"

definition otherSupers :: "db \<Rightarrow> int \<Rightarrow> nat" where
  "otherSupers d i = length (filter (\<lambda>u. role_key_of d (u_role_id u) = Some ''super_admin''
     \<and> u_active u \<and> u_id u \<noteq> i) (users d))"

definition set_profile :: "int \<Rightarrow> UserUpdate \<Rightarrow> user_row \<Rightarrow> user_row" where
  "set_profile now u row = row\<lparr>u_email := uu_email u, u_name := uu_name u, u_phone := uu_phone u,
     u_role_id := uu_role_id u, u_active := uu_active u, u_updated_at := now,
     u_password_version := u_password_version row
       + (if toLowerCase (u_email row) \<noteq> toLowerCase (uu_email u) then 1 else 0)\<rparr>"

definition lockout :: "db \<Rightarrow> int \<Rightarrow> UserUpdate \<Rightarrow> int \<Rightarrow> user_row \<Rightarrow> nolockout_reason option" where
  \<comment> \<open>the checks between the locked read and the UPDATE, in the code's order\<close>
  "lockout d i u actingUserId cur =
    (let wasSuper = role_key_of d (u_role_id cur) = Some ''super_admin'';
         wasActive = u_active cur;
         willBeSuper = isSuperAdminRole d (uu_role_id u)
     in if i = actingUserId \<and> \<not> uu_active u then Some NL_deactivate_yourself
        else if i = actingUserId \<and> wasSuper \<and> \<not> willBeSuper then Some NL_demote_yourself
        else if wasSuper \<and> wasActive \<and> (\<not> uu_active u \<or> \<not> willBeSuper) \<and> otherSupers d i = 0
        then Some NL_last_super_admin
        else None)"

definition updateUser :: "int \<Rightarrow> int \<Rightarrow> UserUpdate \<Rightarrow> int \<Rightarrow> string txn" where
  "updateUser now i u actingUserId = withTx
    (tx_bind (tx_read (\<lambda>d. case find_user d i of None \<Rightarrow> None
         | Some row \<Rightarrow> if role_key_of d (u_role_id row) = None then None else Some row))
     (\<lambda>cur. case cur of
        None \<Rightarrow> tx_throw (NoLockoutError NL_user_not_found)
      | Some row \<Rightarrow> tx_bind (tx_read (\<lambda>d. lockout d i u actingUserId row))
          (\<lambda>r. case r of
             Some reason \<Rightarrow> tx_throw (NoLockoutError reason)
           | None \<Rightarrow> tx_bind (tx_catch (tx_exec (update_user i (set_profile now u))) rethrowEmailTaken)
               (\<lambda>_. tx_return (u_email row)))))"

definition set_password :: "int \<Rightarrow> string \<Rightarrow> user_row \<Rightarrow> user_row" where
  "set_password now hash row = row\<lparr>u_password_hash := hash,
     u_password_version := u_password_version row + 1, u_updated_at := now\<rparr>"

definition resetPassword :: "bcrypt \<Rightarrow> nat \<Rightarrow> int \<Rightarrow> int \<Rightarrow> ustr \<Rightarrow> unit txn" where
  "resetPassword bc salt now i newPassword =
     tx_exec (update_user i (set_password now (bc_hash bc salt newPassword)))"

definition MAX_PASSWORD_BYTES :: nat where "MAX_PASSWORD_BYTES = 72"

datatype pw_error = PwTooShort | PwTooLong | PwMismatch

definition newPasswordError :: "ustr \<Rightarrow> ustr \<Rightarrow> pw_error option" where
  "newPasswordError pw confirm =
    (if length pw < 8 then Some PwTooShort
     else if length (utf8_encode pw) > MAX_PASSWORD_BYTES then Some PwTooLong
     else if pw \<noteq> confirm then Some PwMismatch
     else None)"

definition changeOwnPassword :: "bcrypt \<Rightarrow> nat \<Rightarrow> int \<Rightarrow> int \<Rightarrow> ustr \<Rightarrow> ustr \<Rightarrow> bool txn" where
  "changeOwnPassword bc salt now i currentPassword newPassword =
    (let hash = bc_hash bc salt newPassword
     in withTx (tx_bind (tx_read (\<lambda>d. List.find (\<lambda>u. u_id u = i \<and> u_active u) (users d)))
       (\<lambda>row. case row of
          None \<Rightarrow> tx_return False
        | Some u \<Rightarrow> (if \<not> bc_compare bc currentPassword (u_password_hash u) then tx_return False
            else tx_bind (tx_exec (update_user i (set_password now hash))) (\<lambda>_. tx_return True)))))"

definition emailExists :: "string \<Rightarrow> int option \<Rightarrow> db \<Rightarrow> bool" where
  \<comment> \<open>\<open>excludeId\<close> 0 is falsy\<close>
  "emailExists email excludeId d = (case excludeId of
       Some x \<Rightarrow> (if x \<noteq> 0
         then list_ex (\<lambda>u. toLowerCase (u_email u) = toLowerCase email \<and> u_id u \<noteq> x) (users d)
         else list_ex (\<lambda>u. toLowerCase (u_email u) = toLowerCase email) (users d))
     | None \<Rightarrow> list_ex (\<lambda>u. toLowerCase (u_email u) = toLowerCase email) (users d))"

section \<open>The account operations keep the contract\<close>

lemma new_user_row_id [simp]: "u_id (new_user_row now e n p r h c i) = i"
  by (simp add: new_user_row_def)

lemma set_password_id [simp]: "u_id (set_password now h u) = u_id u"
  and set_password_version [simp]: "u_password_version (set_password now h u) = u_password_version u + 1"
  and set_password_role [simp]: "u_role_id (set_password now h u) = u_role_id u"
  and set_password_active [simp]: "u_active (set_password now h u) = u_active u"
  and set_password_hash [simp]: "u_password_hash (set_password now h u) = h"
  by (simp_all add: set_password_def)

lemma set_profile_id [simp]: "u_id (set_profile now p u) = u_id u"
  and set_profile_role [simp]: "u_role_id (set_profile now p u) = uu_role_id p"
  and set_profile_active [simp]: "u_active (set_profile now p u) = uu_active p"
  and set_profile_email [simp]: "u_email (set_profile now p u) = uu_email p"
  and set_profile_version: "u_password_version (set_profile now p u) = u_password_version u
       + (if toLowerCase (u_email u) \<noteq> toLowerCase (uu_email p) then 1 else 0)"
  by (simp_all add: set_profile_def)

lemma createUser_Inr:
  "createUser bc salt now c creator d = (Inr i, d') \<longleftrightarrow> i = next_id d
     \<and> insert_user (new_user_row now (uc_email c) (uc_name c) (uc_phone c) (uc_role_id c)
         (bc_hash bc salt (uc_password c)) creator i) d = Inr d'"
  by (auto simp: createUser_def tx_catch_Inr tx_insert_user_Inr)

lemma createUser_laws:
  assumes "createUser bc salt now c creator d = (Inr i, d')" and wf: "wf_users d"
  shows "wf_users d'" "roles d' = roles d"
    "active_supers d \<noteq> [] \<Longrightarrow> active_supers d' \<noteq> []"
    "find_user d j = Some v \<Longrightarrow>
       \<exists>u'. find_user d' j = Some u' \<and> u_password_version v \<le> u_password_version u'"
proof -
  from assms(1) have i: "i = next_id d" and
    ins: "insert_user (new_user_row now (uc_email c) (uc_name c) (uc_phone c) (uc_role_id c)
         (bc_hash bc salt (uc_password c)) creator i) d = Inr d'"
    by (auto simp: createUser_Inr)
  note laws = insert_user_laws [OF ins wf]
  show "wf_users d'" "roles d' = roles d"
    "active_supers d \<noteq> [] \<Longrightarrow> active_supers d' \<noteq> []"
    "find_user d j = Some v \<Longrightarrow>
       \<exists>u'. find_user d' j = Some u' \<and> u_password_version v \<le> u_password_version u'"
    using laws i by simp_all
qed

lemma otherSupers_pos:
  assumes "wf_users d" "otherSupers d i \<noteq> 0"
  shows "\<exists>j v. j \<noteq> i \<and> find_user d j = Some v \<and> u_active v \<and> is_super d v"
proof -
  from assms(2) obtain v where "v \<in> set (users d)" "u_id v \<noteq> i" "u_active v" "is_super d v"
    by (auto simp: otherSupers_def filter_empty_conv is_super_def)
  with wf_find_user [OF assms(1) this(1)] show ?thesis by blast
qed

lemma updateUser_Inr:
  "updateUser now i p actor d = (Inr e, d') \<longleftrightarrow> (\<exists>row. find_user d i = Some row
     \<and> role_key_of d (u_role_id row) \<noteq> None \<and> lockout d i p actor row = None
     \<and> e = u_email row \<and> update_user i (set_profile now p) d = Inr d')"
  unfolding updateUser_def
  by (auto simp: tx_success split: option.splits if_splits)

lemma lockout_super:
  assumes "wf_users d" "lockout d i p actor row = None" "u_active row" "is_super d row"
  shows "uu_active p \<and> isSuperAdminRole d (uu_role_id p)
    \<or> (\<exists>j v. j \<noteq> i \<and> find_user d j = Some v \<and> u_active v \<and> is_super d v)"
  using assms otherSupers_pos [OF assms(1), of i]
  by (auto simp: lockout_def Let_def is_super_def split: if_splits)

lemma updateUser_laws:
  assumes up: "updateUser now i p actor d = (Inr e, d')" and wf: "wf_users d"
  shows "wf_users d'" "roles d' = roles d"
    "active_supers d \<noteq> [] \<Longrightarrow> active_supers d' \<noteq> []"
    "find_user d j = Some u \<Longrightarrow>
       \<exists>u'. find_user d' j = Some u' \<and> u_password_version u \<le> u_password_version u'"
proof -
  from up obtain row where r: "find_user d i = Some row" "lockout d i p actor row = None"
    and st: "update_user i (set_profile now p) d = Inr d'"
    by (auto simp: updateUser_Inr)
  have sup: "u_active (set_profile now p u) \<and> is_super d (set_profile now p u)
      \<or> (\<exists>j v. j \<noteq> i \<and> find_user d j = Some v \<and> u_active v \<and> is_super d v)"
    if "find_user d i = Some u" "u_active u" "is_super d u" for u
    using lockout_super [OF wf r(2)] that r(1) by (auto simp: is_super_def isSuperAdminRole_def)
  note laws = update_user_laws [OF st wf set_profile_id _ sup]
  show "wf_users d'" "roles d' = roles d"
    "active_supers d \<noteq> [] \<Longrightarrow> active_supers d' \<noteq> []"
    "find_user d j = Some u \<Longrightarrow>
       \<exists>u'. find_user d' j = Some u' \<and> u_password_version u \<le> u_password_version u'"
    using laws by (auto simp: set_profile_version)
qed

lemma updateUser_bump:
  assumes "updateUser now i p actor d = (Inr e, d')" "toLowerCase e \<noteq> toLowerCase (uu_email p)"
    "find_user d i = Some u"
  shows "\<exists>u'. find_user d' i = Some u' \<and> u_password_version u < u_password_version u'"
  using assms by (auto simp: updateUser_Inr update_user_find set_profile_version)

lemma set_password_laws:
  assumes st: "update_user i (set_password now h) d = Inr d'" and wf: "wf_users d"
  shows "wf_users d'" "roles d' = roles d"
    "active_supers d \<noteq> [] \<Longrightarrow> active_supers d' \<noteq> []"
    "find_user d j = Some u \<Longrightarrow>
       \<exists>u'. find_user d' j = Some u' \<and> u_password_version u \<le> u_password_version u'"
    "find_user d i = Some u \<Longrightarrow>
       \<exists>u'. find_user d' i = Some u' \<and> u_password_version u < u_password_version u'"
proof -
  note laws = update_user_laws [OF st wf set_password_id]
  show "wf_users d'" "roles d' = roles d"
    "active_supers d \<noteq> [] \<Longrightarrow> active_supers d' \<noteq> []"
    "find_user d j = Some u \<Longrightarrow>
       \<exists>u'. find_user d' j = Some u' \<and> u_password_version u \<le> u_password_version u'"
    using laws by (auto simp: is_super_def)
  show "find_user d i = Some u \<Longrightarrow>
       \<exists>u'. find_user d' i = Some u' \<and> u_password_version u < u_password_version u'"
    by (auto simp: update_user_find [OF st])
qed

lemma changeOwnPassword_Inr:
  "changeOwnPassword bc salt now i cur new d = (Inr b, d') \<longleftrightarrow>
     (case List.find (\<lambda>u. u_id u = i \<and> u_active u) (users d) of None \<Rightarrow> \<not> b \<and> d' = d
      | Some u \<Rightarrow> if bc_compare bc cur (u_password_hash u)
          then b \<and> update_user i (set_password now (bc_hash bc salt new)) d = Inr d'
          else \<not> b \<and> d' = d)"
  unfolding changeOwnPassword_def Let_def
  by (auto simp: tx_success split: option.splits if_splits)

interpretation create: account_op "\<lambda>d d'. \<exists>i. createUser bc salt now c creator d = (Inr i, d')"
  for bc salt now c creator
  by unfold_locales (auto dest: createUser_laws)

interpretation profile: account_op "\<lambda>d d'. \<exists>e. updateUser now i p actor d = (Inr e, d')"
  for now i p actor
  by unfold_locales (auto dest: updateUser_laws)

interpretation reset: session_revoker "\<lambda>d d'. \<exists>u. resetPassword bc salt now i pw d = (Inr u, d')" i
  for bc salt now i pw
  by unfold_locales (auto simp: resetPassword_def tx_exec_Inr dest: set_password_laws)

interpretation change: session_revoker
  "\<lambda>d d'. changeOwnPassword bc salt now i cur new d = (Inr True, d')" i
  for bc salt now i cur new
  by unfold_locales (auto simp: changeOwnPassword_Inr dest: set_password_laws
      split: option.splits if_splits)

interpretation email_change: session_revoker
  "\<lambda>d d'. \<exists>e. updateUser now i p actor d = (Inr e, d')
     \<and> toLowerCase e \<noteq> toLowerCase (uu_email p)" i
  for now i p actor
  by unfold_locales (auto dest: updateUser_laws updateUser_bump)

section \<open>Listing accounts\<close>

record UserListFilters =
  ulf_roleId :: "int option"
  ulf_active :: "bool option"
  ulf_search :: "string option"

record UserRow =
  ur_id :: int
  ur_email :: string
  ur_name :: string
  ur_phone :: "string option"
  ur_role_id :: int
  ur_role_key :: string
  ur_role_label :: string
  ur_active :: bool
  ur_created_at :: int
  ur_last_login :: "int option"
  ur_owned_shortcode_count :: nat

definition user_sql :: "user_row \<Rightarrow> row" where
  \<comment> \<open>the columns the filters mention\<close>
  "user_sql u c = (if c = ''u.role_id'' then VInt (u_role_id u)
     else if c = ''u.active'' then VBool (u_active u)
     else if c = ''u.email'' then VStr (u_email u)
     else if c = ''u.name'' then VStr (u_name u)
     else if c = ''u.phone'' then opt_str (u_phone u) else VNull)"

definition user_where :: "UserListFilters \<Rightarrow> pval list \<Rightarrow> sql_cond list \<times> pval list" where
  "user_where f ps =
    (let (cs1, ps1) = (case ulf_roleId f of None \<Rightarrow> ([], ps)
           | Some r \<Rightarrow> (let (n, ps') = push ps (PInt r) in ([CCmp OpEq ''u.role_id'' (EPar n)], ps')));
         cs2 = (if ulf_active f = Some True then [CColBool ''u.active'' True] else []);
         cs3 = (if ulf_active f = Some False then [CColBool ''u.active'' False] else []);
         (cs4, ps4) = (if truthy (ulf_search f) \<and> trim (str_of (ulf_search f)) \<noteq> []
           then (let (n, ps') = push ps1 (PStr (''%'' @ trim (str_of (ulf_search f)) @ ''%''))
              in ([CEx [CLike True ''u.email'' n, CLike True ''u.name'' n, CLike True ''u.phone'' n]], ps'))
           else ([], ps1))
     in (cs1 @ cs2 @ cs3 @ cs4, ps4))"

definition user_matches :: "UserListFilters \<Rightarrow> row \<Rightarrow> bool" where
  \<comment> \<open>what the filters are to mean of a row\<close>
  "user_matches f r \<longleftrightarrow>
     (\<forall>i. ulf_roleId f = Some i \<longrightarrow> r ''u.role_id'' = VInt i)
     \<and> (\<forall>b. ulf_active f = Some b \<longrightarrow> r ''u.active'' = VBool b)
     \<and> (truthy (ulf_search f) \<and> trim (str_of (ulf_search f)) \<noteq> [] \<longrightarrow>
          (\<exists>c \<in> {''u.email'', ''u.name'', ''u.phone''}. \<exists>s. r c = VStr s \<and>
             like_match (toLowerCase (''%'' @ trim (str_of (ulf_search f)) @ ''%'')) (toLowerCase s)))"

definition user_row_view :: "db \<Rightarrow> user_row \<Rightarrow> role_row \<Rightarrow> UserRow" where
  "user_row_view d u r = \<lparr>ur_id = u_id u, ur_email = u_email u, ur_name = u_name u, ur_phone = u_phone u,
     ur_role_id = u_role_id u, ur_role_key = r_key r, ur_role_label = r_label r, ur_active = u_active u,
     ur_created_at = u_created_at u, ur_last_login = u_last_login u,
     ur_owned_shortcode_count = length (filter (\<lambda>s. sc_active s \<and> sc_owner s = u_id u) (shortcodes d))\<rparr>"

definition join_roles :: "db \<Rightarrow> user_row list \<Rightarrow> UserRow list" where
  "join_roles d us = concat (map (\<lambda>u. case find_role d (u_role_id u) of None \<Rightarrow> []
     | Some r \<Rightarrow> [user_row_view d u r]) us)"

definition listUsers :: "pg \<Rightarrow> (string \<Rightarrow> string \<Rightarrow> bool) \<Rightarrow> UserListFilters \<Rightarrow> db \<Rightarrow> UserRow list" where
  \<comment> \<open>the second parameter is the collation of ORDER BY u.email\<close>
  "listUsers g le f d =
    (let (conds, args) = user_where f []
     in sort_by (\<lambda>a b. le (ur_email a) (ur_email b))
          (join_roles d (filter (\<lambda>u. holds g args (user_sql u) (CAll conds)) (users d))))"

definition getUser :: "int \<Rightarrow> db \<Rightarrow> UserRow option" where
  "getUser i d = (case join_roles d (filter (\<lambda>u. u_id u = i) (users d)) of [] \<Rightarrow> None | r # _ \<Rightarrow> Some r)"

definition listRoles :: "db \<Rightarrow> role_row list" where
  "listRoles d = sort_key r_id (roles d)"

lemma holds_int_eq:
  "holds g (ps @ PInt i # post) r (CCmp OpEq c (EPar (Suc (length ps)))) \<longleftrightarrow> r c = VInt i"
  by (cases "r c") (auto simp: holds_def)

lemma holds_bool: "holds g ps r (CColBool c b) \<longleftrightarrow> r c = VBool b"
  by (cases "r c") (auto simp: holds_def)

interpretation user_builder: cond_builder g user_where user_matches for g
proof (unfold_locales)
  fix f ps cs ps' assume b: "user_where f ps = (cs, ps')"
  then show "\<exists>ext. ps' = ps @ ext"
    by (auto simp: user_where_def push_def Let_def split: option.splits if_splits)
  fix post r
  let ?q = "PStr (''%'' @ trim (str_of (ulf_search f)) @ ''%'')"
  show "holds g (ps' @ post) r (CAll cs) \<longleftrightarrow> user_matches f r"
    using b holds_like [of g "ps @ [PInt (the (ulf_roleId f))]" _ post r True]
      holds_like [of g ps _ post r True] holds_int_eq [of g ps _ post r]
      holds_int_eq [of g ps _ "?q # post" r]
    by (auto simp: user_where_def user_matches_def push_def Let_def holds_bool
        split: option.splits if_splits)
qed

end
