(* ===== verification/Viewers.thy ===== *)
theory Viewers
  imports Users
begin

text \<open>
  The second half of \<^verbatim>\<open>dashboard/src/lib/users.ts\<close>: what a shortcode owner ("Admin", role
  client) may do to the read-only viewers of their own shortcodes.  The contract of these
  operations, beyond \<open>account_op\<close>, is \<open>lane_op\<close>: whatever they do stays within the owner's lane,
  the shortcodes they own and the client_viewer accounts holding a grant on them.
\<close>

section \<open>Reading the lane\<close>

record AdminViewerRow =
  av_id :: int
  av_email :: string
  av_name :: string
  av_phone :: "string option"
  av_active :: bool
  av_created_at :: int
  av_last_login :: "int option"
  av_created_by_user_id :: "int option"
  av_granted_shortcode_ids :: "int list"

definition admin_shortcodes :: "db \<Rightarrow> int \<Rightarrow> int list" where
  "admin_shortcodes d admin = map sc_id (filter (\<lambda>s. sc_owner s = admin) (shortcodes d))"

definition viewer_grants :: "db \<Rightarrow> int \<Rightarrow> int \<Rightarrow> int list" where
  \<comment> \<open>the viewer's grants on the admin's shortcodes\<close>
  "viewer_grants d admin viewer = map gr_shortcode
     (filter (\<lambda>g. gr_user g = viewer \<and> gr_shortcode g \<in> set (admin_shortcodes d admin)) (grants d))"

definition viewer_row :: "user_row \<Rightarrow> int list \<Rightarrow> AdminViewerRow" where
  "viewer_row u ids = \<lparr>av_id = u_id u, av_email = u_email u, av_name = u_name u, av_phone = u_phone u,
     av_active = u_active u, av_created_at = u_created_at u, av_last_login = u_last_login u,
     av_created_by_user_id = u_created_by u, av_granted_shortcode_ids = ids\<rparr>"

definition is_viewer :: "db \<Rightarrow> user_row \<Rightarrow> bool" where
  "is_viewer d u \<longleftrightarrow> role_key_of d (u_role_id u) = Some ''client_viewer''"

definition listViewersForAdmin :: "(string \<Rightarrow> string \<Rightarrow> bool) \<Rightarrow> int \<Rightarrow> db \<Rightarrow> AdminViewerRow list" where
  "listViewersForAdmin le adminUserId d =
     sort_by (\<lambda>a b. le (av_email a) (av_email b))
       (map (\<lambda>u. viewer_row u (sort (viewer_grants d adminUserId (u_id u))))
         (filter (\<lambda>u. is_viewer d u \<and> viewer_grants d adminUserId (u_id u) \<noteq> []) (users d)))"

definition getViewerForAdmin :: "int \<Rightarrow> int \<Rightarrow> db \<Rightarrow> AdminViewerRow option" where
  "getViewerForAdmin viewerId adminUserId d =
    (let gs = viewer_grants d adminUserId viewerId
     in case List.find (\<lambda>u. u_id u = viewerId \<and> is_viewer d u) (users d) of None \<Rightarrow> None
        | Some u \<Rightarrow> if gs = [] then None else Some (viewer_row u gs))"

section \<open>Writing\<close>

record AdminViewerCreate =
  avc_email :: string
  avc_name :: string
  avc_phone :: "string option"
  avc_password :: ustr
  avc_shortcode_ids :: "int list"

record ViewerUpdate =
  vu_email :: string
  vu_name :: string
  vu_phone :: "string option"
  vu_active :: bool

definition ADMIN_MAX_VIEWERS :: nat where "ADMIN_MAX_VIEWERS = 1"

definition assertShortcodesOwnedBy :: "int list \<Rightarrow> int \<Rightarrow> unit txn" where
  "assertShortcodesOwnedBy ids userId =
    (if ids = [] then tx_return ()
     else tx_bind (tx_read (\<lambda>d. filter (\<lambda>s. sc_id s \<in> set ids) (shortcodes d)))
       (\<lambda>rows. case List.find (\<lambda>i. i \<notin> sc_id ` set rows) ids of
          Some i \<Rightarrow> tx_throw (ScopeError (SE_shortcode_not_found i))
        | None \<Rightarrow> (case List.find (\<lambda>s. sc_owner s \<noteq> userId) rows of
            Some s \<Rightarrow> tx_throw (ScopeError (SE_not_owned (sc_id s)))
          | None \<Rightarrow> tx_return ())))"

definition insert_grant :: "int \<Rightarrow> int \<Rightarrow> int \<Rightarrow> db \<Rightarrow> exn + db" where
  \<comment> \<open>INSERT INTO portal_user_shortcodes ... ON CONFLICT DO NOTHING\<close>
  "insert_grant now user sc d =
    (if find_user d user = None
     then Inl (PgError fk_violation (Some ''portal_user_shortcodes_portal_user_id_fkey''))
     else if find_shortcode d sc = None
     then Inl (PgError fk_violation (Some ''portal_user_shortcodes_shortcode_id_fkey''))
     else if list_ex (\<lambda>g. gr_user g = user \<and> gr_shortcode g = sc) (grants d) then Inr d
     else Inr (d\<lparr>grants := grants d @ [\<lparr>gr_user = user, gr_shortcode = sc, gr_granted_at = now\<rparr>]\<rparr>))"

definition countViewers :: "int \<Rightarrow> db \<Rightarrow> nat" where
  \<comment> \<open>COUNT(DISTINCT pus.portal_user_id)\<close>
  "countViewers adminUserId d = length (remdups (map gr_user (filter (\<lambda>g.
      (case find_user d (gr_user g) of None \<Rightarrow> False | Some u \<Rightarrow> is_viewer d u)
      \<and> gr_shortcode g \<in> set (admin_shortcodes d adminUserId)) (grants d))))"

definition createViewerAsAdmin :: "bcrypt \<Rightarrow> nat \<Rightarrow> int \<Rightarrow> AdminViewerCreate \<Rightarrow> int \<Rightarrow> int txn" where
  "createViewerAsAdmin bc salt now c adminUserId =
    (if length (avc_shortcode_ids c) = 0 then tx_throw (ScopeError SE_no_grants)
     else (let hash = bc_hash bc salt (avc_password c) in withTx
       (tx_bind (assertShortcodesOwnedBy (avc_shortcode_ids c) adminUserId) (\<lambda>_.
        tx_bind (tx_read (countViewers adminUserId)) (\<lambda>existing.
        if existing \<ge> ADMIN_MAX_VIEWERS then tx_throw (ScopeError (SE_viewer_limit (int existing)))
        else tx_bind (tx_read (\<lambda>d. List.find (\<lambda>r. r_key r = ''client_viewer'') (roles d))) (\<lambda>roleR.
          case roleR of None \<Rightarrow> tx_throw (ScopeError SE_role_missing)
          | Some r \<Rightarrow> (if r_id r = 0 then tx_throw (ScopeError SE_role_missing)
             else tx_bind (tx_catch (tx_insert_user (new_user_row now (avc_email c) (avc_name c)
                   (avc_phone c) (r_id r) hash adminUserId)) rethrowEmailTaken) (\<lambda>newId.
               tx_bind (tx_for (avc_shortcode_ids c) (\<lambda>sc. tx_exec (insert_grant now newId sc)))
                 (\<lambda>_. tx_return newId)))))))))"

definition delete_grants :: "int \<Rightarrow> int \<Rightarrow> db \<Rightarrow> db" where
  \<comment> \<open>the viewer's grants on the shortcodes of this admin\<close>
  "delete_grants viewerId adminUserId d = d\<lparr>grants := filter (\<lambda>g. \<not> (gr_user g = viewerId
     \<and> gr_shortcode g \<in> set (admin_shortcodes d adminUserId))) (grants d)\<rparr>"

definition viewer_target :: "int \<Rightarrow> db \<Rightarrow> (user_row \<times> string) option" where
  \<comment> \<open>the user with its role key, by the join of both queries\<close>
  "viewer_target viewerId d = (case find_user d viewerId of None \<Rightarrow> None
     | Some u \<Rightarrow> map_option (\<lambda>k. (u, k)) (role_key_of d (u_role_id u)))"

definition setViewerGrantsAsAdmin :: "int \<Rightarrow> int \<Rightarrow> int list \<Rightarrow> int \<Rightarrow> unit txn" where
  "setViewerGrantsAsAdmin now viewerId shortcodeIds adminUserId = withTx
    (tx_bind (tx_read (viewer_target viewerId)) (\<lambda>roleR.
      case roleR of None \<Rightarrow> tx_throw (ScopeError SE_viewer_not_found)
      | Some (u, role_key) \<Rightarrow>
         (if role_key \<noteq> ''client_viewer'' then tx_throw (ScopeError SE_not_a_viewer)
          else tx_bind (assertShortcodesOwnedBy shortcodeIds adminUserId) (\<lambda>_.
               tx_bind (tx_exec (\<lambda>d. Inr (delete_grants viewerId adminUserId d))) (\<lambda>_.
               tx_for shortcodeIds (\<lambda>sc. tx_exec (insert_grant now viewerId sc)))))))"

definition set_viewer :: "int \<Rightarrow> ViewerUpdate \<Rightarrow> int \<Rightarrow> user_row \<Rightarrow> user_row" where
  "set_viewer now u bump row = row\<lparr>u_email := vu_email u, u_name := vu_name u, u_phone := vu_phone u,
     u_active := vu_active u, u_updated_at := now, u_password_version := u_password_version row + bump\<rparr>"

definition updateViewerAsAdmin :: "int \<Rightarrow> int \<Rightarrow> ViewerUpdate \<Rightarrow> int \<Rightarrow> string txn" where
  "updateViewerAsAdmin now viewerId u adminUserId = withTx
    (tx_bind (tx_read (\<lambda>d. map_option (\<lambda>(row, k). (row, k, viewer_grants d adminUserId viewerId \<noteq> []))
        (viewer_target viewerId d))) (\<lambda>r.
      case r of None \<Rightarrow> tx_throw (ScopeError SE_viewer_not_found)
      | Some (row, role_key, has_grant) \<Rightarrow>
         (if role_key \<noteq> ''client_viewer'' then tx_throw (ScopeError SE_not_a_viewer)
          else if \<not> has_grant then tx_throw (ScopeError SE_viewer_not_found)
          else (let emailChanged = (toLowerCase (u_email row) \<noteq> toLowerCase (vu_email u))
            in if emailChanged \<and> \<not> canChangeEmail adminUserId False (u_created_by row)
               then tx_throw (ScopeError SE_email_not_allowed)
               else tx_bind (tx_catch (tx_exec (update_user viewerId
                      (set_viewer now u (if emailChanged then 1 else 0)))) rethrowEmailTaken)
                    (\<lambda>_. tx_return (u_email row))))))"

section \<open>What a successful call did\<close>

lemma assertShortcodesOwnedBy_Inr:
  "assertShortcodesOwnedBy ids userId d = (Inr u, d') \<longleftrightarrow> d' = d
     \<and> set ids \<subseteq> sc_id ` set (shortcodes d)
     \<and> (\<forall>s \<in> set (shortcodes d). sc_id s \<in> set ids \<longrightarrow> sc_owner s = userId)"
proof -
  let ?rows = "filter (\<lambda>s. sc_id s \<in> set ids) (shortcodes d)"
  have missing: "List.find (\<lambda>i. i \<notin> sc_id ` set ?rows) ids = None \<longleftrightarrow>
      set ids \<subseteq> sc_id ` set (shortcodes d)"
    by (auto simp: find_None_iff)
  have owned: "List.find (\<lambda>s. sc_owner s \<noteq> userId) ?rows = None \<longleftrightarrow>
      (\<forall>s \<in> set (shortcodes d). sc_id s \<in> set ids \<longrightarrow> sc_owner s = userId)"
    by (auto simp: find_None_iff)
  show ?thesis
    unfolding assertShortcodesOwnedBy_def missing [symmetric] owned [symmetric]
    by (auto simp: tx_success split: option.splits)
qed

text \<open>
  The lane of an admin after an operation: the accounts that changed are the new ones and the
  viewers the admin had granted to, the grants that changed are on the admin's own shortcodes
  and held by a viewer, and nothing else is written.
\<close>

definition within_lane :: "int \<Rightarrow> db \<Rightarrow> db \<Rightarrow> bool" where
  "within_lane admin d d' \<longleftrightarrow>
     roles d' = roles d \<and> shortcodes d' = shortcodes d \<and> tokens d' = tokens d
     \<and> audit_log d' = audit_log d \<and> operators d' = operators d \<and> exports d' = exports d
     \<and> role_perms d' = role_perms d
     \<and> (\<forall>i. find_user d' i = find_user d i
          \<or> (\<exists>u'. find_user d' i = Some u' \<and> is_viewer d u'
               \<and> (case find_user d i of None \<Rightarrow> u_created_by u' = Some admin
                  | Some u \<Rightarrow> is_viewer d u \<and> viewer_grants d admin i \<noteq> [])))
     \<and> (\<forall>g. (g \<in> set (grants d)) \<noteq> (g \<in> set (grants d')) \<longrightarrow>
          gr_shortcode g \<in> set (admin_shortcodes d admin)
          \<and> (\<exists>u'. find_user d' (gr_user g) = Some u' \<and> is_viewer d u'))"

locale lane_op = account_op step for step +
  fixes admin :: int
  assumes stays: "step d d' \<Longrightarrow> wf_users d \<Longrightarrow> within_lane admin d d'"
begin

lemma others_untouched:
  assumes "step d d'" "wf_users d" "find_user d i = Some u" "\<not> is_viewer d u"
  shows "find_user d' i = Some u" and "\<And>g. gr_user g = i \<Longrightarrow> g \<in> set (grants d') \<longleftrightarrow> g \<in> set (grants d)"
proof -
  note l = stays [OF assms(1,2), unfolded within_lane_def]
  then have "find_user d' i = find_user d i
      \<or> (\<exists>u'. find_user d' i = Some u' \<and> is_viewer d u'
           \<and> (case find_user d i of None \<Rightarrow> u_created_by u' = Some admin
              | Some u \<Rightarrow> is_viewer d u \<and> viewer_grants d admin i \<noteq> []))"
    by blast
  then show f: "find_user d' i = Some u" using assms(3,4) by auto
  fix g :: grant_row assume g: "gr_user g = i"
  show "g \<in> set (grants d') \<longleftrightarrow> g \<in> set (grants d)"
  proof (rule ccontr)
    assume "\<not> ?thesis"
    then obtain u' where "find_user d' (gr_user g) = Some u'" "is_viewer d u'" using l by blast
    with f g assms(4) show False by simp
  qed
qed

end

lemma insert_grants:
  assumes "tx_for ids (\<lambda>sc. tx_exec (insert_grant now user sc)) d = (Inr v, d')"
  shows "\<exists>ext. d' = d\<lparr>grants := grants d @ ext\<rparr>
    \<and> (\<forall>g \<in> set ext. gr_user g = user \<and> gr_shortcode g \<in> set ids \<and> gr_granted_at g = now)
    \<and> (\<forall>i \<in> set ids. \<exists>g \<in> set (grants d'). gr_user g = user \<and> gr_shortcode g = i)
    \<and> (wf_grants d \<longrightarrow> wf_grants d')"
  using assms
proof (induction ids arbitrary: d)
  case Nil
  then show ?case by (intro exI [of _ "[]"]) (simp add: tx_return_def)
next
  case (Cons i ids)
  then obtain d1 where i: "insert_grant now user i d = Inr d1"
    and r: "tx_for ids (\<lambda>sc. tx_exec (insert_grant now user sc)) d1 = (Inr v, d')"
    by (auto simp: tx_success)
  from Cons.IH [OF r] obtain ext where ext: "d' = d1\<lparr>grants := grants d1 @ ext\<rparr>"
    "\<forall>g \<in> set ext. gr_user g = user \<and> gr_shortcode g \<in> set ids \<and> gr_granted_at g = now"
    "\<forall>i \<in> set ids. \<exists>g \<in> set (grants d'). gr_user g = user \<and> gr_shortcode g = i"
    "wf_grants d1 \<longrightarrow> wf_grants d'" by blast
  from i consider (old) "d1 = d" "\<exists>g \<in> set (grants d). gr_user g = user \<and> gr_shortcode g = i"
    | (new) "d1 = d\<lparr>grants := grants d @ [\<lparr>gr_user = user, gr_shortcode = i, gr_granted_at = now\<rparr>]\<rparr>"
      "\<forall>g \<in> set (grants d). \<not> (gr_user g = user \<and> gr_shortcode g = i)"
    by (auto simp: insert_grant_def list_ex_iff split: if_splits)
  then show ?case
  proof cases
    case old
    with ext show ?thesis by (intro exI [of _ ext]) auto
  next
    case new
    from new(2) have "wf_grants d \<longrightarrow> wf_grants d1" by (auto simp: wf_grants_def new(1))
    with ext new(1) show ?thesis
      by (intro exI [of _ "\<lparr>gr_user = user, gr_shortcode = i, gr_granted_at = now\<rparr> # ext"]) auto
  qed
qed

lemma createViewerAsAdmin_Inr:
  assumes "createViewerAsAdmin bc salt now c admin d = (Inr i, d')"
  obtains r d1 where "avc_shortcode_ids c \<noteq> []"
    "set (avc_shortcode_ids c) \<subseteq> sc_id ` set (shortcodes d)"
    "\<forall>s \<in> set (shortcodes d). sc_id s \<in> set (avc_shortcode_ids c) \<longrightarrow> sc_owner s = admin"
    "countViewers admin d < ADMIN_MAX_VIEWERS" "r \<in> set (roles d)" "r_key r = ''client_viewer''"
    "i = next_id d"
    "insert_user (new_user_row now (avc_email c) (avc_name c) (avc_phone c) (r_id r)
       (bc_hash bc salt (avc_password c)) admin i) d = Inr d1"
    "tx_for (avc_shortcode_ids c) (\<lambda>sc. tx_exec (insert_grant now i sc)) d1 = (Inr (), d')"
proof -
  from assms have ne: "avc_shortcode_ids c \<noteq> []"
    by (auto simp: createViewerAsAdmin_def tx_success)
  with assms obtain d0 where a: "assertShortcodesOwnedBy (avc_shortcode_ids c) admin d = (Inr (), d0)"
    by (auto simp: createViewerAsAdmin_def tx_success)
  note own = a [unfolded assertShortcodesOwnedBy_Inr]
  have cnt: "countViewers admin d < ADMIN_MAX_VIEWERS"
    using assms ne own by (auto simp: createViewerAsAdmin_def tx_success assertShortcodesOwnedBy_Inr Let_def split: if_splits)
  obtain r where r: "List.find (\<lambda>r. r_key r = ''client_viewer'') (roles d) = Some r"
    using assms ne own cnt by (auto simp: createViewerAsAdmin_def tx_success assertShortcodesOwnedBy_Inr Let_def split: option.splits)
  have "tx_bind (tx_catch (tx_insert_user (new_user_row now (avc_email c) (avc_name c)
          (avc_phone c) (r_id r) (bc_hash bc salt (avc_password c)) admin)) rethrowEmailTaken) (\<lambda>newId.
        tx_bind (tx_for (avc_shortcode_ids c) (\<lambda>sc. tx_exec (insert_grant now newId sc)))
          (\<lambda>_. tx_return newId)) d = (Inr i, d')"
    using assms ne own cnt r
    by (simp add: createViewerAsAdmin_def Let_def tx_bind_Inr assertShortcodesOwnedBy_Inr tx_read_Inr
        tx_throw_Inr split: if_splits)
  then obtain d1 where ins: "i = next_id d" "insert_user (new_user_row now (avc_email c) (avc_name c)
         (avc_phone c) (r_id r) (bc_hash bc salt (avc_password c)) admin i) d = Inr d1"
    and gr: "tx_for (avc_shortcode_ids c) (\<lambda>sc. tx_exec (insert_grant now i sc)) d1 = (Inr (), d')"
    by (auto simp: tx_success tx_insert_user_Inr)
  show thesis
    using own find_SomeD [OF r] by (intro that [OF ne _ _ cnt _ _ ins gr]) simp_all
qed

lemma createViewer_laws:
  assumes cv: "createViewerAsAdmin bc salt now c admin d = (Inr i, d')" and wf: "wf_users d"
  shows "wf_users d'" "roles d' = roles d"
    "active_supers d \<noteq> [] \<Longrightarrow> active_supers d' \<noteq> []"
    "find_user d j = Some v \<Longrightarrow>
       \<exists>u'. find_user d' j = Some u' \<and> u_password_version v \<le> u_password_version u'"
    "within_lane admin d d'"
proof -
  obtain r d1 where b: "set (avc_shortcode_ids c) \<subseteq> sc_id ` set (shortcodes d)"
    "\<forall>s \<in> set (shortcodes d). sc_id s \<in> set (avc_shortcode_ids c) \<longrightarrow> sc_owner s = admin"
    "r \<in> set (roles d)" "r_key r = ''client_viewer''" "i = next_id d"
    and ins: "insert_user (new_user_row now (avc_email c) (avc_name c) (avc_phone c) (r_id r)
       (bc_hash bc salt (avc_password c)) admin i) d = Inr d1"
    and gr: "tx_for (avc_shortcode_ids c) (\<lambda>sc. tx_exec (insert_grant now i sc)) d1 = (Inr (), d')"
    by (rule createViewerAsAdmin_Inr [OF cv]) blast
  let ?u = "new_user_row now (avc_email c) (avc_name c) (avc_phone c) (r_id r)
       (bc_hash bc salt (avc_password c)) admin i"
  obtain ext where e: "d' = d1\<lparr>grants := grants d1 @ ext\<rparr>"
    "\<forall>g \<in> set ext. gr_user g = i \<and> gr_shortcode g \<in> set (avc_shortcode_ids c)"
    using insert_grants [OF gr] by blast
  have d1: "d1 = d\<lparr>users := users d @ [?u], next_id := next_id d + 1\<rparr>"
    using ins by (simp add: insert_user_Inr)
  have same: "users d' = users d1" "roles d' = roles d1" "next_id d' = next_id d1" by (simp_all add: e)
  note laws = insert_user_laws [OF ins wf, unfolded new_user_row_id, OF b(5)]
  have fu: "find_user d' = find_user d1" by (rule find_user_frame [OF same(1)])
  show "wf_users d'" using laws(1) by (simp add: wf_users_def same)
  show ro: "roles d' = roles d" using laws(2) same by simp
  show "active_supers d \<noteq> [] \<Longrightarrow> active_supers d' \<noteq> []"
    using laws(3) is_super_frame [OF same(2)] by (simp add: active_supers_def same)
  show "find_user d j = Some v \<Longrightarrow>
       \<exists>u'. find_user d' j = Some u' \<and> u_password_version v \<le> u_password_version u'"
    using laws(4) unfolding fu .
  have vw: "is_viewer d ?u"
    using wf_find_role [OF wf b(3)] b(4) by (simp add: is_viewer_def new_user_row_def role_key_of_def)
  have fresh: "\<forall>w \<in> set (users d). u_id w \<noteq> i"
    using wf b(5) unfolding wf_users_def by (metis less_irrefl)
  have old: "find_user d' k = (if k = i then Some ?u else find_user d k)" for k
  proof -
    have f: "List.find P (xs @ [x]) = (case List.find P xs of None \<Rightarrow> if P x then Some x else None | r \<Rightarrow> r)"
      for P xs and x :: user_row by (induction xs) auto
    have "find_user d i = None" using fresh by (auto simp: find_user_def find_None_iff)
    then show ?thesis unfolding fu by (auto simp: find_user_def d1 f split: option.splits)
  qed
  have own: "gr_shortcode g \<in> set (admin_shortcodes d admin)" if "g \<in> set ext" for g
  proof -
    from that e(2) b(1) obtain s where "s \<in> set (shortcodes d)" "sc_id s = gr_shortcode g" by fastforce
    with that e(2) b(2) show ?thesis unfolding admin_shortcodes_def by force
  qed
  have "find_user d i = None" using fresh by (auto simp: find_user_def find_None_iff)
  then show "within_lane admin d d'"
    unfolding within_lane_def old using vw own e
    by (auto simp: d1 new_user_row_def)
qed

interpretation add_viewer: lane_op
  "\<lambda>d d'. \<exists>i. createViewerAsAdmin bc salt now c admin d = (Inr i, d')" admin for bc salt now c admin
  by unfold_locales (auto dest: createViewer_laws)

lemma viewer_target_Some:
  "viewer_target i d = Some (u, k) \<longleftrightarrow> find_user d i = Some u \<and> role_key_of d (u_role_id u) = Some k"
  by (auto simp: viewer_target_def split: option.splits)

lemma setViewerGrantsAsAdmin_Inr:
  assumes "setViewerGrantsAsAdmin now viewer ids admin d = (Inr v, d')"
  obtains u where "find_user d viewer = Some u" "is_viewer d u"
    "set ids \<subseteq> sc_id ` set (shortcodes d)"
    "\<forall>s \<in> set (shortcodes d). sc_id s \<in> set ids \<longrightarrow> sc_owner s = admin"
    "tx_for ids (\<lambda>sc. tx_exec (insert_grant now viewer sc)) (delete_grants viewer admin d) = (Inr (), d')"
  using assms that
  by (auto simp: setViewerGrantsAsAdmin_def tx_success assertShortcodesOwnedBy_Inr viewer_target_Some
      is_viewer_def split: option.splits if_splits)

lemma owned_ids:
  assumes "set ids \<subseteq> sc_id ` set (shortcodes d)"
    "\<forall>s \<in> set (shortcodes d). sc_id s \<in> set ids \<longrightarrow> sc_owner s = admin"
  shows "set ids \<subseteq> set (admin_shortcodes d admin)"
  using assms unfolding admin_shortcodes_def by fastforce

lemma setViewerGrants_laws:
  assumes "setViewerGrantsAsAdmin now viewer ids admin d = (Inr v, d')" and wf: "wf_users d"
  shows "wf_users d'" "roles d' = roles d" "users d' = users d"
    "within_lane admin d d'"
    "set (viewer_grants d' admin viewer) = set ids"
    "wf_grants d \<Longrightarrow> wf_grants d'"
proof -
  obtain u where u: "find_user d viewer = Some u" "is_viewer d u"
    and own: "set ids \<subseteq> sc_id ` set (shortcodes d)"
      "\<forall>s \<in> set (shortcodes d). sc_id s \<in> set ids \<longrightarrow> sc_owner s = admin"
    and gr: "tx_for ids (\<lambda>sc. tx_exec (insert_grant now viewer sc)) (delete_grants viewer admin d)
       = (Inr (), d')"
    by (rule setViewerGrantsAsAdmin_Inr [OF assms(1)])
  let ?d1 = "delete_grants viewer admin d"
  obtain ext where e: "d' = ?d1\<lparr>grants := grants ?d1 @ ext\<rparr>"
    "\<forall>g \<in> set ext. gr_user g = viewer \<and> gr_shortcode g \<in> set ids \<and> gr_granted_at g = now"
    "\<forall>i \<in> set ids. \<exists>g \<in> set (grants d'). gr_user g = viewer \<and> gr_shortcode g = i"
    "wf_grants ?d1 \<longrightarrow> wf_grants d'"
    using insert_grants [OF gr] by blast
  have sc: "set ids \<subseteq> set (admin_shortcodes d admin)" by (rule owned_ids [OF own])
  show us: "users d' = users d" and ro: "roles d' = roles d" by (simp_all add: e(1) delete_grants_def)
  have nx: "next_id d' = next_id d" by (simp add: e(1) delete_grants_def)
  show "wf_users d'" using wf by (simp add: wf_users_def us ro nx)
  have fu: "find_user d' = find_user d" by (rule find_user_frame [OF us])
  have ad: "admin_shortcodes d' admin = admin_shortcodes d admin"
    by (simp add: admin_shortcodes_def e(1) delete_grants_def)
  have mem: "g \<in> set (grants d') \<longleftrightarrow> g \<in> set (grants d) \<and> \<not> (gr_user g = viewer
      \<and> gr_shortcode g \<in> set (admin_shortcodes d admin)) \<or> g \<in> set ext" for g
    by (auto simp: e(1) delete_grants_def)
  show "within_lane admin d d'"
    unfolding within_lane_def fu using u sc e(2) mem
    by (auto simp: e(1) delete_grants_def)
  have "set (viewer_grants d' admin viewer) = gr_shortcode ` {g \<in> set (grants d'). gr_user g = viewer
      \<and> gr_shortcode g \<in> set (admin_shortcodes d admin)}"
    by (simp add: viewer_grants_def ad)
  also have "\<dots> = set ids" using sc e(2,3) mem by (auto simp: image_iff) (metis subsetD)
  finally show "set (viewer_grants d' admin viewer) = set ids" .
  have "wf_grants d \<longrightarrow> wf_grants ?d1"
    by (auto simp: wf_grants_def delete_grants_def distinct_map_filter)
  then show "wf_grants d \<Longrightarrow> wf_grants d'" using e(4) by blast
qed

interpretation regrant: lane_op
  "\<lambda>d d'. \<exists>u. setViewerGrantsAsAdmin now viewer ids admin d = (Inr u, d')" admin
  for now viewer ids admin
proof (unfold_locales)
  fix d d' assume "\<exists>u. setViewerGrantsAsAdmin now viewer ids admin d = (Inr u, d')" and wf: "wf_users d"
  then obtain v where st: "setViewerGrantsAsAdmin now viewer ids admin d = (Inr v, d')" by blast
  note laws = setViewerGrants_laws [OF st wf]
  show "wf_users d'" "roles d' = roles d" "within_lane admin d d'" by (fact laws)+
  show "active_supers d \<noteq> [] \<Longrightarrow> active_supers d' \<noteq> []"
    using is_super_frame [OF laws(2)] by (simp add: active_supers_def laws(3))
  show "find_user d i = Some u \<Longrightarrow>
      \<exists>u'. find_user d' i = Some u' \<and> u_password_version u \<le> u_password_version u'" for i u
    by (simp add: find_user_def laws(3))
qed

lemma set_viewer_id [simp]: "u_id (set_viewer now p b u) = u_id u"
  and set_viewer_role [simp]: "u_role_id (set_viewer now p b u) = u_role_id u"
  and set_viewer_email [simp]: "u_email (set_viewer now p b u) = vu_email p"
  and set_viewer_created_by [simp]: "u_created_by (set_viewer now p b u) = u_created_by u"
  and set_viewer_version [simp]: "u_password_version (set_viewer now p b u) = u_password_version u + b"
  by (simp_all add: set_viewer_def)

lemma updateViewerAsAdmin_Inr:
  assumes "updateViewerAsAdmin now viewer p admin d = (Inr e, d')"
  obtains u where "find_user d viewer = Some u" "is_viewer d u" "viewer_grants d admin viewer \<noteq> []"
    "e = u_email u" "toLowerCase e \<noteq> toLowerCase (vu_email p) \<Longrightarrow> u_created_by u = Some admin"
    "update_user viewer (set_viewer now p (if toLowerCase e \<noteq> toLowerCase (vu_email p) then 1 else 0)) d
       = Inr d'"
  using assms that
  by (auto simp: updateViewerAsAdmin_def tx_success viewer_target_Some is_viewer_def Let_def
      canChangeEmail_def split: option.splits if_splits)

lemma updateViewer_laws:
  assumes "updateViewerAsAdmin now viewer p admin d = (Inr e, d')" and wf: "wf_users d"
  shows "wf_users d'" "roles d' = roles d"
    "active_supers d \<noteq> [] \<Longrightarrow> active_supers d' \<noteq> []"
    "find_user d j = Some u \<Longrightarrow>
       \<exists>u'. find_user d' j = Some u' \<and> u_password_version u \<le> u_password_version u'"
    "within_lane admin d d'"
    "toLowerCase e \<noteq> toLowerCase (vu_email p) \<Longrightarrow> find_user d viewer = Some u \<Longrightarrow>
       \<exists>u'. find_user d' viewer = Some u' \<and> u_password_version u < u_password_version u'"
proof -
  obtain w where w: "find_user d viewer = Some w" "is_viewer d w" "viewer_grants d admin viewer \<noteq> []"
    and st: "update_user viewer
      (set_viewer now p (if toLowerCase e \<noteq> toLowerCase (vu_email p) then 1 else 0)) d = Inr d'"
    by (rule updateViewerAsAdmin_Inr [OF assms(1)])
  note fr = update_user_frame [OF st]
  have fu: "find_user d' k = (if k = viewer then map_option
      (set_viewer now p (if toLowerCase e \<noteq> toLowerCase (vu_email p) then 1 else 0)) (find_user d k)
      else find_user d k)" for k
    by (rule update_user_find [OF st]) simp
  have ns: "\<not> is_super d w" using w(2) by (simp add: is_super_def is_viewer_def)
  note laws = update_user_laws [OF st wf set_viewer_id]
  show "wf_users d'" "roles d' = roles d"
    "active_supers d \<noteq> [] \<Longrightarrow> active_supers d' \<noteq> []"
    "find_user d j = Some u \<Longrightarrow>
       \<exists>u'. find_user d' j = Some u' \<and> u_password_version u \<le> u_password_version u'"
    using laws ns w(1) by auto
  show "within_lane admin d d'"
    unfolding within_lane_def fu using w
    by (auto simp: fr is_viewer_def split: option.splits)
  show "toLowerCase e \<noteq> toLowerCase (vu_email p) \<Longrightarrow> find_user d viewer = Some u \<Longrightarrow>
       \<exists>u'. find_user d' viewer = Some u' \<and> u_password_version u < u_password_version u'"
    by (simp add: fu)
qed

interpretation edit_viewer: lane_op
  "\<lambda>d d'. \<exists>e. updateViewerAsAdmin now viewer p admin d = (Inr e, d')" admin
  for now viewer p admin
  by unfold_locales (auto dest: updateViewer_laws)

interpretation viewer_email_change: session_revoker
  "\<lambda>d d'. \<exists>e. updateViewerAsAdmin now viewer p admin d = (Inr e, d')
     \<and> toLowerCase e \<noteq> toLowerCase (vu_email p)" viewer
  for now viewer p admin
  by unfold_locales (auto dest: updateViewer_laws)

section \<open>Sequences of viewer operations\<close>

inductive lane_step :: "int \<Rightarrow> db \<Rightarrow> db \<Rightarrow> bool" for admin where
  ls_create: "createViewerAsAdmin bc salt now c admin d = (Inr i, d') \<Longrightarrow> lane_step admin d d'"
| ls_grants: "setViewerGrantsAsAdmin now viewer ids admin d = (Inr u, d') \<Longrightarrow> lane_step admin d d'"
| ls_update: "updateViewerAsAdmin now viewer p admin d = (Inr e, d') \<Longrightarrow> lane_step admin d d'"

inductive_cases lane_stepE: "lane_step admin d d'"

lemmas lane_laws =
  add_viewer.keeps_wf [OF exI] regrant.keeps_wf [OF exI] edit_viewer.keeps_wf [OF exI]
  add_viewer.keeps_roles [OF exI] regrant.keeps_roles [OF exI] edit_viewer.keeps_roles [OF exI]
  add_viewer.keeps_super [OF exI] regrant.keeps_super [OF exI] edit_viewer.keeps_super [OF exI]
  add_viewer.keeps_user [OF exI] regrant.keeps_user [OF exI] edit_viewer.keeps_user [OF exI]
  add_viewer.stays [OF exI] regrant.stays [OF exI] edit_viewer.stays [OF exI]

interpretation lane: lane_op "lane_step admin" admin for admin
  by unfold_locales (erule lane_stepE; drule (1) lane_laws; (assumption | simp))+

lemma lane_steps_others:
  assumes "(lane_step admin)\<^sup>*\<^sup>* d d'" "wf_users d" "find_user d i = Some u" "\<not> is_viewer d u"
  shows "find_user d' i = Some u \<and> (\<forall>g. gr_user g = i \<longrightarrow> g \<in> set (grants d') \<longleftrightarrow> g \<in> set (grants d))"
  using assms(1)
proof induction
  case base
  then show ?case using assms(3) by simp
next
  case (step y z)
  have wy: "wf_users y" "roles y = roles d" using lane.chain [OF step(1) assms(2)] by blast+
  have "\<not> is_viewer y u" using assms(4) role_key_frame [OF wy(2)] by (simp add: is_viewer_def)
  from lane.others_untouched [OF step(2) wy(1) _ this] step(3) show ?case by blast
qed

section \<open>A sample database\<close>

definition sample_user :: "int \<Rightarrow> string \<Rightarrow> int \<Rightarrow> user_row" where
  "sample_user i email role = \<lparr>u_id = i, u_email = email, u_name = ''N'', u_phone = None,
     u_role_id = role, u_active = True, u_password_hash = ''h'', u_password_version = 0,
     u_created_by = None, u_created_at = 0, u_updated_at = 0, u_last_login = None\<rparr>"

definition sample_shortcode :: "int \<Rightarrow> int \<Rightarrow> shortcode_row" where
  "sample_shortcode i owner = \<lparr>sc_id = i, sc_operator_id = 1, sc_code = dec (nat i), sc_label = None,
     sc_environment = Production, sc_owner = owner, sc_handler_url = ''https://h'',
     sc_auth_mode = AuthNone, sc_bearer_token = None, sc_timeout_secs = 10, sc_active = True,
     sc_status = Active, sc_status_message = None, sc_status_set_by = None, sc_status_set_at = 0,
     sc_payload_format = Gateway, sc_verify_tls = True, sc_created_at = 0, sc_updated_at = 0,
     sc_owner_since = 0\<rparr>"

definition sample_db :: db where
  \<comment> \<open>a super admin (1) and a client (2) who owns shortcode 5; shortcode 6 is the super admin's\<close>
  "sample_db = \<lparr>roles = [\<lparr>r_id = 1, r_key = ''super_admin'', r_label = ''S''\<rparr>,
       \<lparr>r_id = 2, r_key = ''client'', r_label = ''C''\<rparr>, \<lparr>r_id = 3, r_key = ''client_viewer'', r_label = ''V''\<rparr>],
     role_perms = map (Pair 1) Perms @ map (Pair 2) [REPORTS_VIEW_OWN, VIEWERS_MANAGE_OWN,
       SHORTCODES_MANAGE_SANDBOX] @ [(3, REPORTS_VIEW_OWN)],
     users = [sample_user 1 ''root'' 1, sample_user 2 ''cl'' 2], operators = [],
     shortcodes = [sample_shortcode 5 2, sample_shortcode 6 1], grants = [], tokens = [],
     audit_log = [], exports = [], next_id = 10\<rparr>"

definition sample_bcrypt :: bcrypt where
  "sample_bcrypt = \<lparr>bc_hash = (\<lambda>_ pw. map char_of (take 72 pw)),
     bc_compare = (\<lambda>pw h. h = map char_of (take 72 pw))\<rparr>"

lemma sample_db_wf: "wf_db sample_db"
  by (simp add: wf_db_def wf_users_def wf_shortcodes_def wf_grants_def wf_refs_def sample_db_def
      sample_user_def sample_shortcode_def toLowerCase_def lower_char_def dec.simps digit_char_def)

section \<open>Properties\<close>

text \<open>
  C5. Viewer management stays in the admin's lane: after any sequence of viewer operations by one
  admin, every account that is not a client_viewer is exactly as it was, grants included, so no
  sequence can promote, rename, deactivate or sign out anyone else.
\<close>

theorem lane_confined:
  assumes "(lane_step admin)\<^sup>*\<^sup>* d d'" "wf_users d" "find_user d i = Some u" "\<not> is_viewer d u"
  shows "find_user d' i = Some u \<and> (\<forall>g. gr_user g = i \<longrightarrow> g \<in> set (grants d') \<longleftrightarrow> g \<in> set (grants d))"
  using lane_steps_others [OF assms] .

definition sample_viewer :: AdminViewerCreate where
  "sample_viewer = \<lparr>avc_email = ''v'', avc_name = ''V'', avc_phone = None, avc_password = [],
     avc_shortcode_ids = [5]\<rparr>"

definition sample_after :: db where
  \<comment> \<open>the sample database after the client added one viewer\<close>
  "sample_after = sample_db\<lparr>users := users sample_db
       @ [new_user_row 7000000 ''v'' ''V'' None 3 [] 2 10], next_id := 11,
     grants := [\<lparr>gr_user = 10, gr_shortcode = 5, gr_granted_at = 7000000\<rparr>]\<rparr>"

lemma sample_create:
  "createViewerAsAdmin sample_bcrypt 0 7000000 sample_viewer 2 sample_db = (Inr 10, sample_after)"
  by (simp add: createViewerAsAdmin_def sample_viewer_def withTx_def tx_eval assertShortcodesOwnedBy_def
      sample_db_def sample_shortcode_def sample_user_def countViewers_def ADMIN_MAX_VIEWERS_def
      tx_catch_def tx_insert_user_def tx_exec_def insert_user_def user_check_def fits_def new_user_row_def
      sample_bcrypt_def toLowerCase_def lower_char_def find_role_def find_user_def insert_grant_def
      find_shortcode_def sample_after_def)

theorem lane_confined_witness:
  "find_user sample_after 1 = Some (sample_user 1 ''root'' 1)"
proof -
  have "(lane_step 2)\<^sup>*\<^sup>* sample_db sample_after"
    using ls_create [OF sample_create] by (rule r_into_rtranclp)
  moreover have "wf_users sample_db" using sample_db_wf by (simp add: wf_db_def)
  moreover have "find_user sample_db 1 = Some (sample_user 1 ''root'' 1)"
    by (simp add: find_user_def sample_db_def sample_user_def)
  moreover have "\<not> is_viewer sample_db (sample_user 1 ''root'' 1)"
    by (simp add: is_viewer_def role_key_of_def find_role_def sample_db_def sample_user_def)
  ultimately show ?thesis using lane_confined [of 2 sample_db sample_after 1] by blast
qed

text \<open>
  Replacing a viewer's grants leaves, on the admin's own shortcodes, exactly the posted set,
  every one of them owned by that admin, and leaves the grants on other owners' shortcodes and
  those of other viewers as they were.
\<close>

theorem setViewerGrants_exact:
  assumes "setViewerGrantsAsAdmin now viewer ids admin d = (Inr u, d')" "wf_db d"
  shows "set (viewer_grants d' admin viewer) = set ids
    \<and> set ids \<subseteq> set (admin_shortcodes d admin) \<and> wf_db d'
    \<and> (\<forall>g. gr_user g \<noteq> viewer \<or> gr_shortcode g \<notin> set (admin_shortcodes d admin) \<longrightarrow>
          g \<in> set (grants d') \<longleftrightarrow> g \<in> set (grants d))"
proof -
  have wf: "wf_users d" using assms(2) by (simp add: wf_db_def)
  obtain w where w: "find_user d viewer = Some w"
    and own: "set ids \<subseteq> sc_id ` set (shortcodes d)"
      "\<forall>s \<in> set (shortcodes d). sc_id s \<in> set ids \<longrightarrow> sc_owner s = admin"
    and gr: "tx_for ids (\<lambda>sc. tx_exec (insert_grant now viewer sc)) (delete_grants viewer admin d)
       = (Inr (), d')"
    by (rule setViewerGrantsAsAdmin_Inr [OF assms(1)]) blast
  obtain ext where e: "d' = delete_grants viewer admin d
      \<lparr>grants := grants (delete_grants viewer admin d) @ ext\<rparr>"
    "\<forall>g \<in> set ext. gr_user g = viewer \<and> gr_shortcode g \<in> set ids"
    using insert_grants [OF gr] by blast
  have sc: "set ids \<subseteq> set (admin_shortcodes d admin)" by (rule owned_ids [OF own])
  have "wf_refs d'" "wf_shortcodes d'"
    using assms(2) e(2) own(1) find_user_mem [OF w]
    by (auto simp: e(1) wf_db_def wf_refs_def wf_shortcodes_def delete_grants_def)
  then have "wf_db d'"
    using setViewerGrants_laws(1,6) [OF assms(1) wf] assms(2) by (simp add: wf_db_def)
  moreover have "\<forall>g. gr_user g \<noteq> viewer \<or> gr_shortcode g \<notin> set (admin_shortcodes d admin) \<longrightarrow>
      g \<in> set (grants d') \<longleftrightarrow> g \<in> set (grants d)"
    using e(2) sc by (auto simp: e(1) delete_grants_def)
  ultimately show ?thesis using setViewerGrants_laws(5) [OF assms(1) wf] sc by blast
qed

lemma sample_after_wf: "wf_db sample_after"
  by (simp add: wf_db_def wf_users_def wf_shortcodes_def wf_grants_def wf_refs_def sample_after_def
      sample_db_def sample_user_def new_user_row_def sample_shortcode_def toLowerCase_def lower_char_def
      dec.simps digit_char_def)

lemma sample_lane: "admin_shortcodes sample_after 2 = [5]"
  by (simp add: admin_shortcodes_def sample_after_def sample_db_def sample_shortcode_def)

lemma sample_regrant:
  "setViewerGrantsAsAdmin 9000000 10 [] 2 sample_after
     = (Inr (), sample_after\<lparr>grants := []\<rparr>)"
proof -
  have "viewer_target 10 sample_after
      = Some (new_user_row 7000000 ''v'' ''V'' None 3 [] 2 10, ''client_viewer'')"
    by (simp add: viewer_target_def find_user_def role_key_of_def find_role_def sample_after_def
        sample_db_def sample_user_def new_user_row_def)
  moreover have "delete_grants 10 2 sample_after = sample_after\<lparr>grants := []\<rparr>"
    unfolding delete_grants_def sample_lane by (simp add: sample_after_def)
  ultimately show ?thesis
    by (simp add: setViewerGrantsAsAdmin_def withTx_def tx_eval assertShortcodesOwnedBy_def tx_exec_def)
qed

theorem setViewerGrants_exact_witness:
  "set (viewer_grants (sample_after\<lparr>grants := []\<rparr>) 2 10) = {}
   \<and> wf_db (sample_after\<lparr>grants := []\<rparr>)"
  using setViewerGrants_exact [OF sample_regrant sample_after_wf] by simp

lemma access_groups_uniform:
  assumes rows: "access_rows d uid = map (\<lambda>x. (f x, t, True)) xs"
  shows "access_groups d uid = map (\<lambda>j. (j, round_secs t, True)) (sort (remdups (map f xs)))"
proof -
  have "(round_secs (Min (set (map (fst \<circ> snd) (filter (\<lambda>r. fst r = j) (access_rows d uid))))),
      list_ex (snd \<circ> snd) (filter (\<lambda>r. fst r = j) (access_rows d uid))) = (round_secs t, True)"
    if mem: "j \<in> f ` set xs" for j
  proof -
    have flt: "filter (\<lambda>r. fst r = j) (access_rows d uid) = map (\<lambda>x. (f x, t, True)) (filter (\<lambda>x. f x = j) xs)"
      by (simp add: rows filter_map comp_def)
    obtain y ys where y: "filter (\<lambda>x. f x = j) xs = y # ys"
      using mem by (cases "filter (\<lambda>x. f x = j) xs") (auto simp: filter_empty_conv)
    have "set (map (fst \<circ> snd) (map (\<lambda>x. (f x, t, True)) (y # ys))) = {t}" by auto
    then have m: "Min (set (map (fst \<circ> snd) (map (\<lambda>x. (f x, t, True)) (y # ys)))) = t"
      by (simp only: Min_singleton)
    show ?thesis unfolding flt y m by simp
  qed
  then show ?thesis
    unfolding access_groups_def Let_def by (simp add: rows comp_def)
qed

lemma created_viewer:
  assumes cv: "createViewerAsAdmin bc salt now c admin d = (Inr i, d')" and wf: "wf_db d"
  obtains r where "r \<in> set (roles d)" "r_key r = ''client_viewer''" "role_perms d' = role_perms d"
    "find_role d' (r_id r) = Some r" "set (avc_shortcode_ids c) \<subseteq> set (admin_shortcodes d admin)"
    "List.find (\<lambda>u. u_id u = i \<and> u_active u) (users d') = Some (new_user_row now (avc_email c) (avc_name c) (avc_phone c)
       (r_id r) (bc_hash bc salt (avc_password c)) admin i)"
    "access_groups d' i = map (\<lambda>j. (j, round_secs now, True)) (sort (remdups (avc_shortcode_ids c)))"
proof -
  have wfu: "wf_users d" using wf by (simp add: wf_db_def)
  obtain r d1 where r: "set (avc_shortcode_ids c) \<subseteq> sc_id ` set (shortcodes d)"
    "\<forall>s \<in> set (shortcodes d). sc_id s \<in> set (avc_shortcode_ids c) \<longrightarrow> sc_owner s = admin"
    "r \<in> set (roles d)" "r_key r = ''client_viewer''" and i: "i = next_id d"
    and ins: "insert_user (new_user_row now (avc_email c) (avc_name c) (avc_phone c) (r_id r)
       (bc_hash bc salt (avc_password c)) admin i) d = Inr d1"
    and gr: "tx_for (avc_shortcode_ids c) (\<lambda>sc. tx_exec (insert_grant now i sc)) d1 = (Inr (), d')"
    by (rule createViewerAsAdmin_Inr [OF cv]) blast
  let ?u = "new_user_row now (avc_email c) (avc_name c) (avc_phone c) (r_id r)
       (bc_hash bc salt (avc_password c)) admin i"
  obtain ext where e: "d' = d1\<lparr>grants := grants d1 @ ext\<rparr>"
    "\<forall>g \<in> set ext. gr_user g = i \<and> gr_shortcode g \<in> set (avc_shortcode_ids c) \<and> gr_granted_at g = now"
    "\<forall>j \<in> set (avc_shortcode_ids c). \<exists>g \<in> set (grants d'). gr_user g = i \<and> gr_shortcode g = j"
    using insert_grants [OF gr] by blast
  have d1: "d1 = d\<lparr>users := users d @ [?u], next_id := next_id d + 1\<rparr>"
    using ins by (simp add: insert_user_Inr)
  have fresh: "i \<notin> u_id ` set (users d)" using wfu i by (auto simp: wf_users_def)
  have nog: "\<forall>g \<in> set (grants d). gr_user g \<noteq> i" and nos: "\<forall>s \<in> set (shortcodes d). sc_owner s \<noteq> i"
    using wf fresh by (auto simp: wf_db_def wf_refs_def)
  have d': "users d' = users d @ [?u]" "roles d' = roles d" "role_perms d' = role_perms d"
    "shortcodes d' = shortcodes d" "grants d' = grants d @ ext"
    by (simp_all add: e(1) d1)
  have rows: "access_rows d' i = map (\<lambda>g. (gr_shortcode g, now, True)) ext"
    using nog nos e(2) by (auto simp: access_rows_def d' filter_id_conv cong: map_cong)
  have ids: "set (map gr_shortcode ext) = set (avc_shortcode_ids c)"
    using e(2,3) nog by (fastforce simp: d'(5))
  have rf: "find_role d' (r_id r) = Some r"
    using wf_find_role [OF wfu r(3)] by (simp add: find_role_def d'(2))
  have fu: "List.find (\<lambda>u. u_id u = i \<and> u_active u) (users d') = Some ?u"
  proof -
    have "List.find (\<lambda>u. u_id u = i \<and> u_active u) (xs @ [?u]) = Some ?u" if "i \<notin> u_id ` set xs" for xs
      using that by (induction xs) (auto simp: new_user_row_def)
    then show ?thesis using fresh by (simp add: d'(1))
  qed
  have grp: "access_groups d' i = map (\<lambda>j. (j, round_secs now, True))
      (sort (remdups (avc_shortcode_ids c)))"
    using access_groups_uniform [OF rows] ids by (metis sorted_list_of_set_sort_remdups)
  show thesis
    by (rule that [OF r(3,4) d'(3) rf _ fu grp]) (use owned_ids [OF r(1,2)] r(1) in auto)
qed

text \<open>
  C6. A viewer an admin creates can, from the first login, read exactly the shortcodes the admin
  chose, all owned by that admin, and of their traffic only what falls after the creation (to the
  rounding of the floor to seconds); the account has the viewer role and counts to the admin's lane.
\<close>

theorem viewer_sees_only_granted:
  assumes cv: "createViewerAsAdmin bc salt now c admin d = (Inr i, d')" and wf: "wf_db d"
    and perms: "\<And>r. r \<in> set (roles d) \<Longrightarrow> r_key r = ''client_viewer'' \<Longrightarrow>
      REPORTS_VIEW_ALL \<notin> set (perms_of_role d (r_id r))"
  shows "\<exists>claims. loadUserClaims d' i = Some claims \<and> c_role claims = ''client_viewer''
    \<and> sessionAcl (Some claims) = Some (map (\<lambda>s. \<lparr>g_id = s, g_from = round_secs now\<rparr>)
          (sort (remdups (avc_shortcode_ids c))))
    \<and> set (avc_shortcode_ids c) \<subseteq> set (admin_shortcodes d admin)"
proof -
  obtain r where r: "r \<in> set (roles d)" "r_key r = ''client_viewer''" "role_perms d' = role_perms d"
    and rf: "find_role d' (r_id r) = Some r" and owned: "set (avc_shortcode_ids c) \<subseteq> set (admin_shortcodes d admin)"
    and fu: "List.find (\<lambda>u. u_id u = i \<and> u_active u) (users d') = Some (new_user_row now (avc_email c) (avc_name c)
       (avc_phone c) (r_id r) (bc_hash bc salt (avc_password c)) admin i)"
    and grp: "access_groups d' i = map (\<lambda>j. (j, round_secs now, True)) (sort (remdups (avc_shortcode_ids c)))"
    by (rule created_viewer [OF cv wf]) blast
  have np: "REPORTS_VIEW_ALL \<notin> set (perms_of_role d' (r_id r))"
    using perms [OF r(1,2)] by (simp add: perms_of_role_def r(3))
  obtain claims where c: "loadUserClaims d' i = Some claims" "c_role claims = r_key r"
    "c_perms claims = perms_of_role d' (r_id r)"
    using fu rf np by (auto simp: loadUserClaims_def Let_def new_user_row_def)
  have "sessionAcl (Some claims) = Some (map (\<lambda>(i, f, re). \<lparr>g_id = i, g_from = if re then f else 0\<rparr>)
      (access_groups d' i))"
    by (rule sessionAcl_claims [OF c(1)]) (use np c(3) in simp)
  then show ?thesis using c r owned by (simp add: grp comp_def)
qed

theorem viewer_sees_only_granted_witness:
  "\<exists>claims. loadUserClaims sample_after 10 = Some claims \<and> c_role claims = ''client_viewer''
    \<and> sessionAcl (Some claims) = Some [\<lparr>g_id = 5, g_from = 7\<rparr>]"
proof -
  have p: "REPORTS_VIEW_ALL \<notin> set (perms_of_role sample_db (r_id r))"
    if "r \<in> set (roles sample_db)" "r_key r = ''client_viewer''" for r
    using that by (auto simp: sample_db_def perms_of_role_def Perms_def)
  have "round_secs 7000000 = 7" by (simp add: round_secs_def)
  with viewer_sees_only_granted [OF sample_create sample_db_wf p] show ?thesis
    by (auto simp: sample_viewer_def)
qed

end
