(* ===== verification/Password_Reset.thy ===== *)
theory Password_Reset
  imports Viewers
begin

text \<open>
  \<^verbatim>\<open>dashboard/src/lib/passwordReset.ts\<close>: issuing, checking and redeeming password-reset links.
  The token is random text that exists only in the email; the table holds its digest.  SHA-256
  and the random bytes are parameters (\<open>sha\<close> and the token itself).
\<close>

section \<open>Operations\<close>

definition RESET_TTL_MINUTES :: int where "RESET_TTL_MINUTES = 30"

definition token_char :: "char \<Rightarrow> bool" where
  "token_char c \<longleftrightarrow> (let n = (of_char c :: nat) in (65 \<le> n \<and> n \<le> 90) \<or> (97 \<le> n \<and> n \<le> 122)
     \<or> (48 \<le> n \<and> n \<le> 57) \<or> n = 95 \<or> n = 45)"

definition TOKEN_RE :: "string \<Rightarrow> bool" where
  "TOKEN_RE t \<longleftrightarrow> length t = 43 \<and> list_all token_char t"

record ResetTarget =
  rt_id :: int
  rt_email :: string
  rt_name :: string

definition findActiveUserByEmail :: "string \<Rightarrow> db \<Rightarrow> ResetTarget option" where
  "findActiveUserByEmail email d = map_option (\<lambda>u. \<lparr>rt_id = u_id u, rt_email = u_email u, rt_name = u_name u\<rparr>)
     (List.find (\<lambda>u. toLowerCase (u_email u) = toLowerCase email \<and> u_active u) (users d))"

definition purge_tokens :: "int \<Rightarrow> db \<Rightarrow> db" where
  "purge_tokens now d = d\<lparr>tokens := filter (\<lambda>t. \<not> t_expires_at t < now - 24 * 60 * 60 * 1000000) (tokens d)\<rparr>"

definition retire_tokens :: "int \<Rightarrow> int \<Rightarrow> db \<Rightarrow> db" where
  "retire_tokens now userId d = d\<lparr>tokens := map (\<lambda>t. if t_user t = userId \<and> t_used_at t = None
     then t\<lparr>t_used_at := Some now\<rparr> else t) (tokens d)\<rparr>"

definition insert_token :: "int \<Rightarrow> int \<Rightarrow> string \<Rightarrow> string option \<Rightarrow> db \<Rightarrow> exn + db" where
  "insert_token now userId hash ip d =
    (if \<not> fits 64 (Some hash) then Inl (PgError ''22001'' None)
     else if list_ex (\<lambda>t. t_hash t = hash) (tokens d)
     then Inl (PgError unique_violation (Some ''password_reset_tokens_token_hash_key''))
     else if find_user d userId = None
     then Inl (PgError fk_violation (Some ''password_reset_tokens_portal_user_id_fkey''))
     else Inr (d\<lparr>tokens := tokens d @ [\<lparr>t_id = next_id d, t_user = userId, t_hash = hash,
            t_created_at = now, t_expires_at = now + RESET_TTL_MINUTES * 60 * 1000000,
            t_used_at = None, t_ip = ip\<rparr>], next_id := next_id d + 1\<rparr>))"

definition issueResetToken :: "(string \<Rightarrow> string) \<Rightarrow> string \<Rightarrow> int \<Rightarrow> int \<Rightarrow> string option \<Rightarrow> string txn" where
  \<comment> \<open>digest, the random token, the instant\<close>
  "issueResetToken sha token now userId ip = withTx
    (tx_bind (tx_exec (\<lambda>d. Inr (purge_tokens now d))) (\<lambda>_.
     tx_bind (tx_exec (\<lambda>d. Inr (retire_tokens now userId d))) (\<lambda>_.
     tx_bind (tx_exec (insert_token now userId (sha token) ip)) (\<lambda>_. tx_return token))))"

definition token_row :: "int \<Rightarrow> string \<Rightarrow> db \<Rightarrow> (token_row \<times> user_row) option" where
  \<comment> \<open>the row both queries look for: unused, unexpired, of an active user\<close>
  "token_row now hash d = (case List.find (\<lambda>t. t_hash t = hash \<and> t_used_at t = None \<and> t_expires_at t > now
        \<and> (case find_user d (t_user t) of None \<Rightarrow> False | Some u \<Rightarrow> u_active u)) (tokens d) of
       None \<Rightarrow> None
     | Some t \<Rightarrow> map_option (Pair t) (find_user d (t_user t)))"

definition peekResetToken :: "(string \<Rightarrow> string) \<Rightarrow> int \<Rightarrow> string \<Rightarrow> db \<Rightarrow> bool" where
  "peekResetToken sha now token d = (if \<not> TOKEN_RE token then False
     else token_row now (sha token) d \<noteq> None)"

definition consumeResetToken :: "bcrypt \<Rightarrow> nat \<Rightarrow> (string \<Rightarrow> string) \<Rightarrow> int \<Rightarrow> string \<Rightarrow> ustr
    \<Rightarrow> string option txn" where
  "consumeResetToken bc salt sha now token newPassword =
    (if \<not> TOKEN_RE token then tx_return None
     else (let pwHash = bc_hash bc salt newPassword in withTx
       (tx_bind (tx_read (token_row now (sha token))) (\<lambda>r. case r of
          None \<Rightarrow> tx_return None
        | Some (t, u) \<Rightarrow>
            tx_bind (tx_exec (update_user (t_user t) (set_password now pwHash))) (\<lambda>_.
            tx_bind (tx_exec (\<lambda>d. Inr (retire_tokens now (t_user t) d))) (\<lambda>_.
            tx_return (Some (u_email u))))))))"

section \<open>Facts\<close>

lemma token_frames [simp]:
  "users (purge_tokens now d) = users d" "roles (purge_tokens now d) = roles d"
  "next_id (purge_tokens now d) = next_id d"
  "users (retire_tokens now i d) = users d" "roles (retire_tokens now i d) = roles d"
  "next_id (retire_tokens now i d) = next_id d"
  "find_user (purge_tokens now d) = find_user d" "find_user (retire_tokens now i d) = find_user d"
  by (simp_all add: purge_tokens_def retire_tokens_def find_user_def fun_eq_iff)

lemma retired:
  assumes "t \<in> set (tokens (retire_tokens now i d))" "t_user t = i"
  shows "t_used_at t \<noteq> None"
proof -
  let ?f = "\<lambda>t. if t_user t = i \<and> t_used_at t = None then t\<lparr>t_used_at := Some now\<rparr> else t"
  have m: "tokens (retire_tokens now i d) = map ?f (tokens d)" by (simp add: retire_tokens_def)
  obtain s where "t = ?f s" using assms(1) unfolding m set_map by (rule imageE)
  then show ?thesis using assms(2) by (cases "t_user s = i \<and> t_used_at s = None") simp_all
qed

lemma token_row_Some:
  assumes "token_row now h d = Some (t, u)"
  shows "t \<in> set (tokens d)" "t_hash t = h" "t_used_at t = None" "t_expires_at t > now"
    "find_user d (t_user t) = Some u" "u_active u"
proof -
  obtain t' where t': "List.find (\<lambda>t. t_hash t = h \<and> t_used_at t = None \<and> t_expires_at t > now
        \<and> (case find_user d (t_user t) of None \<Rightarrow> False | Some u \<Rightarrow> u_active u)) (tokens d) = Some t'"
    "map_option (Pair t') (find_user d (t_user t')) = Some (t, u)"
    using assms by (auto simp: token_row_def split: option.splits)
  then have "t' = t" "find_user d (t_user t) = Some u" by auto
  with find_SomeD [OF t'(1)] show "t \<in> set (tokens d)" "t_hash t = h" "t_used_at t = None"
    "t_expires_at t > now" "find_user d (t_user t) = Some u" "u_active u" by auto
qed

lemma token_row_None:
  "token_row now h d = None \<longleftrightarrow> (\<forall>t \<in> set (tokens d). t_hash t = h \<longrightarrow> t_used_at t = None \<longrightarrow>
     t_expires_at t > now \<longrightarrow> (\<forall>u. find_user d (t_user t) = Some u \<longrightarrow> \<not> u_active u))"
proof -
  let ?P = "\<lambda>t. t_hash t = h \<and> t_used_at t = None \<and> t_expires_at t > now
        \<and> (case find_user d (t_user t) of None \<Rightarrow> False | Some u \<Rightarrow> u_active u)"
  have "token_row now h d = None \<longleftrightarrow> List.find ?P (tokens d) = None"
  proof (cases "List.find ?P (tokens d)")
    case None
    then show ?thesis by (simp add: token_row_def)
  next
    case (Some t)
    from find_SomeD [OF Some] have "find_user d (t_user t) \<noteq> None" by (auto split: option.splits)
    with Some show ?thesis by (auto simp: token_row_def)
  qed
  then show ?thesis by (auto simp: find_None_iff split: option.splits)
qed

lemma issueResetToken_Inr:
  "issueResetToken sha token now i ip d = (Inr v, d') \<longleftrightarrow> v = token
     \<and> insert_token now i (sha token) ip (retire_tokens now i (purge_tokens now d)) = Inr d'"
  by (auto simp: issueResetToken_def tx_success)

lemma insert_token_Inr:
  "insert_token now i h ip d = Inr d' \<longleftrightarrow> fits 64 (Some h) \<and> (\<forall>t \<in> set (tokens d). t_hash t \<noteq> h)
     \<and> find_user d i \<noteq> None
     \<and> d' = d\<lparr>tokens := tokens d @ [\<lparr>t_id = next_id d, t_user = i, t_hash = h, t_created_at = now,
            t_expires_at = now + RESET_TTL_MINUTES * 60 * 1000000, t_used_at = None, t_ip = ip\<rparr>],
            next_id := next_id d + 1\<rparr>"
  by (auto simp: insert_token_def list_ex_iff)

lemma consumeResetToken_Inr:
  "consumeResetToken bc salt sha now token pw d = (Inr e, d') \<longleftrightarrow>
     (if TOKEN_RE token then (case token_row now (sha token) d of None \<Rightarrow> e = None \<and> d' = d
        | Some (t, u) \<Rightarrow> e = Some (u_email u) \<and> (\<exists>d1.
            update_user (t_user t) (set_password now (bc_hash bc salt pw)) d = Inr d1
            \<and> d' = retire_tokens now (t_user t) d1))
      else e = None \<and> d' = d)"
  by (auto simp: consumeResetToken_def Let_def tx_success split: option.splits prod.splits)

definition token_owner :: "int \<Rightarrow> string \<Rightarrow> db \<Rightarrow> int option" where
  "token_owner now h d = map_option (\<lambda>(t, u). t_user t) (token_row now h d)"

lemma consume_cases:
  assumes c: "consumeResetToken bc salt sha now token pw d = (Inr (Some e), d')" and wf: "wf_users d"
  obtains t u d1 where "TOKEN_RE token" "token_row now (sha token) d = Some (t, u)" "e = u_email u"
    "update_user (t_user t) (set_password now (bc_hash bc salt pw)) d = Inr d1"
    "d' = retire_tokens now (t_user t) d1"
  using assms by (auto simp: consumeResetToken_Inr split: if_splits option.splits)

lemma retire_wf: "wf_users d \<Longrightarrow> wf_users (retire_tokens now i d)"
  and purge_wf: "wf_users d \<Longrightarrow> wf_users (purge_tokens now d)"
  by (simp_all add: wf_users_def)

lemma issue_frame:
  assumes "issueResetToken sha token now i ip d = (Inr v, d')"
  shows "users d' = users d" "roles d' = roles d" "next_id d \<le> next_id d'"
  using assms by (auto simp: issueResetToken_Inr insert_token_Inr)

lemma same_users_laws:
  assumes "users d' = users d" "roles d' = roles d" "next_id d \<le> next_id d'" "wf_users d"
  shows "wf_users d'" "active_supers d \<noteq> [] \<Longrightarrow> active_supers d' \<noteq> []"
    "find_user d i = Some u \<Longrightarrow>
       \<exists>u'. find_user d' i = Some u' \<and> u_password_version u \<le> u_password_version u'"
proof -
  show "wf_users d'" using assms by (force simp: wf_users_def)
  show "active_supers d \<noteq> [] \<Longrightarrow> active_supers d' \<noteq> []"
    by (simp add: active_supers_def assms(1) is_super_frame [OF assms(2)])
  show "find_user d i = Some u \<Longrightarrow>
       \<exists>u'. find_user d' i = Some u' \<and> u_password_version u \<le> u_password_version u'"
    by (simp add: find_user_def assms(1))
qed

lemma issue_find:
  "issueResetToken sha token now i ip d = (Inr v, d') \<Longrightarrow> find_user d' = find_user d"
  by (rule find_user_frame [OF issue_frame(1)])

interpretation issue: account_op "\<lambda>d d'. \<exists>v. issueResetToken sha token now i ip d = (Inr v, d')"
  for sha token now i ip
  by unfold_locales (auto simp: issue_find dest: issue_frame same_users_laws)

lemma consume_laws:
  assumes c: "consumeResetToken bc salt sha now token pw d = (Inr (Some e), d')" and wf: "wf_users d"
  shows "wf_users d'" "roles d' = roles d"
    "active_supers d \<noteq> [] \<Longrightarrow> active_supers d' \<noteq> []"
    "find_user d j = Some u \<Longrightarrow>
       \<exists>u'. find_user d' j = Some u' \<and> u_password_version u \<le> u_password_version u'"
    "token_owner now (sha token) d = Some i \<Longrightarrow> find_user d i = Some u \<Longrightarrow>
       \<exists>u'. find_user d' i = Some u' \<and> u_password_version u < u_password_version u'"
proof -
  obtain t w d1 where t: "token_row now (sha token) d = Some (t, w)"
    and up: "update_user (t_user t) (set_password now (bc_hash bc salt pw)) d = Inr d1"
    and d': "d' = retire_tokens now (t_user t) d1"
    by (rule consume_cases [OF c wf]) blast
  note l1 = set_password_laws [OF up wf]
  show "wf_users d'" unfolding d' by (rule retire_wf [OF l1(1)])
  show "roles d' = roles d" by (simp add: d' l1(2))
  show "active_supers d \<noteq> [] \<Longrightarrow> active_supers d' \<noteq> []"
    using l1(3) is_super_frame [of d' d1] by (simp add: d' active_supers_def)
  show "find_user d j = Some u \<Longrightarrow>
       \<exists>u'. find_user d' j = Some u' \<and> u_password_version u \<le> u_password_version u'"
    using l1(4) by (simp add: d')
  assume "token_owner now (sha token) d = Some i" "find_user d i = Some u"
  with t l1(5) show "\<exists>u'. find_user d' i = Some u' \<and> u_password_version u < u_password_version u'"
    by (simp add: d' token_owner_def)
qed

interpretation consume: session_revoker
  "\<lambda>d d'. \<exists>e. consumeResetToken bc salt sha now token pw d = (Inr (Some e), d')
     \<and> token_owner now (sha token) d = Some i" i
  for bc salt sha now token pw i
  by unfold_locales (auto dest: consume_laws)

section \<open>Properties\<close>

text \<open>
  A link works for thirty minutes and no longer: right after it is issued to an active user,
  it is accepted at every instant of the next half hour and refused from then on.
\<close>

theorem reset_link_window:
  assumes "issueResetToken sha token t0 i ip d = (Inr v, d')" "TOKEN_RE token"
    "find_user d i = Some u" "u_active u" "t0 \<le> t"
  shows "peekResetToken sha t token d' \<longleftrightarrow> t < t0 + 30 * 60 * 1000000"
proof -
  let ?d1 = "retire_tokens t0 i (purge_tokens t0 d)"
  have fresh: "\<forall>t \<in> set (tokens ?d1). t_hash t \<noteq> sha token"
    and d': "tokens d' = tokens ?d1 @ [\<lparr>t_id = next_id ?d1, t_user = i, t_hash = sha token,
      t_created_at = t0, t_expires_at = t0 + RESET_TTL_MINUTES * 60 * 1000000, t_used_at = None, t_ip = ip\<rparr>]"
    using assms(1) by (simp_all add: issueResetToken_Inr insert_token_Inr)
  have "token_row t (sha token) d' = None \<longleftrightarrow> \<not> t < t0 + 30 * 60 * 1000000"
    unfolding token_row_None issue_find [OF assms(1)] d'
    using fresh assms(3,4) by (auto simp: RESET_TTL_MINUTES_def)
  then show ?thesis using assms(2) by (simp add: peekResetToken_def)
qed

text \<open>
  Only the newest link works: once a link is issued to a user, no other token, issued before to
  that user, redeems anything of theirs at any later instant.
\<close>

theorem reset_only_newest:
  assumes "issueResetToken sha token now i ip d = (Inr v, d')" "token_owner t h d' = Some i"
  shows "h = sha token"
proof -
  let ?d1 = "retire_tokens now i (purge_tokens now d)"
  obtain tk u where tk: "token_row t h d' = Some (tk, u)" "t_user tk = i"
    using assms(2) by (auto simp: token_owner_def)
  from assms(1) have d': "tokens d' = tokens ?d1 @ [\<lparr>t_id = next_id ?d1, t_user = i, t_hash = sha token,
      t_created_at = now, t_expires_at = now + RESET_TTL_MINUTES * 60 * 1000000, t_used_at = None, t_ip = ip\<rparr>]"
    by (simp add: issueResetToken_Inr insert_token_Inr)
  have "tk \<notin> set (tokens ?d1)"
    using retired [of tk now i] tk(2) token_row_Some(3) [OF tk(1)] by blast
  with token_row_Some(1) [OF tk(1)] have "t_hash tk = sha token" unfolding d' by auto
  then show ?thesis using token_row_Some(2) [OF tk(1)] by simp
qed

text \<open>
  Everything that can happen to the token table while no link with digest \<open>h\<close> is issued: links
  are issued and redeemed, and other operations leave the table alone.
\<close>

inductive reset_step :: "(string \<Rightarrow> string) \<Rightarrow> string \<Rightarrow> db \<Rightarrow> db \<Rightarrow> bool" for sha h where
  rs_issue: "issueResetToken sha token now i ip d = (r, d') \<Longrightarrow> sha token \<noteq> h \<Longrightarrow> reset_step sha h d d'"
| rs_consume: "consumeResetToken bc salt sha now token pw d = (r, d') \<Longrightarrow> reset_step sha h d d'"
| rs_other: "tokens d' = tokens d \<Longrightarrow> reset_step sha h d d'"

definition spent :: "string \<Rightarrow> db \<Rightarrow> bool" where
  "spent h d \<longleftrightarrow> (\<forall>t \<in> set (tokens d). t_hash t = h \<longrightarrow> t_used_at t \<noteq> None)"

lemma spent_step: "reset_step sha h d d' \<Longrightarrow> spent h d \<Longrightarrow> spent h d'"
proof (induction rule: reset_step.induct)
  case (rs_issue token now i ip d r d')
  then show ?case
    by (cases r) (auto simp: issueResetToken_def tx_eval withTx_def spent_def insert_token_def
        retire_tokens_def purge_tokens_def tx_exec_def split: sum.splits prod.splits if_splits)
next
  case (rs_consume bc salt now token pw d r d')
  show ?case
  proof (cases r)
    case (Inl e)
    then show ?thesis using rs_consume
      by (auto simp: consumeResetToken_def Let_def tx_return_def split: if_splits)
  next
    case (Inr e)
    show ?thesis
    proof (cases "d' = d")
      case False
      then have "\<exists>i d1. update_user i (set_password now (bc_hash bc salt pw)) d = Inr d1
          \<and> d' = retire_tokens now i d1"
        using rs_consume(1) Inr by (fastforce simp: consumeResetToken_Inr split: if_splits option.splits)
      then obtain i d1 where "tokens d1 = tokens d" "d' = retire_tokens now i d1"
        using update_user_frame(5) by blast
      then show ?thesis using rs_consume(2) by (auto simp: spent_def retire_tokens_def)
    qed (use rs_consume(2) in simp)
  qed
qed (simp add: spent_def)

lemma spent_steps: "(reset_step sha h)\<^sup>*\<^sup>* d d' \<Longrightarrow> spent h d \<Longrightarrow> spent h d'"
  by (induction rule: rtranclp_induct) (auto intro: spent_step)

lemma spent_refused: "spent h d \<Longrightarrow> token_row now h d = None"
  by (auto simp: spent_def token_row_None)

lemma consume_spends:
  assumes "consumeResetToken bc salt sha now token pw d = (Inr (Some e), d')" "wf_users d"
    and uniq: "distinct (map t_hash (tokens d))"
  shows "spent (sha token) d'"
proof -
  obtain t w d1 where t: "token_row now (sha token) d = Some (t, w)"
    and up: "update_user (t_user t) (set_password now (bc_hash bc salt pw)) d = Inr d1"
    and d': "d' = retire_tokens now (t_user t) d1"
    by (rule consume_cases [OF assms(1,2)]) blast
  have "x = t" if "x \<in> set (tokens d)" "t_hash x = sha token" for x
    using distinct_map_filter_unique [OF uniq that(1)] token_row_Some(1,2) [OF t] that(2) by metis
  then show ?thesis
    by (auto simp: spent_def d' retire_tokens_def update_user_frame(5) [OF up])
qed

text \<open>
  C7. A link is single use, for good: after it was redeemed, whatever links are issued or redeemed
  and whatever else happens afterwards, it is never accepted again (digests being unique, as the
  table's index has it, and the random token not drawn a second time).
\<close>

theorem reset_single_use:
  assumes "consumeResetToken bc salt sha now token pw d = (Inr (Some e), d1)" "wf_users d"
    "distinct (map t_hash (tokens d))" "(reset_step sha (sha token))\<^sup>*\<^sup>* d1 d2"
  shows "\<not> peekResetToken sha t token d2
    \<and> consumeResetToken bc' salt' sha t token pw' d2 = (Inr None, d2)"
proof -
  have "token_row t (sha token) d2 = None"
    by (rule spent_refused [OF spent_steps [OF assms(4) consume_spends [OF assms(1-3)]]])
  then show ?thesis by (simp add: peekResetToken_def consumeResetToken_Inr)
qed

text \<open>
  Redeeming a link sets its owner's password and bumps its version, and touches no other
  account: exactly one row of portal_users changes, in its hash, version and update time.
\<close>

theorem consume_changes_owner_only:
  assumes "consumeResetToken bc salt sha now token pw d = (Inr (Some e), d')" "wf_users d"
  shows "\<exists>i u. token_owner now (sha token) d = Some i \<and> find_user d i = Some u \<and> e = u_email u
    \<and> u_active u
    \<and> find_user d' i = Some (u\<lparr>u_password_hash := bc_hash bc salt pw,
         u_password_version := u_password_version u + 1, u_updated_at := now\<rparr>)
    \<and> (\<forall>j. j \<noteq> i \<longrightarrow> find_user d' j = find_user d j)"
proof -
  obtain t w d1 where t: "token_row now (sha token) d = Some (t, w)" "e = u_email w"
    and up: "update_user (t_user t) (set_password now (bc_hash bc salt pw)) d = Inr d1"
    and d': "d' = retire_tokens now (t_user t) d1"
    by (rule consume_cases [OF assms]) blast
  note fu = update_user_find [OF up set_password_id]
  show ?thesis
    using token_row_Some [OF t(1)] t
    by (intro exI [of _ "t_user t"] exI [of _ w]) (simp add: token_owner_def d' fu set_password_def)
qed

subsection \<open>Witnesses\<close>

definition sample_token :: string where "sample_token = replicate 43 CHR ''a''"

definition sample_issued :: db where
  "sample_issued = sample_db\<lparr>tokens := [\<lparr>t_id = 10, t_user = 2, t_hash = ''digest'', t_created_at = 0,
     t_expires_at = 1800000000, t_used_at = None, t_ip = None\<rparr>], next_id := 11\<rparr>"

definition sample_digest :: "string \<Rightarrow> string" where "sample_digest t = ''digest''"

lemma sample_issue:
  "issueResetToken sample_digest sample_token 0 2 None sample_db = (Inr sample_token, sample_issued)"
  by (simp add: issueResetToken_def tx_eval tx_exec_def withTx_def purge_tokens_def retire_tokens_def
      insert_token_def sample_digest_def sample_db_def sample_issued_def fits_def find_user_def
      sample_user_def RESET_TTL_MINUTES_def)

lemma sample_token_ok: "TOKEN_RE sample_token"
  by (simp add: TOKEN_RE_def sample_token_def list_all_iff token_char_def)

lemma sample_find: "find_user sample_db 2 = Some (sample_user 2 ''cl'' 2)"
  by (simp add: find_user_def sample_db_def sample_user_def)

lemma sample_db_wf_users: "wf_users sample_db"
  using sample_db_wf by (simp add: wf_db_def)

lemma sample_issued_wf: "wf_users sample_issued"
  using sample_db_wf_users by (force simp: wf_users_def sample_issued_def sample_db_def)

lemma sample_token_row:
  "token_row 5 ''digest'' sample_issued = Some (hd (tokens sample_issued), sample_user 2 ''cl'' 2)"
  by (simp add: token_row_def sample_issued_def sample_db_def find_user_def sample_user_def)

definition sample_redeemed :: db where
  "sample_redeemed = retire_tokens 5 2 (upd_user 2 (set_password 5 ''x'') sample_issued)"

lemma sample_consume:
  "consumeResetToken sample_bcrypt 0 sample_digest 5 sample_token [120] sample_issued
     = (Inr (Some ''cl''), sample_redeemed)"
proof -
  have "update_user 2 (set_password 5 ''x'') sample_issued = Inr (upd_user 2 (set_password 5 ''x'') sample_issued)"
    by (simp add: update_user_def find_user_def sample_issued_def sample_db_def sample_user_def user_check_def
        set_password_def fits_def find_role_def toLowerCase_def lower_char_def)
  moreover have "bc_hash sample_bcrypt 0 [120] = ''x''" by code_simp
  moreover have "t_user (hd (tokens sample_issued)) = 2" by (simp add: sample_issued_def)
  ultimately show ?thesis
    unfolding consumeResetToken_Inr sample_digest_def sample_token_row
    by (simp add: sample_token_ok sample_redeemed_def) (simp add: sample_user_def)
qed

theorem reset_link_window_witness:
  "peekResetToken sample_digest 1799999999 sample_token sample_issued
   \<and> \<not> peekResetToken sample_digest 1800000000 sample_token sample_issued"
  using reset_link_window [OF sample_issue sample_token_ok sample_find, of 1799999999]
    reset_link_window [OF sample_issue sample_token_ok sample_find, of 1800000000]
  by (simp add: sample_user_def)

theorem reset_only_newest_witness:
  "token_owner 5 ''digest'' sample_issued = Some 2 \<and> ''digest'' = sample_digest sample_token"
proof -
  have "token_owner 5 ''digest'' sample_issued = Some 2"
    by (simp add: token_owner_def sample_token_row) (simp add: sample_issued_def)
  with reset_only_newest [OF sample_issue this] show ?thesis by simp
qed

theorem reset_single_use_witness:
  "\<not> peekResetToken sample_digest 6 sample_token sample_redeemed
   \<and> consumeResetToken sample_bcrypt 0 sample_digest 6 sample_token [121] sample_redeemed
       = (Inr None, sample_redeemed)"
  by (rule reset_single_use [OF sample_consume sample_issued_wf _ rtranclp.rtrancl_refl])
    (simp add: sample_issued_def)

theorem consume_changes_owner_only_witness:
  "\<exists>i u. token_owner 5 (sample_digest sample_token) sample_issued = Some i
    \<and> find_user sample_redeemed i = Some (u\<lparr>u_password_hash := ''x'',
         u_password_version := u_password_version u + 1, u_updated_at := 5\<rparr>)"
proof -
  have h: "bc_hash sample_bcrypt 0 [120] = ''x''" by code_simp
  from consume_changes_owner_only [OF sample_consume sample_issued_wf, unfolded h]
  show ?thesis by blast
qed

end
