(* ===== verification/Accounts.thy ===== *)
theory Accounts
  imports Password_Reset
begin

text \<open>
  Every operation of the dashboard that writes portal_users, as one step relation, and the two
  promises that span them: the portal is never left without an active super admin, and a session
  that was revoked stays revoked.  Operations run one after the other here; what happens when two
  transactions overlap is the subject of \<open>Concurrency\<close>.
\<close>

section \<open>The step relation\<close>

definition stamp_login :: "int \<Rightarrow> int \<Rightarrow> unit txn" where
  \<comment> \<open>the last_login bump of the login route\<close>
  "stamp_login now i = tx_exec (update_user i (\<lambda>u. u\<lparr>u_last_login := Some now\<rparr>))"

inductive account_step :: "db \<Rightarrow> db \<Rightarrow> bool" where
  as_create: "createUser bc salt now c creator d = (Inr i, d') \<Longrightarrow> account_step d d'"
| as_update: "updateUser now i p actor d = (Inr e, d') \<Longrightarrow> account_step d d'"
| as_reset: "resetPassword bc salt now i pw d = (Inr u, d') \<Longrightarrow> account_step d d'"
| as_change: "changeOwnPassword bc salt now i cur pw d = (Inr b, d') \<Longrightarrow> account_step d d'"
| as_viewer: "lane_step admin d d' \<Longrightarrow> account_step d d'"
| as_issue: "issueResetToken sha token now i ip d = (Inr t, d') \<Longrightarrow> account_step d d'"
| as_consume: "consumeResetToken bc salt sha now token pw d = (Inr r, d') \<Longrightarrow> account_step d d'"
| as_login: "stamp_login now i d = (Inr u, d') \<Longrightarrow> account_step d d'"

inductive_cases account_stepE: "account_step d d'"

lemma stamp_laws:
  assumes "stamp_login now i d = (Inr v, d')" and wf: "wf_users d"
  shows "wf_users d'" "roles d' = roles d"
    "active_supers d \<noteq> [] \<Longrightarrow> active_supers d' \<noteq> []"
    "find_user d j = Some u \<Longrightarrow>
       \<exists>u'. find_user d' j = Some u' \<and> u_password_version u \<le> u_password_version u'"
proof -
  have st: "update_user i (\<lambda>u. u\<lparr>u_last_login := Some now\<rparr>) d = Inr d'"
    using assms(1) by (simp add: stamp_login_def tx_exec_Inr)
  note laws = update_user_laws [OF st wf]
  show "wf_users d'" "roles d' = roles d"
    "active_supers d \<noteq> [] \<Longrightarrow> active_supers d' \<noteq> []"
    "find_user d j = Some u \<Longrightarrow>
       \<exists>u'. find_user d' j = Some u' \<and> u_password_version u \<le> u_password_version u'"
    using laws by (simp_all add: is_super_def)
qed

lemma account_laws:
  assumes "account_step d d'" "wf_users d"
  shows "wf_users d' \<and> roles d' = roles d \<and> (active_supers d \<noteq> [] \<longrightarrow> active_supers d' \<noteq> [])
    \<and> (\<forall>j u. find_user d j = Some u \<longrightarrow>
         (\<exists>u'. find_user d' j = Some u' \<and> u_password_version u \<le> u_password_version u'))"
  using assms
proof (induction rule: account_step.induct)
  case (as_create bc salt now c creator d i d')
  show ?case using createUser_laws [OF as_create] by blast
next
  case (as_update now i p actor d e d')
  show ?case using updateUser_laws [OF as_update] by blast
next
  case (as_reset bc salt now i pw d u d')
  then show ?case by (auto simp: resetPassword_def tx_exec_Inr dest: set_password_laws)
next
  case (as_change bc salt now i cur pw d b d')
  then have "d' = d \<or> update_user i (set_password now (bc_hash bc salt pw)) d = Inr d'"
    by (auto simp: changeOwnPassword_Inr split: option.splits if_splits)
  with as_change(2) show ?case by (auto dest: set_password_laws)
next
  case (as_viewer admin d d')
  show ?case using lane.keeps_wf [OF as_viewer] lane.keeps_roles [OF as_viewer]
      lane.keeps_super [OF as_viewer] lane.keeps_user [OF as_viewer] by blast
next
  case (as_issue sha token now i ip d t d')
  then show ?case
    using issue_frame [OF as_issue(1)] same_users_laws [of d' d] by blast
next
  case (as_consume bc salt sha now token pw d r d')
  show ?case
  proof (cases r)
    case None
    then have "d' = d" using as_consume(1) by (auto simp: consumeResetToken_Inr split: if_splits option.splits)
    then show ?thesis using as_consume(2) by auto
  next
    case (Some e)
    show ?thesis using consume_laws(1-4) [OF as_consume [unfolded Some]] by blast
  qed
next
  case (as_login now i d u d')
  show ?case using stamp_laws [OF as_login] by blast
qed

interpretation portal: account_op account_step
  using account_laws by unfold_locales blast+

inductive revoking :: "int \<Rightarrow> db \<Rightarrow> db \<Rightarrow> bool" for i where
  rv_reset: "resetPassword bc salt now i pw d = (Inr u, d') \<Longrightarrow> revoking i d d'"
| rv_change: "changeOwnPassword bc salt now i cur pw d = (Inr True, d') \<Longrightarrow> revoking i d d'"
| rv_email: "updateUser now i p actor d = (Inr e, d') \<Longrightarrow> toLowerCase e \<noteq> toLowerCase (uu_email p)
    \<Longrightarrow> revoking i d d'"
| rv_viewer_email: "updateViewerAsAdmin now i vp admin d = (Inr e, d')
    \<Longrightarrow> toLowerCase e \<noteq> toLowerCase (vu_email vp) \<Longrightarrow> revoking i d d'"
| rv_redeem: "consumeResetToken bc salt sha now token pw d = (Inr (Some e), d')
    \<Longrightarrow> token_owner now (sha token) d = Some i \<Longrightarrow> revoking i d d'"

lemma revoking_step: "revoking i d d' \<Longrightarrow> account_step d d'"
  by (induction rule: revoking.induct)
    (blast intro: account_step.intros lane_step.intros)+

lemma revoking_bumps:
  assumes "revoking i d d'" "wf_users d" "find_user d i = Some u"
  shows "\<exists>u'. find_user d' i = Some u' \<and> u_password_version u < u_password_version u'"
  using assms
proof (induction rule: revoking.induct)
  case rv_reset then show ?case using reset.bumps by blast
next
  case rv_change then show ?case using change.bumps by blast
next
  case rv_email then show ?case using email_change.bumps by blast
next
  case rv_viewer_email then show ?case using viewer_email_change.bumps by blast
next
  case rv_redeem then show ?case using consume.bumps by blast
qed

interpretation revocation: session_revoker "revoking i" i for i
  using revoking_step portal.keeps_wf portal.keeps_roles portal.keeps_super portal.keeps_user
    revoking_bumps
  by unfold_locales blast+

section \<open>Properties\<close>

text \<open>
  C1. The portal is never locked out: starting from a database with an active super admin, every
  sequence of the operations that write accounts leaves at least one active super admin.
\<close>

theorem never_locked_out:
  assumes "account_step\<^sup>*\<^sup>* d d'" "wf_users d" "active_supers d \<noteq> []"
  shows "active_supers d' \<noteq> [] \<and> wf_users d'"
  using portal.chain [OF assms(1,2)] assms(3) by blast

text \<open>
  C2. Revocation is immediate and permanent: once a password was reset, changed or redeemed, or a
  login email changed, no session cookie that was accepted before, the user's own or one of somebody
  impersonating or impersonated by them, is accepted again, whatever happens to the accounts later.
\<close>

theorem revoked_for_good:
  assumes "jose_laws sign verify" "wf_users d" "getSession verify env ms d cookie = Some c"
    "session_of c i" "revoking i d d1" "account_step\<^sup>*\<^sup>* d1 d2"
  shows "getSession verify env ms' d2 cookie = None"
proof -
  obtain v where v: "session_version c i = Some v" "userStillValid d (js_String i) v"
    using session_of_version [OF assms(3,4)] by blast
  then obtain u where u: "find_user d i = Some u" "u_password_version u = v"
    by (auto simp: userStillValid_iff [OF assms(2)])
  obtain u' where u': "find_user d1 i = Some u'" "v < u_password_version u'"
    using revocation.bumps [OF assms(5,2) u(1)] u(2) by blast
  have "\<not> userStillValid d2 (js_String i) v"
    by (rule portal.stale_forever [OF assms(6) revocation.keeps_wf [OF assms(5,2)] u'])
  then show ?thesis using getSession_stale [OF assms(1,3) v(1)] by blast
qed

subsection \<open>Witnesses\<close>

lemma sample_supers: "active_supers sample_db \<noteq> []"
  by (simp add: active_supers_def is_super_def role_key_of_def find_role_def sample_db_def sample_user_def)

theorem never_locked_out_witness:
  "active_supers sample_after \<noteq> [] \<and> wf_users sample_after"
  using as_viewer [OF ls_create [OF sample_create]]
  by (rule never_locked_out [OF r_into_rtranclp sample_db_wf_users sample_supers])

definition sample_sign :: "string \<Rightarrow> jwt_payload \<Rightarrow> string \<times> jwt_payload" where
  "sample_sign k p = (k, p)"

definition sample_verify :: "string \<Rightarrow> int \<Rightarrow> string \<times> jwt_payload \<Rightarrow> jwt_payload option" where
  "sample_verify k now j = (if fst j = k \<and> now < j_exp (snd j) then Some (snd j) else None)"

lemma sample_jose: "jose_laws sample_sign sample_verify"
  by (auto simp: jose_laws_def sample_sign_def sample_verify_def split: if_splits)

definition sample_env :: auth_env where
  "sample_env = \<lparr>ae_secret = ''abcdefghijklmnopqrstuvwxyzabcdefghijklmnopqrstuvwxyz'', ae_ttl = 28800,
     ae_impersonation_ttl = 1800\<rparr>"

lemma sample_secret: "secretBytes sample_env = Inr (ae_secret sample_env)"
  unfolding secretBytes_def card_set sample_env_def by simp

definition sample_session :: "SessionClaims" where
  "sample_session = \<lparr>c_sub = js_String 2, c_email = ''cl'', c_name = ''N'', c_role = ''client'',
     c_perms = [REPORTS_VIEW_OWN], c_shortcodeIds = Some [5], c_shortcodeFrom = None, c_pwv = Some 0,
     c_imp = None\<rparr>"

theorem revoked_for_good_witness:
  "getSession sample_verify sample_env 0 sample_issued
     (Some (ae_secret sample_env, \<lparr>j_claims = sample_session, j_iat = 0, j_exp = 28800\<rparr>)) = Some sample_session
   \<and> getSession sample_verify sample_env 0 sample_redeemed
     (Some (ae_secret sample_env, \<lparr>j_claims = sample_session, j_iat = 0, j_exp = 28800\<rparr>)) = None"
proof -
  let ?j = "Some (ae_secret sample_env, \<lparr>j_claims = sample_session, j_iat = 0, j_exp = 28800\<rparr>)"
  have "find_user sample_issued 2 = Some (sample_user 2 ''cl'' 2)"
    using sample_find by (simp add: find_user_def sample_issued_def)
  then have v: "userStillValid sample_issued (js_String 2) 0"
    by (simp add: userStillValid_iff [OF sample_issued_wf] sample_user_def)
  then have s: "getSession sample_verify sample_env 0 sample_issued ?j = Some sample_session"
    by (simp add: getSession_def verifySession_def sample_secret sample_verify_def sample_session_def or0_def)
  have "token_owner 5 (sample_digest sample_token) sample_issued = Some 2"
    using sample_token_row by (simp add: token_owner_def sample_digest_def) (simp add: sample_issued_def)
  then have "revoking 2 sample_issued sample_redeemed" by (rule rv_redeem [OF sample_consume])
  moreover have "session_of sample_session 2" by (simp add: session_of_def sample_session_def)
  ultimately show ?thesis
    using s revoked_for_good [OF sample_jose sample_issued_wf s] rtranclp.rtrancl_refl by blast
qed

end
