(* ===== verification/Concurrency.thy ===== *)
theory Concurrency
  imports Accounts
begin

text \<open>
  Overlapping transactions.  \<open>withTx\<close> (\<^verbatim>\<open>dashboard/src/lib/db.ts\<close>) issues a plain BEGIN, so
  transactions run at PostgreSQL's default READ COMMITTED level: a statement sees what was
  committed before it, not what other open transactions have written, and a row lock
  (FOR UPDATE) excludes only transactions that lock the same row.  A check-then-write transaction
  is abstracted to its lock, its guard and its write; \<open>updateUser\<close> and \<open>createViewerAsAdmin\<close> are
  instances.
\<close>

section \<open>Transactions that check, then write\<close>

record ctx =
  cx_lock :: "int option"             \<comment> \<open>the user row locked FOR UPDATE, if any\<close>
  cx_guard :: "db \<Rightarrow> bool"            \<comment> \<open>the checks, on the committed state they read\<close>
  cx_write :: "db \<Rightarrow> exn + db"        \<comment> \<open>the writes, visible at COMMIT\<close>

datatype tstate = Ready | Locked | Passed | Committed | RolledBack

definition holds_lock :: "tstate \<Rightarrow> bool" where
  "holds_lock s \<longleftrightarrow> s = Locked \<or> s = Passed"

definition conflicts :: "ctx \<Rightarrow> ctx \<Rightarrow> bool" where
  "conflicts s t \<longleftrightarrow> cx_lock s \<noteq> None \<and> cx_lock s = cx_lock t"

inductive rc_step :: "ctx list \<Rightarrow> db \<times> tstate list \<Rightarrow> db \<times> tstate list \<Rightarrow> bool" for txs where
  rc_lock: "k < length txs \<Longrightarrow> st ! k = Ready \<Longrightarrow>
     \<forall>j < length txs. j \<noteq> k \<longrightarrow> holds_lock (st ! j) \<longrightarrow> \<not> conflicts (txs ! j) (txs ! k) \<Longrightarrow>
     rc_step txs (d, st) (d, st[k := Locked])"
| rc_pass: "k < length txs \<Longrightarrow> st ! k = Locked \<Longrightarrow> cx_guard (txs ! k) d \<Longrightarrow>
     rc_step txs (d, st) (d, st[k := Passed])"
| rc_refuse: "k < length txs \<Longrightarrow> st ! k = Locked \<Longrightarrow> \<not> cx_guard (txs ! k) d \<Longrightarrow>
     rc_step txs (d, st) (d, st[k := RolledBack])"
| rc_commit: "k < length txs \<Longrightarrow> st ! k = Passed \<Longrightarrow> cx_write (txs ! k) d = Inr d' \<Longrightarrow>
     rc_step txs (d, st) (d', st[k := Committed])"
| rc_fail: "k < length txs \<Longrightarrow> st ! k = Passed \<Longrightarrow> cx_write (txs ! k) d = Inl e \<Longrightarrow>
     rc_step txs (d, st) (d, st[k := RolledBack])"

definition update_ctx :: "int \<Rightarrow> int \<Rightarrow> UserUpdate \<Rightarrow> int \<Rightarrow> ctx" where
  "update_ctx now i p actor = \<lparr>cx_lock = Some i,
     cx_guard = (\<lambda>d. case find_user d i of None \<Rightarrow> False
       | Some row \<Rightarrow> role_key_of d (u_role_id row) \<noteq> None \<and> lockout d i p actor row = None),
     cx_write = update_user i (set_profile now p)\<rparr>"

definition viewer_role :: "db \<Rightarrow> int" where
  "viewer_role d = (case List.find (\<lambda>r. r_key r = ''client_viewer'') (roles d) of None \<Rightarrow> 0 | Some r \<Rightarrow> r_id r)"

definition viewer_ctx :: "bcrypt \<Rightarrow> nat \<Rightarrow> int \<Rightarrow> AdminViewerCreate \<Rightarrow> int \<Rightarrow> ctx" where
  \<comment> \<open>no user row is locked; the guard is everything before the INSERT of the account\<close>
  "viewer_ctx bc salt now c admin = \<lparr>cx_lock = None,
     cx_guard = (\<lambda>d. avc_shortcode_ids c \<noteq> [] \<and> fst (assertShortcodesOwnedBy (avc_shortcode_ids c) admin d) = Inr ()
        \<and> countViewers admin d < ADMIN_MAX_VIEWERS \<and> viewer_role d \<noteq> 0),
     cx_write = (\<lambda>d. case tx_bind (tx_catch (tx_insert_user (new_user_row now (avc_email c) (avc_name c)
          (avc_phone c) (viewer_role d) (bc_hash bc salt (avc_password c)) admin)) rethrowEmailTaken)
        (\<lambda>newId. tx_for (avc_shortcode_ids c) (\<lambda>sc. tx_exec (insert_grant now newId sc))) d of
        (Inl e, _) \<Rightarrow> Inl e | (Inr _, d') \<Rightarrow> Inr d')\<rparr>"

lemma update_ctx_serial:
  "cx_guard (update_ctx now i p actor) d \<Longrightarrow> cx_write (update_ctx now i p actor) d = Inr d' \<Longrightarrow>
     \<exists>e. updateUser now i p actor d = (Inr e, d')"
  by (auto simp: update_ctx_def updateUser_Inr split: option.splits)

lemma viewer_ctx_serial:
  assumes "cx_guard (viewer_ctx bc salt now c admin) d" "cx_write (viewer_ctx bc salt now c admin) d = Inr d'"
  shows "\<exists>i. createViewerAsAdmin bc salt now c admin d = (Inr i, d')"
proof -
  have g: "avc_shortcode_ids c \<noteq> []" "fst (assertShortcodesOwnedBy (avc_shortcode_ids c) admin d) = Inr ()"
    "countViewers admin d < ADMIN_MAX_VIEWERS" "viewer_role d \<noteq> 0"
    using assms(1) by (simp_all add: viewer_ctx_def)
  obtain d0 where a: "assertShortcodesOwnedBy (avc_shortcode_ids c) admin d = (Inr (), d0)"
    using g(2) by (cases "assertShortcodesOwnedBy (avc_shortcode_ids c) admin d") auto
  then have a': "assertShortcodesOwnedBy (avc_shortcode_ids c) admin d = (Inr (), d)"
    by (simp add: assertShortcodesOwnedBy_Inr)
  obtain r where r: "List.find (\<lambda>r. r_key r = ''client_viewer'') (roles d) = Some r" "r_id r = viewer_role d"
    using g(4) unfolding viewer_role_def
    by (cases "List.find (\<lambda>r. r_key r = ''client_viewer'') (roles d)") simp_all
  let ?ins = "tx_catch (tx_insert_user (new_user_row now (avc_email c) (avc_name c) (avc_phone c)
      (viewer_role d) (bc_hash bc salt (avc_password c)) admin)) rethrowEmailTaken"
  let ?grants = "\<lambda>i. tx_for (avc_shortcode_ids c) (\<lambda>sc. tx_exec (insert_grant now i sc))"
  obtain u where "tx_bind ?ins ?grants d = (Inr u, d')"
    using assms(2) by (auto simp: viewer_ctx_def split: prod.splits sum.splits)
  then obtain i d1 where w: "?ins d = (Inr i, d1)" "?grants i d1 = (Inr (), d')"
    by (auto simp: tx_bind_Inr)
  have "createViewerAsAdmin bc salt now c admin d = (Inr i, d')"
    using g(1,3,4) r w
    by (simp add: createViewerAsAdmin_def Let_def withTx_def tx_eval a')
  then show ?thesis ..
qed

section \<open>Row locks\<close>

definition exclusive :: "ctx list \<Rightarrow> tstate list \<Rightarrow> bool" where
  "exclusive txs st \<longleftrightarrow> length st = length txs \<and>
     (\<forall>j < length txs. \<forall>k < length txs. j \<noteq> k \<longrightarrow> holds_lock (st ! j) \<longrightarrow> holds_lock (st ! k)
        \<longrightarrow> \<not> conflicts (txs ! j) (txs ! k))"

lemma conflicts_sym: "conflicts s t \<longleftrightarrow> conflicts t s"
  unfolding conflicts_def by metis

lemma exclusive_mono:
  assumes "exclusive txs st" "length st' = length st"
    "\<forall>j < length txs. holds_lock (st' ! j) \<longrightarrow> holds_lock (st ! j)"
  shows "exclusive txs st'"
  using assms unfolding exclusive_def by metis

lemma exclusive_step:
  "rc_step txs (d, st) (d', st') \<Longrightarrow> exclusive txs st \<Longrightarrow> exclusive txs st'"
proof (induction "(d, st)" "(d', st')" rule: rc_step.induct)
  case (rc_lock k)
  have st': "st' ! j = (if j = k then Locked else st ! j)" if "j < length txs" for j
    using rc_lock that by (auto simp: exclusive_def nth_list_update)
  have free: "\<not> conflicts (txs ! j) (txs ! k)" "\<not> conflicts (txs ! k) (txs ! j)"
    if "j < length txs" "j \<noteq> k" "holds_lock (st ! j)" for j
    using rc_lock that conflicts_sym by blast+
  show ?case
    unfolding exclusive_def
  proof (intro conjI allI impI)
    show "length st' = length txs" using rc_lock by (auto simp: exclusive_def)
    fix j m assume jm: "j < length txs" "m < length txs" "j \<noteq> m" "holds_lock (st' ! j)" "holds_lock (st' ! m)"
    then show "\<not> conflicts (txs ! j) (txs ! m)"
      using free [of j] free [of m] rc_lock(6) by (auto simp: st' exclusive_def split: if_splits)
  qed
next
  case (rc_pass k)
  show ?case by (rule exclusive_mono [OF rc_pass(6)])
      (use rc_pass in \<open>auto simp: exclusive_def nth_list_update holds_lock_def split: if_splits\<close>)
next
  case (rc_refuse k)
  show ?case by (rule exclusive_mono [OF rc_refuse(6)])
      (use rc_refuse in \<open>auto simp: exclusive_def nth_list_update holds_lock_def split: if_splits\<close>)
next
  case (rc_commit k)
  show ?case by (rule exclusive_mono [OF rc_commit(5)])
      (use rc_commit in \<open>auto simp: exclusive_def nth_list_update holds_lock_def split: if_splits\<close>)
next
  case (rc_fail k e)
  show ?case by (rule exclusive_mono [OF rc_fail(6)])
      (use rc_fail in \<open>auto simp: exclusive_def nth_list_update holds_lock_def split: if_splits\<close>)
qed

text \<open>
  When all transactions lock the same account, the guard a transaction passed still holds when it
  writes: nobody else can have committed in between.
\<close>

definition guarded :: "ctx list \<Rightarrow> db \<Rightarrow> tstate list \<Rightarrow> bool" where
  "guarded txs d st \<longleftrightarrow> (\<forall>k < length txs. st ! k = Passed \<longrightarrow> cx_guard (txs ! k) d)"

lemma same_row_step:
  assumes "rc_step txs (d, st) (d', st')" "exclusive txs st" "guarded txs d st"
    "\<forall>s \<in> set txs. cx_lock s = Some i"
  shows "guarded txs d' st' \<and> (d' = d \<or> (\<exists>s \<in> set txs. cx_guard s d \<and> cx_write s d = Inr d'))"
  using assms
proof (induction "(d, st)" "(d', st')" rule: rc_step.induct)
  case (rc_commit k)
  have alone: "st ! j \<noteq> Passed" if "j < length txs" "j \<noteq> k" for j
  proof
    assume "st ! j = Passed"
    moreover have "conflicts (txs ! j) (txs ! k)"
      using that rc_commit by (simp add: conflicts_def)
    ultimately show False
      using rc_commit that by (auto simp: exclusive_def holds_lock_def)
  qed
  have "st' ! j \<noteq> Passed" if "j < length txs" for j
    using alone [OF that] rc_commit that by (cases "j = k") (auto simp: exclusive_def nth_list_update)
  then have "guarded txs d' st'" by (simp add: guarded_def)
  then show ?case using rc_commit by (auto simp: guarded_def)
qed (auto simp: guarded_def nth_list_update exclusive_def split: if_splits)

lemma same_row_run:
  assumes "(rc_step txs)\<^sup>*\<^sup>* (d0, replicate (length txs) Ready) (d, st)"
    "\<forall>s \<in> set txs. cx_lock s = Some i"
  shows "exclusive txs st \<and> guarded txs d st
    \<and> (\<lambda>d d'. \<exists>s \<in> set txs. cx_guard s d \<and> cx_write s d = Inr d')\<^sup>*\<^sup>* d0 d"
  using assms(1)
proof (induction rule: rtranclp_induct2)
  case refl
  then show ?case by (simp add: exclusive_def guarded_def holds_lock_def)
next
  case (step d st d' st')
  then have "exclusive txs st'" using exclusive_step by blast
  moreover from same_row_step [OF step(2) _ _ assms(2)] step(3)
  have "guarded txs d' st'" "d' = d \<or> (\<exists>s \<in> set txs. cx_guard s d \<and> cx_write s d = Inr d')" by blast+
  ultimately show ?case
    using step(3) by (auto intro: rtranclp.rtrancl_into_rtrancl)
qed

section \<open>Properties\<close>

text \<open>
  On one account the row lock does what it is there for: however many updates of the same user
  overlap, and in whatever order their statements interleave, the portal keeps an active super
  admin, because their effect is that of running them one after the other.
\<close>

theorem same_account_updates_safe:
  assumes "\<forall>s \<in> set txs. \<exists>now p actor. s = update_ctx now i p actor"
    "(rc_step txs)\<^sup>*\<^sup>* (d0, replicate (length txs) Ready) (d, st)"
    "wf_users d0" "active_supers d0 \<noteq> []"
  shows "account_step\<^sup>*\<^sup>* d0 d \<and> active_supers d \<noteq> []"
proof -
  have lock: "\<forall>s \<in> set txs. cx_lock s = Some i" using assms(1) by (auto simp: update_ctx_def)
  have "(\<lambda>d d'. \<exists>s \<in> set txs. cx_guard s d \<and> cx_write s d = Inr d')\<^sup>*\<^sup>* d0 d"
    using same_row_run [OF assms(2) lock] by blast
  then have run: "account_step\<^sup>*\<^sup>* d0 d"
  proof (rule rtranclp_mono [THEN predicate2D, rotated])
    show "(\<lambda>d d'. \<exists>s \<in> set txs. cx_guard s d \<and> cx_write s d = Inr d') \<le> account_step"
    proof (rule predicate2I)
      fix x y assume "\<exists>s \<in> set txs. cx_guard s x \<and> cx_write s x = Inr y"
      then obtain s where s: "s \<in> set txs" "cx_guard s x" "cx_write s x = Inr y" by blast
      then obtain now p actor where "s = update_ctx now i p actor" using assms(1) by blast
      with s update_ctx_serial obtain e where "updateUser now i p actor x = (Inr e, y)" by blast
      then show "account_step x y" by (rule as_update)
    qed
  qed
  with portal.chain(3) [OF run assms(3,4)] show ?thesis by blast
qed

definition two_supers :: db where
  "two_supers = sample_db\<lparr>users := [sample_user 1 ''a'' 1, sample_user 2 ''b'' 1]\<rparr>"

definition deactivate :: "string \<Rightarrow> UserUpdate" where
  "deactivate email = \<lparr>uu_email = email, uu_name = ''N'', uu_phone = None, uu_role_id = 1, uu_active = False\<rparr>"

definition two_demotions :: "ctx list" where
  "two_demotions = [update_ctx 5 1 (deactivate ''a'') 2, update_ctx 6 2 (deactivate ''b'') 1]"

definition demoted :: db where
  "demoted = upd_user 1 (set_profile 5 (deactivate ''a'')) two_supers"

lemmas concrete_simps = two_supers_def demoted_def deactivate_def sample_db_def sample_user_def
  find_user_def find_role_def role_key_of_def upd_user_def set_profile_def toLowerCase_def lower_char_def

lemma two_guards:
  "cx_guard (two_demotions ! 0) two_supers" "cx_guard (two_demotions ! 1) two_supers"
  by (simp_all add: two_demotions_def update_ctx_def lockout_def otherSupers_def isSuperAdminRole_def
      concrete_simps)

lemma two_writes:
  "cx_write (two_demotions ! 0) two_supers = Inr demoted"
  "cx_write (two_demotions ! 1) demoted = Inr (upd_user 2 (set_profile 6 (deactivate ''b'')) demoted)"
  by (simp_all add: two_demotions_def update_ctx_def update_user_def user_check_def fits_def
      concrete_simps)

text \<open>
  On different accounts it does not: two super admins who deactivate each other at the same
  moment both succeed, each check seeing the other still active, and the portal is left without an
  active super admin.
\<close>

theorem overlapping_demotions_lock_out:
  "\<exists>d. (rc_step two_demotions)\<^sup>*\<^sup>* (two_supers, [Ready, Ready]) (d, [Committed, Committed])
    \<and> length (active_supers two_supers) = 2 \<and> active_supers d = []"
proof -
  let ?d = "upd_user 2 (set_profile 6 (deactivate ''b'')) demoted"
  let ?s = "rc_step two_demotions"
  have l: "length two_demotions = 2" by (simp add: two_demotions_def)
  have nc: "\<not> conflicts (two_demotions ! 0) (two_demotions ! 1)"
    by (simp add: conflicts_def two_demotions_def update_ctx_def)
  have "?s (two_supers, [Ready, Ready]) (two_supers, [Locked, Ready])"
    using rc_lock [of 0 two_demotions "[Ready, Ready]" two_supers] l
    by (auto simp: holds_lock_def less_Suc_eq numeral_2_eq_2)
  moreover have "?s (two_supers, [Locked, Ready]) (two_supers, [Locked, Locked])"
    using rc_lock [of 1 two_demotions "[Locked, Ready]" two_supers] l nc
    by (auto simp: less_Suc_eq numeral_2_eq_2)
  moreover have "?s (two_supers, [Locked, Locked]) (two_supers, [Passed, Locked])"
    using rc_pass [of 0 two_demotions "[Locked, Locked]" two_supers] l two_guards by simp
  moreover have "?s (two_supers, [Passed, Locked]) (two_supers, [Passed, Passed])"
    using rc_pass [of 1 two_demotions "[Passed, Locked]" two_supers] l two_guards by simp
  moreover have "?s (two_supers, [Passed, Passed]) (demoted, [Committed, Passed])"
    using rc_commit [of 0 two_demotions "[Passed, Passed]" two_supers] l two_writes by simp
  moreover have "?s (demoted, [Committed, Passed]) (?d, [Committed, Committed])"
    using rc_commit [of 1 two_demotions "[Committed, Passed]" demoted] l two_writes by simp
  ultimately have "?s\<^sup>*\<^sup>* (two_supers, [Ready, Ready]) (?d, [Committed, Committed])"
    by (meson converse_rtranclp_into_rtranclp rtranclp.rtrancl_refl)
  moreover have "length (active_supers two_supers) = 2" "active_supers ?d = []"
    by (simp_all add: active_supers_def is_super_def concrete_simps)
  ultimately show ?thesis by blast
qed

theorem same_account_updates_safe_witness:
  "active_supers demoted \<noteq> []"
proof -
  let ?txs = "[hd two_demotions]"
  let ?s = "rc_step ?txs"
  have h: "?txs ! 0 = two_demotions ! 0" by (simp add: two_demotions_def)
  have "?s (two_supers, [Ready]) (two_supers, [Locked])"
    using rc_lock [of 0 ?txs "[Ready]" two_supers] by simp
  moreover have "?s (two_supers, [Locked]) (two_supers, [Passed])"
    using rc_pass [of 0 ?txs "[Locked]" two_supers] two_guards h by simp
  moreover have "?s (two_supers, [Passed]) (demoted, [Committed])"
    using rc_commit [of 0 ?txs "[Passed]" two_supers] two_writes h by simp
  ultimately have run: "?s\<^sup>*\<^sup>* (two_supers, replicate (length ?txs) Ready) (demoted, [Committed])"
    by (simp add: converse_rtranclp_into_rtranclp)
  have "\<forall>s \<in> set ?txs. \<exists>now p actor. s = update_ctx now 1 p actor"
    by (auto simp: two_demotions_def)
  moreover have "wf_users two_supers" by (simp add: wf_users_def concrete_simps)
  moreover have "active_supers two_supers \<noteq> []"
    by (simp add: active_supers_def is_super_def concrete_simps)
  ultimately show ?thesis using same_account_updates_safe [OF _ run] by blast
qed

definition two_viewers :: "ctx list" where
  "two_viewers = [viewer_ctx sample_bcrypt 0 7000000 sample_viewer 2,
     viewer_ctx sample_bcrypt 0 7000000 (sample_viewer\<lparr>avc_email := ''w''\<rparr>) 2]"

definition sample_twice :: db where
  "sample_twice = sample_after\<lparr>users := users sample_after
       @ [new_user_row 7000000 ''w'' ''V'' None 3 [] 2 11], next_id := 12,
     grants := grants sample_after @ [\<lparr>gr_user = 11, gr_shortcode = 5, gr_granted_at = 7000000\<rparr>]\<rparr>"

lemmas viewer_concrete = viewer_ctx_def viewer_role_def sample_viewer_def tx_eval
  assertShortcodesOwnedBy_def sample_shortcode_def countViewers_def ADMIN_MAX_VIEWERS_def
  tx_catch_def tx_insert_user_def tx_exec_def insert_user_def user_check_def fits_def new_user_row_def
  sample_bcrypt_def insert_grant_def find_shortcode_def sample_after_def sample_twice_def

lemma viewer_guards:
  "cx_guard (two_viewers ! 0) sample_db" "cx_guard (two_viewers ! 1) sample_db"
  by (simp_all add: two_viewers_def viewer_concrete concrete_simps del: set_filter)

lemma viewer_writes:
  "cx_write (two_viewers ! 0) sample_db = Inr sample_after"
  "cx_write (two_viewers ! 1) sample_after = Inr sample_twice"
  by (simp_all add: two_viewers_def viewer_concrete concrete_simps)

text \<open>
  Nor is the limit of one viewer per admin kept when two creations overlap: both counts see no
  viewer, both commit, and the lane ends with two.
\<close>

theorem overlapping_viewers_exceed_cap:
  "(rc_step two_viewers)\<^sup>*\<^sup>* (sample_db, [Ready, Ready]) (sample_twice, [Committed, Committed])
    \<and> countViewers 2 sample_twice > ADMIN_MAX_VIEWERS"
proof -
  let ?s = "rc_step two_viewers"
  have l: "length two_viewers = 2" by (simp add: two_viewers_def)
  have nc: "\<not> conflicts (two_viewers ! 0) (two_viewers ! 1)"
    by (simp add: conflicts_def two_viewers_def viewer_ctx_def)
  have "?s (sample_db, [Ready, Ready]) (sample_db, [Locked, Ready])"
    using rc_lock [of 0 two_viewers "[Ready, Ready]" sample_db] l
    by (auto simp: holds_lock_def less_Suc_eq numeral_2_eq_2)
  moreover have "?s (sample_db, [Locked, Ready]) (sample_db, [Locked, Locked])"
    using rc_lock [of 1 two_viewers "[Locked, Ready]" sample_db] l nc
    by (auto simp: less_Suc_eq numeral_2_eq_2)
  moreover have "?s (sample_db, [Locked, Locked]) (sample_db, [Passed, Locked])"
    using rc_pass [of 0 two_viewers "[Locked, Locked]" sample_db] l viewer_guards by simp
  moreover have "?s (sample_db, [Passed, Locked]) (sample_db, [Passed, Passed])"
    using rc_pass [of 1 two_viewers "[Passed, Locked]" sample_db] l viewer_guards by simp
  moreover have "?s (sample_db, [Passed, Passed]) (sample_after, [Committed, Passed])"
    using rc_commit [of 0 two_viewers "[Passed, Passed]" sample_db] l viewer_writes by simp
  moreover have "?s (sample_after, [Committed, Passed]) (sample_twice, [Committed, Committed])"
    using rc_commit [of 1 two_viewers "[Committed, Passed]" sample_after] l viewer_writes by simp
  ultimately have "?s\<^sup>*\<^sup>* (sample_db, [Ready, Ready]) (sample_twice, [Committed, Committed])"
    by (meson converse_rtranclp_into_rtranclp rtranclp.rtrancl_refl)
  moreover have "admin_shortcodes sample_twice 2 = [5]"
    by (simp add: admin_shortcodes_def sample_twice_def sample_after_def sample_db_def sample_shortcode_def)
  then have "countViewers 2 sample_twice > ADMIN_MAX_VIEWERS"
    by (simp add: countViewers_def is_viewer_def viewer_concrete concrete_simps)
  ultimately show ?thesis by blast
qed

end
