(* ===== verification/Csv.thy ===== *)
theory Csv
  imports Prelude
begin

text \<open>
  CSV output as \<^verbatim>\<open>dashboard/src/lib/audit.ts\<close> and \<^verbatim>\<open>summary.ts\<close> write it, and the reader of
  RFC 4180 it is meant for.  The reader is the reference: whatever cells go in come out again.
\<close>

definition csv_special :: "char \<Rightarrow> bool" where
  \<comment> \<open>the class of \<open>/[",\r\n]/\<close>\<close>
  "csv_special c \<longleftrightarrow> c = CHR 0x22 \<or> c = CHR '','' \<or> c = CHR 0x0D \<or> c = CHR 0x0A"

definition double_quotes :: "string \<Rightarrow> string" where
  \<comment> \<open>\<open>s.replace(/"/g, '""')\<close>\<close>
  "double_quotes s = concat (map (\<lambda>c. if c = CHR 0x22 then [CHR 0x22, CHR 0x22] else [c]) s)"

definition csvCell :: "string \<Rightarrow> string" where
  "csvCell s = (if s = [] then []
     else if list_ex csv_special s then [CHR 0x22] @ double_quotes s @ [CHR 0x22]
     else s)"

fun csv_join :: "string list \<Rightarrow> string" where
  \<comment> \<open>\<open>cells.map(csvCell).join(",")\<close>\<close>
  "csv_join [] = []"
| "csv_join [x] = csvCell x"
| "csv_join (x # y # xs) = csvCell x @ [CHR '',''] @ csv_join (y # xs)"

definition csv_line :: "string list \<Rightarrow> string" where
  "csv_line cells = csv_join cells @ [CHR 0x0A]"

section \<open>The reference reader\<close>

datatype csv_state = Start | Plain | Quoted | QuoteSeen

fun csv_read :: "csv_state \<Rightarrow> string \<Rightarrow> string list \<Rightarrow> string \<Rightarrow> string list list" where
  \<comment> \<open>state, cell read so far, cells of the record read so far, input\<close>
  "csv_read st cell rec [] = (if st = Start \<and> rec = [] then [] else [rec @ [cell]])"
| "csv_read Quoted cell rec (c # cs) =
     (if c = CHR 0x22 then csv_read QuoteSeen cell rec cs else csv_read Quoted (cell @ [c]) rec cs)"
| "csv_read st cell rec (c # cs) =
     (if c = CHR '','' then csv_read Start [] (rec @ [cell]) cs
      else if c = CHR 0x0A then (rec @ [cell]) # csv_read Start [] [] cs
      else if c = CHR 0x22 \<and> st = Start then csv_read Quoted [] rec cs
      else if c = CHR 0x22 \<and> st = QuoteSeen then csv_read Quoted (cell @ [c]) rec cs
      else csv_read Plain (cell @ [c]) rec cs)"

definition ends_cell :: "string \<Rightarrow> bool" where
  \<comment> \<open>what follows a cell: a comma or the end of the record\<close>
  "ends_cell t \<longleftrightarrow> (case t of [] \<Rightarrow> False | c # _ \<Rightarrow> c = CHR '','' \<or> c = CHR 0x0A)"

definition after_cell :: "string \<Rightarrow> string list \<Rightarrow> string \<Rightarrow> string list list" where
  \<comment> \<open>where the reader stands once it has read \<open>cell\<close> and its terminator\<close>
  "after_cell cell rec t = (if hd t = CHR '','' then csv_read Start [] (rec @ [cell]) (tl t)
     else (rec @ [cell]) # csv_read Start [] [] (tl t))"

lemma read_plain:
  "\<not> list_ex csv_special s \<Longrightarrow> ends_cell t \<Longrightarrow> st \<in> {Start, Plain} \<Longrightarrow> (st = Start \<longrightarrow> cell = []) \<Longrightarrow>
     csv_read st cell rec (s @ t) = after_cell (cell @ s) rec t"
proof (induction s arbitrary: st cell)
  case Nil
  then show ?case
    by (cases t) (auto simp: after_cell_def ends_cell_def)
next
  case (Cons c s)
  then have "csv_read st cell rec ((c # s) @ t) = csv_read Plain (cell @ [c]) rec (s @ t)"
    by (auto simp: csv_special_def)
  also have "\<dots> = after_cell ((cell @ [c]) @ s) rec t"
    using Cons by (intro Cons.IH) simp_all
  finally show ?case by simp
qed

lemma read_quoted:
  "ends_cell t \<Longrightarrow>
     csv_read Quoted cell rec (double_quotes s @ CHR 0x22 # t) = after_cell (cell @ s) rec t"
proof (induction s arbitrary: cell)
  case Nil
  then show ?case
    by (cases t) (auto simp: double_quotes_def after_cell_def ends_cell_def)
next
  case (Cons c s)
  then show ?case by (simp add: double_quotes_def)
qed

lemma read_cell:
  assumes "ends_cell t"
  shows "csv_read Start [] rec (csvCell s @ t) = after_cell s rec t"
proof (cases "list_ex csv_special s")
  case True
  then have "csvCell s @ t = CHR 0x22 # double_quotes s @ CHR 0x22 # t"
    by (auto simp: csvCell_def)
  then show ?thesis using read_quoted [OF assms, of "[]"] by simp
next
  case False
  then have "csvCell s = s" by (simp add: csvCell_def)
  then show ?thesis using read_plain [OF False assms, of Start "[]"] by simp
qed

lemma read_record:
  "cells \<noteq> [] \<Longrightarrow>
     csv_read Start [] rec (csv_join cells @ CHR 0x0A # t) = (rec @ cells) # csv_read Start [] [] t"
proof (induction cells arbitrary: rec rule: csv_join.induct)
  case (2 x)
  then show ?case by (simp add: read_cell ends_cell_def after_cell_def)
next
  case (3 x y xs)
  have "csv_read Start [] rec (csv_join (x # y # xs) @ CHR 0x0A # t)
      = csv_read Start [] rec (csvCell x @ CHR '','' # csv_join (y # xs) @ CHR 0x0A # t)"
    by simp
  also have "\<dots> = csv_read Start [] (rec @ [x]) (csv_join (y # xs) @ CHR 0x0A # t)"
    by (subst read_cell) (simp_all add: ends_cell_def after_cell_def)
  also have "\<dots> = (rec @ x # y # xs) # csv_read Start [] [] t"
    using "3.IH" by simp
  finally show ?case .
qed simp

lemma read_lines:
  "(\<forall>cells \<in> set rows. cells \<noteq> []) \<Longrightarrow>
     csv_read Start [] [] (concat (map csv_line rows) @ t) = rows @ csv_read Start [] [] t"
  by (induction rows) (simp_all add: csv_line_def read_record)

end
