(* ===== verification/Audit_Log.thy ===== *)
theory Audit_Log
  imports Sql Schema Csv
begin

text \<open>
  \<^verbatim>\<open>dashboard/src/lib/audit.ts\<close>: the append-only audit log, whose writes never fail the
  request, the counters the attempt throttles read from it, the filtered and paged listing,
  and the CSV export.
\<close>

section \<open>Writing\<close>

record AuditRecord =
  ar_actor :: "string option"
  ar_actorKind :: "string option"
  ar_action :: string
  ar_target :: "string option"
  ar_outcome :: outcome
  ar_ip :: "string option"
  ar_userAgent :: "string option"
  ar_detail :: "json option"

definition audit_insert :: "int \<Rightarrow> AuditRecord \<Rightarrow> db \<Rightarrow> exn + db" where
  \<comment> \<open>the INSERT, with the column widths of portal_audit_log\<close>
  "audit_insert now rec d =
    (let kind = (case ar_actorKind rec of None \<Rightarrow> ''portal'' | Some k \<Rightarrow> k) in
     if fits 255 (ar_actor rec) \<and> fits 20 (Some kind) \<and> fits 80 (Some (ar_action rec))
        \<and> fits 255 (ar_target rec) \<and> fits 64 (ar_ip rec)
     then Inr (d\<lparr>audit_log := audit_log d @ [\<lparr>a_id = next_id d, a_ts = now, a_actor = ar_actor rec,
            a_actor_kind = kind, a_action = ar_action rec, a_target = ar_target rec,
            a_outcome = ar_outcome rec, a_ip = ar_ip rec, a_user_agent = ar_userAgent rec,
            a_detail = ar_detail rec\<rparr>], next_id := next_id d + 1\<rparr>)
     else Inl (PgError ''22001'' None))"

definition audit :: "int \<Rightarrow> AuditRecord \<Rightarrow> db \<Rightarrow> db" where
  \<comment> \<open>a failed INSERT is swallowed\<close>
  "audit now rec d = (case audit_insert now rec d of Inl e \<Rightarrow> d | Inr d' \<Rightarrow> d')"

type_synonym headers = "string \<Rightarrow> string option"

definition clientIp :: "headers \<Rightarrow> string option" where
  "clientIp h = (case h ''x-forwarded-for'' of
       Some xff \<Rightarrow> if xff \<noteq> [] then Some (trim (split_head CHR '','' xff))
                   else if truthy (h ''x-real-ip'') then h ''x-real-ip'' else None
     | None \<Rightarrow> if truthy (h ''x-real-ip'') then h ''x-real-ip'' else None)"

lemma audit_frame [simp, frame_simps]:
  "users (audit now rec d) = users d" "roles (audit now rec d) = roles d"
  "role_perms (audit now rec d) = role_perms d" "operators (audit now rec d) = operators d"
  "shortcodes (audit now rec d) = shortcodes d" "grants (audit now rec d) = grants d"
  "tokens (audit now rec d) = tokens d" "exports (audit now rec d) = exports d"
  by (simp_all add: audit_def audit_insert_def Let_def split: sum.splits)

lemma audit_next_id: "next_id d \<le> next_id (audit now rec d)"
  by (simp add: audit_def audit_insert_def Let_def split: sum.splits)

lemma audit_log_prefix: "\<exists>rows. audit_log (audit now rec d) = audit_log d @ rows"
  by (auto simp: audit_def audit_insert_def Let_def split: sum.splits)

lemma audit_too_long_ip: "\<not> fits 64 (ar_ip rec) \<Longrightarrow> audit now rec d = d"
  by (simp add: audit_def audit_insert_def)

section \<open>Counting recent attempts\<close>

definition within_minutes :: "int \<Rightarrow> int \<Rightarrow> audit_row \<Rightarrow> bool" where
  "within_minutes now minutes a \<longleftrightarrow> a_ts a > now - minutes * 60 * 1000000"

definition recentAuditCount :: "int \<Rightarrow> string \<Rightarrow> string \<Rightarrow> outcome \<Rightarrow> int \<Rightarrow> db \<Rightarrow> nat" where
  "recentAuditCount now actor action oc minutes d =
     length (filter (\<lambda>a. a_actor a = Some actor \<and> a_action a = action \<and> a_outcome a = oc
       \<and> within_minutes now minutes a) (audit_log d))"

definition recentAuditCountByIp :: "int \<Rightarrow> string option \<Rightarrow> string \<Rightarrow> int \<Rightarrow> db \<Rightarrow> nat" where
  "recentAuditCountByIp now ip action minutes d = (if \<not> truthy ip then 0
     else length (filter (\<lambda>a. a_ip a = ip \<and> a_action a = action \<and> within_minutes now minutes a)
       (audit_log d)))"

lemma recentAuditCount_audit:
  assumes "fits 255 (ar_actor rec)" "fits 80 (Some (ar_action rec))" "fits 255 (ar_target rec)"
    "fits 64 (ar_ip rec)" "ar_actorKind rec = None" "0 < minutes"
  shows "recentAuditCount now actor action oc minutes (audit now rec d) =
    recentAuditCount now actor action oc minutes d
    + (if ar_actor rec = Some actor \<and> ar_action rec = action \<and> ar_outcome rec = oc then 1 else 0)"
  using assms by (simp add: recentAuditCount_def audit_def audit_insert_def within_minutes_def fits_def)

section \<open>Reading\<close>

record AuditFilters =
  af_from :: "string option"
  af_to :: "string option"
  af_actor :: "string option"
  af_actionPrefix :: "string option"
  af_outcome :: "string option"
  af_page :: "int option"
  af_pageSize :: "int option"

definition outcome_str :: "outcome \<Rightarrow> string" where
  "outcome_str oc = (case oc of Success \<Rightarrow> ''success'' | Failure \<Rightarrow> ''failure'' | Denied \<Rightarrow> ''denied'')"

definition audit_sql :: "audit_row \<Rightarrow> row" where
  \<comment> \<open>the columns the filters mention\<close>
  "audit_sql a c = (if c = ''ts'' then VTs (a_ts a)
     else if c = ''actor'' then opt_str (a_actor a)
     else if c = ''action'' then VStr (a_action a)
     else if c = ''outcome'' then VStr (outcome_str (a_outcome a)) else VNull)"

definition audit_where :: "AuditFilters \<Rightarrow> pval list \<Rightarrow> sql_cond list \<times> pval list" where
  "audit_where f ps =
    push_cond (truthy (af_outcome f)) (\<lambda>n. CCmp OpEq ''outcome'' (EPar n)) (PStr (str_of (af_outcome f)))
    (push_cond (truthy (af_actionPrefix f) \<and> af_actionPrefix f \<noteq> Some ''all'')
        (CLike False ''action'') (PStr (str_of (af_actionPrefix f) @ ''.%''))
    (push_cond (truthy (af_actor f)) (CLike True ''actor'') (PStr (''%'' @ str_of (af_actor f) @ ''%''))
    (push_cond (truthy (af_to f)) (\<lambda>n. CCmp OpLt ''ts'' (ETimestamptz n 0)) (PStr (str_of (af_to f)))
    (push_cond (truthy (af_from f)) (\<lambda>n. CCmp OpGe ''ts'' (ETimestamptz n 0)) (PStr (str_of (af_from f)))
      ([], ps)))))"

definition audit_matches :: "pg \<Rightarrow> AuditFilters \<Rightarrow> row \<Rightarrow> bool" where
  \<comment> \<open>what the five filters are to mean of a row\<close>
  "audit_matches g f r \<longleftrightarrow>
     (truthy (af_from f) \<longrightarrow> (\<exists>t. r ''ts'' = VTs t \<and> pg_timestamptz g (str_of (af_from f)) \<le> t))
     \<and> (truthy (af_to f) \<longrightarrow> (\<exists>t. r ''ts'' = VTs t \<and> t < pg_timestamptz g (str_of (af_to f))))
     \<and> (truthy (af_actor f) \<longrightarrow> (\<exists>s. r ''actor'' = VStr s
          \<and> like_match (toLowerCase (''%'' @ str_of (af_actor f) @ ''%'')) (toLowerCase s)))
     \<and> (truthy (af_actionPrefix f) \<and> af_actionPrefix f \<noteq> Some ''all'' \<longrightarrow>
          (\<exists>s. r ''action'' = VStr s \<and> like_match (str_of (af_actionPrefix f) @ ''.%'') s))
     \<and> (truthy (af_outcome f) \<longrightarrow> r ''outcome'' = VStr (str_of (af_outcome f)))"

interpretation audit_builder: cond_builder g audit_where "audit_matches g" for g
proof (unfold_locales)
  fix f ps cs ps'
  assume b: "audit_where f ps = (cs, ps')"
  define c1 where "c1 = push_cond (truthy (af_from f)) (\<lambda>n. CCmp OpGe ''ts'' (ETimestamptz n 0))
    (PStr (str_of (af_from f))) ([], ps)"
  define c2 where "c2 = push_cond (truthy (af_to f)) (\<lambda>n. CCmp OpLt ''ts'' (ETimestamptz n 0))
    (PStr (str_of (af_to f))) c1"
  define c3 where "c3 = push_cond (truthy (af_actor f)) (CLike True ''actor'')
    (PStr (''%'' @ str_of (af_actor f) @ ''%'')) c2"
  define c4 where "c4 = push_cond (truthy (af_actionPrefix f) \<and> af_actionPrefix f \<noteq> Some ''all'')
    (CLike False ''action'') (PStr (str_of (af_actionPrefix f) @ ''.%'')) c3"
  have b': "push_cond (truthy (af_outcome f)) (\<lambda>n. CCmp OpEq ''outcome'' (EPar n))
      (PStr (str_of (af_outcome f))) c4 = (cs, ps')"
    using b by (simp only: audit_where_def c1_def c2_def c3_def c4_def)
  obtain cs1 ps1 where p1: "c1 = (cs1, ps1)" by (cases c1)
  obtain cs2 ps2 where p2: "c2 = (cs2, ps2)" by (cases c2)
  obtain cs3 ps3 where p3: "c3 = (cs3, ps3)" by (cases c3)
  obtain cs4 ps4 where p4: "c4 = (cs4, ps4)" by (cases c4)
  note q1 = c1_def [symmetric, unfolded p1] and q2 = c2_def [symmetric, unfolded p1 p2]
    and q3 = c3_def [symmetric, unfolded p2 p3] and q4 = c4_def [symmetric, unfolded p3 p4]
    and q5 = b' [unfolded p4]
  show "\<exists>ext. ps' = ps @ ext"
    using push_cond_extends [OF q1] push_cond_extends [OF q2] push_cond_extends [OF q3]
      push_cond_extends [OF q4] push_cond_extends [OF q5] by fastforce
  fix post r
  note h1 = push_cond_holds [OF q1 holds_no_cond holds_ts_cmp, where g = g and r = r]
  note h2 = push_cond_holds [OF q2 h1 holds_ts_cmp]
  note h3 = push_cond_holds [OF q3 h2 holds_like]
  note h4 = push_cond_holds [OF q4 h3 holds_like]
  note h5 = push_cond_holds [OF q5 h4 holds_str_eq]
  show "holds g (ps' @ post) r (CAll cs) \<longleftrightarrow> audit_matches g f r"
    using h5 [where post = post] by (simp add: audit_matches_def)
qed

record AuditPage =
  ap_rows :: "audit_row list"
  ap_total :: nat
  ap_page :: int
  ap_pageSize :: int

definition newest_first :: "audit_row list \<Rightarrow> audit_row list" where
  \<comment> \<open>ORDER BY ts DESC, id DESC\<close>
  "newest_first rows = sort_key (\<lambda>a. - a_ts a) (sort_key (\<lambda>a. - a_id a) rows)"

definition listAuditLog :: "pg \<Rightarrow> AuditFilters \<Rightarrow> db \<Rightarrow> AuditPage" where
  "listAuditLog g f d =
    (let pageSize = min (max 1 (case af_pageSize f of None \<Rightarrow> 50 | Some k \<Rightarrow> k)) 200;
         page = max 1 (case af_page f of None \<Rightarrow> 1 | Some p \<Rightarrow> p);
         (conds, args) = audit_where f [];
         matching = filter (\<lambda>a. holds g args (audit_sql a) (CAll conds)) (audit_log d);
         offset = (page - 1) * pageSize
     in \<lparr>ap_rows = page_of (nat pageSize) (nat offset) (newest_first matching),
         ap_total = length matching, ap_page = page, ap_pageSize = pageSize\<rparr>)"

definition AUDIT_CSV_ROW_CAP :: nat where "AUDIT_CSV_ROW_CAP = 100000"

definition audit_cells :: "(json \<Rightarrow> string) \<Rightarrow> (int \<Rightarrow> string) \<Rightarrow> audit_row \<Rightarrow> string list" where
  \<comment> \<open>the parameters are \<open>JSON.stringify\<close> and the cast of a timestamptz to text\<close>
  "audit_cells stringify ts_text a = [ts_text (a_ts a), str_of (a_actor a), a_actor_kind a, a_action a,
     str_of (a_target a), outcome_str (a_outcome a), str_of (a_ip a), str_of (a_user_agent a),
     (case a_detail a of None \<Rightarrow> [] | Some j \<Rightarrow> stringify j)]"

definition audit_csv_headers :: "string list" where
  "audit_csv_headers = [''ts'', ''actor'', ''actor_kind'', ''action'', ''target'', ''outcome'', ''ip'',
     ''user_agent'', ''detail'']"

definition streamAuditLogCsv :: "pg \<Rightarrow> (json \<Rightarrow> string) \<Rightarrow> (int \<Rightarrow> string) \<Rightarrow> string \<Rightarrow> AuditFilters
    \<Rightarrow> db \<Rightarrow> string" where
  \<comment> \<open>the chunks enqueued, joined; \<open>truncated\<close> is the closing comment line\<close>
  "streamAuditLogCsv g stringify ts_text truncated f d =
    (let (conds, args) = audit_where f [];
         rows = page_of AUDIT_CSV_ROW_CAP 0
           (newest_first (filter (\<lambda>a. holds g args (audit_sql a) (CAll conds)) (audit_log d)))
     in csv_line audit_csv_headers
        @ concat (map (\<lambda>a. csv_line (audit_cells stringify ts_text a)) rows)
        @ (if length rows \<ge> AUDIT_CSV_ROW_CAP then truncated else []))"

lemma newest_first_set [simp]: "set (newest_first rows) = set rows"
  by (simp add: newest_first_def)

lemma newest_first_length [simp]: "length (newest_first rows) = length rows"
  by (simp add: newest_first_def)

definition matching_log :: "pg \<Rightarrow> AuditFilters \<Rightarrow> db \<Rightarrow> audit_row list" where
  \<comment> \<open>the rows the filters mean, newest first\<close>
  "matching_log g f d = newest_first (filter (\<lambda>a. audit_matches g f (audit_sql a)) (audit_log d))"

lemma audit_where_rows:
  assumes "audit_where f [] = (conds, args)"
  shows "filter (\<lambda>a. holds g args (audit_sql a) (CAll conds)) log
    = filter (\<lambda>a. audit_matches g f (audit_sql a)) log"
  using audit_builder.where_holds [OF assms] by simp

text \<open>
  Turning the pages of the audit listing yields every row that matches the filters exactly
  once, newest first: the first \<open>n\<close> pages, joined, are the first \<open>n * pageSize\<close> matching rows,
  and every page reports the same total.
\<close>

theorem audit_pages_complete:
  assumes "0 < k" and "k \<le> 200"
  shows "concat (map (\<lambda>p. ap_rows (listAuditLog g
        (f\<lparr>af_page := Some (int p + 1), af_pageSize := Some k\<rparr>) d)) [0..<n])
      = take (n * nat k) (matching_log g f d)
    \<and> ap_total (listAuditLog g (f\<lparr>af_page := Some q, af_pageSize := Some k\<rparr>) d)
      = length (matching_log g f d)"
proof -
  have w: "audit_where (f\<lparr>af_page := Some q, af_pageSize := Some k\<rparr>) [] = audit_where f []" for q
    by (simp add: audit_where_def)
  obtain conds args where cp: "audit_where f [] = (conds, args)" by fastforce
  have k: "min (max 1 k) 200 = k" using assms by linarith
  have off: "nat (int p * k) = p * nat k" for p
    using assms(1) by (simp add: nat_mult_distrib)
  have row: "ap_rows (listAuditLog g (f\<lparr>af_page := Some (int p + 1), af_pageSize := Some k\<rparr>) d)
      = page_of (nat k) (p * nat k) (matching_log g f d)" for p
    unfolding listAuditLog_def Let_def w cp prod.case matching_log_def audit_where_rows [OF cp]
    using assms by (simp add: off max_def)
  have tot: "ap_total (listAuditLog g (f\<lparr>af_page := Some q, af_pageSize := Some k\<rparr>) d)
      = length (matching_log g f d)"
    unfolding listAuditLog_def Let_def w cp prod.case matching_log_def audit_where_rows [OF cp]
    by simp
  show ?thesis by (simp add: row tot concat_pages)
qed

definition sample_pg :: pg where
  "sample_pg = \<lparr>pg_timestamptz = (\<lambda>_. 0), pg_day_start = (\<lambda>n. n * 86400000000)\<rparr>"

definition sample_audit_db :: db where
  "sample_audit_db = \<lparr>roles = [], role_perms = [], users = [], operators = [], shortcodes = [],
     grants = [], tokens = [], audit_log =
       [\<lparr>a_id = 1, a_ts = 5, a_actor = Some ''a'', a_actor_kind = ''portal'', a_action = ''auth.login'',
          a_target = None, a_outcome = Success, a_ip = None, a_user_agent = None, a_detail = None\<rparr>],
     exports = [], next_id = 2\<rparr>"

theorem audit_pages_complete_witness:
  "concat (map (\<lambda>p. ap_rows (listAuditLog sample_pg
      (\<lparr>af_from = None, af_to = None, af_actor = None, af_actionPrefix = None, af_outcome = None,
        af_page = None, af_pageSize = None\<rparr>\<lparr>af_page := Some (int p + 1), af_pageSize := Some 2\<rparr>)
      sample_audit_db)) [0..<1]) = audit_log sample_audit_db"
proof -
  let ?f = "\<lparr>af_from = None, af_to = None, af_actor = None, af_actionPrefix = None,
    af_outcome = None, af_page = None, af_pageSize = None\<rparr>"
  have "audit_matches sample_pg ?f r" for r by (simp add: audit_matches_def truthy_def)
  then show ?thesis
    using audit_pages_complete [of 2 sample_pg ?f sample_audit_db 1]
    by (simp add: newest_first_def matching_log_def sample_audit_db_def)
qed

text \<open>
  C8. What the audit export writes can be read back: a reader of RFC 4180 finds the header and,
  cell for cell, the rows the filters select (as long as fewer than the cap are selected),
  whatever commas, quotes or line breaks they contain.
\<close>

theorem audit_csv_roundtrip:
  assumes "length (matching_log g f d) < AUDIT_CSV_ROW_CAP"
  shows "csv_read Start [] [] (streamAuditLogCsv g stringify ts_text truncated f d)
    = audit_csv_headers # map (audit_cells stringify ts_text)
        (matching_log g f d)"
proof -
  let ?rows = "matching_log g f d"
  obtain conds args where cp: "audit_where f [] = (conds, args)" by fastforce
  have n: "length ?rows < AUDIT_CSV_ROW_CAP" using assms by simp
  have "streamAuditLogCsv g stringify ts_text truncated f d
      = concat (map csv_line (audit_csv_headers # map (audit_cells stringify ts_text) ?rows)) @ []"
    unfolding streamAuditLogCsv_def Let_def cp prod.case audit_where_rows [OF cp] page_of_def
      matching_log_def [symmetric]
    using n by (simp add: comp_def)
  moreover have "\<forall>cells \<in> set (audit_csv_headers # map (audit_cells stringify ts_text) ?rows). cells \<noteq> []"
    by (auto simp: audit_csv_headers_def audit_cells_def)
  ultimately show ?thesis by (simp only: read_lines) simp
qed

theorem audit_csv_roundtrip_witness:
  "csv_read Start [] [] (streamAuditLogCsv sample_pg (\<lambda>_. []) (\<lambda>_. ''t'') ''#'' \<lparr>af_from = None, af_to = None,
      af_actor = None, af_actionPrefix = None, af_outcome = None, af_page = None, af_pageSize = None\<rparr>
      sample_audit_db)
    = [audit_csv_headers, [''t'', ''a'', ''portal'', ''auth.login'', [], ''success'', [], [], []]]"
proof -
  let ?f = "\<lparr>af_from = None, af_to = None, af_actor = None, af_actionPrefix = None,
    af_outcome = None, af_page = None, af_pageSize = None\<rparr>"
  have m: "audit_matches sample_pg ?f r" for r by (simp add: audit_matches_def truthy_def)
  have "length (matching_log sample_pg ?f sample_audit_db) < AUDIT_CSV_ROW_CAP"
    by (simp add: m matching_log_def sample_audit_db_def AUDIT_CSV_ROW_CAP_def)
  from audit_csv_roundtrip [OF this, of "\<lambda>_. []" "\<lambda>_. ''t''" "''#''"] show ?thesis
    by (simp add: m matching_log_def sample_audit_db_def newest_first_def audit_cells_def str_of_def
        outcome_str_def)
qed

end
