(* ===== verification/Http.thy ===== *)
theory Http
  imports Audit_Log Accounts
begin

text \<open>
  What the API routes and server actions share: the request they see, the reply they give, the
  same-origin check of \<^verbatim>\<open>dashboard/src/lib/csrf.ts\<close>, the mail settings of
  \<^verbatim>\<open>dashboard/src/lib/mailer.ts\<close>, and form fields.  URL parsing (\<open>new URL\<close>), \<open>jose\<close>,
  \<open>bcrypt\<close>, SHA-256 and the random bytes come with the application record, as parameters.
\<close>

section \<open>Requests and replies\<close>

record url_parts =
  url_host :: string
  url_protocol :: string
  url_origin :: string
  url_pathname :: string

record 'j app =
  app_env :: auth_env
  app_sign :: "'j signer"
  app_verify :: "'j verifier"
  app_bcrypt :: bcrypt
  app_sha :: "string \<Rightarrow> string"
  app_url :: "string \<Rightarrow> url_parts option"    \<comment> \<open>\<open>None\<close>: the constructor throws\<close>
  app_insecure :: bool                       \<comment> \<open>COOKIE_INSECURE\<close>
  app_vars :: "string \<Rightarrow> string option"       \<comment> \<open>\<open>process.env\<close>\<close>

record 'j http_req =
  hr_headers :: headers
  hr_url :: string
  hr_body :: "json option"                   \<comment> \<open>\<open>None\<close>: \<open>req.json()\<close> throws\<close>
  hr_session :: "'j option"                  \<comment> \<open>the session cookie\<close>
  hr_now :: int                              \<comment> \<open>microseconds\<close>
  hr_salt :: nat                             \<comment> \<open>this request's randomness\<close>
  hr_token :: string

datatype rbody = RJson json | RRedirect string | RText string | RNone

record 'j reply =
  rp_status :: nat
  rp_body :: rbody
  rp_cookie :: "'j cookie option"            \<comment> \<open>the session cookie, when the handler sets it\<close>

definition reply_json :: "nat \<Rightarrow> (string \<times> json) list \<Rightarrow> 'j reply" where
  "reply_json status fs = \<lparr>rp_status = status, rp_body = RJson (JObj fs), rp_cookie = None\<rparr>"

definition reply_error :: "nat \<Rightarrow> string \<Rightarrow> 'j reply" where
  "reply_error status msg = reply_json status [(''error'', JStr msg)]"

definition crash :: "'j reply" where
  \<comment> \<open>an exception nobody catches\<close>
  "crash = \<lparr>rp_status = 500, rp_body = RNone, rp_cookie = None\<rparr>"

definition req_ms :: "'j http_req \<Rightarrow> int" where
  "req_ms rq = hr_now rq div 1000"

definition req_session :: "'j app \<Rightarrow> 'j http_req \<Rightarrow> db \<Rightarrow> SessionClaims option" where
  "req_session ap rq d = getSession (app_verify ap) (app_env ap) (req_ms rq) d (hr_session rq)"

definition req_ip :: "'j http_req \<Rightarrow> string option" where
  "req_ip rq = clientIp (hr_headers rq)"

definition log_audit :: "'j http_req \<Rightarrow> string option \<Rightarrow> string \<Rightarrow> string option \<Rightarrow> outcome
    \<Rightarrow> json option \<Rightarrow> db \<Rightarrow> db" where
  \<comment> \<open>\<open>audit({actor, action, target, outcome, ip, userAgent, detail})\<close>\<close>
  "log_audit rq actor action target oc detail d = audit (hr_now rq)
     \<lparr>ar_actor = actor, ar_actorKind = None, ar_action = action, ar_target = target, ar_outcome = oc,
      ar_ip = req_ip rq, ar_userAgent = hr_headers rq ''user-agent'', ar_detail = detail\<rparr> d"

definition reason :: "string \<Rightarrow> json option" where
  "reason r = Some (JObj [(''reason'', JStr r)])"

definition mint :: "'j app \<Rightarrow> 'j http_req \<Rightarrow> SessionClaims \<Rightarrow> int option \<Rightarrow> 'j cookie option" where
  \<comment> \<open>\<open>setSessionCookie(await signSession(claims), ttl)\<close>; \<open>None\<close> when signing throws\<close>
  "mint ap rq claims ttl = (case signSession (app_sign ap) (app_env ap) (req_ms rq) claims of
       Inl e \<Rightarrow> None
     | Inr jwt \<Rightarrow> Some (setSessionCookie (app_env ap) (app_insecure ap) jwt ttl))"

lemma log_audit_frame [simp, frame_simps]:
  "users (log_audit rq a b c oc e d) = users d" "roles (log_audit rq a b c oc e d) = roles d"
  "role_perms (log_audit rq a b c oc e d) = role_perms d"
  "shortcodes (log_audit rq a b c oc e d) = shortcodes d"
  "grants (log_audit rq a b c oc e d) = grants d" "tokens (log_audit rq a b c oc e d) = tokens d"
  "operators (log_audit rq a b c oc e d) = operators d" "exports (log_audit rq a b c oc e d) = exports d"
  by (simp_all add: log_audit_def)

lemma log_audit_find [simp]: "find_user (log_audit rq a b c oc e d) = find_user d"
  by (rule find_user_frame) simp

lemma mint_verifies:
  assumes "jose_laws (app_sign ap) (app_verify ap)" "mint ap rq claims ttl = Some ck"
  shows "\<exists>jwt. ck_value ck = Some jwt \<and> (\<forall>t. verifySession (app_verify ap) (app_env ap) t jwt =
    (if t div 1000 < req_ms rq div 1000 + (if c_imp claims \<noteq> None then ae_impersonation_ttl (app_env ap)
        else ae_ttl (app_env ap)) then Some claims else None))"
proof -
  obtain jwt where j: "signSession (app_sign ap) (app_env ap) (req_ms rq) claims = Inr jwt"
    "ck = setSessionCookie (app_env ap) (app_insecure ap) jwt ttl"
    using assms(2) by (auto simp: mint_def split: sum.splits)
  then have "ck_value ck = Some jwt" by (simp add: setSessionCookie_def)
  with verify_minted [OF assms(1) j(1)] show ?thesis by blast
qed

section \<open>JSON bodies\<close>

fun join_with :: "string \<Rightarrow> string list \<Rightarrow> string" where
  "join_with sep [] = []"
| "join_with sep [x] = x"
| "join_with sep (x # y # xs) = x @ sep @ join_with sep (y # xs)"

fun json_toString :: "json \<Rightarrow> string" where
  \<comment> \<open>\<open>value.toString()\<close>; an array joins its elements, null among them as nothing\<close>
  "json_toString JNull = ''null''"
| "json_toString (JBool b) = (if b then ''true'' else ''false'')"
| "json_toString (JNum n) = js_String n"
| "json_toString (JStr s) = s"
| "json_toString (JArr xs) = join_with '','' (map (\<lambda>x. if x = JNull then [] else json_toString x) xs)"
| "json_toString (JObj fs) = ''[object Object]''"

definition body_field :: "json option \<Rightarrow> string \<Rightarrow> json option" where
  \<comment> \<open>\<open>body?.k\<close> with null and undefined identified\<close>
  "body_field body k = (case body of None \<Rightarrow> None | Some j \<Rightarrow>
     (case jfield j k of None \<Rightarrow> None | Some JNull \<Rightarrow> None | Some v \<Rightarrow> Some v))"

definition body_text :: "json option \<Rightarrow> string \<Rightarrow> string" where
  \<comment> \<open>\<open>(body?.k ?? "").toString()\<close>\<close>
  "body_text body k = (case body_field body k of None \<Rightarrow> [] | Some v \<Rightarrow> json_toString v)"

section \<open>Same origin\<close>

definition hostFromUrl :: "'j app \<Rightarrow> string option \<Rightarrow> string option" where
  "hostFromUrl ap u = (if \<not> truthy u then None else map_option url_host (app_url ap (str_of u)))"

definition expectedHost :: "'j app \<Rightarrow> 'j http_req \<Rightarrow> string option" where
  "expectedHost ap rq =
    (let xfh = hr_headers rq ''x-forwarded-host''; host = hr_headers rq ''host''
     in if truthy xfh then Some (trim (split_head CHR '','' (str_of xfh)))
        else if truthy host then host
        else map_option url_host (app_url ap (hr_url rq)))"

definition validateSameOrigin :: "'j app \<Rightarrow> 'j http_req \<Rightarrow> bool" where
  "validateSameOrigin ap rq =
    (let expected = expectedHost ap rq;
         origin = hostFromUrl ap (hr_headers rq ''origin'');
         referer = hostFromUrl ap (hr_headers rq ''referer'')
     in if \<not> truthy expected then False
        else if truthy origin then origin = expected
        else if truthy referer then referer = expected
        else False)"

lemma same_origin_claimed:
  assumes "validateSameOrigin ap rq"
  shows "\<exists>h. expectedHost ap rq = Some h \<and> h \<noteq> []
    \<and> (hostFromUrl ap (hr_headers rq ''origin'') = Some h \<or> hostFromUrl ap (hr_headers rq ''referer'') = Some h)"
  using assms by (auto simp: validateSameOrigin_def truthy_def Let_def split: option.splits if_splits)

section \<open>Mail settings\<close>

fun rstrip_slashes :: "string \<Rightarrow> string" where
  \<comment> \<open>\<open>replace(/\/+$/, "")\<close>\<close>
  "rstrip_slashes s = rev (dropWhile (\<lambda>c. c = CHR ''/'') (rev s))"

definition publicBaseUrl :: "'j app \<Rightarrow> string option" where
  "publicBaseUrl ap = (let raw = trim (str_of (app_vars ap ''DASHBOARD_PUBLIC_URL'')) in
     if raw = [] then None
     else case app_url ap raw of None \<Rightarrow> None
       | Some u \<Rightarrow> (if url_protocol u \<noteq> ''https:'' \<and> url_protocol u \<noteq> ''http:'' then None
           else Some (url_origin u @ rstrip_slashes (url_pathname u))))"

definition mailEnabled :: "'j app \<Rightarrow> bool" where
  "mailEnabled ap \<longleftrightarrow> truthy (app_vars ap ''SMTP_HOST'') \<and> truthy (app_vars ap ''SMTP_FROM'')
     \<and> truthy (publicBaseUrl ap)"

section \<open>Form fields\<close>

type_synonym form = "(string \<times> string) list"   \<comment> \<open>FormData, in order\<close>

definition fd_get :: "form \<Rightarrow> string \<Rightarrow> string" where
  \<comment> \<open>\<open>fd.get(k)?.toString() ?? ""\<close>\<close>
  "fd_get fd k = str_of (map_of fd k)"

definition fd_str :: "form \<Rightarrow> string \<Rightarrow> string" where
  "fd_str fd k = trim (fd_get fd k)"

definition fd_int :: "form \<Rightarrow> string \<Rightarrow> int option" where
  \<comment> \<open>\<open>None\<close> is NaN\<close>
  "fd_int fd k = js_parseInt (fd_str fd k)"

definition fd_bool :: "form \<Rightarrow> string \<Rightarrow> bool" where
  "fd_bool fd k = (let v = fd_str fd k in v = ''1'' \<or> v = ''true'' \<or> v = ''on'')"

definition fd_opt :: "form \<Rightarrow> string \<Rightarrow> string option" where
  \<comment> \<open>\<open>s(fd, k) || null\<close>\<close>
  "fd_opt fd k = (let v = fd_str fd k in if v = [] then None else Some v)"

definition fd_ints :: "form \<Rightarrow> string \<Rightarrow> int list" where
  \<comment> \<open>\<open>fd.getAll(k).map(parseInt).filter(Number.isFinite)\<close>\<close>
  "fd_ints fd k = concat (map (\<lambda>(k', v). if k' = k
     then (case js_parseInt v of None \<Rightarrow> [] | Some n \<Rightarrow> [n]) else []) fd)"

definition email_re :: "string \<Rightarrow> bool" where
  \<comment> \<open>the pattern: something, one at sign, something, a dot, something, no white space\<close>
  "email_re s = (let loc = takeWhile (\<lambda>c. c \<noteq> CHR ''@'') s; rest = dropWhile (\<lambda>c. c \<noteq> CHR ''@'') s;
       dom = tl rest
     in loc \<noteq> [] \<and> rest \<noteq> [] \<and> CHR ''@'' \<notin> set dom \<and> list_all (\<lambda>c. \<not> is_ws c) s
        \<and> CHR ''.'' \<in> set (butlast (tl dom)))"

end
