(* ===== verification/Actions.thy ===== *)
theory Actions
  imports Http Viewers
begin

text \<open>
  What the server actions share: how an action ends (a redirect, with or without an error for the
  page, or an exception), the permission check at its head, the re-minting of the caller's own
  session, and the welcome mail of \<^verbatim>\<open>dashboard/src/lib/welcomeEmail.ts\<close>.  The mail
  transport is a parameter.
\<close>

section \<open>Endings\<close>

datatype act_result =
    Redirect string
  | RedirectError string string   \<comment> \<open>the path and the text of \<open>?error=\<close>, before \<open>encodeURIComponent\<close>\<close>
  | Done                          \<comment> \<open>the action returns\<close>
  | Throws exn

type_synonym 'j acted = "act_result \<times> 'j cookie option \<times> db"

definition act_go :: "string \<Rightarrow> db \<Rightarrow> 'j acted" where
  "act_go path d = (Redirect path, None, d)"

definition act_err :: "string \<Rightarrow> string \<Rightarrow> db \<Rightarrow> 'j acted" where
  "act_err path msg d = (RedirectError path msg, None, d)"

definition acted_db :: "'j acted \<Rightarrow> db" where
  "acted_db r = snd (snd r)"

lemma acted_db_simps [simp]:
  "acted_db (act_go p d) = d" "acted_db (act_err p m d) = d" "acted_db (x, y, d) = d"
  by (simp_all add: acted_db_def act_go_def act_err_def)

definition require_perm :: "'j app \<Rightarrow> 'j http_req \<Rightarrow> string list \<Rightarrow> db \<Rightarrow> SessionClaims option" where
  \<comment> \<open>a session holding one of the permissions\<close>
  "require_perm ap rq perms d = (case req_session ap rq d of None \<Rightarrow> None
     | Some s \<Rightarrow> if list_ex (hasPerm (Some s)) perms then Some s else None)"

definition session_id :: "SessionClaims \<Rightarrow> int" where
  \<comment> \<open>\<open>Number(session.sub)\<close>; the sub of every session is the decimal id of its user\<close>
  "session_id s = or0 (js_Number (c_sub s))"

definition remint_own :: "'j app \<Rightarrow> 'j http_req \<Rightarrow> int \<Rightarrow> SessionClaims \<Rightarrow> db \<Rightarrow> 'j cookie option option" where
  \<comment> \<open>\<open>if (String(id) === session.sub) ... setSessionCookie(signSession(claims))\<close>; the outer \<open>None\<close> throws\<close>
  "remint_own ap rq i session d = (if js_String i \<noteq> c_sub session then Some None
     else (case loadUserClaims d i of None \<Rightarrow> Some None
       | Some claims \<Rightarrow> (case mint ap rq claims None of None \<Rightarrow> None | Some ck \<Rightarrow> Some (Some ck))))"

section \<open>Welcome mail\<close>

datatype WelcomeEmailResult = WSent | WFailed | WOff | WSkipped

definition welcome_str :: "WelcomeEmailResult \<Rightarrow> string" where
  "welcome_str r = (case r of WSent \<Rightarrow> ''sent'' | WFailed \<Rightarrow> ''failed'' | WOff \<Rightarrow> ''off'' | WSkipped \<Rightarrow> ''skipped'')"

record WelcomeEmail =
  we_to :: string
  we_name :: string
  we_password :: ustr
  we_createdBy :: string

definition welcome_body :: "string \<Rightarrow> WelcomeEmail \<Rightarrow> ustr" where
  "welcome_body base w = concat (map (\<lambda>l. l @ [10]) (butlast
     [units ''Hello '' @ units (we_name w) @ units '','', [],
      units ''An account has been created for you on the Ussd portal.'', [],
      units ''Sign in at: '' @ units base @ units ''/login'',
      units ''Email:      '' @ units (we_to w),
      units ''Password:   '' @ we_password w, [],
      units ''Please change this password as soon as you sign in: click your name'',
      units ''at the top right, then \"Change password\". If you forget it, use'',
      units ''\"Forgot password?\" on the sign-in page.'', []]))"

type_synonym transport = "string \<Rightarrow> string \<Rightarrow> ustr \<Rightarrow> string option"
  \<comment> \<open>recipient, subject, text; the text of the exception when sending throws\<close>

definition sendWelcomeEmail :: "'j app \<Rightarrow> transport \<Rightarrow> WelcomeEmail \<Rightarrow> bool \<Rightarrow> WelcomeEmailResult \<times> string option" where
  "sendWelcomeEmail ap send w wanted =
    (if \<not> wanted then (WSkipped, None)
     else if \<not> mailEnabled ap then (WOff, None)
     else (case send (we_to w) ''Your UssdGatewayTz portal account''
               (welcome_body (str_of (publicBaseUrl ap)) w) of
         None \<Rightarrow> (WSent, None)
       | Some e \<Rightarrow> (WFailed, Some (take 300 e))))"

definition welcomeEmailNotice :: "string option \<Rightarrow> string" where
  "welcomeEmailNotice r = (if r = Some ''sent'' then '' Login details were emailed to the user.''
     else if r = Some ''off'' then '' Email isn't configured, so share the login details yourself.''
     else [])"

section \<open>Exceptions as text\<close>

definition nolockout_text :: "nolockout_reason \<Rightarrow> string" where
  \<comment> \<open>the dash of the last message as a hyphen\<close>
  "nolockout_text r = (case r of NL_user_not_found \<Rightarrow> ''user not found''
     | NL_deactivate_yourself \<Rightarrow> ''cannot deactivate yourself''
     | NL_demote_yourself \<Rightarrow> ''cannot demote yourself from super_admin''
     | NL_last_super_admin \<Rightarrow> ''this is the last active super_admin - promote another user first'')"

definition scope_text :: "scope_reason \<Rightarrow> string" where
  "scope_text r = (case r of SE_no_grants \<Rightarrow> ''at least one shortcode grant is required''
     | SE_shortcode_not_found i \<Rightarrow> ''shortcode '' @ js_String i @ '' not found''
     | SE_not_owned i \<Rightarrow> ''shortcode '' @ js_String i @ '' not owned by acting admin''
     | SE_viewer_limit n \<Rightarrow> ''you already have '' @ js_String n @ '' viewer(s); the limit is ''
         @ js_String (int ADMIN_MAX_VIEWERS)
         @ ''. Edit the existing viewer's grants instead of creating a new one.''
     | SE_role_missing \<Rightarrow> ''client_viewer role missing - run db/010 migration''
     | SE_viewer_not_found \<Rightarrow> ''viewer not found''
     | SE_not_a_viewer \<Rightarrow> ''target user is not a client_viewer''
     | SE_email_not_allowed \<Rightarrow>
         ''only a super admin or the user who created this account can change its email'')"

definition email_taken_text :: string where "email_taken_text = ''email already in use''"

end
