(* ===== verification/Middleware.thy ===== *)
theory Middleware
  imports Auth
begin

text \<open>
  \<^verbatim>\<open>dashboard/src/middleware.ts\<close>: the request-time route guard.  It checks the token and the
  route's permissions and refuses writes of an impersonated session; it never reads the
  database, so a revoked token still passes here and is refused by \<open>getSession\<close>.
\<close>

datatype http_method = GET | HEAD | OPTIONS | POST | PUT | PATCH | DELETE

record 'j request =
  rq_method :: http_method
  rq_pathname :: string
  rq_search :: string
  rq_cookie :: "'j option"

datatype mw_result =
    Next
  | JsonReply int string                       \<comment> \<open>status and the \<open>error\<close> field\<close>
  | RedirectLogin string                       \<comment> \<open>the \<open>next\<close> parameter\<close>
  | RedirectRoot
  | RedirectReadOnly string                    \<comment> \<open>303 back to the page, with \<open>?error=\<close>\<close>

definition mw_isApi :: "'j request \<Rightarrow> bool" where
  "mw_isApi req = startsWith (rq_pathname req) ''/api/''"

definition unauthorized :: "'j request \<Rightarrow> mw_result" where
  "unauthorized req = (if mw_isApi req then JsonReply 401 ''unauthorized''
     else RedirectLogin (rq_pathname req @ rq_search req))"

definition forbidden :: "'j request \<Rightarrow> mw_result" where
  "forbidden req = (if mw_isApi req then JsonReply 403 ''forbidden'' else RedirectRoot)"

definition SAFE_METHODS :: "http_method list" where
  "SAFE_METHODS = [GET, HEAD, OPTIONS]"

definition impersonationReadOnly :: "'j request \<Rightarrow> mw_result" where
  "impersonationReadOnly req =
     (if mw_isApi req then JsonReply 403 ''read-only while impersonating''
      else RedirectReadOnly (rq_pathname req))"

definition mw_matched :: "string \<Rightarrow> bool" where
  \<comment> \<open>\<open>config.matcher\<close>: paths Next hands to the middleware at all\<close>
  "mw_matched p \<longleftrightarrow> startsWith p ''/'' \<and> \<not> startsWith p ''/_next/static''
     \<and> \<not> startsWith p ''/_next/image'' \<and> \<not> startsWith p ''/favicon''"

definition middleware :: "(int \<Rightarrow> 'j \<Rightarrow> jwt_payload option) \<Rightarrow> int \<Rightarrow> 'j request \<Rightarrow> mw_result" where
  \<comment> \<open>the parameter is \<open>jwtVerify\<close> under the raw SESSION_SECRET, \<open>None\<close> when it throws\<close>
  "middleware verify now req =
    (case requiredPermFor (rq_pathname req) of
       None \<Rightarrow> Next
     | Some required \<Rightarrow>
        (case rq_cookie req of
           None \<Rightarrow> unauthorized req
         | Some jwt \<Rightarrow>
            (case verify now jwt of
               None \<Rightarrow> unauthorized req
             | Some payload \<Rightarrow>
                (let perms = c_perms (j_claims payload) in
                 if \<not> list_ex (\<lambda>p. p \<in> set perms) required then forbidden req
                 else if c_imp (j_claims payload) \<noteq> None \<and> rq_method req \<notin> set SAFE_METHODS
                      \<and> rq_pathname req \<noteq> ''/api/auth/impersonate/stop''
                      \<and> rq_pathname req \<noteq> ''/api/auth/logout''
                 then impersonationReadOnly req
                 else Next))))"

lemma middleware_replies [simp]:
  "unauthorized req \<noteq> Next" "forbidden req \<noteq> Next" "impersonationReadOnly req \<noteq> Next"
  by (simp_all add: unauthorized_def forbidden_def impersonationReadOnly_def)

lemma exempt_paths_public:
  "requiredPermFor ''/api/auth/impersonate/stop'' = None" "requiredPermFor ''/api/auth/logout'' = None"
  by (simp_all add: requiredPermFor_public public_paths_def)

lemma middleware_Next:
  "middleware verify now req = Next \<longleftrightarrow>
     requiredPermFor (rq_pathname req) = None
     \<or> (\<exists>jwt p. rq_cookie req = Some jwt \<and> verify now jwt = Some p
          \<and> passes_gate (c_perms (j_claims p)) (rq_pathname req)
          \<and> (c_imp (j_claims p) = None \<or> rq_method req \<in> set SAFE_METHODS))"
  (is "?l \<longleftrightarrow> ?r")
proof (cases "requiredPermFor (rq_pathname req)")
  case (Some ks)
  then have "rq_pathname req \<noteq> ''/api/auth/impersonate/stop''" "rq_pathname req \<noteq> ''/api/auth/logout''"
    using exempt_paths_public by auto
  with Some show ?thesis
    by (auto simp: middleware_def passes_gate_def Let_def split: option.splits)
qed (simp add: middleware_def)

text \<open>
  C4. The route guard lets a request for a gated path through only with a token that verifies
  and that carries one of the permissions the path asks for; and when the token is an
  impersonated session's, only with a method that cannot write.  The two paths the code
  exempts from the read-only rule are public, so the exemption opens nothing else.
\<close>

theorem middleware_sound:
  assumes "middleware verify now req = Next"
    and "requiredPermFor (rq_pathname req) = Some required"
  shows "\<exists>jwt p. rq_cookie req = Some jwt \<and> verify now jwt = Some p
    \<and> (\<exists>k \<in> set required. k \<in> set (c_perms (j_claims p)))
    \<and> (c_imp (j_claims p) \<noteq> None \<longrightarrow> rq_method req \<in> {GET, HEAD, OPTIONS})"
  using assms
  by (auto simp: middleware_Next passes_gate_def list_ex_iff SAFE_METHODS_def)

definition sample_claims :: "string list \<Rightarrow> SessionClaims" where
  "sample_claims ps = \<lparr>c_sub = ''7'', c_email = ''a@b.tz'', c_name = ''A'', c_role = ''client'',
     c_perms = ps, c_shortcodeIds = Some [], c_shortcodeFrom = None, c_pwv = Some 0, c_imp = None\<rparr>"

theorem middleware_sound_witness:
  "\<exists>jwt p. Some () = Some jwt
    \<and> (\<lambda>_ _. Some \<lparr>j_claims = sample_claims [AUDIT_VIEW], j_iat = 0, j_exp = 9\<rparr>) (3 :: int) jwt = Some p
    \<and> (\<exists>k \<in> set [AUDIT_VIEW]. k \<in> set (c_perms (j_claims p)))
    \<and> (c_imp (j_claims p) \<noteq> None \<longrightarrow> POST \<in> {GET, HEAD, OPTIONS})"
proof -
  let ?v = "\<lambda>(_ :: int) (_ :: unit). Some \<lparr>j_claims = sample_claims [AUDIT_VIEW], j_iat = 0, j_exp = 9\<rparr>"
  let ?rq = "\<lparr>rq_method = POST, rq_pathname = ''/audit'', rq_search = '''', rq_cookie = Some ()\<rparr>"
  have r: "requiredPermFor (rq_pathname ?rq) = Some [AUDIT_VIEW]"
    by (simp add: requiredPermFor_def)
  moreover have "middleware ?v 3 ?rq = Next"
    using r by (simp add: middleware_def sample_claims_def)
  ultimately show ?thesis using middleware_sound [of ?v 3 ?rq "[AUDIT_VIEW]"] by simp
qed

text \<open>
  Impersonation can only narrow: every route an impersonated session may open is a route
  its real driver may open with their own permissions, and the impersonated permissions are
  among the target's.
\<close>

theorem impersonation_only_narrows:
  "set (c_perms (impersonatedClaims actor target)) \<subseteq> set (c_perms target)
   \<and> (\<forall>path. passes_gate (c_perms (impersonatedClaims actor target)) path
        \<longrightarrow> passes_gate (c_perms actor) path \<and> passes_gate (c_perms target) path)"
proof (intro conjI allI impI)
  show "set (c_perms (impersonatedClaims actor target)) \<subseteq> set (c_perms target)"
    by (auto simp: impersonated_perms)
  fix path assume g: "passes_gate (c_perms (impersonatedClaims actor target)) path"
  show "passes_gate (c_perms actor) path"
    by (rule expand_passes_gate [OF g]) (auto simp: impersonated_perms)
  show "passes_gate (c_perms target) path"
    using g by (auto simp: passes_gate_def impersonated_perms list_ex_iff split: option.splits)
qed

theorem impersonation_only_narrows_witness:
  "passes_gate (c_perms (impersonatedClaims (sample_claims [REPORTS_VIEW_ALL])
      (sample_claims [REPORTS_VIEW_OWN, VIEWERS_MANAGE_OWN]))) ''/reports''
   \<and> passes_gate [REPORTS_VIEW_ALL] ''/reports''
   \<and> \<not> passes_gate (c_perms (impersonatedClaims (sample_claims [REPORTS_VIEW_ALL])
      (sample_claims [REPORTS_VIEW_OWN, VIEWERS_MANAGE_OWN]))) ''/users''"
proof -
  let ?c = "impersonatedClaims (sample_claims [REPORTS_VIEW_ALL])
      (sample_claims [REPORTS_VIEW_OWN, VIEWERS_MANAGE_OWN])"
  have p: "c_perms ?c = [REPORTS_VIEW_OWN]"
    by (simp add: impersonatedClaims_def sample_claims_def expandPerms_def IMPLIES_def)
  have r: "requiredPermFor ''/reports'' = Some [REPORTS_VIEW_OWN, REPORTS_VIEW_ALL]"
    "requiredPermFor ''/users'' = Some [PORTAL_USERS_VIEW, PORTAL_USERS_MANAGE, VIEWERS_MANAGE_OWN]"
    by (simp_all add: requiredPermFor_def)
  have g: "passes_gate (c_perms ?c) ''/reports''" "\<not> passes_gate (c_perms ?c) ''/users''"
    unfolding p by (simp_all add: passes_gate_def r)
  moreover have "passes_gate (c_perms (sample_claims [REPORTS_VIEW_ALL])) ''/reports''"
    using impersonation_only_narrows [of "sample_claims [REPORTS_VIEW_ALL]"
        "sample_claims [REPORTS_VIEW_OWN, VIEWERS_MANAGE_OWN]"] g(1) by blast
  ultimately show ?thesis by (simp add: sample_claims_def)
qed

text \<open>
  The dashboard's health endpoint, which the container's health check calls without a
  session, is not among the public routes: the guard answers 401 before the handler runs.
\<close>

theorem health_probe_refused:
  "middleware verify now \<lparr>rq_method = GET, rq_pathname = ''/api/health'', rq_search = [], rq_cookie = None\<rparr>
   = JsonReply 401 ''unauthorized''"
  by (simp add: middleware_def requiredPermFor_def unauthorized_def mw_isApi_def)

end
