(* ===== verification/Login.thy ===== *)
theory Login
  imports Http Middleware
begin

text \<open>
  The authentication routes under \<^verbatim>\<open>dashboard/src/app/api/auth/\<close>: login, logout, forgot-password,
  reset-password and the two impersonation routes.  The padding of response times and the sending
  of mail in the background leave no trace in the state and are not modelled.
\<close>

section \<open>login\<close>

definition GENERIC_ERROR :: "'j reply" where
  "GENERIC_ERROR = reply_error 401 ''invalid credentials''"

definition forbidden_reply :: "'j reply" where
  "forbidden_reply = reply_error 403 ''forbidden''"

definition safeNext :: "json option \<Rightarrow> string" where
  "safeNext raw = (case raw of Some (JStr s) \<Rightarrow>
       (if \<not> startsWith s ''/'' \<or> startsWith s ''//'' then ''/''
        else if startsWith s ''/login'' then ''/''
        else s)
     | _ \<Rightarrow> ''/'')"

definition dummy_hash :: string where
  "dummy_hash = ''$2b$12$0000000000000000000000000000000000000000000000000000''"

definition or_null :: "string \<Rightarrow> string option" where
  \<comment> \<open>\<open>s || null\<close>\<close>
  "or_null s = (if s = [] then None else Some s)"

definition login_user :: "db \<Rightarrow> string \<Rightarrow> user_row option" where
  "login_user d email = List.find (\<lambda>u. toLowerCase (u_email u) = email \<and> u_active u) (users d)"

definition login_POST :: "'j app \<Rightarrow> 'j http_req \<Rightarrow> db \<Rightarrow> 'j reply \<times> db" where
  "login_POST ap rq d =
    (let act = ''auth.login'' in
     if \<not> validateSameOrigin ap rq
     then (forbidden_reply, log_audit rq None act None Denied (reason ''csrf'') d)
     else
      (let email = toLowerCase (trim (body_text (hr_body rq) ''email''));
           password = body_text (hr_body rq) ''password'';
           nxt = safeNext (body_field (hr_body rq) ''next'')
       in if email = [] \<or> password = []
          then (GENERIC_ERROR, log_audit rq (or_null email) act None Failure (reason ''missing_fields'') d)
          else
           (let row = login_user d email;
                hashToCheck = (case row of None \<Rightarrow> dummy_hash | Some u \<Rightarrow> u_password_hash u);
                ok = bc_compare (app_bcrypt ap) (units password) hashToCheck
            in case row of
                 None \<Rightarrow> (GENERIC_ERROR, log_audit rq (Some email) act None Failure (reason ''no_user'') d)
               | Some u \<Rightarrow>
                  (if \<not> ok
                   then (GENERIC_ERROR, log_audit rq (Some email) act None Failure (reason ''bad_password'') d)
                   else (case loadUserClaims d (u_id u) of
                       None \<Rightarrow> (GENERIC_ERROR,
                          log_audit rq (Some email) act None Failure (reason ''claims_load_race'') d)
                     | Some claims \<Rightarrow>
                        (case mint ap rq claims None of
                           None \<Rightarrow> (crash, d)
                         | Some ck \<Rightarrow>
                            (case stamp_login (hr_now rq) (u_id u) d of
                               (Inl e, d1) \<Rightarrow> (crash\<lparr>rp_cookie := Some ck\<rparr>, d1)
                             | (Inr _, d1) \<Rightarrow>
                                ((reply_json 200 [(''ok'', JBool True), (''next'', JStr nxt)])\<lparr>rp_cookie := Some ck\<rparr>,
                                 log_audit rq (Some email) act None Success
                                   (Some (JObj [(''role'', JStr (c_role claims))])) d1))))))))"

section \<open>logout\<close>

definition loginRedirectUrl :: "'j app \<Rightarrow> 'j http_req \<Rightarrow> string option" where
  \<comment> \<open>\<open>None\<close> when the last fallback, parsing the request URL, throws\<close>
  "loginRedirectUrl ap rq =
    (let host = (case hr_headers rq ''x-forwarded-host'' of Some h \<Rightarrow> Some h
           | None \<Rightarrow> (case hr_headers rq ''host'' of Some h \<Rightarrow> Some h
              | None \<Rightarrow> map_option url_host (app_url ap (hr_url rq))));
         proto = (case hr_headers rq ''x-forwarded-proto'' of Some p \<Rightarrow> p | None \<Rightarrow> ''http'')
     in map_option (\<lambda>h. proto @ ''://'' @ h @ ''/login'') host)"

definition logout_POST :: "'j app \<Rightarrow> 'j http_req \<Rightarrow> db \<Rightarrow> 'j reply \<times> db" where
  "logout_POST ap rq d =
    (if \<not> validateSameOrigin ap rq then (forbidden_reply, d)
     else (let session = req_session ap rq d;
               d1 = log_audit rq (map_option c_email session) ''auth.logout'' None Success None d;
               ck = clearSessionCookie (app_insecure ap)
           in case loginRedirectUrl ap rq of
                None \<Rightarrow> (crash\<lparr>rp_cookie := Some ck\<rparr>, d1)
              | Some url \<Rightarrow> (\<lparr>rp_status = 303, rp_body = RRedirect url, rp_cookie = Some ck\<rparr>, d1)))"

section \<open>forgot-password\<close>

definition FORGOT_ACTION :: string where "FORGOT_ACTION = ''auth.reset_request''"
definition FORGOT_PER_IP :: nat where "FORGOT_PER_IP = 10"
definition FORGOT_PER_EMAIL :: nat where "FORGOT_PER_EMAIL = 3"

definition GENERIC :: "'j reply" where
  "GENERIC = reply_json 200 [(''ok'', JBool True)]"

record mail =
  m_to :: string
  m_link :: string
  m_ip :: "string option"

definition forgot_POST :: "'j app \<Rightarrow> 'j http_req \<Rightarrow> db \<Rightarrow> 'j reply \<times> mail option \<times> db" where
  \<comment> \<open>the reply, the mail handed to the background sender, the state\<close>
  "forgot_POST ap rq d =
    (let act = FORGOT_ACTION; ip = req_ip rq in
     if \<not> validateSameOrigin ap rq
     then (forbidden_reply, None, log_audit rq None act None Denied (reason ''csrf'') d)
     else if \<not> mailEnabled ap
     then (reply_error 503
       ''Password reset by email isn't set up. Ask an administrator to reset your password.'', None, d)
     else if recentAuditCountByIp (hr_now rq) ip act 60 d \<ge> FORGOT_PER_IP
     then (reply_error 429 ''Too many requests. Try again later.'', None,
           log_audit rq None act None Denied (reason ''ip_rate_limit'') d)
     else
      (let email = toLowerCase (trim (body_text (hr_body rq) ''email'')) in
       if email = [] \<or> \<not> email_re email \<or> length email > 255
       then (reply_error 400 ''Enter a valid email address.'', None, d)
       else if recentAuditCount (hr_now rq) email act Success 60 d \<ge> FORGOT_PER_EMAIL
       then (GENERIC, None, log_audit rq (Some email) act None Denied (reason ''email_rate_limit'') d)
       else (case findActiveUserByEmail email d of
            None \<Rightarrow> (GENERIC, None, log_audit rq (Some email) act None Failure (reason ''no_user'') d)
          | Some user \<Rightarrow>
             (case issueResetToken (app_sha ap) (hr_token rq) (hr_now rq) (rt_id user) ip d of
                (Inl e, d1) \<Rightarrow> (crash, None, d1)
              | (Inr token, d1) \<Rightarrow>
                 (GENERIC,
                  Some \<lparr>m_to = rt_email user,
                    m_link = str_of (publicBaseUrl ap) @ ''/reset-password#token='' @ token, m_ip = ip\<rparr>,
                  log_audit rq (Some (rt_email user)) act (Some (js_String (rt_id user))) Success None d1)))))"

section \<open>reset-password\<close>

definition RESET_ACTION :: string where "RESET_ACTION = ''auth.reset_complete''"
definition RESET_PER_IP :: nat where "RESET_PER_IP = 20"

definition pw_error_text :: "pw_error \<Rightarrow> string" where
  \<comment> \<open>the messages, with the character above 255 in the first left out\<close>
  "pw_error_text e = (case e of PwTooShort \<Rightarrow> ''new password must be 8 chars''
     | PwTooLong \<Rightarrow> ''new password must be at most 72 bytes''
     | PwMismatch \<Rightarrow> ''new passwords do not match'')"

definition reset_POST :: "'j app \<Rightarrow> 'j http_req \<Rightarrow> db \<Rightarrow> 'j reply \<times> db" where
  "reset_POST ap rq d =
    (let act = RESET_ACTION; ip = req_ip rq in
     if \<not> validateSameOrigin ap rq
     then (forbidden_reply, log_audit rq None act None Denied (reason ''csrf'') d)
     else
      (let token = body_text (hr_body rq) ''token'' in
       if body_field (hr_body rq) ''check'' = Some (JBool True)
       then (reply_json 200 [(''valid'', JBool (peekResetToken (app_sha ap) (hr_now rq) token d))], d)
       else if recentAuditCountByIp (hr_now rq) ip act 60 d \<ge> RESET_PER_IP
       then (reply_error 429 ''Too many attempts. Try again later.'', d)
       else
        (let pw = units (body_text (hr_body rq) ''password'');
             confirm = units (body_text (hr_body rq) ''password_confirm'')
         in case newPasswordError pw confirm of
              Some e \<Rightarrow> (reply_error 400 (pw_error_text e), d)
            | None \<Rightarrow>
               (case consumeResetToken (app_bcrypt ap) (hr_salt rq) (app_sha ap) (hr_now rq) token pw d of
                  (Inl e, d1) \<Rightarrow> (crash, d1)
                | (Inr r, d1) \<Rightarrow>
                   (if \<not> truthy r
                    then (reply_error 400 ''This reset link is invalid or has expired. Request a new one.'',
                          log_audit rq None act None Failure (reason ''invalid_or_expired_token'') d1)
                    else (reply_json 200 [(''ok'', JBool True)], log_audit rq r act None Success None d1))))))"

section \<open>Impersonation\<close>

definition impersonate_POST :: "'j app \<Rightarrow> 'j http_req \<Rightarrow> db \<Rightarrow> 'j reply \<times> db" where
  "impersonate_POST ap rq d =
    (let act = ''impersonation.start'' in
     if \<not> validateSameOrigin ap rq then (forbidden_reply, d)
     else (case req_session ap rq d of
         None \<Rightarrow> (reply_error 401 ''unauthorized'', d)
       | Some session \<Rightarrow>
          (if \<not> hasPerm (Some session) PORTAL_USERS_IMPERSONATE
           then (forbidden_reply, log_audit rq (Some (c_email session)) act None Denied (reason ''missing_perm'') d)
           else if c_imp session \<noteq> None
           then (reply_error 409 ''already impersonating - stop first'', d)
           else (case js_parseInt (body_text (hr_body rq) ''userId'') of
              None \<Rightarrow> (reply_error 400 ''userId required'', d)
            | Some userId \<Rightarrow>
               (if userId \<le> 0 then (reply_error 400 ''userId required'', d)
                else if js_String userId = c_sub session
                then (reply_error 400 ''cannot impersonate yourself'', d)
                else (case loadUserClaims d userId of
                   None \<Rightarrow> (reply_error 404 ''user not found'',
                      log_audit rq (Some (c_email session)) act (Some (js_String userId)) Failure
                        (reason ''target_not_found_or_inactive'') d)
                 | Some target \<Rightarrow>
                    (let claims = impersonatedClaims session target in
                     if length (c_perms claims) = 0
                     then (reply_error 409 (''you hold no permission in common with '' @ c_role target),
                           log_audit rq (Some (c_email session)) act (Some (c_email target)) Denied
                             (Some (JObj [(''reason'', JStr ''no_overlapping_permissions''),
                                (''target_role'', JStr (c_role target))])) d)
                     else (case mint ap rq claims (Some (ae_impersonation_ttl (app_env ap))) of
                         None \<Rightarrow> (crash, d)
                       | Some ck \<Rightarrow>
                          ((reply_json 200 [(''ok'', JBool True), (''viewingAs'', JStr (c_email target))])
                             \<lparr>rp_cookie := Some ck\<rparr>,
                           log_audit rq (Some (c_email session)) act (Some (c_email target)) Success
                             (Some (JObj [(''target_user_id'', JNum userId), (''target_role'', JStr (c_role target)),
                               (''effective_perms'', JNum (int (length (c_perms claims)))),
                               (''read_only'', JBool True)])) d)))))))))"

definition impersonate_stop_POST :: "'j app \<Rightarrow> 'j http_req \<Rightarrow> db \<Rightarrow> 'j reply \<times> db" where
  "impersonate_stop_POST ap rq d =
    (let act = ''impersonation.stop'' in
     if \<not> validateSameOrigin ap rq then (forbidden_reply, d)
     else (case req_session ap rq d of
         None \<Rightarrow> (reply_error 401 ''unauthorized'', d)
       | Some session \<Rightarrow>
          (case c_imp session of
             None \<Rightarrow> (reply_error 400 ''not impersonating'', d)
           | Some origin \<Rightarrow>
              (case (case js_Number (i_sub origin) of None \<Rightarrow> None | Some i \<Rightarrow> loadUserClaims d i) of
                 None \<Rightarrow> (reply_json 401 [(''error'', JStr ''your account is no longer active''),
                      (''signOut'', JBool True)],
                    log_audit rq (Some (i_email origin)) act (Some (c_email session)) Failure
                      (reason ''origin_account_inactive'') d)
               | Some own \<Rightarrow>
                  (case mint ap rq own None of
                     None \<Rightarrow> (crash, d)
                   | Some ck \<Rightarrow>
                      ((reply_json 200 [(''ok'', JBool True)])\<lparr>rp_cookie := Some ck\<rparr>,
                       log_audit rq (Some (i_email origin)) act (Some (c_email session)) Success
                         (Some (JObj [(''target_user_id'', opt_json JNum (js_Number (c_sub session)))])) d))))))"

section \<open>What the routes promise\<close>

lemma stamp_find:
  assumes "stamp_login now i d = (Inr v, d')"
  shows "find_user d' j = (if j = i then map_option (\<lambda>u. u\<lparr>u_last_login := Some now\<rparr>) (find_user d j)
    else find_user d j)"
  by (rule update_user_find) (use assms in \<open>simp_all add: stamp_login_def tx_exec_Inr\<close>)

lemma valid_same:
  assumes "wf_users d" "wf_users d'" and "map_option (\<lambda>u. (u_active u, u_password_version u)) (find_user d' i)
     = map_option (\<lambda>u. (u_active u, u_password_version u)) (find_user d i)"
  shows "userStillValid d' (js_String i) v \<longleftrightarrow> userStillValid d (js_String i) v"
  using assms(3)
  by (cases "find_user d i"; cases "find_user d' i") (auto simp: userStillValid_iff assms(1,2))

lemma log_audit_next_id: "next_id d \<le> next_id (log_audit rq a b c oc e d)"
  by (simp add: log_audit_def audit_next_id)

lemma log_audit_wf: "wf_users d \<Longrightarrow> wf_users (log_audit rq a b c oc e d)"
  using log_audit_next_id [of d rq a b c oc e] by (force simp: wf_users_def)

lemma login_cookie:
  assumes "login_POST ap rq d = (rp, d')" "rp_cookie rp = Some ck" "rp_status rp = 200"
  shows "validateSameOrigin ap rq \<and> (\<exists>u claims d1.
    login_user d (toLowerCase (trim (body_text (hr_body rq) ''email''))) = Some u
    \<and> bc_compare (app_bcrypt ap) (units (body_text (hr_body rq) ''password'')) (u_password_hash u)
    \<and> loadUserClaims d (u_id u) = Some claims \<and> mint ap rq claims None = Some ck
    \<and> stamp_login (hr_now rq) (u_id u) d = (Inr (), d1)
    \<and> rp_body rp = RJson (JObj [(''ok'', JBool True),
        (''next'', JStr (safeNext (body_field (hr_body rq) ''next'')))])
    \<and> d' = log_audit rq (Some (toLowerCase (trim (body_text (hr_body rq) ''email'')))) ''auth.login'' None
        Success (Some (JObj [(''role'', JStr (c_role claims))])) d1)"
  using assms
  by (auto simp: login_POST_def Let_def GENERIC_ERROR_def forbidden_reply_def reply_error_def reply_json_def
      crash_def split: if_splits option.splits sum.splits prod.splits)

text \<open>
  C3. Login is sound: a session cookie is set only when the posted password matches the stored hash
  of an active account with the posted email; the session it carries is the one the database
  grants that account, is not impersonated, and is accepted from then on exactly until its time to
  live has passed.
\<close>

theorem login_sound:
  assumes "login_POST ap rq d = (rp, d')" "rp_cookie rp = Some ck" "rp_status rp = 200"
    and "wf_users d" "jose_laws (app_sign ap) (app_verify ap)"
  shows "\<exists>u claims jwt. u \<in> set (users d) \<and> u_active u
    \<and> toLowerCase (u_email u) = toLowerCase (trim (body_text (hr_body rq) ''email''))
    \<and> bc_compare (app_bcrypt ap) (units (body_text (hr_body rq) ''password'')) (u_password_hash u)
    \<and> loadUserClaims d (u_id u) = Some claims \<and> c_imp claims = None \<and> ck_value ck = Some jwt
    \<and> (\<forall>t. getSession (app_verify ap) (app_env ap) t d' (Some jwt)
         = (if t div 1000 < req_ms rq div 1000 + ae_ttl (app_env ap) then Some claims else None))"
proof -
  obtain u claims d1 where
    u: "login_user d (toLowerCase (trim (body_text (hr_body rq) ''email''))) = Some u"
    and pw: "bc_compare (app_bcrypt ap) (units (body_text (hr_body rq) ''password'')) (u_password_hash u)"
    and cl: "loadUserClaims d (u_id u) = Some claims" and ck: "mint ap rq claims None = Some ck"
    and st: "stamp_login (hr_now rq) (u_id u) d = (Inr (), d1)"
    and d': "d' = log_audit rq (Some (toLowerCase (trim (body_text (hr_body rq) ''email'')))) ''auth.login'' None
        Success (Some (JObj [(''role'', JStr (c_role claims))])) d1"
    using login_cookie [OF assms(1-3)] by blast
  have um: "u \<in> set (users d)" "u_active u"
    "toLowerCase (u_email u) = toLowerCase (trim (body_text (hr_body rq) ''email''))"
    using find_SomeD [OF u [unfolded login_user_def]] by auto
  have imp: "c_imp claims = None" "c_sub claims = js_String (u_id u)"
    using loadUserClaims_SomeD [OF cl] by simp_all
  have wf': "wf_users d'" unfolding d' by (rule log_audit_wf [OF stamp_laws(1) [OF st assms(4)]])
  have v: "userStillValid d (js_String (u_id u)) (or0 (c_pwv claims))"
    using loadUserClaims_valid [OF assms(4) cl] imp by simp
  have "userStillValid d' (js_String (u_id u)) (or0 (c_pwv claims))"
    by (rule valid_same [OF assms(4) wf', THEN iffD2, OF _ v])
      (cases "find_user d (u_id u)"; simp add: d' stamp_find [OF st])
  then have val: "userStillValid d' (c_sub claims) (or0 (c_pwv claims))" by (simp add: imp)
  obtain jwt where jwt: "ck_value ck = Some jwt" and ver: "\<And>t. verifySession (app_verify ap) (app_env ap) t jwt
      = (if t div 1000 < req_ms rq div 1000 + ae_ttl (app_env ap) then Some claims else None)"
    using mint_verifies [OF assms(5) ck] imp(1) by auto
  have "\<forall>t. getSession (app_verify ap) (app_env ap) t d' (Some jwt)
      = (if t div 1000 < req_ms rq div 1000 + ae_ttl (app_env ap) then Some claims else None)"
    using val imp(1) by (simp add: getSession_def ver)
  with um pw cl imp jwt show ?thesis by blast
qed

text \<open>
  Login tells nothing about which accounts exist: an unknown email and a wrong password get the
  same reply, and neither changes any account.
\<close>

theorem login_failures_alike:
  assumes "validateSameOrigin ap rq"
    and "\<forall>u. login_user d (toLowerCase (trim (body_text (hr_body rq) ''email''))) = Some u \<longrightarrow>
      \<not> bc_compare (app_bcrypt ap) (units (body_text (hr_body rq) ''password'')) (u_password_hash u)"
  shows "fst (login_POST ap rq d) = GENERIC_ERROR \<and> users (snd (login_POST ap rq d)) = users d"
  using assms by (auto simp: login_POST_def Let_def split: option.splits)

text \<open>
  Where a browser goes when told to navigate to \<open>s\<close> from a page of this site: the URL standard
  drops tabs and line breaks and reads a backslash as a slash, and two leading slashes start a host.
\<close>

definition leaves_site :: "string \<Rightarrow> bool" where
  "leaves_site s = (let t = filter (\<lambda>c. c \<noteq> CHR 0x09 \<and> c \<noteq> CHR 0x0A \<and> c \<noteq> CHR 0x0D) s;
       slash = (\<lambda>c. c = CHR ''/'' \<or> c = CHR 0x5C)
     in case t of a # b # _ \<Rightarrow> slash a \<and> slash b | _ \<Rightarrow> False)"

text \<open>
  The redirect target handed back after login always begins with one slash and never names the
  login page, and on targets without backslash, tab or line break it keeps the browser on this site.
\<close>

theorem safeNext_safe:
  "startsWith (safeNext raw) ''/'' \<and> \<not> startsWith (safeNext raw) ''//''
   \<and> \<not> startsWith (safeNext raw) ''/login''
   \<and> ((\<forall>c \<in> set (safeNext raw). c \<notin> {CHR 0x5C, CHR 0x09, CHR 0x0A, CHR 0x0D})
        \<longrightarrow> \<not> leaves_site (safeNext raw))"
proof -
  let ?s = "safeNext raw"
  have s: "startsWith ?s ''/''" "\<not> startsWith ?s ''//''" "\<not> startsWith ?s ''/login''"
    by (auto simp: safeNext_def split: option.splits json.splits)
  have "\<not> leaves_site ?s" if h: "\<forall>c \<in> set ?s. c \<notin> {CHR 0x5C, CHR 0x09, CHR 0x0A, CHR 0x0D}"
  proof -
    have f: "filter (\<lambda>c. c \<noteq> CHR 0x09 \<and> c \<noteq> CHR 0x0A \<and> c \<noteq> CHR 0x0D) ?s = ?s"
      using h by (intro filter_True) auto
    show ?thesis
    proof (cases ?s)
      case (Cons a t)
      show ?thesis
      proof (cases t)
        case (Cons b u)
        with \<open>?s = a # t\<close> s(1,2) h show ?thesis unfolding leaves_site_def Let_def f by simp
      qed (use \<open>?s = a # t\<close> f in \<open>simp add: leaves_site_def\<close>)
    qed (simp add: leaves_site_def)
  qed
  with s show ?thesis by blast
qed

text \<open>
  But a target whose second character is a backslash passes the check unchanged, and a browser
  reads it as another host.
\<close>

theorem safeNext_backslash_leaves:
  "safeNext (Some (JStr (CHR ''/'' # CHR 0x5C # host))) = CHR ''/'' # CHR 0x5C # host
   \<and> leaves_site (CHR ''/'' # CHR 0x5C # host)"
  by (simp add: safeNext_def leaves_site_def)

lemma log_audit_valid [simp]:
  "userStillValid (log_audit rq a b c oc e d) s v = userStillValid d s v"
  unfolding userStillValid_def log_audit_frame ..

lemma loadUserClaims_frame:
  assumes "users d' = users d" "roles d' = roles d" "role_perms d' = role_perms d"
    "shortcodes d' = shortcodes d" "grants d' = grants d"
  shows "loadUserClaims d' i = loadUserClaims d i"
proof -
  have "find_role d' = find_role d" "perms_of_role d' = perms_of_role d" "access_groups d' = access_groups d"
    by (simp_all add: fun_eq_iff assms find_role_def perms_of_role_def access_groups_def access_rows_def)
  then show ?thesis unfolding loadUserClaims_def by (simp only: assms(1))
qed

lemma loadUserClaims_total:
  assumes "wf_users d" "find_user d i = Some u" "u_active u"
  shows "\<exists>c. loadUserClaims d i = Some c"
proof -
  have u: "List.find (\<lambda>u. u_id u = i \<and> u_active u) (users d) = Some u"
    using assms by (simp add: wf_users_def find_active find_user_def)
  have "find_role d (u_role_id u) \<noteq> None"
    using assms(1) find_user_mem [OF assms(2)] unfolding find_role_None wf_users_def by blast
  then show ?thesis using u by (auto simp: loadUserClaims_def Let_def)
qed

lemma mint_total:
  assumes "req_session ap rq d = Some c"
  shows "\<exists>ck. mint ap rq' claims ttl = Some ck"
  using assms unfolding req_session_def
  by (elim getSession_verified) (simp add: mint_def signSession_def Let_def)

lemma impersonate_cookie:
  assumes "impersonate_POST ap rq d = (rp, d')" "rp_cookie rp = Some ck"
  shows "validateSameOrigin ap rq \<and> (\<exists>session target uid det.
    req_session ap rq d = Some session \<and> PORTAL_USERS_IMPERSONATE \<in> set (c_perms session)
    \<and> c_imp session = None \<and> js_String uid \<noteq> c_sub session
    \<and> loadUserClaims d uid = Some target \<and> c_perms (impersonatedClaims session target) \<noteq> []
    \<and> mint ap rq (impersonatedClaims session target) (Some (ae_impersonation_ttl (app_env ap))) = Some ck
    \<and> d' = log_audit rq (Some (c_email session)) ''impersonation.start'' (Some (c_email target)) Success det d)"
  using assms
  by (auto simp: impersonate_POST_def Let_def forbidden_reply_def reply_error_def reply_json_def crash_def
      hasPerm_def split: if_splits option.splits) blast

text \<open>
  Starting an impersonation is sound: the caller holds the permission and is not impersonating
  already; the target is an active account other than the caller; what the new session may do is
  within what both may do; and it is accepted for the impersonation time to live and no longer.
\<close>

theorem impersonation_start_sound:
  assumes "impersonate_POST ap rq d = (rp, d')" "rp_cookie rp = Some ck"
    and "wf_users d" "jose_laws (app_sign ap) (app_verify ap)"
  shows "\<exists>session target uid jwt. req_session ap rq d = Some session
    \<and> PORTAL_USERS_IMPERSONATE \<in> set (c_perms session) \<and> c_imp session = None
    \<and> loadUserClaims d uid = Some target \<and> js_String uid \<noteq> c_sub session \<and> ck_value ck = Some jwt
    \<and> (let claims = impersonatedClaims session target in
         set (c_perms claims) \<subseteq> set (c_perms target)
         \<and> (\<forall>path. passes_gate (c_perms claims) path \<longrightarrow> passes_gate (c_perms session) path)
         \<and> (\<forall>t. getSession (app_verify ap) (app_env ap) t d' (Some jwt)
              = (if t div 1000 < req_ms rq div 1000 + ae_impersonation_ttl (app_env ap)
                 then Some claims else None)))"
proof -
  obtain session target uid det where a: "req_session ap rq d = Some session"
    "PORTAL_USERS_IMPERSONATE \<in> set (c_perms session)" "c_imp session = None"
    "js_String uid \<noteq> c_sub session" and t: "loadUserClaims d uid = Some target"
    and ck: "mint ap rq (impersonatedClaims session target) (Some (ae_impersonation_ttl (app_env ap))) = Some ck"
    and d': "d' = log_audit rq (Some (c_email session)) ''impersonation.start'' (Some (c_email target)) Success det d"
    using impersonate_cookie [OF assms(1,2)] by blast
  let ?c = "impersonatedClaims session target"
  obtain jwt where jwt: "ck_value ck = Some jwt" and ver: "\<And>t. verifySession (app_verify ap) (app_env ap) t jwt
      = (if t div 1000 < req_ms rq div 1000 + ae_impersonation_ttl (app_env ap) then Some ?c else None)"
    using mint_verifies [OF assms(4) ck] by auto
  have vd: "userStillValid d' s v = userStillValid d s v" for s v by (simp add: d')
  have v: "userStillValid d' (c_sub ?c) (or0 (c_pwv ?c))"
    using loadUserClaims_valid [OF assms(3) t] by (simp add: vd)
  have va: "userStillValid d' (c_sub session) (or0 (c_pwv session))"
    using getSession_Some [OF a(1) [unfolded req_session_def]] by (simp add: vd)
  have "\<forall>t. getSession (app_verify ap) (app_env ap) t d' (Some jwt)
      = (if t div 1000 < req_ms rq div 1000 + ae_impersonation_ttl (app_env ap) then Some ?c else None)"
    using v va by (simp add: getSession_def ver)
  moreover have "\<forall>path. passes_gate (c_perms ?c) path \<longrightarrow> passes_gate (c_perms session) path"
    using expand_passes_gate by (auto simp: impersonated_perms)
  moreover have "set (c_perms ?c) \<subseteq> set (c_perms target)" by (auto simp: impersonated_perms)
  ultimately show ?thesis using a t jwt by (auto simp: Let_def)
qed

text \<open>
  Stopping gives the driver back exactly what the database grants them now: a stop request made
  with the impersonated cookie before it expires, while both accounts are unchanged, answers 200
  with a cookie for the driver's own freshly loaded claims.
\<close>

theorem impersonation_round_trip:
  assumes "impersonate_POST ap rq d = (rp, d')" "rp_cookie rp = Some ck"
    and "wf_users d" "jose_laws (app_sign ap) (app_verify ap)"
    and "validateSameOrigin ap rq'" "hr_session rq' = ck_value ck"
    and "req_ms rq' div 1000 < req_ms rq div 1000 + ae_impersonation_ttl (app_env ap)"
    and "\<And>c. req_session ap rq d = Some c \<Longrightarrow> c_sub c = js_String i"
  shows "\<exists>own ck'. loadUserClaims d i = Some own \<and> mint ap rq' own None = Some ck'
    \<and> rp_status (fst (impersonate_stop_POST ap rq' d')) = 200
    \<and> rp_cookie (fst (impersonate_stop_POST ap rq' d')) = Some ck'"
proof -
  obtain session target uid det where a: "req_session ap rq d = Some session"
    and t: "loadUserClaims d uid = Some target"
    and ck: "mint ap rq (impersonatedClaims session target) (Some (ae_impersonation_ttl (app_env ap))) = Some ck"
    and d': "d' = log_audit rq (Some (c_email session)) ''impersonation.start'' (Some (c_email target)) Success det d"
    using impersonate_cookie [OF assms(1,2)] by blast
  let ?c = "impersonatedClaims session target"
  obtain jwt where jwt: "ck_value ck = Some jwt" and ver: "\<And>t. verifySession (app_verify ap) (app_env ap) t jwt
      = (if t div 1000 < req_ms rq div 1000 + ae_impersonation_ttl (app_env ap) then Some ?c else None)"
    using mint_verifies [OF assms(4) ck] by auto
  have sub: "c_sub session = js_String i" by (rule assms(8) [OF a])
  have va: "userStillValid d (js_String i) (or0 (c_pwv session))"
    using getSession_Some [OF a [unfolded req_session_def]] sub by simp
  then obtain u where u: "find_user d i = Some u" "u_active u"
    by (auto simp: userStillValid_iff [OF assms(3)])
  obtain own where own: "loadUserClaims d i = Some own" using loadUserClaims_total [OF assms(3) u] by blast
  have own': "loadUserClaims d' i = Some own"
    using own by (subst loadUserClaims_frame [of d' d]) (simp_all add: d')
  have v: "userStillValid d' (c_sub ?c) (or0 (c_pwv ?c))" "userStillValid d' (js_String i) (or0 (c_pwv session))"
    using loadUserClaims_valid [OF assms(3) t] va by (simp_all add: d')
  have "req_session ap rq' d' = Some ?c"
    using v by (simp add: req_session_def getSession_def assms(6) jwt ver assms(7) sub)
  moreover obtain ck' where "mint ap rq' own None = Some ck'" using mint_total [OF a] by blast
  ultimately show ?thesis
    using own own' assms(5)
    by (simp add: impersonate_stop_POST_def Let_def sub reply_json_def)
qed

section \<open>Witnesses\<close>

definition sample_app :: "(string \<times> jwt_payload) app" where
  "sample_app = \<lparr>app_env = sample_env, app_sign = sample_sign, app_verify = sample_verify,
     app_bcrypt = sample_bcrypt, app_sha = sample_digest,
     app_url = (\<lambda>u. Some \<lparr>url_host = ''h'', url_protocol = ''https:'', url_origin = ''https://h'',
       url_pathname = ''/''\<rparr>), app_insecure = False, app_vars = (\<lambda>_. Some ''x'')\<rparr>"

definition sample_req :: "json \<Rightarrow> (string \<times> jwt_payload) option \<Rightarrow> (string \<times> jwt_payload) http_req" where
  "sample_req body ses = \<lparr>hr_headers = (\<lambda>k. if k = ''host'' \<or> k = ''origin'' then Some ''h'' else None),
     hr_url = [], hr_body = Some body, hr_session = ses, hr_now = 1000000, hr_salt = 0,
     hr_token = sample_token\<rparr>"

lemma sample_origin: "validateSameOrigin sample_app (sample_req b s)"
  by (simp add: validateSameOrigin_def expectedHost_def hostFromUrl_def sample_app_def sample_req_def
      truthy_def str_of_def)

lemma sample_mint: "\<exists>ck. mint sample_app rq c ttl = Some ck"
  by (simp add: mint_def signSession_def sample_app_def sample_secret Let_def)

definition sample_login :: "string \<Rightarrow> (string \<times> jwt_payload) http_req" where
  "sample_login pw = sample_req (JObj [(''email'', JStr ''cl''), (''password'', JStr pw)]) None"

lemma sample_login_fields:
  "toLowerCase (trim (body_text (hr_body (sample_login pw)) ''email'')) = ''cl''"
  "body_text (hr_body (sample_login pw)) ''password'' = pw"
  by (simp_all add: sample_login_def sample_req_def body_text_def body_field_def jfield_def js_defs)

lemma sample_login_user: "login_user sample_db ''cl'' = Some (sample_user 2 ''cl'' 2)"
  by (simp add: login_user_def sample_db_def sample_user_def toLowerCase_def lower_char_def)

lemma sample_compare: "bc_compare sample_bcrypt (units pw) ''h'' \<longleftrightarrow> map char_of (take 72 (units pw)) = ''h''"
  by (auto simp: sample_bcrypt_def)

lemma units_h: "map char_of (take 72 (units ''h'')) = ''h''"
  by code_simp

lemma sample_login_runs:
  "\<exists>rp d' ck. login_POST sample_app (sample_login ''h'') sample_db = (rp, d') \<and> rp_cookie rp = Some ck
    \<and> rp_status rp = 200"
proof -
  obtain cl where cl: "loadUserClaims sample_db 2 = Some cl"
    using loadUserClaims_total [OF sample_db_wf_users sample_find] by (auto simp: sample_user_def)
  obtain ck where ck: "mint sample_app (sample_login ''h'') cl None = Some ck" using sample_mint by blast
  have pw: "bc_compare (app_bcrypt sample_app) (units ''h'') (u_password_hash (sample_user 2 ''cl'' 2))"
    using units_h by (simp add: sample_app_def sample_user_def sample_compare)
  have st: "\<exists>d1. stamp_login 1000000 2 sample_db = (Inr (), d1)"
    by (simp add: stamp_login_def tx_exec_def update_user_def user_check_def fits_def sample_db_def
        sample_user_def find_user_def find_role_def toLowerCase_def lower_char_def)
  have now: "hr_now (sample_login ''h'') = 1000000" "u_id (sample_user 2 ''cl'' 2) = 2"
    "validateSameOrigin sample_app (sample_login ''h'')"
    using sample_origin by (simp_all add: sample_login_def sample_user_def) (simp add: sample_req_def)
  show ?thesis
    using cl ck pw st now
    by (auto simp: login_POST_def Let_def sample_login_fields sample_login_user reply_json_def)
qed

theorem login_sound_witness:
  "\<exists>d' jwt claims. loadUserClaims sample_db 2 = Some claims
    \<and> getSession sample_verify sample_env 0 d' (Some jwt) = Some claims"
proof -
  obtain rp d' ck where r: "login_POST sample_app (sample_login ''h'') sample_db = (rp, d')"
    "rp_cookie rp = Some ck" "rp_status rp = 200" using sample_login_runs by blast
  have j: "jose_laws (app_sign sample_app) (app_verify sample_app)"
    using sample_jose by (simp add: sample_app_def)
  obtain u claims jwt where u: "u \<in> set (users sample_db)"
    "toLowerCase (u_email u) = ''cl''" "loadUserClaims sample_db (u_id u) = Some claims"
    "\<forall>t. getSession (app_verify sample_app) (app_env sample_app) t d' (Some jwt)
         = (if t div 1000 < req_ms (sample_login ''h'') div 1000 + ae_ttl (app_env sample_app)
            then Some claims else None)"
    using login_sound [OF r sample_db_wf_users j] unfolding sample_login_fields by blast
  have "u_id u = 2" using u(1,2) by (auto simp: sample_db_def sample_user_def toLowerCase_def lower_char_def)
  moreover have "req_ms (sample_login ''h'') = 1000" by (simp add: req_ms_def sample_login_def sample_req_def)
  ultimately have "getSession sample_verify sample_env 0 d' (Some jwt) = Some claims"
    using u(4) [rule_format, of 0] by (simp add: sample_app_def) (simp add: sample_env_def)
  then show ?thesis using u(3) \<open>u_id u = 2\<close> by (metis (no_types))
qed

theorem login_failures_alike_witness:
  "fst (login_POST sample_app (sample_login ''x'') sample_db) = GENERIC_ERROR"
proof -
  have "map char_of (take 72 (units ''x'')) = ''x''" by code_simp
  then have "\<not> bc_compare (app_bcrypt sample_app) (units ''x'') (u_password_hash (sample_user 2 ''cl'' 2))"
    by (simp add: sample_app_def sample_user_def sample_compare)
  moreover have "validateSameOrigin sample_app (sample_login ''x'')"
    using sample_origin by (simp add: sample_login_def)
  ultimately show ?thesis
    using login_failures_alike [of sample_app "sample_login ''x''" sample_db]
    unfolding sample_login_fields sample_login_user by auto
qed

theorem safeNext_safe_witness:
  "safeNext (Some (JStr ''/reports'')) = ''/reports'' \<and> \<not> leaves_site ''/reports''"
  using safeNext_safe [of "Some (JStr ''/reports'')"] by (simp add: safeNext_def)

definition root_session :: SessionClaims where
  "root_session = the (loadUserClaims sample_db 1)"

definition sample_imp :: "(string \<times> jwt_payload) http_req" where
  "sample_imp = sample_req (JObj [(''userId'', JNum 2)])
     (Some (ae_secret sample_env, \<lparr>j_claims = root_session, j_iat = 0, j_exp = 28800\<rparr>))"

lemma root_loaded: "loadUserClaims sample_db 1 = Some root_session"
proof -
  have "find_user sample_db 1 = Some (sample_user 1 ''root'' 1)"
    by (simp add: find_user_def sample_db_def sample_user_def)
  from loadUserClaims_total [OF sample_db_wf_users this] show ?thesis
    by (auto simp: sample_user_def root_session_def)
qed

lemma root_fields: "c_sub root_session = js_String 1" "c_imp root_session = None"
  "PORTAL_USERS_IMPERSONATE \<in> set (c_perms root_session)" "REPORTS_VIEW_OWN \<in> set (c_perms root_session)"
proof -
  show "c_sub root_session = js_String 1" "c_imp root_session = None"
    using loadUserClaims_SomeD [OF root_loaded] by simp_all
  obtain u where "u \<in> set (users sample_db)" "u_id u = 1" "c_perms root_session = perms_of_role sample_db (u_role_id u)"
    using loadUserClaims_SomeD(3) [OF root_loaded] by blast
  then have "set (c_perms root_session) \<supseteq> set Perms"
    by (force simp: sample_db_def sample_user_def perms_of_role_def)
  then show "PORTAL_USERS_IMPERSONATE \<in> set (c_perms root_session)" "REPORTS_VIEW_OWN \<in> set (c_perms root_session)"
    by (auto simp: Perms_def)
qed

lemma root_in_session: "req_session sample_app sample_imp sample_db = Some root_session"
proof -
  have v: "userStillValid sample_db (c_sub root_session) (or0 (c_pwv root_session))"
    by (rule loadUserClaims_valid [OF sample_db_wf_users root_loaded])
  have "verifySession sample_verify sample_env (req_ms sample_imp)
      (ae_secret sample_env, \<lparr>j_claims = root_session, j_iat = 0, j_exp = 28800\<rparr>) = Some root_session"
    by (simp add: verifySession_def sample_secret sample_verify_def req_ms_def sample_imp_def sample_req_def)
  then show ?thesis
    using v root_fields by (simp add: req_session_def getSession_def sample_app_def)
      (simp add: sample_imp_def sample_req_def)
qed

definition client_claims :: SessionClaims where
  "client_claims = the (loadUserClaims sample_db 2)"

lemma client_loaded: "loadUserClaims sample_db 2 = Some client_claims"
  using loadUserClaims_total [OF sample_db_wf_users sample_find]
  by (auto simp: sample_user_def client_claims_def)

lemma client_perm: "REPORTS_VIEW_OWN \<in> set (c_perms client_claims)"
proof -
  obtain u where "u \<in> set (users sample_db)" "u_id u = 2" "c_perms client_claims = perms_of_role sample_db (u_role_id u)"
    using loadUserClaims_SomeD(3) [OF client_loaded] by blast
  then show ?thesis by (auto simp: sample_db_def sample_user_def perms_of_role_def)
qed

lemma sample_imp_runs:
  "\<exists>rp d' ck. impersonate_POST sample_app sample_imp sample_db = (rp, d') \<and> rp_cookie rp = Some ck"
proof -
  have "REPORTS_VIEW_OWN \<in> set (c_perms (impersonatedClaims root_session client_claims))"
    using root_fields(4) client_perm by (simp add: impersonated_perms expandPerms_iff)
  then have ne: "c_perms (impersonatedClaims root_session client_claims) \<noteq> []" by auto
  have uid: "js_parseInt (body_text (hr_body sample_imp) ''userId'') = Some 2"
    by (simp add: sample_imp_def sample_req_def body_text_def body_field_def jfield_def)
  have org: "validateSameOrigin sample_app sample_imp" using sample_origin by (simp add: sample_imp_def)
  obtain ck where "mint sample_app sample_imp (impersonatedClaims root_session client_claims)
      (Some (ae_impersonation_ttl (app_env sample_app))) = Some ck" using sample_mint by blast
  then show ?thesis
    using ne uid org root_in_session root_fields client_loaded
    by (simp add: impersonate_POST_def Let_def hasPerm_def)
qed

lemma sample_jose_app: "jose_laws (app_sign sample_app) (app_verify sample_app)"
  using sample_jose by (simp add: sample_app_def)

lemma sample_imp_time: "0 div 1000 < req_ms sample_imp div 1000 + ae_impersonation_ttl (app_env sample_app)"
  by (simp add: req_ms_def sample_imp_def sample_req_def sample_app_def sample_env_def)

theorem impersonation_start_sound_witness:
  "\<exists>session target uid jwt d'. req_session sample_app sample_imp sample_db = Some session
     \<and> loadUserClaims sample_db uid = Some target
     \<and> getSession (app_verify sample_app) (app_env sample_app) 0 d' (Some jwt)
       = Some (impersonatedClaims session target)"
proof -
  obtain rp d' ck where r: "impersonate_POST sample_app sample_imp sample_db = (rp, d')" "rp_cookie rp = Some ck"
    using sample_imp_runs by blast
  from impersonation_start_sound [OF r sample_db_wf_users sample_jose_app] sample_imp_time
  show ?thesis unfolding Let_def by metis
qed

theorem impersonation_round_trip_witness:
  "\<exists>jwt d' ck'. rp_cookie (fst (impersonate_stop_POST sample_app (sample_req JNull (Some jwt)) d')) = Some ck'"
proof -
  obtain rp d' ck where r: "impersonate_POST sample_app sample_imp sample_db = (rp, d')" "rp_cookie rp = Some ck"
    using sample_imp_runs by blast
  obtain jwt where jwt: "ck_value ck = Some jwt"
    using impersonation_start_sound [OF r sample_db_wf_users sample_jose_app] by blast
  let ?rq = "sample_req JNull (Some jwt)"
  have "hr_session ?rq = ck_value ck" by (simp add: sample_req_def jwt)
  moreover have "req_ms ?rq div 1000 < req_ms sample_imp div 1000 + ae_impersonation_ttl (app_env sample_app)"
    by (simp add: req_ms_def sample_imp_def sample_req_def sample_app_def sample_env_def)
  moreover have "c_sub c = js_String 1" if "req_session sample_app sample_imp sample_db = Some c" for c
    using that root_in_session root_fields(1) by simp
  ultimately show ?thesis
    using impersonation_round_trip [OF r sample_db_wf_users sample_jose_app sample_origin] by blast
qed

end
