(* ===== verification/User_Actions.thy ===== *)
theory User_Actions
  imports Actions Login
begin

text \<open>
  The server actions of \<^verbatim>\<open>dashboard/src/app/(authed)/users/actions.ts\<close> and
  \<^verbatim>\<open>.../account/actions.ts\<close>: who may call them, what they refuse, what they write and log.
  Characters above 255 in messages are written in ASCII.
\<close>

section \<open>Forms\<close>

definition parseCreate :: "form \<Rightarrow> string + UserCreate" where
  "parseCreate fd =
    (let email = toLowerCase (fd_str fd ''email''); name = fd_str fd ''name'';
         password = fd_str fd ''password''; confirm = fd_str fd ''password_confirm''
     in if email = [] \<or> \<not> email_re email then Inl ''valid email required''
        else if name = [] then Inl ''name required''
        else (case fd_int fd ''role_id'' of None \<Rightarrow> Inl ''role required''
          | Some role \<Rightarrow>
             (if length password < 8 then Inl ''password must be >=8 chars''
              else if password \<noteq> confirm then Inl ''passwords do not match''
              else Inr \<lparr>uc_email = email, uc_name = name, uc_phone = fd_opt fd ''phone'',
                     uc_role_id = role, uc_password = units password\<rparr>)))"

definition parseUpdate :: "form \<Rightarrow> string + UserUpdate" where
  "parseUpdate fd =
    (let email = toLowerCase (fd_str fd ''email''); name = fd_str fd ''name''
     in if email = [] \<or> \<not> email_re email then Inl ''valid email required''
        else if name = [] then Inl ''name required''
        else (case fd_int fd ''role_id'' of None \<Rightarrow> Inl ''role required''
          | Some role \<Rightarrow> Inr \<lparr>uu_email = email, uu_name = name, uu_phone = fd_opt fd ''phone'',
               uu_role_id = role, uu_active = fd_bool fd ''active''\<rparr>))"

definition parseViewerCreate :: "form \<Rightarrow> string + AdminViewerCreate" where
  "parseViewerCreate fd =
    (let email = toLowerCase (fd_str fd ''email''); name = fd_str fd ''name'';
         password = fd_str fd ''password''; confirm = fd_str fd ''password_confirm'';
         ids = fd_ints fd ''shortcode_ids''
     in if email = [] \<or> \<not> email_re email then Inl ''valid email required''
        else if name = [] then Inl ''name required''
        else if length password < 8 then Inl ''password must be >=8 chars''
        else if password \<noteq> confirm then Inl ''passwords do not match''
        else if length ids = 0 then Inl ''at least one shortcode grant is required''
        else Inr \<lparr>avc_email = email, avc_name = name, avc_phone = fd_opt fd ''phone'',
               avc_password = units password, avc_shortcode_ids = ids\<rparr>)"

definition ids_json :: "int list \<Rightarrow> json" where "ids_json xs = JArr (map JNum xs)"

section \<open>Super admins\<close>

definition requireAdmin :: "'j app \<Rightarrow> 'j http_req \<Rightarrow> db \<Rightarrow> SessionClaims option" where
  "requireAdmin ap rq d = require_perm ap rq [PORTAL_USERS_MANAGE] d"

definition emailNewUser :: "'j app \<Rightarrow> transport \<Rightarrow> 'j http_req \<Rightarrow> string \<Rightarrow> int \<Rightarrow> string \<Rightarrow> string \<Rightarrow> ustr
    \<Rightarrow> form \<Rightarrow> db \<Rightarrow> WelcomeEmailResult \<times> db" where
  "emailNewUser ap send rq actorEmail i email name password fd d =
    (let (result, error) = sendWelcomeEmail ap send
           \<lparr>we_to = email, we_name = name, we_password = password, we_createdBy = actorEmail\<rparr>
           (fd_bool fd ''send_email'')
     in if result = WSent \<or> result = WFailed
        then (result, log_audit rq (Some actorEmail) ''user.welcome_email'' (Some email)
               (if result = WSent then Success else Failure)
               (Some (JObj ((''id'', JNum i) #
                 (if truthy error then [(''error'', JStr (str_of error))] else [])))) d)
        else (result, d))"

definition actionCreateUser :: "'j app \<Rightarrow> transport \<Rightarrow> 'j http_req \<Rightarrow> form \<Rightarrow> db \<Rightarrow> 'j acted" where
  "actionCreateUser ap send rq fd d = (case requireAdmin ap rq d of None \<Rightarrow> act_go ''/'' d
    | Some session \<Rightarrow> (case parseCreate fd of Inl e \<Rightarrow> act_err ''/users/new'' e d
    | Inr c \<Rightarrow>
       (if emailExists (uc_email c) None d then act_err ''/users/new'' ''email already in use'' d
        else (case createUser (app_bcrypt ap) (hr_salt rq) (hr_now rq) c (session_id session) d of
            (Inl e, d1) \<Rightarrow> (if e = EmailTakenError then act_err ''/users/new'' email_taken_text d1
               else (Throws e, None, d1))
          | (Inr i, d1) \<Rightarrow>
             (let d2 = log_audit rq (Some (c_email session)) ''user.create'' (Some (uc_email c)) Success
                    (Some (JObj [(''id'', JNum i), (''role_id'', JNum (uc_role_id c))])) d1;
                  (emailed, d3) = emailNewUser ap send rq (c_email session) i (uc_email c) (uc_name c)
                    (uc_password c) fd d2
              in act_go (''/users?created=1&email='' @ welcome_str emailed) d3)))))"

definition user_path :: "int \<Rightarrow> string" where "user_path i = ''/users/'' @ js_String i"

definition actionUpdateUser :: "'j app \<Rightarrow> 'j http_req \<Rightarrow> int \<Rightarrow> form \<Rightarrow> db \<Rightarrow> 'j acted" where
  "actionUpdateUser ap rq i fd d = (case requireAdmin ap rq d of None \<Rightarrow> act_go ''/'' d
    | Some session \<Rightarrow> (case parseUpdate fd of Inl e \<Rightarrow> act_err (user_path i) e d
    | Inr u \<Rightarrow>
       (if emailExists (uu_email u) (Some i) d then act_err (user_path i) ''email already in use'' d
        else (case updateUser (hr_now rq) i u (session_id session) d of
            (Inl EmailTakenError, d1) \<Rightarrow> act_err (user_path i) email_taken_text d1
          | (Inl (NoLockoutError r), d1) \<Rightarrow> act_err (user_path i) (nolockout_text r)
               (log_audit rq (Some (c_email session)) ''user.update'' (Some (uu_email u)) Denied
                 (Some (JObj [(''id'', JNum i), (''reason'', JStr (nolockout_text r))])) d1)
          | (Inl e, d1) \<Rightarrow> (Throws e, None, d1)
          | (Inr previousEmail, d1) \<Rightarrow>
             (let d2 = log_audit rq (Some (c_email session)) ''user.update'' (Some (uu_email u)) Success
                    (Some (JObj ([(''id'', JNum i), (''role_id'', JNum (uu_role_id u)),
                       (''active'', JBool (uu_active u))]
                      @ (if toLowerCase previousEmail \<noteq> uu_email u
                         then [(''previous_email'', JStr previousEmail)] else [])))) d1
              in (case remint_own ap rq i session d2 of
                   None \<Rightarrow> (Throws (JsError ''signSession''), None, d2)
                 | Some ck \<Rightarrow> (Redirect ''/users'', ck, d2)))))))"

definition actionResetPassword :: "'j app \<Rightarrow> 'j http_req \<Rightarrow> int \<Rightarrow> form \<Rightarrow> db \<Rightarrow> 'j acted" where
  "actionResetPassword ap rq i fd d = (case requireAdmin ap rq d of None \<Rightarrow> act_go ''/'' d
    | Some session \<Rightarrow>
       (let pw = fd_str fd ''password''; confirm = fd_str fd ''password_confirm''
        in if length pw < 8 then act_err (user_path i) ''password must be >=8 chars'' d
           else if pw \<noteq> confirm then act_err (user_path i) ''passwords do not match'' d
           else (case resetPassword (app_bcrypt ap) (hr_salt rq) (hr_now rq) i (units pw) d of
               (Inl e, d1) \<Rightarrow> (Throws e, None, d1)
             | (Inr _, d1) \<Rightarrow> (case remint_own ap rq i session d1 of
                  None \<Rightarrow> (Throws (JsError ''signSession''), None, d1)
                | Some ck \<Rightarrow> (Redirect (user_path i @ ''?reset=1''), ck,
                     log_audit rq (Some (c_email session)) ''user.reset_password'' (Some (js_String i))
                       Success None d1)))))"

section \<open>Viewers\<close>

definition requireViewerManager :: "'j app \<Rightarrow> 'j http_req \<Rightarrow> db \<Rightarrow> SessionClaims option" where
  "requireViewerManager ap rq d = require_perm ap rq [PORTAL_USERS_MANAGE, VIEWERS_MANAGE_OWN] d"

definition viewer_failed :: "'j http_req \<Rightarrow> SessionClaims \<Rightarrow> string \<Rightarrow> string \<Rightarrow> (string \<Rightarrow> json) \<Rightarrow> exn \<Rightarrow> db
    \<Rightarrow> 'j acted" where
  \<comment> \<open>the catch blocks of the three viewer actions that write under a scope check\<close>
  "viewer_failed rq session act target detail e d = (case e of
       EmailTakenError \<Rightarrow> act_err ''/users'' email_taken_text d
     | ScopeError r \<Rightarrow> act_err ''/users'' (scope_text r)
         (log_audit rq (Some (c_email session)) act (Some target) Denied (Some (detail (scope_text r))) d)
     | _ \<Rightarrow> (Throws e, None, d))"

definition actionAdminCreateViewer :: "'j app \<Rightarrow> transport \<Rightarrow> 'j http_req \<Rightarrow> form \<Rightarrow> db \<Rightarrow> 'j acted" where
  "actionAdminCreateViewer ap send rq fd d = (case requireViewerManager ap rq d of None \<Rightarrow> act_go ''/'' d
    | Some session \<Rightarrow> (case parseViewerCreate fd of Inl e \<Rightarrow> act_err ''/users'' e d
    | Inr c \<Rightarrow>
       (if emailExists (avc_email c) None d then act_err ''/users'' ''email already in use'' d
        else (case createViewerAsAdmin (app_bcrypt ap) (hr_salt rq) (hr_now rq) c (session_id session) d of
            (Inl e, d1) \<Rightarrow> viewer_failed rq session ''viewer.create'' (avc_email c)
               (\<lambda>r. JObj [(''reason'', JStr r), (''shortcode_ids'', ids_json (avc_shortcode_ids c))]) e d1
          | (Inr i, d1) \<Rightarrow>
             (let d2 = log_audit rq (Some (c_email session)) ''viewer.create'' (Some (avc_email c)) Success
                    (Some (JObj [(''id'', JNum i), (''shortcode_ids'', ids_json (avc_shortcode_ids c))])) d1;
                  (emailed, d3) = emailNewUser ap send rq (c_email session) i (avc_email c) (avc_name c)
                    (avc_password c) fd d2
              in act_go (''/users?created=1&email='' @ welcome_str emailed) d3)))))"

definition actionAdminSetGrants :: "'j app \<Rightarrow> 'j http_req \<Rightarrow> int \<Rightarrow> form \<Rightarrow> db \<Rightarrow> 'j acted" where
  "actionAdminSetGrants ap rq viewerId fd d = (case requireViewerManager ap rq d of None \<Rightarrow> act_go ''/'' d
    | Some session \<Rightarrow>
       (let ids = fd_ints fd ''shortcode_ids''
        in case setViewerGrantsAsAdmin (hr_now rq) viewerId ids (session_id session) d of
             (Inl (ScopeError r), d1) \<Rightarrow> act_err ''/users'' (scope_text r)
               (log_audit rq (Some (c_email session)) ''viewer.grants.update'' (Some (js_String viewerId)) Denied
                 (Some (JObj [(''reason'', JStr (scope_text r)), (''shortcode_ids'', ids_json ids)])) d1)
           | (Inl e, d1) \<Rightarrow> (Throws e, None, d1)
           | (Inr _, d1) \<Rightarrow> act_go ''/users?saved=1''
               (log_audit rq (Some (c_email session)) ''viewer.grants.update'' (Some (js_String viewerId)) Success
                 (Some (JObj [(''shortcode_ids'', ids_json ids)])) d1)))"

definition actionAdminUpdateViewer :: "'j app \<Rightarrow> 'j http_req \<Rightarrow> int \<Rightarrow> form \<Rightarrow> db \<Rightarrow> 'j acted" where
  "actionAdminUpdateViewer ap rq viewerId fd d = (case requireViewerManager ap rq d of None \<Rightarrow> act_go ''/'' d
    | Some session \<Rightarrow>
       (let email = toLowerCase (fd_str fd ''email''); name = fd_str fd ''name'';
            active = fd_bool fd ''active''
        in if email = [] \<or> \<not> email_re email then act_err ''/users'' ''valid email required'' d
           else if name = [] then act_err ''/users'' ''name required'' d
           else if emailExists email (Some viewerId) d then act_err ''/users'' ''email already in use'' d
           else (case updateViewerAsAdmin (hr_now rq) viewerId
                \<lparr>vu_email = email, vu_name = name, vu_phone = fd_opt fd ''phone'', vu_active = active\<rparr>
                (session_id session) d of
              (Inl e, d1) \<Rightarrow> viewer_failed rq session ''viewer.update'' email
                 (\<lambda>r. JObj [(''id'', JNum viewerId), (''reason'', JStr r)]) e d1
            | (Inr previousEmail, d1) \<Rightarrow> act_go ''/users?saved=1''
                (log_audit rq (Some (c_email session)) ''viewer.update'' (Some email) Success
                  (Some (JObj ([(''id'', JNum viewerId), (''active'', JBool active)]
                    @ (if toLowerCase previousEmail \<noteq> email
                       then [(''previous_email'', JStr previousEmail)] else [])))) d1))))"

definition actionAdminResetViewerPassword :: "'j app \<Rightarrow> 'j http_req \<Rightarrow> int \<Rightarrow> form \<Rightarrow> db \<Rightarrow> 'j acted" where
  "actionAdminResetViewerPassword ap rq viewerId fd d =
    (case requireViewerManager ap rq d of None \<Rightarrow> act_go ''/'' d
    | Some session \<Rightarrow>
       (let pw = fd_str fd ''password''; confirm = fd_str fd ''password_confirm''
        in if length pw < 8 then act_err ''/users'' ''password must be >=8 chars'' d
           else if pw \<noteq> confirm then act_err ''/users'' ''passwords do not match'' d
           else (case getViewerForAdmin viewerId (session_id session) d of
               None \<Rightarrow> act_err ''/users'' ''viewer not found'' d
             | Some viewer \<Rightarrow>
                (case resetPassword (app_bcrypt ap) (hr_salt rq) (hr_now rq) viewerId (units pw) d of
                   (Inl e, d1) \<Rightarrow> (Throws e, None, d1)
                 | (Inr _, d1) \<Rightarrow> act_go ''/users?reset=1''
                     (log_audit rq (Some (c_email session)) ''viewer.reset_password'' (Some (av_email viewer))
                       Success (Some (JObj [(''id'', JNum viewerId)])) d1)))))"

section \<open>One's own password\<close>

definition CHANGE_ACTION :: string where "CHANGE_ACTION = ''auth.change_password''"
definition MAX_FAILURES :: nat where "MAX_FAILURES = 5"
definition WINDOW_MINUTES :: int where "WINDOW_MINUTES = 15"

definition account_back :: "string \<Rightarrow> db \<Rightarrow> 'j acted" where
  "account_back e d = act_err ''/account'' e d"

definition actionChangeOwnPassword :: "'j app \<Rightarrow> 'j http_req \<Rightarrow> form \<Rightarrow> db \<Rightarrow> 'j acted" where
  "actionChangeOwnPassword ap rq fd d = (case req_session ap rq d of None \<Rightarrow> act_go ''/login'' d
    | Some session \<Rightarrow>
       (let current = fd_get fd ''current_password''; pw = fd_get fd ''password'';
            confirm = fd_get fd ''password_confirm'';
            log = log_audit rq (Some (c_email session)) CHANGE_ACTION (Some (c_sub session))
        in if current = [] then account_back ''enter your current password'' d
           else (case newPasswordError (units pw) (units confirm) of
             Some e \<Rightarrow> account_back (pw_error_text e) d
           | None \<Rightarrow>
              (if pw = current then account_back ''new password must differ from the current one'' d
               else if recentAuditCount (hr_now rq) (c_email session) CHANGE_ACTION Failure WINDOW_MINUTES d
                   \<ge> MAX_FAILURES
               then account_back (''too many wrong attempts - try again in '' @ js_String WINDOW_MINUTES
                      @ '' minutes'') (log Denied (reason ''too_many_failures'') d)
               else (case changeOwnPassword (app_bcrypt ap) (hr_salt rq) (hr_now rq) (session_id session)
                      (units current) (units pw) d of
                   (Inl e, d1) \<Rightarrow> (Throws e, None, d1)
                 | (Inr ok, d1) \<Rightarrow>
                    (let d2 = log (if ok then Success else Failure)
                           (if ok then None else reason ''bad_current_password'') d1
                     in if \<not> ok then account_back ''current password is incorrect'' d2
                        else (case loadUserClaims d2 (session_id session) of
                            None \<Rightarrow> act_go ''/login'' d2
                          | Some claims \<Rightarrow> (case mint ap rq claims None of
                               None \<Rightarrow> (Throws (JsError ''signSession''), None, d2)
                             | Some ck \<Rightarrow> (Redirect ''/account?changed=1'', Some ck, d2)))))))))"

section \<open>Guessing the current password\<close>

definition failures_since :: "int \<Rightarrow> string \<Rightarrow> db \<Rightarrow> nat" where
  "failures_since t0 e d = length (filter (\<lambda>a. a_actor a = Some e \<and> a_action a = CHANGE_ACTION
     \<and> a_outcome a = Failure \<and> a_ts a \<ge> t0) (audit_log d))"

lemma failures_since_count:
  assumes "t < t0 + WINDOW_MINUTES * 60 * 1000000"
  shows "failures_since t0 e d \<le> recentAuditCount t e CHANGE_ACTION Failure WINDOW_MINUTES d"
proof -
  have "length (filter (\<lambda>a. (a_actor a = Some e \<and> a_action a = CHANGE_ACTION \<and> a_outcome a = Failure)
        \<and> a_ts a \<ge> t0) xs)
      \<le> length (filter (\<lambda>a. (a_actor a = Some e \<and> a_action a = CHANGE_ACTION \<and> a_outcome a = Failure)
        \<and> within_minutes t WINDOW_MINUTES a) xs)" for xs
    by (induction xs) (use assms in \<open>auto simp: within_minutes_def\<close>)
  then show ?thesis by (simp add: failures_since_def recentAuditCount_def)
qed

lemma log_audit_log:
  "fits 64 (req_ip rq) \<Longrightarrow> fits 255 actor \<Longrightarrow> fits 80 (Some act) \<Longrightarrow> fits 255 target \<Longrightarrow>
     failures_since t0 e (log_audit rq actor act target oc det d) = failures_since t0 e d
       + (if actor = Some e \<and> act = CHANGE_ACTION \<and> oc = Failure \<and> hr_now rq \<ge> t0 then 1 else 0)"
  by (simp add: failures_since_def log_audit_def audit_def audit_insert_def fits_def)

lemma changeOwnPassword_log:
  "changeOwnPassword bc salt now i cur new d = (r, d') \<Longrightarrow> audit_log d' = audit_log d"
proof (cases r)
  case (Inl e)
  assume "changeOwnPassword bc salt now i cur new d = (r, d')"
  then show ?thesis using Inl by (auto simp: changeOwnPassword_def Let_def)
next
  case (Inr b)
  assume "changeOwnPassword bc salt now i cur new d = (r, d')"
  then show ?thesis using Inr
    by (auto simp: changeOwnPassword_Inr update_user_def split: option.splits if_splits)
qed

abbreviation wrong_guess :: "act_result \<Rightarrow> bool" where
  "wrong_guess r \<equiv> r = RedirectError ''/account'' ''current password is incorrect''"

fun change_attempts :: "'j app \<Rightarrow> ('j http_req \<times> form) list \<Rightarrow> db \<Rightarrow> act_result list" where
  \<comment> \<open>the form of the account page posted again and again\<close>
  "change_attempts ap [] d = []"
| "change_attempts ap ((rq, fd) # xs) d =
     (let r = actionChangeOwnPassword ap rq fd d in fst r # change_attempts ap xs (acted_db r))"

lemma change_attempt_step:
  assumes "\<And>s. req_session ap rq d = Some s \<Longrightarrow> c_email s = e \<and> fits 255 (Some (c_sub s))"
    and "fits 64 (req_ip rq)" "fits 255 (Some e)" "t0 \<le> hr_now rq"
  shows "failures_since t0 e d \<le> failures_since t0 e (acted_db (actionChangeOwnPassword ap rq fd d))"
    and "wrong_guess (fst (actionChangeOwnPassword ap rq fd d)) \<Longrightarrow>
      recentAuditCount (hr_now rq) e CHANGE_ACTION Failure WINDOW_MINUTES d < MAX_FAILURES
      \<and> failures_since t0 e (acted_db (actionChangeOwnPassword ap rq fd d)) = failures_since t0 e d + 1"
proof -
  have key: "failures_since t0 e d \<le> failures_since t0 e (acted_db (actionChangeOwnPassword ap rq fd d))
    \<and> (wrong_guess (fst (actionChangeOwnPassword ap rq fd d)) \<longrightarrow>
      recentAuditCount (hr_now rq) e CHANGE_ACTION Failure WINDOW_MINUTES d < MAX_FAILURES
      \<and> failures_since t0 e (acted_db (actionChangeOwnPassword ap rq fd d)) = failures_since t0 e d + 1)"
  proof (cases "req_session ap rq d")
    case None
    then show ?thesis by (simp add: actionChangeOwnPassword_def act_go_def)
  next
    case (Some s)
    have s: "c_email s = e" "fits 255 (Some (c_sub s))" using assms(1) [OF Some] by auto
    have act: "fits 80 (Some CHANGE_ACTION)" by (simp add: fits_def CHANGE_ACTION_def)
    note lg = log_audit_log [OF assms(2,3) act s(2)]
    have same: "failures_since t0 e d1 = failures_since t0 e d"
      if "changeOwnPassword (app_bcrypt ap) salt now i cur new d = (r, d1)" for salt now i cur new r d1
      using changeOwnPassword_log [OF that] by (simp add: failures_since_def)
    let ?cur = "fd_get fd ''current_password''" and ?pw = "fd_get fd ''password''"
    let ?err = "newPasswordError (units ?pw) (units (fd_get fd ''password_confirm''))"
    let ?n = "recentAuditCount (hr_now rq) e CHANGE_ACTION Failure WINDOW_MINUTES d"
    note defs = actionChangeOwnPassword_def Some Let_def account_back_def act_err_def act_go_def s(1) lg
    consider "?cur = [] \<or> ?err \<noteq> None \<or> ?pw = ?cur"
      | "?cur \<noteq> []" "?err = None" "?pw \<noteq> ?cur" "MAX_FAILURES \<le> ?n"
      | "?cur \<noteq> []" "?err = None" "?pw \<noteq> ?cur" "?n < MAX_FAILURES" by fastforce
    then show ?thesis
    proof cases
      case 1
      then show ?thesis by (cases ?err) (auto simp: defs pw_error_text_def split: pw_error.splits)
    next
      case 2
      then show ?thesis by (simp add: defs)
    next
      case 3
      obtain r d1 where r: "changeOwnPassword (app_bcrypt ap) (hr_salt rq) (hr_now rq) (session_id s)
          (units ?cur) (units ?pw) d = (r, d1)" by force
      note d1 = same [OF r]
      show ?thesis
      proof (cases r)
        case (Inl x)
        then show ?thesis using 3 r d1 by (simp add: defs)
      next
        case (Inr ok)
        then show ?thesis using 3 r d1 assms(4)
          by (cases ok) (auto simp: defs split: option.splits)
      qed
    qed
  qed
  show "failures_since t0 e d \<le> failures_since t0 e (acted_db (actionChangeOwnPassword ap rq fd d))"
    using key by (rule conjunct1)
  show "wrong_guess (fst (actionChangeOwnPassword ap rq fd d)) \<Longrightarrow>
      recentAuditCount (hr_now rq) e CHANGE_ACTION Failure WINDOW_MINUTES d < MAX_FAILURES
      \<and> failures_since t0 e (acted_db (actionChangeOwnPassword ap rq fd d)) = failures_since t0 e d + 1"
    using key by blast
qed


definition client_session :: SessionClaims where
  "client_session = sample_session\<lparr>c_perms := [REPORTS_VIEW_OWN, VIEWERS_MANAGE_OWN, SHORTCODES_MANAGE_SANDBOX]\<rparr>"

definition client_req :: "(string \<times> jwt_payload) http_req" where
  \<comment> \<open>a request under the session of the client (2) of the sample database\<close>
  "client_req = sample_req JNull (Some (ae_secret sample_env, \<lparr>j_claims = client_session, j_iat = 0, j_exp = 28800\<rparr>))"

lemma client_req_fields: "req_ip client_req = None" "hr_now client_req = 1000000" "hr_salt client_req = 0"
  by (simp_all add: client_req_def req_ip_def clientIp_def sample_req_def truthy_def)

lemma client_in_session:
  "req_session sample_app client_req d = (if userStillValid d (js_String 2) 0 then Some client_session else None)"
proof -
  have "verifySession sample_verify sample_env (req_ms client_req)
      (ae_secret sample_env, \<lparr>j_claims = client_session, j_iat = 0, j_exp = 28800\<rparr>) = Some client_session"
    by (simp add: verifySession_def sample_secret sample_verify_def req_ms_def client_req_def sample_req_def)
  moreover have "hr_session client_req
      = Some (ae_secret sample_env, \<lparr>j_claims = client_session, j_iat = 0, j_exp = 28800\<rparr>)"
    by (simp add: client_req_def sample_req_def)
  ultimately show ?thesis
    by (simp add: req_session_def getSession_def sample_app_def)
      (simp add: client_session_def sample_session_def or0_def)
qed


section \<open>What a client can do to other accounts\<close>

inductive user_action :: "'j app \<Rightarrow> transport \<Rightarrow> 'j http_req \<Rightarrow> db \<Rightarrow> db \<Rightarrow> bool" for ap send rq d where
  ua_create: "user_action ap send rq d (acted_db (actionCreateUser ap send rq fd d))"
| ua_update: "user_action ap send rq d (acted_db (actionUpdateUser ap rq i fd d))"
| ua_reset: "user_action ap send rq d (acted_db (actionResetPassword ap rq i fd d))"
| ua_viewer: "user_action ap send rq d (acted_db (actionAdminCreateViewer ap send rq fd d))"
| ua_grants: "user_action ap send rq d (acted_db (actionAdminSetGrants ap rq i fd d))"
| ua_edit: "user_action ap send rq d (acted_db (actionAdminUpdateViewer ap rq i fd d))"
| ua_viewer_reset: "user_action ap send rq d (acted_db (actionAdminResetViewerPassword ap rq i fd d))"

lemma viewer_ops_rollback:
  "createViewerAsAdmin bc salt now c a d = (Inl e, d') \<Longrightarrow> d' = d"
  "setViewerGrantsAsAdmin now v ids a d = (Inl e, d') \<Longrightarrow> d' = d"
  "updateViewerAsAdmin now v p a d = (Inl e, d') \<Longrightarrow> d' = d"
  by (auto simp: createViewerAsAdmin_def setViewerGrantsAsAdmin_def updateViewerAsAdmin_def tx_throw_def
      Let_def split: if_splits)

lemma emailNewUser_users: "emailNewUser ap send rq a i e n p fd d = (r, d') \<Longrightarrow> users d' = users d"
  by (auto simp: emailNewUser_def Let_def split: prod.splits if_splits)

lemma require_perm_Some:
  "require_perm ap rq ps d = Some s \<longleftrightarrow> req_session ap rq d = Some s \<and> (\<exists>p \<in> set ps. p \<in> set (c_perms s))"
  by (auto simp: require_perm_def hasPerm_def list_ex_iff split: option.splits)

lemma viewer_failed_users: "users (acted_db (viewer_failed rq s act t det e d)) = users d"
  by (simp add: viewer_failed_def act_err_def act_go_def acted_db_def split: exn.splits)

lemma lane_create:
  assumes "requireViewerManager ap rq d = Some s" "d' = acted_db (actionAdminCreateViewer ap send rq fd d)"
  shows "users d' = users d \<or> (\<exists>d1. lane_step (session_id s) d d1 \<and> users d' = users d1)"
proof (cases "parseViewerCreate fd")
  case (Inr c)
  obtain r d1 where r: "createViewerAsAdmin (app_bcrypt ap) (hr_salt rq) (hr_now rq) c (session_id s) d = (r, d1)" by force
  show ?thesis
  proof (cases r)
    case (Inl e)
    with r viewer_ops_rollback(1) have "d1 = d" by blast
    then show ?thesis using assms Inr r Inl by (simp add: actionAdminCreateViewer_def viewer_failed_users)
  next
    case (Inr i)
    with r have "lane_step (session_id s) d d1" by (blast intro: ls_create)
    then show ?thesis using assms \<open>parseViewerCreate fd = Inr c\<close> r Inr
      by (auto simp: actionAdminCreateViewer_def Let_def dest!: emailNewUser_users split: prod.splits)
  qed
qed (use assms in \<open>simp add: actionAdminCreateViewer_def\<close>)

lemma lane_grants:
  assumes "requireViewerManager ap rq d = Some s" "d' = acted_db (actionAdminSetGrants ap rq v fd d)"
  shows "users d' = users d \<or> (\<exists>d1. lane_step (session_id s) d d1 \<and> users d' = users d1)"
proof -
  obtain r d1 where r: "setViewerGrantsAsAdmin (hr_now rq) v (fd_ints fd ''shortcode_ids'') (session_id s) d = (r, d1)" by force
  show ?thesis
  proof (cases r)
    case (Inl e)
    with r viewer_ops_rollback(2) have "d1 = d" by blast
    then show ?thesis using assms r Inl by (cases e) (simp_all add: actionAdminSetGrants_def)
  next
    case (Inr u)
    with r have "lane_step (session_id s) d d1" by (blast intro: ls_grants)
    then show ?thesis using assms r Inr by (auto simp: actionAdminSetGrants_def)
  qed
qed

lemma lane_update:
  assumes "requireViewerManager ap rq d = Some s" "d' = acted_db (actionAdminUpdateViewer ap rq v fd d)"
  shows "users d' = users d \<or> (\<exists>d1. lane_step (session_id s) d d1 \<and> users d' = users d1)"
proof -
  obtain r d1 where r: "updateViewerAsAdmin (hr_now rq) v \<lparr>vu_email = toLowerCase (fd_str fd ''email''),
      vu_name = fd_str fd ''name'', vu_phone = fd_opt fd ''phone'', vu_active = fd_bool fd ''active''\<rparr> (session_id s) d
      = (r, d1)" by force
  show ?thesis
  proof (cases r)
    case (Inl e)
    with r viewer_ops_rollback(3) have "d1 = d" by blast
    then show ?thesis using assms r Inl by (simp add: actionAdminUpdateViewer_def Let_def viewer_failed_users)
  next
    case (Inr e)
    with r have "lane_step (session_id s) d d1" by (blast intro: ls_update)
    then show ?thesis using assms r Inr by (auto simp: actionAdminUpdateViewer_def Let_def)
  qed
qed

lemma lane_actions:
  assumes "d' = acted_db (actionAdminCreateViewer ap send rq fd d)
      \<or> d' = acted_db (actionAdminSetGrants ap rq v fd d) \<or> d' = acted_db (actionAdminUpdateViewer ap rq v fd d)"
    and "\<And>s. req_session ap rq d = Some s \<Longrightarrow> session_id s = a"
  shows "users d' = users d \<or> (\<exists>d1. lane_step a d d1 \<and> users d' = users d1)"
proof (cases "requireViewerManager ap rq d")
  case None
  then show ?thesis using assms(1)
    by (auto simp: actionAdminCreateViewer_def actionAdminSetGrants_def actionAdminUpdateViewer_def)
next
  case (Some s)
  then have "session_id s = a" using assms(2) by (simp add: requireViewerManager_def require_perm_Some)
  then show ?thesis using assms(1) lane_create [OF Some] lane_grants [OF Some] lane_update [OF Some] by blast
qed

lemma viewer_reset_action:
  assumes "find_user d i = Some u" "\<not> is_viewer d u" "wf_users d"
  shows "find_user (acted_db (actionAdminResetViewerPassword ap rq v fd d)) i = Some u"
proof (cases "requireViewerManager ap rq d")
  case None
  then show ?thesis using assms by (simp add: actionAdminResetViewerPassword_def)
next
  case (Some s)
  show ?thesis
  proof (cases "getViewerForAdmin v (session_id s) d")
    case None
    then show ?thesis using assms Some by (simp add: actionAdminResetViewerPassword_def Let_def)
  next
    case viewer: (Some w)
    have "v \<noteq> i"
    proof
      assume "v = i"
      obtain x where x: "x \<in> set (users d)" "u_id x = v" "is_viewer d x"
        using viewer unfolding getViewerForAdmin_def Let_def
        by (auto split: option.splits if_splits dest!: find_SomeD)
      then have "x = u" using wf_find_user [OF assms(3) x(1)] assms(1) \<open>v = i\<close> by simp
      then show False using x(3) assms(2) by simp
    qed
    moreover obtain r d1 where r: "resetPassword (app_bcrypt ap) (hr_salt rq) (hr_now rq) v
        (units (fd_str fd ''password'')) d = (r, d1)" by force
    moreover have "d1 = d \<or> update_user v (set_password (hr_now rq)
        (bc_hash (app_bcrypt ap) (hr_salt rq) (units (fd_str fd ''password'')))) d = Inr d1"
      using r by (auto simp: resetPassword_def tx_exec_def split: sum.splits)
    then have "find_user d1 i = Some u"
      using assms(1) \<open>v \<noteq> i\<close> update_user_find [OF _ set_password_id, of v _ _ d d1 i] by auto
    ultimately show ?thesis using assms Some viewer
      by (cases "fd_str fd ''password'' = fd_str fd ''password_confirm''"; cases r)
        (simp_all add: actionAdminResetViewerPassword_def Let_def)
  qed
qed

text \<open>
  C11. Whatever a caller without the permission to manage portal users posts to the user pages, every
  account that is not a client_viewer stays exactly as it was: no new rights, no changed email, no
  reset password for anyone but viewers.
\<close>

theorem client_actions_confined:
  assumes act: "user_action ap send rq d d'" and wf: "wf_users d"
    and caller: "\<forall>s. req_session ap rq d = Some s \<longrightarrow> PORTAL_USERS_MANAGE \<notin> set (c_perms s)"
    and target: "find_user d i = Some u" "\<not> is_viewer d u"
  shows "find_user d' i = Some u"
proof -
  have noadm: "requireAdmin ap rq d = None"
    using caller by (cases "requireAdmin ap rq d") (auto simp: requireAdmin_def require_perm_Some)
  obtain a where a: "\<And>s. req_session ap rq d = Some s \<Longrightarrow> session_id s = a"
    by (cases "req_session ap rq d") auto
  have lane: "find_user d2 i = Some u"
    if "users d2 = users d \<or> (\<exists>d1. lane_step a d d1 \<and> users d2 = users d1)" for d2
    using that lane.others_untouched(1) [OF _ wf target] target(1) find_user_frame by metis
  from act show ?thesis
  proof cases
    case (ua_viewer fd)
    then show ?thesis using lane [OF lane_actions [OF _ a]] by blast
  next
    case (ua_grants v fd)
    then show ?thesis using lane [OF lane_actions [OF _ a]] by blast
  next
    case (ua_edit v fd)
    then show ?thesis using lane [OF lane_actions [OF _ a]] by blast
  next
    case (ua_viewer_reset v fd)
    then show ?thesis using viewer_reset_action [OF target wf] by simp
  qed (use noadm target(1) in \<open>simp_all add: actionCreateUser_def actionUpdateUser_def actionResetPassword_def\<close>)
qed

definition shared_db :: db where
  \<comment> \<open>the sample database with a viewer (9) whom the super admin granted the super admin's shortcode 6\<close>
  "shared_db = sample_db\<lparr>users := users sample_db @ [sample_user 9 ''v'' 3],
     grants := [\<lparr>gr_user = 9, gr_shortcode = 6, gr_granted_at = 0\<rparr>]\<rparr>"

definition regrant_form :: form where "regrant_form = [(''shortcode_ids'', ''5'')]"

definition takeover_form :: form where
  "takeover_form = [(''password'', ''taken123''), (''password_confirm'', ''taken123'')]"

lemma shared_db_wf: "wf_users shared_db"
  by (simp add: wf_users_def shared_db_def sample_db_def sample_user_def toLowerCase_def lower_char_def)

lemma client_valid: "users d = users shared_db \<Longrightarrow> userStillValid d (js_String 2) 0"
  by (simp add: userStillValid_def shared_db_def sample_db_def sample_user_def)

lemma client_manages:
  "users d = users shared_db \<Longrightarrow> requireViewerManager sample_app client_req d = Some client_session"
  by (simp add: requireViewerManager_def require_perm_def client_in_session client_valid hasPerm_def)
    (simp add: client_session_def)

lemma client_id: "session_id client_session = 2" "c_email client_session = ''cl''"
  "c_perms client_session = [REPORTS_VIEW_OWN, VIEWERS_MANAGE_OWN, SHORTCODES_MANAGE_SANDBOX]"
  by (simp_all add: session_id_def client_session_def sample_session_def or0_def)

lemma shared_regrant:
  "setViewerGrantsAsAdmin 1000000 9 [5] 2 shared_db = (Inr (), shared_db\<lparr>grants :=
     [\<lparr>gr_user = 9, gr_shortcode = 6, gr_granted_at = 0\<rparr>, \<lparr>gr_user = 9, gr_shortcode = 5, gr_granted_at = 1000000\<rparr>]\<rparr>)"
  by (simp add: setViewerGrantsAsAdmin_def withTx_def tx_simps tx_exec_def viewer_target_def find_user_def
      role_key_of_def find_role_def assertShortcodesOwnedBy_def delete_grants_def admin_shortcodes_def
      insert_grant_def find_shortcode_def shared_db_def sample_db_def sample_user_def sample_shortcode_def
      del: set_filter)

lemma regrant_action: "\<exists>det. actionAdminSetGrants sample_app client_req 9 regrant_form shared_db
    = act_go ''/users?saved=1'' (log_audit client_req (Some ''cl'') ''viewer.grants.update'' (Some (js_String 9)) Success det
        (shared_db\<lparr>grants := [\<lparr>gr_user = 9, gr_shortcode = 6, gr_granted_at = 0\<rparr>,
          \<lparr>gr_user = 9, gr_shortcode = 5, gr_granted_at = 1000000\<rparr>]\<rparr>))"
proof -
  have "fd_ints regrant_form ''shortcode_ids'' = [5]" by code_simp
  then show ?thesis
    using shared_regrant by (auto simp: actionAdminSetGrants_def client_manages client_id client_req_fields Let_def)
qed

theorem client_actions_confined_witness:
  "find_user (acted_db (actionAdminSetGrants sample_app client_req 9 regrant_form shared_db)) 1
     = Some (sample_user 1 ''root'' 1)"
proof (rule client_actions_confined [where send = "\<lambda>_ _ _. None"])
  show "user_action sample_app (\<lambda>_ _ _. None) client_req shared_db
      (acted_db (actionAdminSetGrants sample_app client_req 9 regrant_form shared_db))" by (rule ua_grants)
  show "\<forall>s. req_session sample_app client_req shared_db = Some s \<longrightarrow> PORTAL_USERS_MANAGE \<notin> set (c_perms s)"
    by (auto simp: client_in_session client_id split: if_splits)
  show "\<not> is_viewer shared_db (sample_user 1 ''root'' 1)"
    by (simp add: is_viewer_def role_key_of_def find_role_def shared_db_def sample_db_def sample_user_def)
  show "find_user shared_db 1 = Some (sample_user 1 ''root'' 1)"
    by (simp add: find_user_def shared_db_def sample_db_def sample_user_def)
qed (rule shared_db_wf)

text \<open>
  An admin can take over a viewer another admin shares shortcodes with: granting the viewer one
  shortcode of one's own makes the viewer resettable, and after the reset the chosen password opens an
  account that still reads the other admin's shortcodes (the email of the same viewer is protected).
\<close>

theorem viewer_takeover:
  "let d1 = acted_db (actionAdminSetGrants sample_app client_req 9 regrant_form shared_db);
       d2 = acted_db (actionAdminResetViewerPassword sample_app client_req 9 takeover_form d1)
   in fst (actionAdminResetViewerPassword sample_app client_req 9 takeover_form shared_db)
        = RedirectError ''/users'' ''viewer not found''
      \<and> (\<exists>u. find_user d2 9 = Some u \<and> bc_compare sample_bcrypt (units ''taken123'') (u_password_hash u))
      \<and> (\<exists>c. loadUserClaims d2 9 = Some c \<and> c_shortcodeIds c = Some [5, 6])
      \<and> find_shortcode d2 6 = Some (sample_shortcode 6 1)"
proof -
  let ?gs = "[\<lparr>gr_user = 9, gr_shortcode = 6, gr_granted_at = 0\<rparr>, \<lparr>gr_user = 9, gr_shortcode = 5, gr_granted_at = 1000000\<rparr>]"
  obtain d1 where d1: "d1 = acted_db (actionAdminSetGrants sample_app client_req 9 regrant_form shared_db)"
    "users d1 = users sample_db @ [sample_user 9 ''v'' 3]" "roles d1 = roles sample_db"
    "role_perms d1 = role_perms sample_db" "shortcodes d1 = shortcodes sample_db" "grants d1 = ?gs"
    using regrant_action by (auto simp: shared_db_def)
  have pw: "fd_str takeover_form ''password'' = ''taken123''" "fd_str takeover_form ''password_confirm'' = ''taken123''"
    by (simp_all add: fd_str_def fd_get_def takeover_form_def str_of_def trim_def is_ws_def)
  have before: "getViewerForAdmin 9 2 shared_db = None"
    by (simp add: getViewerForAdmin_def viewer_grants_def admin_shortcodes_def shared_db_def sample_db_def
        sample_user_def sample_shortcode_def)
  have "\<exists>w. getViewerForAdmin 9 2 d1 = Some w"
    by (simp add: getViewerForAdmin_def viewer_grants_def admin_shortcodes_def is_viewer_def role_key_of_def
        find_role_def d1(2-) sample_db_def sample_user_def sample_shortcode_def)
  then obtain w where w: "getViewerForAdmin 9 2 d1 = Some w" by blast
  let ?set = "set_password 1000000 (bc_hash sample_bcrypt 0 (units ''taken123''))"
  have len: "length (bc_hash sample_bcrypt 0 (units ''taken123'')) \<le> 255"
    by (simp add: sample_bcrypt_def units_def)
  have up: "resetPassword sample_bcrypt 0 1000000 9 (units ''taken123'') d1 = (Inr (), upd_user 9 ?set d1)"
    using len by (simp add: resetPassword_def tx_exec_def update_user_def find_user_def user_check_def fits_def find_role_def
        d1(2-) sample_db_def sample_user_def set_password_def toLowerCase_def lower_char_def)
  have b: "app_bcrypt sample_app = sample_bcrypt" by (simp add: sample_app_def)
  obtain d2 where d2: "d2 = acted_db (actionAdminResetViewerPassword sample_app client_req 9 takeover_form d1)"
    "users d2 = users (upd_user 9 ?set d1)" "roles d2 = roles d1" "role_perms d2 = role_perms d1"
    "shortcodes d2 = shortcodes d1" "grants d2 = grants d1"
    using up w by (simp add: actionAdminResetViewerPassword_def Let_def client_manages d1(2) shared_db_def
        pw client_id client_req_fields b)
  have "\<exists>u. find_user d2 9 = Some u \<and> u_password_hash u = bc_hash sample_bcrypt 0 (units ''taken123'')"
    by (simp add: find_user_def d2(2-) upd_user_def d1(2-) sample_db_def sample_user_def)
  moreover have "bc_compare sample_bcrypt (units ''taken123'') (bc_hash sample_bcrypt 0 (units ''taken123''))"
    by (simp add: sample_bcrypt_def)
  moreover have "\<exists>c. loadUserClaims d2 9 = Some c \<and> c_shortcodeIds c = Some [5, 6]"
    by (simp add: loadUserClaims_def find_role_def perms_of_role_def access_groups_ids access_rows_def
        d2(2-) upd_user_def d1(2-) sample_db_def sample_user_def sample_shortcode_def Perms_def)
  moreover have "find_shortcode d2 6 = Some (sample_shortcode 6 1)"
    by (simp add: find_shortcode_def d2(2-) d1(2-) sample_db_def sample_shortcode_def)
  moreover have "fst (actionAdminResetViewerPassword sample_app client_req 9 takeover_form shared_db)
        = RedirectError ''/users'' ''viewer not found''"
    using before by (simp add: actionAdminResetViewerPassword_def client_manages pw client_id act_err_def)
  ultimately show ?thesis unfolding Let_def d1(1) [symmetric] d2(1) [symmetric] by auto
qed

end
