(* ===== verification/Shortcodes.thy ===== *)
theory Shortcodes
  imports Http
begin

text \<open>
  \<^verbatim>\<open>dashboard/src/lib/shortcodes.ts\<close>: the routing table of the gateway as the dashboard edits it,
  the derived labels, and the sandbox rules.  \<open>shortcode_op\<close> is the contract of its operations.
  Labels are \<open>ustr\<close>, since they contain a middle dot and an ellipsis and their width is counted.
\<close>

section \<open>Rows as the pages see them\<close>

record ShortcodeRow =
  sr_row :: shortcode_row
  sr_operator_name :: string
  sr_owner_email :: string
  sr_owner_name :: string
  sr_status_set_by_email :: "string option"
  sr_reallocated :: bool

definition shortcode_view :: "db \<Rightarrow> shortcode_row \<Rightarrow> ShortcodeRow option" where
  \<comment> \<open>SHORTCODE_SELECT: inner joins to operators and owners, outer join to the last editor\<close>
  "shortcode_view d s = (case (find_operator d (sc_operator_id s), find_user d (sc_owner s)) of
     (Some o', Some u) \<Rightarrow> Some \<lparr>sr_row = s, sr_operator_name = op_name o', sr_owner_email = u_email u,
        sr_owner_name = u_name u,
        sr_status_set_by_email = (case sc_status_set_by s of None \<Rightarrow> None
          | Some b \<Rightarrow> map_option u_email (find_user d b)),
        sr_reallocated = (sc_owner_since s > sc_created_at s)\<rparr>
   | _ \<Rightarrow> None)"

definition view_rows :: "db \<Rightarrow> shortcode_row list \<Rightarrow> ShortcodeRow list" where
  "view_rows d rows = List.map_filter (shortcode_view d) rows"

definition by_operator_code :: "(string \<Rightarrow> string \<Rightarrow> bool) \<Rightarrow> ShortcodeRow \<Rightarrow> ShortcodeRow \<Rightarrow> bool" where
  \<comment> \<open>ORDER BY o.name, s.code under a collation\<close>
  "by_operator_code le a b \<longleftrightarrow> (if sr_operator_name a = sr_operator_name b
     then le (sc_code (sr_row a)) (sc_code (sr_row b)) else le (sr_operator_name a) (sr_operator_name b))"

record ShortcodeListFilters =
  slf_operatorIds :: "int list option"
  slf_status :: "sc_status option"
  slf_authMode :: "auth_mode option"
  slf_environment :: "environment option"
  slf_ownerUserId :: "int option"
  slf_search :: "string option"

definition status_str :: "sc_status \<Rightarrow> string" where
  "status_str s = (case s of Active \<Rightarrow> ''active'' | Maintenance \<Rightarrow> ''maintenance'' | Deactivated \<Rightarrow> ''deactivated'')"

definition auth_str :: "auth_mode \<Rightarrow> string" where
  "auth_str a = (case a of AuthNone \<Rightarrow> ''none'' | AuthBearer \<Rightarrow> ''bearer'')"

definition env_str :: "environment \<Rightarrow> string" where
  "env_str e = (case e of Sandbox \<Rightarrow> ''sandbox'' | Production \<Rightarrow> ''production'')"

definition format_str :: "payload_format \<Rightarrow> string" where
  "format_str f = (case f of Gateway \<Rightarrow> ''gateway'' | Legacy \<Rightarrow> ''legacy'')"

definition label_text :: "ustr option \<Rightarrow> sqlval" where
  \<comment> \<open>the label as text for ILIKE, its units above 255 shown as a question mark\<close>
  "label_text l = (case l of None \<Rightarrow> VNull
     | Some us \<Rightarrow> VStr (map (\<lambda>u. if u < 256 then char_of u else CHR ''?'') us))"

definition shortcode_sql :: "shortcode_row \<Rightarrow> row" where
  "shortcode_sql s c = (if c = ''s.operator_id'' then VInt (sc_operator_id s)
     else if c = ''s.status'' then VStr (status_str (sc_status s))
     else if c = ''s.auth_mode'' then VStr (auth_str (sc_auth_mode s))
     else if c = ''s.environment'' then VStr (env_str (sc_environment s))
     else if c = ''s.owner_user_id'' then VInt (sc_owner s)
     else if c = ''s.code'' then VStr (sc_code s)
     else if c = ''s.label'' then label_text (sc_label s)
     else if c = ''s.handler_url'' then VStr (sc_handler_url s) else VNull)"

definition search_of :: "string option \<Rightarrow> string option" where
  \<comment> \<open>\<open>f.search && f.search.trim()\<close>, as the pattern it becomes\<close>
  "search_of s = (if truthy s \<and> trim (str_of s) \<noteq> [] then Some (''%'' @ trim (str_of s) @ ''%'') else None)"

definition shortcode_where :: "ShortcodeListFilters \<Rightarrow> pval list \<Rightarrow> sql_cond list \<times> pval list" where
  "shortcode_where f ps =
    push_cond (search_of (slf_search f) \<noteq> None)
        (\<lambda>n. CEx [CLike True ''s.code'' n, CLike True ''s.label'' n, CLike True ''s.handler_url'' n])
        (PStr (str_of (search_of (slf_search f))))
    (push_cond (slf_ownerUserId f \<noteq> None) (\<lambda>n. CCmp OpEq ''s.owner_user_id'' (EPar n))
        (PInt (or0 (slf_ownerUserId f)))
    (push_cond (slf_environment f \<noteq> None) (\<lambda>n. CCmp OpEq ''s.environment'' (EPar n))
        (PStr (str_of (map_option env_str (slf_environment f))))
    (push_cond (slf_authMode f \<noteq> None) (\<lambda>n. CCmp OpEq ''s.auth_mode'' (EPar n))
        (PStr (str_of (map_option auth_str (slf_authMode f))))
    (push_cond (slf_status f \<noteq> None) (\<lambda>n. CCmp OpEq ''s.status'' (EPar n))
        (PStr (str_of (map_option status_str (slf_status f))))
    (push_cond (case slf_operatorIds f of None \<Rightarrow> False | Some ids \<Rightarrow> ids \<noteq> [])
        (\<lambda>n. CAny ''s.operator_id'' n) (PInts (case slf_operatorIds f of None \<Rightarrow> [] | Some ids \<Rightarrow> ids))
      ([], ps))))))"

definition shortcode_matches :: "ShortcodeListFilters \<Rightarrow> row \<Rightarrow> bool" where
  \<comment> \<open>what the filters mean, each absent one nothing\<close>
  "shortcode_matches f r \<longleftrightarrow> (((((True
     \<and> ((case slf_operatorIds f of None \<Rightarrow> False | Some ids \<Rightarrow> ids \<noteq> []) \<longrightarrow>
          (\<exists>i \<in> set (case slf_operatorIds f of None \<Rightarrow> [] | Some ids \<Rightarrow> ids). r ''s.operator_id'' = VInt i)))
     \<and> (slf_status f \<noteq> None \<longrightarrow> r ''s.status'' = VStr (str_of (map_option status_str (slf_status f)))))
     \<and> (slf_authMode f \<noteq> None \<longrightarrow> r ''s.auth_mode'' = VStr (str_of (map_option auth_str (slf_authMode f)))))
     \<and> (slf_environment f \<noteq> None \<longrightarrow> r ''s.environment'' = VStr (str_of (map_option env_str (slf_environment f)))))
     \<and> (slf_ownerUserId f \<noteq> None \<longrightarrow> r ''s.owner_user_id'' = VInt (or0 (slf_ownerUserId f))))
     \<and> (search_of (slf_search f) \<noteq> None \<longrightarrow> (\<exists>c \<in> {''s.code'', ''s.label'', ''s.handler_url''}. \<exists>t. r c = VStr t
          \<and> like_match (toLowerCase (str_of (search_of (slf_search f)))) (toLowerCase t)))"

interpretation shortcode_builder: cond_builder g shortcode_where shortcode_matches for g
proof (unfold_locales)
  fix f ps cs ps' post r
  assume b: "shortcode_where f ps = (cs, ps')"
  then have e: "cs = fst (shortcode_where f ps)" "ps' = snd (shortcode_where f ps)" by simp_all
  show "\<exists>ext. ps' = ps @ ext"
    unfolding e shortcode_where_def by (intro push_cond_prefix) simp
  show "holds g (ps' @ post) r (CAll cs) \<longleftrightarrow> shortcode_matches f r"
    unfolding e shortcode_where_def shortcode_matches_def
    by (intro push_cond_step) (simp_all add: holds_any_ints holds_str_eq holds_int_eq holds_like)
qed

definition listShortcodes :: "pg \<Rightarrow> (string \<Rightarrow> string \<Rightarrow> bool) \<Rightarrow> ShortcodeListFilters \<Rightarrow> db
    \<Rightarrow> ShortcodeRow list" where
  "listShortcodes g le f d =
    (let (conds, args) = shortcode_where f []
     in sort_by (by_operator_code le)
          (view_rows d (filter (\<lambda>s. holds g args (shortcode_sql s) (CAll conds)) (shortcodes d))))"

definition getShortcode :: "int \<Rightarrow> db \<Rightarrow> ShortcodeRow option" where
  "getShortcode i d = (case view_rows d (filter (\<lambda>s. sc_id s = i) (shortcodes d)) of
     [] \<Rightarrow> None | r # _ \<Rightarrow> Some r)"

definition listShortcodesOwnedBy :: "(string \<Rightarrow> string \<Rightarrow> bool) \<Rightarrow> int \<Rightarrow> db \<Rightarrow> ShortcodeRow list" where
  "listShortcodesOwnedBy le userId d = sort_by (by_operator_code le)
     (view_rows d (filter (\<lambda>s. sc_owner s = userId) (shortcodes d)))"

section \<open>Labels\<close>

definition LABEL_SEP :: ustr where "LABEL_SEP = [32, 183, 32]"
definition SANDBOX_NETWORK_LABEL :: ustr where "SANDBOX_NETWORK_LABEL = units ''SANDBOX''"

definition unit_ws :: "nat \<Rightarrow> bool" where
  \<comment> \<open>what \<open>trim\<close> removes\<close>
  "unit_ws u \<longleftrightarrow> u \<in> {9, 10, 11, 12, 13, 32, 160, 0x1680, 0x2028, 0x2029, 0x202F, 0x205F, 0x3000, 0xFEFF}
     \<or> (0x2000 \<le> u \<and> u \<le> 0x200A)"

definition utrim :: "ustr \<Rightarrow> ustr" where
  "utrim s = rev (dropWhile unit_ws (rev (dropWhile unit_ws s)))"

fun ujoin :: "ustr list \<Rightarrow> ustr" where
  "ujoin [] = []"
| "ujoin [x] = x"
| "ujoin (x # y # xs) = x @ LABEL_SEP @ ujoin (y # xs)"

definition buildShortcodeLabel :: "ustr \<Rightarrow> ustr \<Rightarrow> ustr option \<Rightarrow> environment \<Rightarrow> ustr" where
  "buildShortcodeLabel ownerName code operatorDisplayName env =
    (let network = (if env = Sandbox then SANDBOX_NETWORK_LABEL
           else utrim (case operatorDisplayName of None \<Rightarrow> [] | Some n \<Rightarrow> n));
         code' = utrim code;
         tail = filter (\<lambda>x. length x > 0) [code', network];
         budget = 120 - foldl (\<lambda>n x. n + int (length x) + int (length LABEL_SEP)) 0 tail;
         owner0 = utrim ownerName;
         owner = (if int (length owner0) > budget
           then (if budget > 1 then take (nat (budget - 1)) owner0 @ [0x2026] else [])
           else owner0)
     in ujoin (filter (\<lambda>x. length x > 0) (owner # tail)))"

definition labelPartsFor :: "int \<Rightarrow> int \<Rightarrow> db \<Rightarrow> string \<times> string" where
  \<comment> \<open>owner name and operator display name\<close>
  "labelPartsFor ownerUserId operatorId d =
    (case (find_user d ownerUserId, find_operator d operatorId) of
       (Some u, Some o') \<Rightarrow>
         (let n = rev (dropWhile (\<lambda>c. c = CHR '' '') (rev (dropWhile (\<lambda>c. c = CHR '' '') (u_name u))))
          in (if n = [] then u_email u else n, op_display_name o'))
     | _ \<Rightarrow> (''user#'' @ js_String ownerUserId, []))"

definition active_operator_ids :: "db \<Rightarrow> int list" where
  "active_operator_ids d = sort (map op_id (filter op_active (operators d)))"

definition defaultSandboxOperatorId :: "int txn" where
  "defaultSandboxOperatorId = tx_bind (tx_read active_operator_ids) (\<lambda>ids. case ids of
     [] \<Rightarrow> tx_throw (JsError ''no active operator configured'')
   | i # _ \<Rightarrow> if i = 0 then tx_throw (JsError ''no active operator configured'') else tx_return i)"

definition listOperators :: "db \<Rightarrow> operator_row list" where
  "listOperators d = sort_key op_id (filter op_active (operators d))"

definition listPossibleOwners :: "(string \<Rightarrow> string \<Rightarrow> bool) \<Rightarrow> db \<Rightarrow> (int \<times> string \<times> string) list" where
  "listPossibleOwners le d = map (\<lambda>u. (u_id u, u_email u, u_name u))
     (sort_by (\<lambda>a b. le (u_email a) (u_email b)) (filter u_active (users d)))"

section \<open>Writing\<close>

record ShortcodeWrite =
  w_operator_id :: int
  w_code :: string
  w_label :: "ustr option"
  w_environment :: environment
  w_owner_user_id :: int
  w_handler_url :: string
  w_auth_mode :: auth_mode
  w_bearer_token :: "string option"
  w_timeout_secs :: int
  w_status :: sc_status
  w_status_message :: "string option"
  w_payload_format :: payload_format
  w_verify_tls :: bool

definition ufits :: "nat \<Rightarrow> ustr option \<Rightarrow> bool" where
  "ufits n s = (case s of None \<Rightarrow> True | Some x \<Rightarrow> length x \<le> n)"

definition shortcode_check :: "db \<Rightarrow> shortcode_row \<Rightarrow> exn option" where
  "shortcode_check d s =
    (if \<not> (fits 32 (Some (sc_code s)) \<and> ufits 120 (sc_label s)) then Some (PgError ''22001'' None)
     else if list_ex (\<lambda>t. sc_id t \<noteq> sc_id s \<and> sc_operator_id t = sc_operator_id s \<and> sc_code t = sc_code s
         \<and> sc_environment t = sc_environment s) (shortcodes d)
     then Some (PgError unique_violation (Some ''uq_shortcodes_op_code_env''))
     else if find_operator d (sc_operator_id s) = None
     then Some (PgError fk_violation (Some ''shortcodes_operator_id_fkey''))
     else if find_user d (sc_owner s) = None
     then Some (PgError fk_violation (Some ''shortcodes_owner_user_id_fkey''))
     else if (case sc_status_set_by s of None \<Rightarrow> False | Some b \<Rightarrow> find_user d b = None)
     then Some (PgError fk_violation (Some ''shortcodes_status_set_by_id_fkey''))
     else None)"

definition insert_shortcode :: "shortcode_row \<Rightarrow> db \<Rightarrow> exn + db" where
  "insert_shortcode s d = (case shortcode_check d s of Some e \<Rightarrow> Inl e
     | None \<Rightarrow> Inr (d\<lparr>shortcodes := shortcodes d @ [s], next_id := next_id d + 1\<rparr>))"

definition tx_insert_shortcode :: "(int \<Rightarrow> shortcode_row) \<Rightarrow> int txn" where
  "tx_insert_shortcode mk = tx_bind (tx_read next_id)
     (\<lambda>i. tx_bind (tx_exec (insert_shortcode (mk i))) (\<lambda>_. tx_return i))"

definition stamp_owner_since :: "int \<Rightarrow> shortcode_row \<Rightarrow> shortcode_row \<Rightarrow> shortcode_row" where
  \<comment> \<open>trg_shortcodes_owner_since: OLD, NEW\<close>
  "stamp_owner_since now old new = (if sc_owner new \<noteq> sc_owner old \<and> sc_owner_since new = sc_owner_since old
     then new\<lparr>sc_owner_since := now\<rparr> else new)"

definition update_shortcode :: "int \<Rightarrow> int \<Rightarrow> (shortcode_row \<Rightarrow> shortcode_row) \<Rightarrow> db \<Rightarrow> exn + db" where
  "update_shortcode now i f d = (case find_shortcode d i of None \<Rightarrow> Inr d
     | Some s \<Rightarrow> (case shortcode_check d (stamp_owner_since now s (f s)) of Some e \<Rightarrow> Inl e
         | None \<Rightarrow> Inr (upd_shortcode i (\<lambda>s. stamp_owner_since now s (f s)) d)))"

definition createShortcode :: "int \<Rightarrow> ShortcodeWrite \<Rightarrow> int \<Rightarrow> int txn" where
  "createShortcode now w byUserId = tx_insert_shortcode (\<lambda>i.
     \<lparr>sc_id = i, sc_operator_id = w_operator_id w, sc_code = w_code w, sc_label = w_label w,
      sc_environment = w_environment w, sc_owner = w_owner_user_id w, sc_handler_url = w_handler_url w,
      sc_auth_mode = w_auth_mode w, sc_bearer_token = w_bearer_token w, sc_timeout_secs = w_timeout_secs w,
      sc_active = (w_status w = Active), sc_status = w_status w, sc_status_message = w_status_message w,
      sc_status_set_by = Some byUserId, sc_status_set_at = now, sc_payload_format = w_payload_format w,
      sc_verify_tls = w_verify_tls w, sc_created_at = now, sc_updated_at = now, sc_owner_since = now\<rparr>)"

definition promoteShortcode :: "int \<Rightarrow> int \<Rightarrow> int \<Rightarrow> int \<Rightarrow> int txn" where
  "promoteShortcode now sandboxId operatorId byUserId =
    tx_bind (tx_read (\<lambda>d. List.find (\<lambda>s. sc_id s = sandboxId \<and> sc_environment s = Sandbox) (shortcodes d)))
     (\<lambda>src. case src of
        None \<Rightarrow> tx_throw (JsError ''promote failed: shortcode not found or not sandbox'')
      | Some row \<Rightarrow> tx_bind (tx_read (labelPartsFor (sc_owner row) operatorId))
         (\<lambda>(ownerName, operatorDisplayName).
           (let label = buildShortcodeLabel (units ownerName) (units (sc_code row))
                  (Some (units operatorDisplayName)) Production
            in tx_insert_shortcode (\<lambda>i. row\<lparr>sc_id := i, sc_operator_id := operatorId, sc_label := Some label,
                 sc_environment := Production, sc_active := True, sc_status := Active,
                 sc_status_message := None, sc_status_set_by := Some byUserId, sc_status_set_at := now,
                 sc_verify_tls := True, sc_created_at := now, sc_updated_at := now,
                 sc_owner_since := now\<rparr>))))"

definition updateShortcode :: "int \<Rightarrow> int \<Rightarrow> ShortcodeWrite \<Rightarrow> int \<Rightarrow> unit txn" where
  "updateShortcode now i w byUserId = tx_exec (update_shortcode now i (\<lambda>s. s\<lparr>
     sc_operator_id := w_operator_id w, sc_code := w_code w, sc_label := w_label w,
     sc_owner := w_owner_user_id w, sc_handler_url := w_handler_url w,
     sc_auth_mode := w_auth_mode w, sc_bearer_token := w_bearer_token w,
     sc_timeout_secs := w_timeout_secs w, sc_active := (w_status w = Active),
     sc_status := w_status w, sc_status_message := w_status_message w,
     sc_status_set_by := Some byUserId, sc_status_set_at := now,
     sc_payload_format := w_payload_format w, sc_verify_tls := w_verify_tls w, sc_updated_at := now\<rparr>))"

definition setShortcodeStatus :: "int \<Rightarrow> int \<Rightarrow> sc_status \<Rightarrow> string option \<Rightarrow> int \<Rightarrow> unit txn" where
  "setShortcodeStatus now i status message byUserId = tx_exec (update_shortcode now i (\<lambda>s. s\<lparr>
     sc_status := status, sc_status_message := message, sc_status_set_by := Some byUserId,
     sc_status_set_at := now, sc_active := (status = Active), sc_updated_at := now\<rparr>))"

definition setShortcodeHandlerUrl :: "int \<Rightarrow> int \<Rightarrow> string \<Rightarrow> unit txn" where
  "setShortcodeHandlerUrl now i handlerUrl = tx_exec (update_shortcode now i (\<lambda>s. s\<lparr>
     sc_handler_url := handlerUrl, sc_updated_at := now\<rparr>))"

definition setShortcodeActive :: "int \<Rightarrow> int \<Rightarrow> bool \<Rightarrow> int \<Rightarrow> unit txn" where
  "setShortcodeActive now i active byUserId =
     setShortcodeStatus now i (if active then Active else Deactivated) None byUserId"

definition SANDBOX_PER_OPERATOR_LIMIT :: nat where "SANDBOX_PER_OPERATOR_LIMIT = 2"

definition countUnpromotedSandbox :: "int \<Rightarrow> int \<Rightarrow> db \<Rightarrow> nat" where
  "countUnpromotedSandbox ownerUserId operatorId d = length (filter (\<lambda>s. sc_owner s = ownerUserId
     \<and> sc_operator_id s = operatorId \<and> sc_environment s = Sandbox
     \<and> \<not> list_ex (\<lambda>p. sc_operator_id p = sc_operator_id s \<and> sc_code p = sc_code s
           \<and> sc_environment p = Production) (shortcodes d)) (shortcodes d))"

definition codeExists :: "int \<Rightarrow> string \<Rightarrow> environment \<Rightarrow> int option \<Rightarrow> db \<Rightarrow> bool" where
  \<comment> \<open>\<open>excludeId\<close> 0 is falsy\<close>
  "codeExists operatorId code env excludeId d = list_ex (\<lambda>s. sc_operator_id s = operatorId \<and> sc_code s = code
     \<and> sc_environment s = env \<and> (case excludeId of None \<Rightarrow> True | Some x \<Rightarrow> x = 0 \<or> sc_id s \<noteq> x)) (shortcodes d)"

section \<open>The contract of the operations\<close>

definition lockstep :: "db \<Rightarrow> bool" where
  \<comment> \<open>the legacy flag follows the status, and labels fit their column\<close>
  "lockstep d \<longleftrightarrow> (\<forall>s \<in> set (shortcodes d). (sc_active s \<longleftrightarrow> sc_status s = Active) \<and> ufits 120 (sc_label s))"

locale shortcode_op =
  fixes step :: "db \<Rightarrow> db \<Rightarrow> bool"
  assumes keeps_table: "step d d' \<Longrightarrow> wf_shortcodes d \<Longrightarrow> wf_shortcodes d'"
    and keeps_lockstep: "step d d' \<Longrightarrow> wf_shortcodes d \<Longrightarrow> lockstep d \<Longrightarrow> lockstep d'"
    and keeps_accounts: "step d d' \<Longrightarrow> users d' = users d \<and> roles d' = roles d \<and> grants d' = grants d
      \<and> tokens d' = tokens d"
    and keeps_rows: "step d d' \<Longrightarrow> wf_shortcodes d \<Longrightarrow> find_shortcode d i = Some s \<Longrightarrow>
      \<exists>s'. find_shortcode d' i = Some s' \<and> sc_environment s' = sc_environment s
        \<and> sc_created_at s' = sc_created_at s"
begin

lemma chain:
  assumes "step\<^sup>*\<^sup>* d d'" "wf_shortcodes d"
  shows "wf_shortcodes d'" and "lockstep d \<Longrightarrow> lockstep d'" and "users d' = users d"
    and "find_shortcode d i = Some s \<Longrightarrow> \<exists>s'. find_shortcode d' i = Some s'
      \<and> sc_environment s' = sc_environment s \<and> sc_created_at s' = sc_created_at s"
proof -
  have "wf_shortcodes d' \<and> (lockstep d \<longrightarrow> lockstep d') \<and> users d' = users d
    \<and> (\<forall>s. find_shortcode d i = Some s \<longrightarrow> (\<exists>s'. find_shortcode d' i = Some s'
      \<and> sc_environment s' = sc_environment s \<and> sc_created_at s' = sc_created_at s))"
    using assms(1)
  proof induction
    case base
    then show ?case using assms(2) by simp
  next
    case (step y z)
    then show ?case using keeps_table [of y z] keeps_lockstep [of y z] keeps_accounts [of y z]
        keeps_rows [of y z i] by metis
  qed
  then show "wf_shortcodes d'" and "lockstep d \<Longrightarrow> lockstep d'" and "users d' = users d"
    and "find_shortcode d i = Some s \<Longrightarrow> \<exists>s'. find_shortcode d' i = Some s'
      \<and> sc_environment s' = sc_environment s \<and> sc_created_at s' = sc_created_at s"
    by blast+
qed

end

lemma shortcode_check_None:
  "shortcode_check d s = None \<longleftrightarrow> fits 32 (Some (sc_code s)) \<and> ufits 120 (sc_label s)
    \<and> (\<forall>t \<in> set (shortcodes d). sc_id t \<noteq> sc_id s \<longrightarrow>
         (sc_operator_id t, sc_code t, sc_environment t) \<noteq> (sc_operator_id s, sc_code s, sc_environment s))
    \<and> find_operator d (sc_operator_id s) \<noteq> None \<and> find_user d (sc_owner s) \<noteq> None
    \<and> (\<forall>b. sc_status_set_by s = Some b \<longrightarrow> find_user d b \<noteq> None)"
  unfolding shortcode_check_def by (auto simp: list_ex_iff split: option.splits)

lemma insert_shortcode_Inr:
  "insert_shortcode s d = Inr d' \<longleftrightarrow> shortcode_check d s = None
     \<and> d' = d\<lparr>shortcodes := shortcodes d @ [s], next_id := next_id d + 1\<rparr>"
  by (auto simp: insert_shortcode_def split: option.splits)

lemma tx_insert_shortcode_Inr:
  "tx_insert_shortcode mk d = (Inr i, d') \<longleftrightarrow> i = next_id d \<and> insert_shortcode (mk i) d = Inr d'"
  by (auto simp: tx_insert_shortcode_def tx_success)

abbreviation sc_key :: "shortcode_row \<Rightarrow> int \<times> string \<times> environment" where
  "sc_key s \<equiv> (sc_operator_id s, sc_code s, sc_environment s)"

lemma insert_shortcode_laws:
  assumes ins: "insert_shortcode s d = Inr d'" and id: "sc_id s = next_id d"
    and wf: "wf_shortcodes d"
  shows "wf_shortcodes d'"
    "lockstep d \<Longrightarrow> (sc_active s \<longleftrightarrow> sc_status s = Active) \<Longrightarrow> lockstep d'"
    "users d' = users d \<and> roles d' = roles d \<and> grants d' = grants d \<and> tokens d' = tokens d"
    "find_shortcode d j = Some t \<Longrightarrow> find_shortcode d' j = Some t"
    "find_shortcode d' (sc_id s) = Some s"
proof -
  have c: "shortcode_check d s = None" and d': "d' = d\<lparr>shortcodes := shortcodes d @ [s], next_id := next_id d + 1\<rparr>"
    using ins by (simp_all add: insert_shortcode_Inr)
  have fresh: "\<forall>t \<in> set (shortcodes d). sc_id t < sc_id s" using wf id by (simp add: wf_shortcodes_def)
  have key: "sc_key s \<notin> sc_key ` set (shortcodes d)"
    using c fresh unfolding shortcode_check_None by force
  show wf': "wf_shortcodes d'"
    using wf fresh key id unfolding wf_shortcodes_def d' by fastforce
  show "lockstep d \<Longrightarrow> (sc_active s \<longleftrightarrow> sc_status s = Active) \<Longrightarrow> lockstep d'"
    using c by (auto simp: lockstep_def d' shortcode_check_None)
  show "users d' = users d \<and> roles d' = roles d \<and> grants d' = grants d \<and> tokens d' = tokens d"
    by (simp add: d')
  have u: "x \<in> set (shortcodes d') \<Longrightarrow> find_shortcode d' (sc_id x) = Some x" for x
    using wf' by (simp add: find_shortcode_def wf_shortcodes_def find_unique)
  show "find_shortcode d j = Some t \<Longrightarrow> find_shortcode d' j = Some t"
    using u [of t] find_shortcode_mem [of d j t] by (auto simp: d')
  show "find_shortcode d' (sc_id s) = Some s" using u [of s] by (simp add: d')
qed

lemma update_shortcode_frame:
  "update_shortcode now i f d = Inr d' \<Longrightarrow>
     users d' = users d \<and> roles d' = roles d \<and> grants d' = grants d \<and> tokens d' = tokens d"
  by (auto simp: update_shortcode_def split: option.splits)

lemma keys_replaced:
  assumes "distinct (map key xs)" "s \<in> set xs" "\<forall>t \<in> set xs. t \<noteq> s \<longrightarrow> key t \<noteq> key s'"
  shows "distinct (map key (map (\<lambda>t. if t = s then s' else t) xs))"
proof -
  have "inj_on (\<lambda>t. key (if t = s then s' else t)) (set xs)"
    using assms by (auto simp: distinct_map inj_on_def split: if_splits)
  then show ?thesis using assms(1) by (simp add: distinct_map comp_def)
qed

lemma updated_rows:
  assumes "update_shortcode now i f d = Inr d'" "wf_shortcodes d" "find_shortcode d i = Some s" "s' = stamp_owner_since now s (f s)"
  shows "shortcodes d' = map (\<lambda>t. if t = s then s' else t) (shortcodes d)" "shortcode_check d s' = None" "next_id d' = next_id d"
proof -
  have u: "shortcode_check d s' = None" "d' = upd_shortcode i (\<lambda>s. stamp_owner_since now s (f s)) d"
    using assms(1,3,4) by (auto simp: update_shortcode_def split: option.splits)
  have m: "s \<in> set (shortcodes d)" "sc_id s = i" using find_shortcode_mem [OF assms(3)] by auto
  have "sc_id t = i \<longleftrightarrow> t = s" if "t \<in> set (shortcodes d)" for t
    using distinct_map_filter_unique [of sc_id "shortcodes d" t s] assms(2) that m by (auto simp: wf_shortcodes_def)
  then show "shortcodes d' = map (\<lambda>t. if t = s then s' else t) (shortcodes d)"
    by (auto simp: u(2) upd_shortcode_def assms(4) intro!: map_cong)
  show "shortcode_check d s' = None" "next_id d' = next_id d" using u by (simp_all add: upd_shortcode_def)
qed

lemma updated_wf:
  assumes "update_shortcode now i f d = Inr d'" "wf_shortcodes d" "find_shortcode d i = Some s" "sc_id (f s) = sc_id s"
  shows "wf_shortcodes d'"
proof -
  let ?s = "stamp_owner_since now s (f s)"
  note u = updated_rows [OF assms(1-3) refl]
  have id: "sc_id ?s = sc_id s" using assms(4) by (simp add: stamp_owner_since_def)
  have s: "s \<in> set (shortcodes d)" using find_shortcode_mem [OF assms(3)] by simp
  have wf: "distinct (map sc_id (shortcodes d))" "distinct (map sc_key (shortcodes d))" "\<forall>t \<in> set (shortcodes d). sc_id t < next_id d"
    using assms(2) by (auto simp: wf_shortcodes_def)
  then have other: "t = s" if "t \<in> set (shortcodes d)" "sc_id t = sc_id s" for t
    using distinct_map_filter_unique [of sc_id "shortcodes d" t s] that s by auto
  have "distinct (map sc_id (shortcodes d'))" unfolding u(1) by (rule keys_replaced [OF wf(1) s]) (use other id in auto)
  moreover have "distinct (map sc_key (shortcodes d'))" unfolding u(1)
  proof (rule keys_replaced [OF wf(2) s], intro ballI impI)
    show "sc_key t \<noteq> sc_key ?s" if "t \<in> set (shortcodes d)" "t \<noteq> s" for t
      using u(2) other [OF that(1)] that unfolding shortcode_check_None id by blast
  qed
  moreover have "\<forall>t \<in> set (shortcodes d'). sc_id t < next_id d'" using wf(3) s id by (auto simp: u(1,3))
  ultimately show ?thesis using assms(2) by (simp add: wf_shortcodes_def)
qed

lemma updated_lockstep:
  assumes "update_shortcode now i f d = Inr d'" "wf_shortcodes d" "find_shortcode d i = Some s" "lockstep d"
    and "(sc_active s \<longleftrightarrow> sc_status s = Active) \<Longrightarrow> (sc_active (f s) \<longleftrightarrow> sc_status (f s) = Active)"
  shows "lockstep d'"
proof -
  let ?s = "stamp_owner_since now s (f s)"
  note u = updated_rows [OF assms(1-3) refl]
  have "s \<in> set (shortcodes d)" using find_shortcode_mem [OF assms(3)] by simp
  then have "sc_active (f s) \<longleftrightarrow> sc_status (f s) = Active" using assms(4,5) by (simp add: lockstep_def)
  moreover have "ufits 120 (sc_label ?s)" using u(2) unfolding shortcode_check_None by (rule conjunct1 [OF conjunct2])
  ultimately have "(sc_active ?s \<longleftrightarrow> sc_status ?s = Active) \<and> ufits 120 (sc_label ?s)" by (simp add: stamp_owner_since_def)
  then show ?thesis using assms(4) by (auto simp: lockstep_def u(1))
qed

lemma update_shortcode_laws:
  assumes up: "update_shortcode now i f d = Inr d'" and wf: "wf_shortcodes d"
    and id: "\<And>s. sc_id (f s) = sc_id s" and env: "\<And>s. sc_environment (f s) = sc_environment s"
    and created: "\<And>s. sc_created_at (f s) = sc_created_at s"
  shows "wf_shortcodes d'"
    "lockstep d \<Longrightarrow> (\<And>s. find_shortcode d i = Some s \<Longrightarrow> (sc_active s \<longleftrightarrow> sc_status s = Active) \<Longrightarrow>
       (sc_active (f s) \<longleftrightarrow> sc_status (f s) = Active)) \<Longrightarrow> lockstep d'"
    "users d' = users d \<and> roles d' = roles d \<and> grants d' = grants d \<and> tokens d' = tokens d"
    "find_shortcode d' j = (if j = i then map_option (\<lambda>s. stamp_owner_since now s (f s)) (find_shortcode d j)
       else find_shortcode d j)"
proof -
  have none: "d' = d" if "find_shortcode d i = None" using up that by (simp add: update_shortcode_def)
  show "wf_shortcodes d'"
    using none wf updated_wf [OF up wf _ id] by (cases "find_shortcode d i") simp_all
  show "lockstep d'" if "lockstep d" "\<And>s. find_shortcode d i = Some s \<Longrightarrow> (sc_active s \<longleftrightarrow> sc_status s = Active) \<Longrightarrow>
       (sc_active (f s) \<longleftrightarrow> sc_status (f s) = Active)"
    using none that updated_lockstep [OF up wf _ that(1)] by (cases "find_shortcode d i") simp_all
  show "users d' = users d \<and> roles d' = roles d \<and> grants d' = grants d \<and> tokens d' = tokens d"
    by (rule update_shortcode_frame [OF up])
  show "find_shortcode d' j = (if j = i then map_option (\<lambda>s. stamp_owner_since now s (f s)) (find_shortcode d j) else find_shortcode d j)"
  proof (cases "find_shortcode d i")
    case (Some s)
    then have "d' = upd_shortcode i (\<lambda>s. stamp_owner_since now s (f s)) d"
      using up by (auto simp: update_shortcode_def split: option.splits)
    then show ?thesis by (simp only:) (rule find_shortcode_upd, simp add: stamp_owner_since_def id)
  qed (use none in auto)
qed

lemma promoteShortcode_Inr:
  "promoteShortcode now i oid by d = (Inr n, d') \<longleftrightarrow> (\<exists>row.
     List.find (\<lambda>s. sc_id s = i \<and> sc_environment s = Sandbox) (shortcodes d) = Some row \<and> n = next_id d
     \<and> insert_shortcode (row\<lparr>sc_id := n, sc_operator_id := oid,
          sc_label := Some (buildShortcodeLabel (units (fst (labelPartsFor (sc_owner row) oid d)))
            (units (sc_code row)) (Some (units (snd (labelPartsFor (sc_owner row) oid d)))) Production),
          sc_environment := Production, sc_active := True, sc_status := Active,
          sc_status_message := None, sc_status_set_by := Some by, sc_status_set_at := now,
          sc_verify_tls := True, sc_created_at := now, sc_updated_at := now,
          sc_owner_since := now\<rparr>) d = Inr d')"
  by (auto simp: promoteShortcode_def tx_success tx_insert_shortcode_Inr Let_def
      split: option.splits prod.splits)

lemma insertion_op:
  assumes "\<And>d d'. step d d' \<Longrightarrow> \<exists>s. insert_shortcode s d = Inr d' \<and> sc_id s = next_id d
      \<and> (sc_active s \<longleftrightarrow> sc_status s = Active)"
  shows "shortcode_op step"
proof
  fix d d' i s
  assume "step d d'"
  then obtain t where t: "insert_shortcode t d = Inr d'" "sc_id t = next_id d"
    "sc_active t \<longleftrightarrow> sc_status t = Active" using assms by blast
  show "users d' = users d \<and> roles d' = roles d \<and> grants d' = grants d \<and> tokens d' = tokens d"
    using t(1) by (auto simp: insert_shortcode_Inr)
  assume wf: "wf_shortcodes d"
  note laws = insert_shortcode_laws [OF t(1,2) wf]
  show "wf_shortcodes d'" by (rule laws)
  show "lockstep d \<Longrightarrow> lockstep d'" using laws(2) t(3) by blast
  show "find_shortcode d i = Some s \<Longrightarrow> \<exists>s'. find_shortcode d' i = Some s'
       \<and> sc_environment s' = sc_environment s \<and> sc_created_at s' = sc_created_at s"
    using laws(4) by blast
qed

lemma column_update_op:
  assumes "\<And>s. sc_id (f s) = sc_id s" "\<And>s. sc_environment (f s) = sc_environment s"
    and "\<And>s. sc_created_at (f s) = sc_created_at s"
    and "\<And>s. (sc_active s \<longleftrightarrow> sc_status s = Active) \<Longrightarrow> (sc_active (f s) \<longleftrightarrow> sc_status (f s) = Active)"
  shows "shortcode_op (\<lambda>d d'. tx_exec (update_shortcode now i f) d = (Inr (), d'))"
proof
  fix d d' j s
  assume up: "tx_exec (update_shortcode now i f) d = (Inr (), d')"
  then have up': "update_shortcode now i f d = Inr d'" by (simp add: tx_exec_Inr)
  show "users d' = users d \<and> roles d' = roles d \<and> grants d' = grants d \<and> tokens d' = tokens d"
    by (rule update_shortcode_frame [OF up'])
  assume wf: "wf_shortcodes d"
  note laws = update_shortcode_laws [OF up' wf assms(1-3)]
  show "wf_shortcodes d'" by (rule laws)
  show "lockstep d \<Longrightarrow> lockstep d'" using laws(2) assms(4) by blast
  have k: "sc_environment (stamp_owner_since now t (f t)) = sc_environment t
     \<and> sc_created_at (stamp_owner_since now t (f t)) = sc_created_at t" for t
    by (simp add: stamp_owner_since_def assms)
  show "find_shortcode d j = Some s \<Longrightarrow> \<exists>s'. find_shortcode d' j = Some s'
       \<and> sc_environment s' = sc_environment s \<and> sc_created_at s' = sc_created_at s"
    unfolding laws(4) using k [of s] by (cases "j = i") simp_all
qed

interpretation table_create: shortcode_op "\<lambda>d d'. \<exists>n. createShortcode now w actor d = (Inr n, d')"
  for now w actor
  by (rule insertion_op) (force simp: createShortcode_def tx_insert_shortcode_Inr)

interpretation table_promote: shortcode_op "\<lambda>d d'. \<exists>n. promoteShortcode now i oid actor d = (Inr n, d')"
  for now i oid actor
  by (rule insertion_op) (force simp: promoteShortcode_Inr)

interpretation table_edit: shortcode_op "\<lambda>d d'. updateShortcode now i w actor d = (Inr (), d')"
  for now i w actor
  unfolding updateShortcode_def by (rule column_update_op) simp_all

interpretation table_status: shortcode_op "\<lambda>d d'. setShortcodeStatus now i st msg actor d = (Inr (), d')"
  for now i st msg actor
  unfolding setShortcodeStatus_def by (rule column_update_op) simp_all

interpretation table_url: shortcode_op "\<lambda>d d'. setShortcodeHandlerUrl now i url d = (Inr (), d')"
  for now i url
  unfolding setShortcodeHandlerUrl_def by (rule column_update_op) simp_all

inductive shortcode_step :: "db \<Rightarrow> db \<Rightarrow> bool" where
  ss_create: "createShortcode now w actor d = (Inr n, d') \<Longrightarrow> shortcode_step d d'"
| ss_promote: "promoteShortcode now i oid actor d = (Inr n, d') \<Longrightarrow> shortcode_step d d'"
| ss_edit: "updateShortcode now i w actor d = (Inr (), d') \<Longrightarrow> shortcode_step d d'"
| ss_status: "setShortcodeStatus now i st msg actor d = (Inr (), d') \<Longrightarrow> shortcode_step d d'"
| ss_url: "setShortcodeHandlerUrl now i url d = (Inr (), d') \<Longrightarrow> shortcode_step d d'"

interpretation table: shortcode_op shortcode_step
proof
  fix d d' i s assume st: "shortcode_step d d'"
  show "users d' = users d \<and> roles d' = roles d \<and> grants d' = grants d \<and> tokens d' = tokens d"
    using st by cases (rule table_create.keeps_accounts table_promote.keeps_accounts
        table_edit.keeps_accounts table_status.keeps_accounts table_url.keeps_accounts; blast)+
  assume wf: "wf_shortcodes d"
  show "wf_shortcodes d'"
    using st by cases (rule table_create.keeps_table [OF _ wf] table_promote.keeps_table [OF _ wf]
        table_edit.keeps_table [OF _ wf] table_status.keeps_table [OF _ wf] table_url.keeps_table [OF _ wf]; blast)+
  show "lockstep d'" if "lockstep d"
    using st by cases (rule table_create.keeps_lockstep [OF _ wf that] table_promote.keeps_lockstep [OF _ wf that]
        table_edit.keeps_lockstep [OF _ wf that] table_status.keeps_lockstep [OF _ wf that]
        table_url.keeps_lockstep [OF _ wf that]; blast)+
  show "\<exists>s'. find_shortcode d' i = Some s' \<and> sc_environment s' = sc_environment s
      \<and> sc_created_at s' = sc_created_at s" if "find_shortcode d i = Some s"
    using st by cases (rule table_create.keeps_rows [OF _ wf that] table_promote.keeps_rows [OF _ wf that]
        table_edit.keeps_rows [OF _ wf that] table_status.keeps_rows [OF _ wf that]
        table_url.keeps_rows [OF _ wf that]; blast)+
qed

end
