(* ===== verification/Routing.thy ===== *)
theory Routing
  imports Shortcodes
begin

text \<open>
  What the shortcode operations promise: the routing table stays well formed, labels keep the parts
  that identify a shortcode, promotion clones without touching live rows, and a hand-over starts the
  new owner's view of the traffic at the moment of the hand-over.
\<close>

section \<open>The table\<close>

definition sample_table :: db where
  \<comment> \<open>the sample database with two networks and a sandbox shortcode of the client\<close>
  "sample_table = sample_db\<lparr>operators := [\<lparr>op_id = 1, op_name = ''vodacom'', op_display_name = ''Vodacom'',
       op_active = True, op_window = None, op_created_at = 0\<rparr>, \<lparr>op_id = 2, op_name = ''tigo'',
       op_display_name = ''Tigo'', op_active = True, op_window = None, op_created_at = 0\<rparr>],
     shortcodes := [sample_shortcode 5 2, sample_shortcode 6 1,
       (sample_shortcode 7 2)\<lparr>sc_environment := Sandbox, sc_verify_tls := False\<rparr>]\<rparr>"

lemma sample_table_wf: "wf_shortcodes sample_table" "lockstep sample_table"
  by (simp_all add: wf_shortcodes_def lockstep_def sample_table_def sample_db_def sample_shortcode_def
      dec.simps digit_char_def ufits_def)

text \<open>
  C9. After any sequence of the operations that write shortcodes, (operator, code, environment)
  identifies at most one row, the legacy active flag of every row still says whether its status is
  active, no label is longer than its column, and every row that was there still is, in the
  environment it was created in: nothing is deleted and no sandbox row becomes routable.
\<close>

theorem routing_table_kept:
  assumes "shortcode_step\<^sup>*\<^sup>* d d'" "wf_shortcodes d" "lockstep d" "find_shortcode d i = Some s"
  shows "wf_shortcodes d' \<and> lockstep d' \<and> (\<exists>s'. find_shortcode d' i = Some s'
    \<and> sc_environment s' = sc_environment s \<and> sc_created_at s' = sc_created_at s)"
  using table.chain [OF assms(1,2)] assms(3,4) by blast

lemma sample_status:
  "setShortcodeStatus 9 5 Maintenance (Some ''m'') 1 sample_table = (Inr (), upd_shortcode 5 (\<lambda>s. s\<lparr>
     sc_status := Maintenance, sc_status_message := Some ''m'', sc_status_set_by := Some 1,
     sc_status_set_at := 9, sc_active := False, sc_updated_at := 9\<rparr>) sample_table)"
  by (simp add: setShortcodeStatus_def tx_exec_def update_shortcode_def find_shortcode_def
      shortcode_check_def find_operator_def find_user_def sample_table_def sample_db_def sample_user_def
      sample_shortcode_def dec.simps digit_char_def ufits_def fits_def stamp_owner_since_def upd_shortcode_def)

theorem routing_table_kept_witness:
  "\<exists>d'. shortcode_step\<^sup>*\<^sup>* sample_table d' \<and> d' \<noteq> sample_table \<and> wf_shortcodes d' \<and> lockstep d'
    \<and> (\<exists>s'. find_shortcode d' 7 = Some s' \<and> sc_environment s' = Sandbox)"
proof -
  let ?s = "(sample_shortcode 7 2)\<lparr>sc_environment := Sandbox, sc_verify_tls := False\<rparr>"
  have f: "find_shortcode sample_table 7 = Some ?s"
    by (simp add: find_shortcode_def sample_table_def sample_shortcode_def)
  have ne: "upd_shortcode 5 (\<lambda>s. s\<lparr>
     sc_status := Maintenance, sc_status_message := Some ''m'', sc_status_set_by := Some 1,
     sc_status_set_at := 9, sc_active := False, sc_updated_at := 9\<rparr>) sample_table \<noteq> sample_table"
  proof
    assume e: "upd_shortcode 5 (\<lambda>s. s\<lparr>
     sc_status := Maintenance, sc_status_message := Some ''m'', sc_status_set_by := Some 1,
     sc_status_set_at := 9, sc_active := False, sc_updated_at := 9\<rparr>) sample_table = sample_table"
    have "map sc_active (shortcodes (upd_shortcode 5 (\<lambda>s. s\<lparr>
     sc_status := Maintenance, sc_status_message := Some ''m'', sc_status_set_by := Some 1,
     sc_status_set_at := 9, sc_active := False, sc_updated_at := 9\<rparr>) sample_table)) = [False, True, True]"
      by (simp add: upd_shortcode_def sample_table_def sample_shortcode_def)
    then show False unfolding e by (simp add: sample_table_def sample_shortcode_def)
  qed
  note st = r_into_rtranclp [of shortcode_step, OF ss_status [OF sample_status]]
  from routing_table_kept [OF st sample_table_wf f] st ne show ?thesis
    by (auto simp: sample_shortcode_def)
qed

section \<open>Labels\<close>

lemma length_utrim: "length (utrim s) \<le> length s"
proof -
  have d: "length (dropWhile P xs) \<le> length xs" for P and xs :: ustr by (induction xs) auto
  have "length (dropWhile unit_ws (rev (dropWhile unit_ws s))) \<le> length (rev (dropWhile unit_ws s))" by (rule d)
  also have "\<dots> \<le> length s" using d by simp
  finally show ?thesis by (simp add: utrim_def)
qed

text \<open>
  A label is never longer than its column and never loses what identifies the shortcode: when the
  code has at most 32 and the network's name at most 64 characters (the columns' widths), the label
  ends in the code and the network, and an owner's name of up to 18 characters is kept whole.
\<close>

theorem label_identifies:
  fixes code net owner env
  defines "n \<equiv> (if env = Sandbox then SANDBOX_NETWORK_LABEL else utrim net)"
  assumes "length code \<le> 32" "length net \<le> 64" "utrim code \<noteq> []" "n \<noteq> []"
  shows "length (buildShortcodeLabel owner code (Some net) env) \<le> 120
    \<and> (\<exists>pre. buildShortcodeLabel owner code (Some net) env = pre @ utrim code @ LABEL_SEP @ n)
    \<and> (utrim owner \<noteq> [] \<and> length (utrim owner) \<le> 18 \<longrightarrow>
        buildShortcodeLabel owner code (Some net) env = utrim owner @ LABEL_SEP @ utrim code @ LABEL_SEP @ n)"
proof -
  have len: "length (utrim code) \<le> 32" "length n \<le> 64"
    using length_utrim [of code] length_utrim [of net] assms(2,3)
    by (auto simp: n_def SANDBOX_NETWORK_LABEL_def)
  have sep: "length LABEL_SEP = 3" by (simp add: LABEL_SEP_def)
  let ?b = "120 - (int (length (utrim code)) + 3 + int (length n) + 3)"
  let ?o = "if int (length (utrim owner)) > ?b then take (nat (?b - 1)) (utrim owner) @ [0x2026] else utrim owner"
  have b: "18 \<le> ?b" using len by simp
  have lbl: "buildShortcodeLabel owner code (Some net) env
      = (if ?o = [] then utrim code @ LABEL_SEP @ n else ?o @ LABEL_SEP @ utrim code @ LABEL_SEP @ n)"
    using assms(4,5) b unfolding buildShortcodeLabel_def Let_def n_def [symmetric] option.case
    by (simp add: sep n_def [symmetric] add_ac)
  have lo: "int (length ?o) \<le> ?b" using b by (auto simp: min_def)
  have "length (buildShortcodeLabel owner code (Some net) env) \<le> 120"
    unfolding lbl using lo len by (auto simp: sep split del: if_split) (auto simp: sep split: if_splits)
  then show ?thesis unfolding lbl using b by auto
qed

theorem label_identifies_witness:
  "\<exists>pre. buildShortcodeLabel (replicate 200 65) (units ''*150*00#'') (Some (units ''Vodacom Tanzania'')) Production
     = pre @ units ''*150*00#'' @ LABEL_SEP @ units ''Vodacom Tanzania''"
proof -
  have t: "utrim (units ''*150*00#'') = units ''*150*00#''"
    "utrim (units ''Vodacom Tanzania'') = units ''Vodacom Tanzania''"
    by (simp_all add: utrim_def units_def unit_ws_def)
  show ?thesis
    using label_identifies [of "units ''*150*00#''" "units ''Vodacom Tanzania''" Production "replicate 200 65"]
    unfolding t by (simp add: units_def)
qed

section \<open>Promotion\<close>

lemma find_sandbox:
  assumes "wf_shortcodes d" "find_shortcode d i = Some row"
    "List.find (\<lambda>s. sc_id s = i \<and> sc_environment s = Sandbox) (shortcodes d) = Some row'"
  shows "row' = row" "sc_environment row = Sandbox"
proof -
  have r: "row' \<in> set (shortcodes d)" "sc_id row' = i" "sc_environment row' = Sandbox"
    using find_SomeD [OF assms(3)] by auto
  have m: "row \<in> set (shortcodes d)" "sc_id row = i" using find_shortcode_mem [OF assms(2)] by auto
  show "row' = row"
    using distinct_map_filter_unique [of sc_id "shortcodes d" row' row] assms(1) r m
    by (simp add: wf_shortcodes_def)
  then show "sc_environment row = Sandbox" using r by simp
qed

lemma length_without:
  "distinct xs \<Longrightarrow> x \<in> set xs \<Longrightarrow> length xs = length (filter (\<lambda>s. s \<noteq> x) xs) + 1"
proof (induction xs)
  case (Cons a xs)
  have "filter (\<lambda>s. s \<noteq> x) xs = xs" if "x \<notin> set xs" using that by (auto simp: filter_id_conv)
  with Cons show ?case by (cases "a = x") simp_all
qed simp

definition clone_of :: "shortcode_row \<Rightarrow> int \<Rightarrow> shortcode_row \<Rightarrow> bool" where
  \<comment> \<open>a live copy of the row on network \<open>oid\<close>, whose certificate checks are on\<close>
  "clone_of row oid p \<longleftrightarrow> sc_environment p = Production \<and> sc_operator_id p = oid
     \<and> sc_code p = sc_code row \<and> sc_owner p = sc_owner row \<and> sc_handler_url p = sc_handler_url row
     \<and> sc_auth_mode p = sc_auth_mode row \<and> sc_bearer_token p = sc_bearer_token row
     \<and> sc_timeout_secs p = sc_timeout_secs row \<and> sc_payload_format p = sc_payload_format row
     \<and> sc_status p = Active \<and> sc_active p \<and> sc_verify_tls p \<and> sc_owner_since p = sc_created_at p"

lemma promote_row:
  assumes "promoteShortcode now i oid actor d = (Inr n, d')" "wf_shortcodes d" "find_shortcode d i = Some row"
  obtains p where "sc_environment row = Sandbox" "clone_of row oid p" "sc_id p = n" "n = next_id d"
    "insert_shortcode p d = Inr d'"
proof -
  obtain row' p where r: "List.find (\<lambda>s. sc_id s = i \<and> sc_environment s = Sandbox) (shortcodes d) = Some row'"
    "n = next_id d" "insert_shortcode p d = Inr d'" and p: "clone_of row' oid p" "sc_id p = n"
    using assms(1) unfolding promoteShortcode_Inr by (auto simp: clone_of_def)
  from find_sandbox [OF assms(2,3) r(1)] that [of p] r p show thesis by simp
qed

text \<open>
  Promotion adds exactly one row, a live copy of the sandbox row on the chosen network with
  certificate checks back on, and leaves every other row as it was, the sandbox row included; it
  succeeds only when that network had no live row for the code, so it never replaces live routing.
\<close>

theorem promote_clones:
  assumes "promoteShortcode now i oid actor d = (Inr n, d')" "wf_shortcodes d" "find_shortcode d i = Some row"
  shows "sc_environment row = Sandbox
    \<and> (\<exists>p. shortcodes d' = shortcodes d @ [p] \<and> find_shortcode d' n = Some p \<and> clone_of row oid p)
    \<and> find_shortcode d' i = Some row \<and> find_shortcode d n = None
    \<and> \<not> codeExists oid (sc_code row) Production None d"
proof -
  obtain p where p: "sc_environment row = Sandbox" "clone_of row oid p" "sc_id p = n" "n = next_id d"
    "insert_shortcode p d = Inr d'" by (rule promote_row [OF assms])
  have c: "shortcode_check d p = None" and d': "shortcodes d' = shortcodes d @ [p]"
    using p(5) by (simp_all add: insert_shortcode_Inr)
  have lt: "\<forall>t \<in> set (shortcodes d). sc_id t < n" using assms(2) p(4) by (simp add: wf_shortcodes_def)
  have "\<not> codeExists oid (sc_code row) Production None d"
  proof
    assume "codeExists oid (sc_code row) Production None d"
    then obtain t where t: "t \<in> set (shortcodes d)" "sc_key t = (oid, sc_code row, Production)"
      by (auto simp: codeExists_def list_ex_iff)
    with c lt p(2,3) show False unfolding shortcode_check_None clone_of_def by force
  qed
  moreover have "find_shortcode d n = None"
    using lt by (auto simp: find_shortcode_def find_None_iff)
  moreover have "sc_id p = next_id d" using p(3,4) by simp
  note laws = insert_shortcode_laws [OF p(5) this assms(2)]
  ultimately show ?thesis using p d' laws(4) [OF assms(3)] laws(5) by auto
qed

definition promoted :: db where "promoted = snd (promoteShortcode 9 7 2 1 sample_table)"

lemma sample_promote: "promoteShortcode 9 7 2 1 sample_table = (Inr 10, promoted)"
  by (simp add: promoted_def promoteShortcode_def tx_insert_shortcode_def tx_bind_def tx_read_def tx_exec_def
      tx_return_def labelPartsFor_def find_user_def find_operator_def insert_shortcode_def shortcode_check_def
      sample_table_def sample_db_def sample_user_def sample_shortcode_def dec.simps digit_char_def
      buildShortcodeLabel_def utrim_def units_def unit_ws_def LABEL_SEP_def ufits_def fits_def Let_def)

lemma sample_sandbox: "find_shortcode sample_table 7
    = Some ((sample_shortcode 7 2)\<lparr>sc_environment := Sandbox, sc_verify_tls := False\<rparr>)"
  by (simp add: find_shortcode_def sample_table_def sample_shortcode_def)

theorem promote_clones_witness:
  "\<exists>p. shortcodes promoted = shortcodes sample_table @ [p] \<and> sc_environment p = Production
     \<and> sc_operator_id p = 2 \<and> sc_verify_tls p"
  using promote_clones [OF sample_promote sample_table_wf(1) sample_sandbox]
  by (auto simp: clone_of_def)

text \<open>
  A promotion frees a slot of the owner's sandbox quota exactly when it goes onto the network the
  sandbox row is filed under; onto any other network the row keeps counting, although it is promoted.
\<close>

theorem promote_slots:
  assumes pr: "promoteShortcode now i oid actor d = (Inr n, d')" and wf: "wf_shortcodes d"
    and row: "find_shortcode d i = Some row"
  shows "countUnpromotedSandbox (sc_owner row) (sc_operator_id row) d
    = countUnpromotedSandbox (sc_owner row) (sc_operator_id row) d'
      + (if oid = sc_operator_id row then 1 else 0)"
proof -
  obtain p where p: "sc_environment row = Sandbox" "clone_of row oid p" "sc_id p = n" "n = next_id d"
    "insert_shortcode p d = Inr d'" by (rule promote_row [OF assms])
  have none: "\<not> codeExists oid (sc_code row) Production None d"
    using promote_clones [OF assms] by simp
  have d': "shortcodes d' = shortcodes d @ [p]" using p(5) by (simp add: insert_shortcode_Inr)
  have pc: "sc_operator_id p = oid" "sc_code p = sc_code row" "sc_environment p = Production"
    using p(2) by (simp_all add: clone_of_def)
  let ?mine = "\<lambda>s. sc_owner s = sc_owner row \<and> sc_operator_id s = sc_operator_id row \<and> sc_environment s = Sandbox"
  let ?live = "\<lambda>d s. list_ex (\<lambda>p. sc_operator_id p = sc_operator_id s \<and> sc_code p = sc_code s
           \<and> sc_environment p = Production) (shortcodes d)"
  have mem: "row \<in> set (shortcodes d)" using find_shortcode_mem [OF row] by simp
  have dist: "distinct (shortcodes d)" using wf by (simp add: wf_shortcodes_def distinct_map)
  have key: "t = row" if "t \<in> set (shortcodes d)" "sc_operator_id t = sc_operator_id row"
    "sc_code t = sc_code row" "sc_environment t = Sandbox" for t
    using distinct_map_filter_unique [of sc_key "shortcodes d" t row] wf that mem p(1)
    by (simp add: wf_shortcodes_def)
  have live: "?live d' s \<longleftrightarrow> ?live d s \<or> (oid = sc_operator_id s \<and> sc_code row = sc_code s)" for s
    by (simp add: d' pc)
  have A: "countUnpromotedSandbox (sc_owner row) (sc_operator_id row) d'
      = length (filter (\<lambda>s. ?mine s \<and> \<not> ?live d' s) (shortcodes d))"
    by (simp add: countUnpromotedSandbox_def d' pc conj_assoc)
  have B: "countUnpromotedSandbox (sc_owner row) (sc_operator_id row) d
      = length (filter (\<lambda>s. ?mine s \<and> \<not> ?live d s) (shortcodes d))"
    by (simp add: countUnpromotedSandbox_def conj_assoc)
  show ?thesis
  proof (cases "oid = sc_operator_id row")
    case False
    have "filter (\<lambda>s. ?mine s \<and> \<not> ?live d' s) (shortcodes d) = filter (\<lambda>s. ?mine s \<and> \<not> ?live d s) (shortcodes d)"
      by (rule filter_cong [OF refl]) (use False live in auto)
    then show ?thesis using False by (simp add: A B)
  next
    case True
    have nl: "\<not> ?live d row" using none True by (simp add: codeExists_def)
    have "filter (\<lambda>s. ?mine s \<and> \<not> ?live d' s) (shortcodes d)
        = filter (\<lambda>s. s \<noteq> row) (filter (\<lambda>s. ?mine s \<and> \<not> ?live d s) (shortcodes d))"
      unfolding filter_filter
    proof (rule filter_cong [OF refl])
      fix s assume s: "s \<in> set (shortcodes d)"
      have "?live d' s \<longleftrightarrow> ?live d s \<or> s = row" if "?mine s"
        unfolding live using key [OF s] that True by metis
      then show "(?mine s \<and> \<not> ?live d' s) \<longleftrightarrow> ((?mine s \<and> \<not> ?live d s) \<and> s \<noteq> row)" by blast
    qed
    moreover have "length (filter (\<lambda>s. ?mine s \<and> \<not> ?live d s) (shortcodes d))
        = length (filter (\<lambda>s. s \<noteq> row) (filter (\<lambda>s. ?mine s \<and> \<not> ?live d s) (shortcodes d))) + 1"
      by (rule length_without) (use dist mem nl p(1) in simp_all)
    ultimately show ?thesis using True unfolding A B by simp
  qed
qed

theorem promote_slots_witness:
  "countUnpromotedSandbox 2 1 promoted = 1"
proof -
  have o: "sc_owner ((sample_shortcode 7 2)\<lparr>sc_environment := Sandbox, sc_verify_tls := False\<rparr>) = 2"
    "sc_operator_id ((sample_shortcode 7 2)\<lparr>sc_environment := Sandbox, sc_verify_tls := False\<rparr>) = 1"
    by (simp_all add: sample_shortcode_def)
  have "countUnpromotedSandbox 2 1 sample_table = 1"
    by (simp add: countUnpromotedSandbox_def sample_table_def sample_shortcode_def dec.simps digit_char_def)
  then show ?thesis
    using promote_slots [OF sample_promote sample_table_wf(1) sample_sandbox] unfolding o by simp
qed

section \<open>Hand-over\<close>

text \<open>
  A session's allowlist is sound: a user whose scope is limited sees a message of a shortcode only
  when, at the moment of the message (give or take the half second by which a floor is rounded), the
  shortcode had been given to that user, or was the user's since it was created.
\<close>

theorem claims_acl_sound:
  assumes claims: "loadUserClaims d uid = Some c" "REPORTS_VIEW_ALL \<notin> set (c_perms c)"
    and row: "acl_allows GTs sc ts (sessionAcl (Some c)) r" "r sc = VInt i" "r ts = VTs t" "0 \<le> t"
  shows "access_started d uid i (t + 500000)"
proof -
  have "\<exists>g \<in> set (map (\<lambda>(i, f, re). \<lparr>g_id = i, g_from = if re then f else 0\<rparr>) (access_groups d uid)).
      i = g_id g \<and> floor_ok GTs (g_from g) (VTs t)"
    using row(1) unfolding sessionAcl_claims [OF claims] acl_allows_def option.case row(2,3)
    by (metis sqlval.inject(1))
  then obtain f re where g: "(i, f, re) \<in> set (access_groups d uid)"
    and ok: "floor_ok GTs (if re then f else 0) (VTs t)" by auto
  obtain s fl where s: "(i, s, fl) \<in> set (access_rows d uid)" "f = round_secs s"
    and re: "re \<longleftrightarrow> (\<exists>(j, s, fl) \<in> set (access_rows d uid). j = i \<and> fl)"
    by (rule access_groups_mem [OF g])
  show ?thesis
  proof (cases re)
    case True
    with ok have "f \<le> 0 \<or> f * 1000000 \<le> t" by (simp add: floor_ok_def)
    then have "s \<le> t + 500000"
      using round_secs_bounds [of s] row(4) by (auto simp: s(2) round_secs_def sgn_if split: if_splits)
    then show ?thesis using s(1) by (auto simp: access_started_def)
  next
    case False
    then show ?thesis using re s(1) by (fastforce simp: access_started_def)
  qed
qed

lemma updateShortcode_find:
  assumes "updateShortcode now i w actor d = (Inr (), d')" "find_shortcode d i = Some s" "wf_shortcodes d"
  shows "find_shortcode d' i = Some s' \<Longrightarrow> sc_owner s' = w_owner_user_id w
      \<and> (w_owner_user_id w \<noteq> sc_owner s \<longrightarrow> sc_owner_since s' = now) \<and> sc_created_at s' = sc_created_at s"
    and "grants d' = grants d" "wf_shortcodes d'"
proof -
  note up = assms(1) [unfolded updateShortcode_def tx_exec_Inr]
  note laws = update_shortcode_laws [OF up assms(3)]
  show "find_shortcode d' i = Some s' \<Longrightarrow> sc_owner s' = w_owner_user_id w
      \<and> (w_owner_user_id w \<noteq> sc_owner s \<longrightarrow> sc_owner_since s' = now) \<and> sc_created_at s' = sc_created_at s"
    by (subst (asm) laws(4)) (auto simp: assms(2) stamp_owner_since_def)
  show "grants d' = grants d" "wf_shortcodes d'" using laws by simp_all
qed


definition sample_write :: ShortcodeWrite where
  "sample_write = \<lparr>w_operator_id = 1, w_code = dec 6, w_label = None, w_environment = Production,
     w_owner_user_id = 2, w_handler_url = ''https://h'', w_auth_mode = AuthNone, w_bearer_token = None,
     w_timeout_secs = 10, w_status = Active, w_status_message = None, w_payload_format = Gateway,
     w_verify_tls = True\<rparr>"

definition handed_over :: db where
  "handed_over = sample_table\<lparr>shortcodes := [sample_shortcode 5 2,
     (sample_shortcode 6 2)\<lparr>sc_owner_since := 7400000, sc_updated_at := 7400000, sc_status_set_by := Some 1,
        sc_status_set_at := 7400000\<rparr>,
     (sample_shortcode 7 2)\<lparr>sc_environment := Sandbox, sc_verify_tls := False\<rparr>]\<rparr>"

lemma sample_handover: "updateShortcode 7400000 6 sample_write 1 sample_table = (Inr (), handed_over)"
  by (simp add: updateShortcode_def tx_exec_def update_shortcode_def find_shortcode_def
      shortcode_check_def find_operator_def find_user_def sample_table_def sample_db_def sample_user_def
      sample_shortcode_def dec.simps digit_char_def ufits_def fits_def stamp_owner_since_def upd_shortcode_def
      sample_write_def handed_over_def)

definition new_owner_claims :: SessionClaims where
  "new_owner_claims = the (loadUserClaims handed_over 2)"

lemma handed_over_claims:
  "loadUserClaims handed_over 2 = Some new_owner_claims" "REPORTS_VIEW_ALL \<notin> set (c_perms new_owner_claims)"
  "sessionAcl (Some new_owner_claims) = Some [\<lparr>g_id = 5, g_from = 0\<rparr>, \<lparr>g_id = 6, g_from = 7\<rparr>, \<lparr>g_id = 7, g_from = 0\<rparr>]"
proof -
  have "\<exists>c. loadUserClaims handed_over 2 = Some c \<and> REPORTS_VIEW_ALL \<notin> set (c_perms c)"
    by (simp add: loadUserClaims_def Let_def find_role_def perms_of_role_def handed_over_def sample_table_def
        sample_db_def sample_user_def Perms_def split: prod.splits)
  then show c: "loadUserClaims handed_over 2 = Some new_owner_claims"
    "REPORTS_VIEW_ALL \<notin> set (c_perms new_owner_claims)" by (auto simp: new_owner_claims_def)
  show "sessionAcl (Some new_owner_claims) = Some [\<lparr>g_id = 5, g_from = 0\<rparr>, \<lparr>g_id = 6, g_from = 7\<rparr>, \<lparr>g_id = 7, g_from = 0\<rparr>]"
    unfolding sessionAcl_claims [OF c]
    by (simp add: access_groups_def access_rows_def handed_over_def sample_table_def sample_db_def
        sample_shortcode_def round_secs_def Let_def del: set_filter)
qed


theorem claims_acl_sound_witness: "access_started handed_over 2 6 7500000"
proof -
  let ?r = "\<lambda>c. if c = ''shortcode_id'' then VInt 6 else VTs 7000000"
  have "acl_allows GTs ''shortcode_id'' ''ts'' (sessionAcl (Some new_owner_claims)) ?r"
    by (simp add: handed_over_claims(3) acl_allows_def floor_ok_def)
  from claims_acl_sound [OF handed_over_claims(1,2) this, of 6 7000000] show ?thesis by simp
qed

section \<open>Listings\<close>

lemma view_rows_mem: "v \<in> set (view_rows d rows) \<longleftrightarrow> (\<exists>s \<in> set rows. shortcode_view d s = Some v)"
  by (induction rows) (auto simp: view_rows_def List.map_filter_def)

text \<open>
  The routing-table page lists exactly the rows that every filter set admits (the generated SQL,
  with its placeholders, says neither more nor less), and an owner's page exactly the owner's rows.
\<close>

theorem shortcode_listings_exact:
  "(v \<in> set (listShortcodes g le f d) \<longleftrightarrow>
      (\<exists>s \<in> set (shortcodes d). shortcode_view d s = Some v \<and> shortcode_matches f (shortcode_sql s)))
   \<and> (v \<in> set (listShortcodesOwnedBy le uid d) \<longleftrightarrow>
      (\<exists>s \<in> set (shortcodes d). shortcode_view d s = Some v \<and> sc_owner s = uid))"
proof -
  obtain cs args where b: "shortcode_where f [] = (cs, args)" by (cases "shortcode_where f []")
  have "holds g args r (CAll cs) \<longleftrightarrow> shortcode_matches f r" for r
    by (rule shortcode_builder.where_holds [OF b])
  then show ?thesis
    unfolding listShortcodes_def listShortcodesOwnedBy_def b
    by (auto simp: view_rows_mem)
qed

end
