(* ===== verification/Shortcode_Actions.thy ===== *)
theory Shortcode_Actions
  imports User_Actions Routing
begin

text \<open>
  The server actions of \<^verbatim>\<open>dashboard/src/app/(authed)/shortcodes/actions.ts\<close> and
  \<^verbatim>\<open>.../my-shortcodes/actions.ts\<close>: the super admin's edits of the routing table, the two
  edits an owner may make to an own shortcode, and the self-service creation of sandbox shortcodes.
\<close>

section \<open>Forms\<close>

definition http_url :: "string \<Rightarrow> bool" where
  \<comment> \<open>the pattern: http or https in any case, a colon and two slashes\<close>
  "http_url s \<longleftrightarrow> startsWith (toLowerCase s) ''http://'' \<or> startsWith (toLowerCase s) ''https://''"

definition status_of :: "string \<Rightarrow> sc_status option" where
  "status_of s = (if s = ''active'' then Some Active else if s = ''maintenance'' then Some Maintenance
     else if s = ''deactivated'' then Some Deactivated else None)"

definition not_positive :: "int option \<Rightarrow> bool" where
  \<comment> \<open>\<open>!Number.isFinite(n) || n <= 0\<close>\<close>
  "not_positive n = (case n of None \<Rightarrow> True | Some k \<Rightarrow> k \<le> 0)"

definition bad_timeout :: "int option \<Rightarrow> bool" where
  "bad_timeout n = (case n of None \<Rightarrow> True | Some k \<Rightarrow> k < 1 \<or> k > 30)"

definition form_operator :: "form \<Rightarrow> environment \<Rightarrow> db \<Rightarrow> exn + int option" where
  "form_operator fd env d = (let operator_id = fd_int fd ''operator_id'' in
     if env = Sandbox \<and> not_positive operator_id
     then (case fst (defaultSandboxOperatorId d) of Inl e \<Rightarrow> Inl e | Inr i \<Rightarrow> Inr (Some i))
     else Inr operator_id)"

definition parseWrite :: "form \<Rightarrow> db \<Rightarrow> exn + string + ShortcodeWrite" where
  "parseWrite fd d =
    (let environment = (if toLowerCase (fd_str fd ''environment'') = ''sandbox'' then Sandbox else Production)
     in case form_operator fd environment d of Inl e \<Rightarrow> Inl e
     | Inr operator_id \<Rightarrow> Inr
    (let code = fd_str fd ''code''; owner_user_id = fd_int fd ''owner_user_id'';
         handler_url = fd_str fd ''handler_url''; auth_mode = fd_str fd ''auth_mode'';
         bearer_token = fd_opt fd ''bearer_token''; timeout_secs = fd_int fd ''timeout_secs'';
         status = (case status_of (toLowerCase (fd_str fd ''status'')) of Some s \<Rightarrow> s
           | None \<Rightarrow> (if fd_bool fd ''active'' then Active else Deactivated));
         status_message = fd_opt fd ''status_message'';
         payload_format = (if toLowerCase (fd_str fd ''payload_format'') = ''legacy'' then Legacy else Gateway);
         verify_tls = (\<not> fd_bool fd ''skip_tls_verify'')
     in if not_positive operator_id then Inl ''operator is required''
        else if code = [] then Inl ''code is required''
        else if length code > 32 then Inl ''code too long (max 32)''
        else if not_positive owner_user_id then Inl ''owner is required''
        else if handler_url = [] \<or> \<not> http_url handler_url
        then Inl ''handler URL must start with http:// or https://''
        else if auth_mode \<noteq> ''none'' \<and> auth_mode \<noteq> ''bearer'' then Inl (''auth_mode must be 'none' or 'bearer'' @ [CHR 0x27])
        else if auth_mode = ''bearer'' \<and> \<not> truthy bearer_token
        then Inl ''bearer token required when auth_mode=bearer''
        else if bad_timeout timeout_secs then Inl ''timeout_secs must be 1-30''
        else if status \<noteq> Active \<and> \<not> truthy status_message
        then Inl ''a status message is required when status is maintenance or deactivated''
        else if truthy status_message \<and> length (str_of status_message) > 160
        then Inl ''status message too long (max 160 chars - MNOs truncate at session size)''
        else (let (ownerName, operatorDisplayName) = labelPartsFor (or0 owner_user_id) (or0 operator_id) d;
                  label = buildShortcodeLabel (units ownerName) (units code) (Some (units operatorDisplayName))
                    environment
              in Inr \<lparr>w_operator_id = or0 operator_id, w_code = code, w_label = Some label,
                   w_environment = environment, w_owner_user_id = or0 owner_user_id,
                   w_handler_url = handler_url,
                   w_auth_mode = (if auth_mode = ''bearer'' then AuthBearer else AuthNone),
                   w_bearer_token = (if auth_mode = ''bearer'' then bearer_token else None),
                   w_timeout_secs = or0 timeout_secs, w_status = status, w_status_message = status_message,
                   w_payload_format = payload_format, w_verify_tls = verify_tls\<rparr>)))"

section \<open>Super admins\<close>

definition requireManager :: "'j app \<Rightarrow> 'j http_req \<Rightarrow> db \<Rightarrow> SessionClaims option" where
  \<comment> \<open>\<open>requireAdmin\<close> of this file\<close>
  "requireManager ap rq d = require_perm ap rq [SHORTCODES_MANAGE] d"

definition shortcode_path :: "int \<Rightarrow> string" where "shortcode_path i = ''/shortcodes/'' @ js_String i"

definition op_code :: "int \<Rightarrow> string \<Rightarrow> string" where "op_code i code = js_String i @ '':'' @ code"

definition actionCreateShortcode :: "'j app \<Rightarrow> 'j http_req \<Rightarrow> form \<Rightarrow> db \<Rightarrow> 'j acted" where
  "actionCreateShortcode ap rq fd d = (case requireManager ap rq d of None \<Rightarrow> act_go ''/'' d
    | Some session \<Rightarrow> (case parseWrite fd d of Inl e \<Rightarrow> (Throws e, None, d)
    | Inr (Inl e) \<Rightarrow> act_err ''/shortcodes/new'' e d
    | Inr (Inr w) \<Rightarrow>
       (if codeExists (w_operator_id w) (w_code w) (w_environment w) None d
        then act_err ''/shortcodes/new'' ''operator+code already exists in this environment'' d
        else (case createShortcode (hr_now rq) w (session_id session) d of
            (Inl e, d1) \<Rightarrow> (Throws e, None, d1)
          | (Inr i, d1) \<Rightarrow> act_go ''/shortcodes''
              (log_audit rq (Some (c_email session)) ''shortcode.create''
                (Some (op_code (w_operator_id w) (w_code w))) Success
                (Some (JObj [(''id'', JNum i), (''handler_url'', JStr (w_handler_url w))])) d1)))))"

definition actionUpdateShortcode :: "'j app \<Rightarrow> 'j http_req \<Rightarrow> int \<Rightarrow> form \<Rightarrow> db \<Rightarrow> 'j acted" where
  "actionUpdateShortcode ap rq i fd d = (case requireManager ap rq d of None \<Rightarrow> act_go ''/'' d
    | Some session \<Rightarrow> (case parseWrite fd d of Inl e \<Rightarrow> (Throws e, None, d)
    | Inr (Inl e) \<Rightarrow> act_err (shortcode_path i) e d
    | Inr (Inr w) \<Rightarrow>
       (if codeExists (w_operator_id w) (w_code w) (w_environment w) (Some i) d
        then act_err (shortcode_path i) ''operator+code already exists in this environment'' d
        else (case updateShortcode (hr_now rq) i w (session_id session) d of
            (Inl e, d1) \<Rightarrow> (Throws e, None, d1)
          | (Inr _, d1) \<Rightarrow> act_go ''/shortcodes''
              (log_audit rq (Some (c_email session)) ''shortcode.update''
                (Some (op_code (w_operator_id w) (w_code w))) Success
                (Some (JObj [(''id'', JNum i), (''status'', JStr (status_str (w_status w)))])) d1)))))"

definition actionPromoteShortcode :: "'j app \<Rightarrow> 'j http_req \<Rightarrow> int \<Rightarrow> int option \<Rightarrow> db \<Rightarrow> 'j acted" where
  "actionPromoteShortcode ap rq i operatorId d = (case requireManager ap rq d of None \<Rightarrow> act_go ''/'' d
    | Some session \<Rightarrow> (case getShortcode i d of None \<Rightarrow> act_err ''/shortcodes'' ''shortcode not found'' d
    | Some v \<Rightarrow> (let sc = sr_row v; oid = or0 operatorId in
       if sc_environment sc \<noteq> Sandbox
       then act_err (shortcode_path i) ''only sandbox shortcodes can be promoted'' d
       else if not_positive operatorId
       then act_err (shortcode_path i) ''choose the live network to promote onto'' d
       else if codeExists oid (sc_code sc) Production None d
       then act_err (shortcode_path i) ''a production shortcode with this operator+code already exists'' d
       else (case promoteShortcode (hr_now rq) i oid (session_id session) d of
            (Inl e, d1) \<Rightarrow> (Throws e, None, d1)
          | (Inr n, d1) \<Rightarrow> act_go (shortcode_path n)
              (log_audit rq (Some (c_email session)) ''shortcode.promote''
                (Some (op_code oid (sc_code sc))) Success
                (Some (JObj [(''sandbox_id'', JNum i), (''production_id'', JNum n), (''operator_id'', JNum oid),
                   (''handler_url'', JStr (sc_handler_url sc))])) d1)))))"

definition actionSetShortcodeActive :: "'j app \<Rightarrow> 'j http_req \<Rightarrow> int \<Rightarrow> bool \<Rightarrow> db \<Rightarrow> 'j acted" where
  "actionSetShortcodeActive ap rq i active d = (case requireManager ap rq d of None \<Rightarrow> act_go ''/'' d
    | Some session \<Rightarrow> (case setShortcodeActive (hr_now rq) i active (session_id session) d of
         (Inl e, d1) \<Rightarrow> (Throws e, None, d1)
       | (Inr _, d1) \<Rightarrow> (Done, None,
           log_audit rq (Some (c_email session))
             (if active then ''shortcode.activate'' else ''shortcode.deactivate'')
             (Some (js_String i)) Success None d1)))"

section \<open>Owners\<close>

definition owns :: "SessionClaims \<Rightarrow> int \<Rightarrow> db \<Rightarrow> bool" where
  \<comment> \<open>\<open>sc && sc.owner_user_id === Number(session.sub)\<close>\<close>
  "owns session i d = (case getShortcode i d of None \<Rightarrow> False
     | Some v \<Rightarrow> sc_owner (sr_row v) = session_id session)"

definition actionSetShortcodeHandlerUrl :: "'j app \<Rightarrow> 'j http_req \<Rightarrow> int \<Rightarrow> string option \<Rightarrow> db \<Rightarrow> 'j acted" where
  "actionSetShortcodeHandlerUrl ap rq i url d = (case req_session ap rq d of None \<Rightarrow> act_go ''/'' d
    | Some session \<Rightarrow>
       (let isAdmin = hasPerm (Some session) SHORTCODES_MANAGE;
            dest = (if isAdmin then shortcode_path i else ''/my-shortcodes'');
            handler = trim (str_of url)
        in if \<not> isAdmin \<and> \<not> owns session i d then act_err ''/my-shortcodes'' ''not_authorized'' d
           else if handler = [] \<or> \<not> http_url handler
           then act_err dest ''handler URL must start with http:// or https://'' d
           else if length handler > 2048 then act_err dest ''handler URL too long (max 2048 chars)'' d
           else (case setShortcodeHandlerUrl (hr_now rq) i handler d of
               (Inl e, d1) \<Rightarrow> (Throws e, None, d1)
             | (Inr _, d1) \<Rightarrow> (Done, None,
                 log_audit rq (Some (c_email session)) ''shortcode.handler_url.update'' (Some (js_String i)) Success
                   (Some (JObj [(''id'', JNum i), (''handler_url'', JStr handler)])) d1))))"

definition actionSetShortcodeStatus :: "'j app \<Rightarrow> 'j http_req \<Rightarrow> int \<Rightarrow> string \<Rightarrow> string option \<Rightarrow> db \<Rightarrow> 'j acted" where
  \<comment> \<open>the posted status is any string; the column's CHECK refuses what is not a status\<close>
  "actionSetShortcodeStatus ap rq i status msg d = (case req_session ap rq d of None \<Rightarrow> act_go ''/'' d
    | Some session \<Rightarrow>
       (let isAdmin = hasPerm (Some session) SHORTCODES_MANAGE;
            dest = (if isAdmin then shortcode_path i else ''/my-shortcodes'')
        in if \<not> isAdmin \<and> \<not> owns session i d then act_err ''/my-shortcodes'' ''not_authorized'' d
           else if \<not> isAdmin \<and> status = ''deactivated''
           then act_err ''/my-shortcodes'' ''only_admins_can_deactivate'' d
           else if status \<noteq> ''active'' \<and> \<not> truthy msg then act_err dest ''a status message is required'' d
           else if truthy msg \<and> length (str_of msg) > 160
           then act_err dest ''status message too long (max 160 chars)'' d
           else (case (case status_of status of
                  Some st \<Rightarrow> setShortcodeStatus (hr_now rq) i st msg (session_id session) d
                | None \<Rightarrow> (if find_shortcode d i = None then (Inr (), d)
                    else (Inl (PgError ''23514'' (Some ''shortcodes_status_check'')), d))) of
               (Inl e, d1) \<Rightarrow> (Throws e, None, d1)
             | (Inr _, d1) \<Rightarrow> (Done, None,
                 log_audit rq (Some (c_email session)) (''shortcode.status.'' @ status) (Some (js_String i)) Success
                   (Some (JObj [(''id'', JNum i), (''status'', JStr status),
                      (''message_len'', JNum (int (length (str_of msg))))])) d1))))"

definition actionCreateSandboxShortcode :: "'j app \<Rightarrow> 'j http_req \<Rightarrow> form \<Rightarrow> db \<Rightarrow> 'j acted" where
  "actionCreateSandboxShortcode ap rq fd d =
    (let back = act_err ''/my-shortcodes'' in
     case req_session ap rq d of None \<Rightarrow> act_go ''/login'' d
    | Some session \<Rightarrow>
     (if \<not> hasPerm (Some session) SHORTCODES_MANAGE_SANDBOX
      then back ''you are not allowed to create sandbox shortcodes'' d
      else (case fst (defaultSandboxOperatorId d) of Inl e \<Rightarrow> (Throws e, None, d)
      | Inr operator_id \<Rightarrow>
       (let code = fd_str fd ''code''; handler_url = fd_str fd ''handler_url'';
            bearer = (fd_str fd ''auth_mode'' = ''bearer''); bearer_token = fd_opt fd ''bearer_token'';
            timeout_secs = fd_int fd ''timeout_secs''; me = session_id session
        in if code = [] then back ''code is required'' d
           else if length code > 32 then back ''code too long (max 32)'' d
           else if handler_url = [] \<or> \<not> http_url handler_url
           then back ''handler URL must start with http:// or https://'' d
           else if length handler_url > 2048 then back ''handler URL too long (max 2048 chars)'' d
           else if bearer \<and> \<not> truthy bearer_token then back ''bearer token required when auth_mode=bearer'' d
           else if bad_timeout timeout_secs then back ''timeout must be 1-30 seconds'' d
           else if countUnpromotedSandbox me operator_id d \<ge> SANDBOX_PER_OPERATOR_LIMIT
           then back (''You already have '' @ js_String (int SANDBOX_PER_OPERATOR_LIMIT) @ '' sandbox shortcodes ''
             @ ''awaiting promotion. Promote one to production before creating another.'') d
           else if codeExists operator_id code Sandbox None d
           then back ''you already have a sandbox shortcode with this code'' d
           else (let label = buildShortcodeLabel (units (fst (labelPartsFor me operator_id d))) (units code)
                       None Sandbox
                 in case createShortcode (hr_now rq) \<lparr>w_operator_id = operator_id, w_code = code,
                      w_label = Some label, w_environment = Sandbox, w_owner_user_id = me,
                      w_handler_url = handler_url, w_auth_mode = (if bearer then AuthBearer else AuthNone),
                      w_bearer_token = (if bearer then bearer_token else None),
                      w_timeout_secs = or0 timeout_secs, w_status = Active, w_status_message = None,
                      w_payload_format = Gateway, w_verify_tls = True\<rparr> me d of
                     (Inl e, d1) \<Rightarrow> (Throws e, None, d1)
                   | (Inr i, d1) \<Rightarrow> act_go (''/my-shortcodes?ok=Sandbox shortcode '' @ code
                        @ '' created. Test it in the simulator.'')
                       (log_audit rq (Some (c_email session)) ''shortcode.sandbox.create''
                         (Some (op_code operator_id code)) Success
                         (Some (JObj [(''id'', JNum i), (''handler_url'', JStr handler_url),
                            (''environment'', JStr ''sandbox'')])) d1))))))"

section \<open>What an action wrote\<close>

inductive shortcode_action :: "'j app \<Rightarrow> 'j http_req \<Rightarrow> db \<Rightarrow> db \<Rightarrow> bool" for ap rq d where
  sa_create: "shortcode_action ap rq d (acted_db (actionCreateShortcode ap rq fd d))"
| sa_update: "shortcode_action ap rq d (acted_db (actionUpdateShortcode ap rq i fd d))"
| sa_promote: "shortcode_action ap rq d (acted_db (actionPromoteShortcode ap rq i oid d))"
| sa_active: "shortcode_action ap rq d (acted_db (actionSetShortcodeActive ap rq i b d))"
| sa_url: "shortcode_action ap rq d (acted_db (actionSetShortcodeHandlerUrl ap rq i url d))"
| sa_status: "shortcode_action ap rq d (acted_db (actionSetShortcodeStatus ap rq i st msg d))"
| sa_sandbox: "shortcode_action ap rq d (acted_db (actionCreateSandboxShortcode ap rq fd d))"

definition row_ok :: "shortcode_row \<Rightarrow> bool" where
  \<comment> \<open>what the gateway relies on when it forwards to the handler\<close>
  "row_ok s \<longleftrightarrow> http_url (sc_handler_url s) \<and> 1 \<le> sc_timeout_secs s \<and> sc_timeout_secs s \<le> 30
     \<and> (sc_auth_mode s = AuthBearer \<longleftrightarrow> truthy (sc_bearer_token s))"

definition write_ok :: "ShortcodeWrite \<Rightarrow> bool" where
  "write_ok w \<longleftrightarrow> http_url (w_handler_url w) \<and> 1 \<le> w_timeout_secs w \<and> w_timeout_secs w \<le> 30
     \<and> (w_auth_mode w = AuthBearer \<longleftrightarrow> truthy (w_bearer_token w))"

lemma guard_passed: "(if b then Inl e else X) = Inr w \<longleftrightarrow> \<not> b \<and> X = Inr w"
  by simp

lemma parseWrite_fields:
  assumes "parseWrite fd d = Inr (Inr w)"
  shows "w_handler_url w = fd_str fd ''handler_url'' \<and> http_url (fd_str fd ''handler_url'')
    \<and> \<not> bad_timeout (fd_int fd ''timeout_secs'') \<and> w_timeout_secs w = or0 (fd_int fd ''timeout_secs'')
    \<and> w_auth_mode w = (if fd_str fd ''auth_mode'' = ''bearer'' then AuthBearer else AuthNone)
    \<and> w_bearer_token w = (if fd_str fd ''auth_mode'' = ''bearer'' then fd_opt fd ''bearer_token'' else None)
    \<and> (fd_str fd ''auth_mode'' = ''bearer'' \<longrightarrow> truthy (fd_opt fd ''bearer_token''))"
proof -
  obtain oid where "form_operator fd (if toLowerCase (fd_str fd ''environment'') = ''sandbox'' then Sandbox
      else Production) d = Inr oid"
    using assms unfolding parseWrite_def Let_def by (auto split: sum.splits)
  then show ?thesis
    using assms unfolding parseWrite_def Let_def
    by (simp only: sum.case sum.inject guard_passed prod.case_eq_if) (elim conjE, clarsimp)
qed

lemma parseWrite_ok: "parseWrite fd d = Inr (Inr w) \<Longrightarrow> write_ok w"
  by (drule parseWrite_fields) (auto simp: write_ok_def bad_timeout_def or0_def truthy_def
      split: if_splits option.splits)

lemma shortcodes_log: "shortcodes (log_audit rq a b c oc e d) = shortcodes d" by simp

lemma insert_row_ok:
  "insert_shortcode s d = Inr d' \<Longrightarrow> row_ok s \<Longrightarrow> \<forall>t \<in> set (shortcodes d). row_ok t \<Longrightarrow>
     \<forall>t \<in> set (shortcodes d'). row_ok t"
  by (auto simp: insert_shortcode_Inr)

lemma update_row_ok:
  assumes "update_shortcode now i f d = Inr d'" "\<And>s. row_ok s \<Longrightarrow> row_ok (f s)"
    and "\<forall>t \<in> set (shortcodes d). row_ok t"
  shows "\<forall>t \<in> set (shortcodes d'). row_ok t"
proof -
  have st: "row_ok (stamp_owner_since now s (f s))" if "row_ok s" for s
    using assms(2) [OF that] by (simp add: stamp_owner_since_def row_ok_def)
  have "d' = d \<or> d' = upd_shortcode i (\<lambda>s. stamp_owner_since now s (f s)) d"
    using assms(1) by (auto simp: update_shortcode_def split: option.splits)
  then show ?thesis using st assms(3) by (auto simp: upd_shortcode_def)
qed

lemma create_row_ok:
  assumes "createShortcode now w by d = (Inr i, d')" "write_ok w" "\<forall>t \<in> set (shortcodes d). row_ok t"
  shows "\<forall>t \<in> set (shortcodes d'). row_ok t"
proof -
  obtain s where "insert_shortcode s d = Inr d'" "row_ok s"
    using assms(1,2) unfolding createShortcode_def tx_insert_shortcode_Inr
    by (fastforce simp: row_ok_def write_ok_def)
  then show ?thesis using insert_row_ok assms(3) by blast
qed

lemma edit_row_ok:
  assumes "updateShortcode now i w by d = (Inr u, d')" "write_ok w" "\<forall>t \<in> set (shortcodes d). row_ok t"
  shows "\<forall>t \<in> set (shortcodes d'). row_ok t"
  by (rule update_row_ok [OF assms(1) [unfolded updateShortcode_def tx_exec_Inr] _ assms(3)])
    (use assms(2) in \<open>simp add: row_ok_def write_ok_def\<close>)

lemma status_row_ok:
  assumes "setShortcodeStatus now i st msg by d = (Inr u, d')" "\<forall>t \<in> set (shortcodes d). row_ok t"
  shows "\<forall>t \<in> set (shortcodes d'). row_ok t"
  by (rule update_row_ok [OF assms(1) [unfolded setShortcodeStatus_def tx_exec_Inr] _ assms(2)])
    (simp add: row_ok_def)

lemma url_row_ok:
  assumes "setShortcodeHandlerUrl now i url d = (Inr u, d')" "http_url url" "\<forall>t \<in> set (shortcodes d). row_ok t"
  shows "\<forall>t \<in> set (shortcodes d'). row_ok t"
  by (rule update_row_ok [OF assms(1) [unfolded setShortcodeHandlerUrl_def tx_exec_Inr] _ assms(3)])
    (use assms(2) in \<open>simp add: row_ok_def\<close>)

lemma promote_row_ok:
  assumes "promoteShortcode now i oid by d = (Inr n, d')" "\<forall>t \<in> set (shortcodes d). row_ok t"
  shows "\<forall>t \<in> set (shortcodes d'). row_ok t"
proof -
  obtain row s where r: "List.find (\<lambda>s. sc_id s = i \<and> sc_environment s = Sandbox) (shortcodes d) = Some row"
    "insert_shortcode s d = Inr d'" "row_ok row \<longrightarrow> row_ok s"
    using assms(1) unfolding promoteShortcode_Inr by (auto simp: row_ok_def)
  have "row \<in> set (shortcodes d)" using find_SomeD [OF r(1)] by simp
  then show ?thesis using insert_row_ok [OF r(2)] r(3) assms(2) by blast
qed

lemma tx_unchanged:
  "createShortcode now w by d = (Inl e, d') \<Longrightarrow> d' = d"
  "updateShortcode now i w by d = (Inl e, d') \<Longrightarrow> d' = d"
  "promoteShortcode now i oid by d = (Inl e, d') \<Longrightarrow> d' = d"
  "setShortcodeStatus now i st msg by d = (Inl e, d') \<Longrightarrow> d' = d"
  "setShortcodeHandlerUrl now i url d = (Inl e, d') \<Longrightarrow> d' = d"
  by (auto simp: createShortcode_def updateShortcode_def promoteShortcode_def setShortcodeStatus_def
      setShortcodeHandlerUrl_def tx_insert_shortcode_def tx_simps tx_exec_def Let_def
      split: sum.splits option.splits prod.splits if_splits)

definition wrote :: "db \<Rightarrow> db \<Rightarrow> db \<Rightarrow> bool" where
  \<comment> \<open>\<open>d'\<close> is the state \<open>d1\<close> up to the audit log\<close>
  "wrote d d1 d' \<longleftrightarrow> shortcodes d' = shortcodes d1 \<and> users d' = users d"

lemma wrote_log [simp]: "users d1 = users d \<Longrightarrow> wrote d d1 (log_audit rq a b c oc e d1)"
  by (simp add: wrote_def)

lemma wrote_self [simp]: "wrote d d d"
  by (simp add: wrote_def)

lemma tx_users:
  "createShortcode now w by d = (Inr i, d1) \<Longrightarrow> users d1 = users d"
  "updateShortcode now k w by d = (Inr u, d1) \<Longrightarrow> users d1 = users d"
  "promoteShortcode now k oid by d = (Inr i, d1) \<Longrightarrow> users d1 = users d"
  "setShortcodeStatus now k st msg by d = (Inr u, d1) \<Longrightarrow> users d1 = users d"
  "setShortcodeHandlerUrl now k url d = (Inr u, d1) \<Longrightarrow> users d1 = users d"
  by (simp_all add: table_edit.keeps_accounts table_status.keeps_accounts table_url.keeps_accounts
      table_create.keeps_accounts [OF exI] table_promote.keeps_accounts [OF exI])

lemma create_effect:
  "wrote d d (acted_db (actionCreateShortcode ap rq fd d)) \<or> (\<exists>s w i d1. requireManager ap rq d = Some s
     \<and> parseWrite fd d = Inr (Inr w) \<and> createShortcode (hr_now rq) w (session_id s) d = (Inr i, d1)
     \<and> wrote d d1 (acted_db (actionCreateShortcode ap rq fd d)))"
proof (cases "requireManager ap rq d")
  case (Some s)
  show ?thesis
  proof (cases "\<exists>w. parseWrite fd d = Inr (Inr w)")
    case True
    then obtain w where w: "parseWrite fd d = Inr (Inr w)" by blast
    obtain r d1 where r: "createShortcode (hr_now rq) w (session_id s) d = (r, d1)" by force
    show ?thesis using Some w r
      by (cases r) (auto simp: actionCreateShortcode_def dest: tx_users tx_unchanged)
  next
    case False
    then show ?thesis using Some by (auto simp: actionCreateShortcode_def split: sum.splits)
  qed
qed (simp add: actionCreateShortcode_def)

lemma update_effect:
  "wrote d d (acted_db (actionUpdateShortcode ap rq k fd d)) \<or> (\<exists>s w d1. requireManager ap rq d = Some s
     \<and> parseWrite fd d = Inr (Inr w) \<and> updateShortcode (hr_now rq) k w (session_id s) d = (Inr (), d1)
     \<and> wrote d d1 (acted_db (actionUpdateShortcode ap rq k fd d)))"
proof (cases "requireManager ap rq d")
  case (Some s)
  show ?thesis
  proof (cases "\<exists>w. parseWrite fd d = Inr (Inr w)")
    case True
    then obtain w where w: "parseWrite fd d = Inr (Inr w)" by blast
    obtain r d1 where r: "updateShortcode (hr_now rq) k w (session_id s) d = (r, d1)" by force
    show ?thesis using Some w r
      by (cases r) (auto simp: actionUpdateShortcode_def dest: tx_users tx_unchanged)
  next
    case False
    then show ?thesis using Some by (auto simp: actionUpdateShortcode_def split: sum.splits)
  qed
qed (simp add: actionUpdateShortcode_def)

lemma promote_effect:
  "wrote d d (acted_db (actionPromoteShortcode ap rq k oid d)) \<or> (\<exists>s n d1. requireManager ap rq d = Some s
     \<and> promoteShortcode (hr_now rq) k (or0 oid) (session_id s) d = (Inr n, d1)
     \<and> wrote d d1 (acted_db (actionPromoteShortcode ap rq k oid d)))"
proof (cases "requireManager ap rq d")
  case (Some s)
  obtain r d1 where r: "promoteShortcode (hr_now rq) k (or0 oid) (session_id s) d = (r, d1)" by force
  show ?thesis using Some r
    by (cases "getShortcode k d"; cases r)
      (auto simp: actionPromoteShortcode_def Let_def dest: tx_users tx_unchanged)
qed (simp add: actionPromoteShortcode_def)

lemma active_effect:
  "wrote d d (acted_db (actionSetShortcodeActive ap rq k b d)) \<or> (\<exists>s d1. requireManager ap rq d = Some s
     \<and> setShortcodeStatus (hr_now rq) k (if b then Active else Deactivated) None (session_id s) d = (Inr (), d1)
     \<and> wrote d d1 (acted_db (actionSetShortcodeActive ap rq k b d)))"
proof (cases "requireManager ap rq d")
  case (Some s)
  obtain r d1 where r: "setShortcodeStatus (hr_now rq) k (if b then Active else Deactivated) None (session_id s) d
      = (r, d1)" by force
  show ?thesis using Some r
    by (cases r) (auto simp: actionSetShortcodeActive_def setShortcodeActive_def dest: tx_users tx_unchanged)
qed (simp add: actionSetShortcodeActive_def)

definition may_edit :: "'j app \<Rightarrow> 'j http_req \<Rightarrow> int \<Rightarrow> db \<Rightarrow> SessionClaims \<Rightarrow> bool" where
  "may_edit ap rq k d s \<longleftrightarrow> req_session ap rq d = Some s \<and> (SHORTCODES_MANAGE \<in> set (c_perms s) \<or> owns s k d)"

lemma url_effect:
  "wrote d d (acted_db (actionSetShortcodeHandlerUrl ap rq k url d)) \<or> (\<exists>s h d1. may_edit ap rq k d s
     \<and> http_url h \<and> setShortcodeHandlerUrl (hr_now rq) k h d = (Inr (), d1)
     \<and> wrote d d1 (acted_db (actionSetShortcodeHandlerUrl ap rq k url d)))"
proof (cases "req_session ap rq d")
  case (Some s)
  obtain r d1 where r: "setShortcodeHandlerUrl (hr_now rq) k (trim (str_of url)) d = (r, d1)" by force
  have frame: "r = Inl e \<Longrightarrow> d1 = d" "r = Inr () \<Longrightarrow> users d1 = users d" for e
    using r tx_unchanged(5) tx_users(5) by blast+
  show ?thesis using Some r frame
    by (cases r) (auto simp: actionSetShortcodeHandlerUrl_def Let_def may_edit_def hasPerm_def)
qed (simp add: actionSetShortcodeHandlerUrl_def)

lemma status_effect:
  "wrote d d (acted_db (actionSetShortcodeStatus ap rq k st msg d)) \<or> (\<exists>s v d1. may_edit ap rq k d s
     \<and> setShortcodeStatus (hr_now rq) k v msg (session_id s) d = (Inr (), d1)
     \<and> wrote d d1 (acted_db (actionSetShortcodeStatus ap rq k st msg d)))"
proof (cases "req_session ap rq d")
  case (Some s)
  show ?thesis
  proof (cases "status_of st")
    case None
    then have "st \<noteq> ''active''" by (auto simp: status_of_def)
    then show ?thesis using Some None by (simp add: actionSetShortcodeStatus_def Let_def)
  next
    case v: (Some v)
    obtain r d1 where r: "setShortcodeStatus (hr_now rq) k v msg (session_id s) d = (r, d1)" by force
    have frame: "r = Inl e \<Longrightarrow> d1 = d" "r = Inr () \<Longrightarrow> users d1 = users d" for e
      using r tx_unchanged(4) tx_users(4) by blast+
    let ?adm = "hasPerm (Some s) SHORTCODES_MANAGE"
    let ?stop = "(\<not> ?adm \<and> \<not> owns s k d) \<or> (\<not> ?adm \<and> st = ''deactivated'')
      \<or> (st \<noteq> ''active'' \<and> \<not> truthy msg) \<or> (truthy msg \<and> length (str_of msg) > 160)"
    show ?thesis
    proof (cases ?stop)
      case True
      then have "acted_db (actionSetShortcodeStatus ap rq k st msg d) = d"
        unfolding actionSetShortcodeStatus_def Some Let_def option.case by (elim disjE) simp_all
      then show ?thesis by simp
    next
      case False
      then have go: "\<not> (\<not> ?adm \<and> \<not> owns s k d)" "\<not> (\<not> ?adm \<and> st = ''deactivated'')"
        "\<not> (st \<noteq> ''active'' \<and> \<not> truthy msg)" "\<not> (truthy msg \<and> length (str_of msg) > 160)"
        by blast+
      then have edit: "may_edit ap rq k d s" by (auto simp: may_edit_def Some hasPerm_def)
      have act: "actionSetShortcodeStatus ap rq k st msg d = (case r of Inl e \<Rightarrow> (Throws e, None, d1)
          | Inr u \<Rightarrow> (Done, None, log_audit rq (Some (c_email s)) (''shortcode.status.'' @ st)
              (Some (js_String k)) Success (Some (JObj [(''id'', JNum k), (''status'', JStr st),
                (''message_len'', JNum (int (length (str_of msg))))])) d1))"
        unfolding actionSetShortcodeStatus_def Some v Let_def option.case r prod.case
          if_not_P [OF go(1)] if_not_P [OF go(2)] if_not_P [OF go(3)] if_not_P [OF go(4)]
        by (cases r) simp_all
      show ?thesis
      proof (cases r)
        case (Inl e)
        then show ?thesis using act frame(1) by simp
      next
        case (Inr u)
        then have "wrote d d1 (acted_db (actionSetShortcodeStatus ap rq k st msg d))" using act frame(2) by simp
        then show ?thesis using edit r Inr by auto
      qed
    qed
  qed
qed (simp add: actionSetShortcodeStatus_def)

definition sandbox_write :: "SessionClaims \<Rightarrow> int \<Rightarrow> ShortcodeWrite \<Rightarrow> bool" where
  \<comment> \<open>what a client may create: for oneself, on the placeholder network, not routable\<close>
  "sandbox_write s oid w \<longleftrightarrow> w_environment w = Sandbox \<and> w_owner_user_id w = session_id s
     \<and> w_operator_id w = oid \<and> w_payload_format w = Gateway \<and> w_verify_tls w \<and> w_status w = Active"

lemma sandbox_effect:
  "wrote d d (acted_db (actionCreateSandboxShortcode ap rq fd d)) \<or> (\<exists>s oid w i d1. req_session ap rq d = Some s
     \<and> SHORTCODES_MANAGE_SANDBOX \<in> set (c_perms s) \<and> fst (defaultSandboxOperatorId d) = Inr oid
     \<and> countUnpromotedSandbox (session_id s) oid d < SANDBOX_PER_OPERATOR_LIMIT
     \<and> sandbox_write s oid w \<and> write_ok w \<and> createShortcode (hr_now rq) w (session_id s) d = (Inr i, d1)
     \<and> wrote d d1 (acted_db (actionCreateSandboxShortcode ap rq fd d)))"
proof (cases "req_session ap rq d")
  case (Some s)
  show ?thesis
  proof (cases "fst (defaultSandboxOperatorId d)")
    case (Inl e)
    then show ?thesis using Some by (simp add: actionCreateSandboxShortcode_def Let_def)
  next
    case (Inr oid)
    define w where "w = \<lparr>w_operator_id = oid, w_code = fd_str fd ''code'', w_label = Some (buildShortcodeLabel
        (units (fst (labelPartsFor (session_id s) oid d))) (units (fd_str fd ''code'')) None Sandbox),
      w_environment = Sandbox, w_owner_user_id = session_id s, w_handler_url = fd_str fd ''handler_url'',
      w_auth_mode = (if fd_str fd ''auth_mode'' = ''bearer'' then AuthBearer else AuthNone),
      w_bearer_token = (if fd_str fd ''auth_mode'' = ''bearer'' then fd_opt fd ''bearer_token'' else None),
      w_timeout_secs = or0 (fd_int fd ''timeout_secs''), w_status = Active, w_status_message = None,
      w_payload_format = Gateway, w_verify_tls = True\<rparr>"
    obtain r d1 where r: "createShortcode (hr_now rq) w (session_id s) d = (r, d1)" by force
    let ?go = "hasPerm (Some s) SHORTCODES_MANAGE_SANDBOX \<and> http_url (fd_str fd ''handler_url'')
      \<and> (fd_str fd ''auth_mode'' = ''bearer'' \<longrightarrow> truthy (fd_opt fd ''bearer_token''))
      \<and> \<not> bad_timeout (fd_int fd ''timeout_secs'')
      \<and> countUnpromotedSandbox (session_id s) oid d < SANDBOX_PER_OPERATOR_LIMIT"
    have w: "sandbox_write s oid w" "?go \<Longrightarrow> write_ok w"
      by (auto simp: w_def sandbox_write_def write_ok_def bad_timeout_def or0_def truthy_def split: option.splits)
    have stop: "wrote d d (acted_db (actionCreateSandboxShortcode ap rq fd d))" if "\<not> ?go"
      using that by (auto simp: actionCreateSandboxShortcode_def Some Inr Let_def)
    show ?thesis
    proof (cases r)
      case (Inl e)
      then have "wrote d d (acted_db (actionCreateSandboxShortcode ap rq fd d))"
        using r [unfolded w_def] tx_unchanged(1) [OF r [unfolded Inl]]
        by (simp add: actionCreateSandboxShortcode_def Some \<open>fst (defaultSandboxOperatorId d) = Inr oid\<close> Let_def)
      then show ?thesis ..
    next
      case (Inr i)
      then have "wrote d d (acted_db (actionCreateSandboxShortcode ap rq fd d))
          \<or> wrote d d1 (acted_db (actionCreateSandboxShortcode ap rq fd d))"
        using r [unfolded w_def] tx_users(1) [OF r [unfolded Inr]]
        by (simp add: actionCreateSandboxShortcode_def Some \<open>fst (defaultSandboxOperatorId d) = Inr oid\<close> Let_def)
      then show ?thesis
        using stop w r Inr Some \<open>fst (defaultSandboxOperatorId d) = Inr oid\<close> by (auto simp: hasPerm_def)
    qed
  qed
qed (simp add: actionCreateSandboxShortcode_def)

section \<open>Properties\<close>

lemma wrote_find: "wrote d d1 d' \<Longrightarrow> find_shortcode d' = find_shortcode d1"
  by (simp add: wrote_def find_shortcode_def fun_eq_iff)

lemma action_rows_ok:
  assumes "shortcode_action ap rq d d'" "\<forall>t \<in> set (shortcodes d). row_ok t"
  shows "\<forall>t \<in> set (shortcodes d'). row_ok t"
proof -
  have step: "\<forall>t \<in> set (shortcodes d'). row_ok t"
    if "wrote d d d' \<or> (\<exists>d1. wrote d d1 d' \<and> (\<forall>t \<in> set (shortcodes d1). row_ok t))"
    using that assms(2) by (auto simp: wrote_def)
  from assms(1) show ?thesis
  proof cases
    case (sa_create fd)
    then show ?thesis using create_effect [of d ap rq fd] create_row_ok [OF _ parseWrite_ok assms(2)] step by blast
  next
    case (sa_update k fd)
    then show ?thesis using update_effect [of d ap rq k fd] edit_row_ok [OF _ parseWrite_ok assms(2)] step by blast
  next
    case (sa_promote k oid)
    then show ?thesis using promote_effect [of d ap rq k oid] promote_row_ok [OF _ assms(2)] step by blast
  next
    case (sa_active k b)
    then show ?thesis using active_effect [of d ap rq k b] status_row_ok [OF _ assms(2)] step by blast
  next
    case (sa_url k url)
    then show ?thesis using url_effect [of d ap rq k url] url_row_ok [OF _ _ assms(2)] step by blast
  next
    case (sa_status k st msg)
    then show ?thesis using status_effect [of d ap rq k st msg] status_row_ok [OF _ assms(2)] step by blast
  next
    case (sa_sandbox fd)
    then show ?thesis using sandbox_effect [of d ap rq fd] create_row_ok [OF _ _ assms(2)] step by blast
  qed
qed

text \<open>
  C13. Whoever posts whatever to the shortcode pages, in any order, every row of the routing table keeps
  an http(s) handler URL, a timeout of 1 to 30 seconds, and a bearer token exactly when its auth mode
  asks for one.
\<close>

theorem gateway_rows_valid:
  assumes "(\<lambda>d d'. \<exists>rq. shortcode_action ap rq d d')\<^sup>*\<^sup>* d d'" "\<forall>t \<in> set (shortcodes d). row_ok t"
  shows "\<forall>t \<in> set (shortcodes d'). row_ok t"
  using assms(1)
proof induction
  case (step y z)
  then show ?case using action_rows_ok by blast
qed (rule assms(2))

definition routing_part :: "shortcode_row \<Rightarrow> (int \<times> int \<times> string \<times> environment \<times> int) \<times> auth_mode \<times> string option
    \<times> int \<times> payload_format \<times> bool \<times> ustr option \<times> int \<times> int" where
  \<comment> \<open>everything but the handler URL and the status\<close>
  "routing_part s = ((sc_id s, sc_operator_id s, sc_code s, sc_environment s, sc_owner s), sc_auth_mode s,
     sc_bearer_token s, sc_timeout_secs s, sc_payload_format s, sc_verify_tls s, sc_label s, sc_created_at s,
     sc_owner_since s)"

lemma owns_row:
  assumes "owns s k d" "wf_shortcodes d" "find_shortcode d k = Some t"
  shows "sc_owner t = session_id s"
proof -
  obtain v where v: "getShortcode k d = Some v" "sc_owner (sr_row v) = session_id s"
    using assms(1) by (auto simp: owns_def split: option.splits)
  have "v \<in> set (view_rows d (filter (\<lambda>s. sc_id s = k) (shortcodes d)))"
    using v(1) by (auto simp: getShortcode_def split: list.splits)
  then obtain w where w: "w \<in> set (shortcodes d)" "sc_id w = k" "shortcode_view d w = Some v"
    by (auto simp: view_rows_mem)
  have "sr_row v = w" using w(3) by (auto simp: shortcode_view_def split: option.splits)
  moreover have "w = t"
    using distinct_map_filter_unique [of sc_id "shortcodes d" w t] find_shortcode_mem [OF assms(3)] w assms(2)
    by (simp add: wf_shortcodes_def)
  ultimately show ?thesis using v(2) by simp
qed

lemma column_update_row:
  assumes "update_shortcode now k f d = Inr d1" "wf_shortcodes d"
    and "\<And>s. routing_part (f s) = routing_part s" "find_shortcode d i = Some t"
  shows "\<exists>t'. find_shortcode d1 i = Some t' \<and> routing_part t' = routing_part t \<and> (t' \<noteq> t \<longrightarrow> i = k)"
proof -
  have "stamp_owner_since now s (f s) = f s" for s
    using assms(3) [of s] by (simp add: stamp_owner_since_def routing_part_def)
  moreover have "find_shortcode d1 i = (if i = k then map_option (\<lambda>s. stamp_owner_since now s (f s)) (find_shortcode d i)
       else find_shortcode d i)"
    by (rule update_shortcode_laws(4) [OF assms(1,2)]) (use assms(3) in \<open>simp_all add: routing_part_def\<close>)
  ultimately show ?thesis using assms(3,4) by auto
qed

lemma edit_keeps_routing:
  assumes w: "wrote d d1 d2" and m: "may_edit ap rq k d s" and up: "update_shortcode now k f d = Inr d1"
    and f: "\<And>s. routing_part (f s) = routing_part s" and wf: "wf_shortcodes d"
    and caller: "\<forall>s. req_session ap rq d = Some s \<longrightarrow> SHORTCODES_MANAGE \<notin> set (c_perms s)"
    and row: "find_shortcode d i = Some t"
  shows "\<exists>t'. find_shortcode d2 i = Some t' \<and> routing_part t' = routing_part t
    \<and> (t' \<noteq> t \<longrightarrow> (\<exists>s. req_session ap rq d = Some s \<and> sc_owner t = session_id s))"
proof -
  obtain t' where t': "find_shortcode d1 i = Some t'" "routing_part t' = routing_part t" "t' \<noteq> t \<longrightarrow> i = k"
    using column_update_row [OF up wf f row] by blast
  have "sc_owner t = session_id s" if "i = k"
    using owns_row [OF _ wf row] m caller that by (auto simp: may_edit_def)
  then show ?thesis using t' wrote_find [OF w] m by (auto simp: may_edit_def)
qed

text \<open>
  C12. A caller without the permission to manage shortcodes can change nothing of a shortcode but its
  handler URL and its status, and that only on shortcodes the caller owns: operator, code, environment,
  owner, authentication, TLS checks and body format stay as they were, and no row disappears.
\<close>

theorem owner_actions_confined:
  assumes act: "shortcode_action ap rq d d'" and wf: "wf_shortcodes d"
    and caller: "\<forall>s. req_session ap rq d = Some s \<longrightarrow> SHORTCODES_MANAGE \<notin> set (c_perms s)"
    and row: "find_shortcode d i = Some t"
  shows "\<exists>t'. find_shortcode d' i = Some t' \<and> routing_part t' = routing_part t
    \<and> (t' \<noteq> t \<longrightarrow> (\<exists>s. req_session ap rq d = Some s \<and> sc_owner t = session_id s))"
proof -
  have noadm: "requireManager ap rq d = None"
    using caller by (cases "requireManager ap rq d") (auto simp: requireManager_def require_perm_def hasPerm_def
        split: option.splits if_splits)
  have same: ?thesis if "wrote d d d'" using wrote_find [OF that] row by simp
  from act show ?thesis
  proof cases
    case (sa_url k url)
    from url_effect [of d ap rq k url] show ?thesis
    proof (elim disjE exE conjE)
      fix s h d1
      assume m: "may_edit ap rq k d s" and up: "setShortcodeHandlerUrl (hr_now rq) k h d = (Inr (), d1)"
        and w: "wrote d d1 (acted_db (actionSetShortcodeHandlerUrl ap rq k url d))"
      show ?thesis
        by (rule edit_keeps_routing [OF w [folded sa_url(1)] m up [unfolded setShortcodeHandlerUrl_def tx_exec_Inr] _ wf caller row])
          (simp add: routing_part_def)
    qed (use same sa_url in simp)
  next
    case (sa_status k st msg)
    from status_effect [of d ap rq k st msg] show ?thesis
    proof (elim disjE exE conjE)
      fix s v d1
      assume m: "may_edit ap rq k d s" and up: "setShortcodeStatus (hr_now rq) k v msg (session_id s) d = (Inr (), d1)"
        and w: "wrote d d1 (acted_db (actionSetShortcodeStatus ap rq k st msg d))"
      show ?thesis
        by (rule edit_keeps_routing [OF w [folded sa_status(1)] m up [unfolded setShortcodeStatus_def tx_exec_Inr] _ wf caller row])
          (simp add: routing_part_def)
    qed (use same sa_status in simp)
  next
    case (sa_sandbox fd)
    from sandbox_effect [of d ap rq fd] show ?thesis
    proof (elim disjE exE conjE)
      fix s oid w n d1
      assume c: "createShortcode (hr_now rq) w (session_id s) d = (Inr n, d1)"
        "wrote d d1 (acted_db (actionCreateSandboxShortcode ap rq fd d))"
      obtain p where "insert_shortcode p d = Inr d1" "sc_id p = next_id d"
        using c(1) by (auto simp: createShortcode_def tx_insert_shortcode_Inr)
      from insert_shortcode_laws(4) [OF this wf row] show ?thesis using wrote_find [OF c(2)] sa_sandbox by simp
    qed (use same sa_sandbox in simp)
  qed (use noadm same in \<open>simp_all add: actionCreateShortcode_def actionUpdateShortcode_def
      actionPromoteShortcode_def actionSetShortcodeActive_def\<close>)
qed

text \<open>
  Self-service can only add: the action leaves the routing table alone or appends one sandbox row, on
  the placeholder network, owned by the caller, with TLS checks on and the unified body, and leaves the
  caller with at most two sandbox rows awaiting promotion there.
\<close>

theorem sandbox_self_service:
  "shortcodes (acted_db (actionCreateSandboxShortcode ap rq fd d)) = shortcodes d
   \<or> (\<exists>s oid p. req_session ap rq d = Some s \<and> SHORTCODES_MANAGE_SANDBOX \<in> set (c_perms s)
      \<and> fst (defaultSandboxOperatorId d) = Inr oid
      \<and> shortcodes (acted_db (actionCreateSandboxShortcode ap rq fd d)) = shortcodes d @ [p]
      \<and> sc_environment p = Sandbox \<and> sc_operator_id p = oid \<and> sc_owner p = session_id s
      \<and> sc_verify_tls p \<and> sc_payload_format p = Gateway \<and> row_ok p
      \<and> countUnpromotedSandbox (session_id s) oid (acted_db (actionCreateSandboxShortcode ap rq fd d)) \<le> 2)"
proof -
  let ?d' = "acted_db (actionCreateSandboxShortcode ap rq fd d)"
  from sandbox_effect [of d ap rq fd] show ?thesis
  proof (elim disjE exE conjE)
    fix s oid w n d1
    assume s: "req_session ap rq d = Some s" "SHORTCODES_MANAGE_SANDBOX \<in> set (c_perms s)"
      "fst (defaultSandboxOperatorId d) = Inr oid"
      and n: "countUnpromotedSandbox (session_id s) oid d < SANDBOX_PER_OPERATOR_LIMIT"
      and w: "sandbox_write s oid w" "write_ok w" and c: "createShortcode (hr_now rq) w (session_id s) d = (Inr n, d1)"
      and d': "wrote d d1 ?d'"
    obtain p where p: "insert_shortcode p d = Inr d1" "sc_environment p = Sandbox" "sc_operator_id p = oid"
      "sc_owner p = session_id s" "sc_verify_tls p" "sc_payload_format p = Gateway" "row_ok p"
      using c w unfolding createShortcode_def tx_insert_shortcode_Inr
      by (fastforce simp: sandbox_write_def write_ok_def row_ok_def)
    have rows: "shortcodes ?d' = shortcodes d @ [p]" using d' p(1) by (simp add: wrote_def insert_shortcode_Inr)
    have "countUnpromotedSandbox (session_id s) oid ?d' \<le> countUnpromotedSandbox (session_id s) oid d + 1"
      by (simp add: countUnpromotedSandbox_def rows p(2))
    with n have "countUnpromotedSandbox (session_id s) oid ?d' \<le> 2" by (simp add: SANDBOX_PER_OPERATOR_LIMIT_def)
    with s p rows show ?thesis by blast
  qed (simp add: wrote_def)
qed

section \<open>An owner and an administrator's deactivation\<close>

definition stopped_row :: shortcode_row where
  "stopped_row = (sample_shortcode 5 2)\<lparr>sc_status := Deactivated, sc_active := False,
     sc_status_message := Some ''fraud'', sc_status_set_by := Some 1\<rparr>"

definition stopped_db :: db where
  \<comment> \<open>the sample table after the super admin (1) deactivated the client's shortcode 5\<close>
  "stopped_db = sample_table\<lparr>shortcodes := [stopped_row, sample_shortcode 6 1]\<rparr>"

lemma stopped_row_fields: "sc_id stopped_row = 5" "sc_owner stopped_row = 2" "sc_status stopped_row = Deactivated"
  "sc_operator_id stopped_row = 1" "sc_label stopped_row = None" "sc_code stopped_row = dec 5"
  "sc_environment stopped_row = Production" "sc_status_set_by stopped_row = Some 1" "sc_owner_since stopped_row = 0"
  by (simp_all add: stopped_row_def sample_shortcode_def)

lemma stopped_found: "find_shortcode stopped_db 5 = Some stopped_row"
  by (simp add: find_shortcode_def stopped_db_def stopped_row_fields)

lemma stopped_db_wf: "wf_shortcodes stopped_db"
  by (simp add: wf_shortcodes_def stopped_db_def stopped_row_fields sample_table_def sample_db_def
      sample_shortcode_def dec.simps digit_char_def)

lemma stopped_rows_ok: "\<forall>t \<in> set (shortcodes stopped_db). row_ok t"
  by (simp add: stopped_db_def stopped_row_def sample_shortcode_def row_ok_def http_url_def truthy_def
      toLowerCase_def lower_char_def)

lemma client_on_stopped: "req_session sample_app client_req stopped_db = Some client_session"
  by (simp add: client_in_session userStillValid_def stopped_db_def sample_table_def sample_db_def sample_user_def)

lemma client_owns_stopped: "owns client_session 5 stopped_db"
  by (simp add: owns_def getShortcode_def view_rows_def List.map_filter_def shortcode_view_def client_id
      find_operator_def find_user_def stopped_row_fields stopped_db_def sample_table_def sample_db_def
      sample_user_def sample_shortcode_def)

abbreviation reactivated :: db where
  "reactivated \<equiv> acted_db (actionSetShortcodeStatus sample_app client_req 5 ''active'' None stopped_db)"

text \<open>
  An owner can undo an administrator's deactivation: the action refuses owners the status deactivated
  but not the way out of it, so posting active on an own, deactivated shortcode brings it back into
  routing although the caller lacks the permission to manage shortcodes.
\<close>

theorem owner_reactivates:
  "sc_status stopped_row = Deactivated \<and> find_shortcode stopped_db 5 = Some stopped_row
   \<and> req_session sample_app client_req stopped_db = Some client_session
   \<and> SHORTCODES_MANAGE \<notin> set (c_perms client_session)
   \<and> (\<exists>s. find_shortcode reactivated 5 = Some s \<and> sc_status s = Active \<and> sc_active s)"
proof -
  have adm: "\<not> hasPerm (Some client_session) SHORTCODES_MANAGE" by (simp add: hasPerm_def client_id)
  let ?f = "\<lambda>s. s\<lparr>sc_status := Active, sc_status_message := None, sc_status_set_by := Some 2,
     sc_status_set_at := 1000000, sc_active := True, sc_updated_at := 1000000\<rparr>"
  have chk: "shortcode_check stopped_db (stamp_owner_since 1000000 stopped_row (?f stopped_row)) = None"
    by (simp add: shortcode_check_def stamp_owner_since_def stopped_row_fields find_operator_def find_user_def
        fits_def ufits_def dec.simps digit_char_def stopped_db_def sample_table_def sample_db_def
        sample_user_def sample_shortcode_def)
  have set: "setShortcodeStatus 1000000 5 Active None 2 stopped_db
      = (Inr (), upd_shortcode 5 (\<lambda>s. stamp_owner_since 1000000 s (?f s)) stopped_db)"
    using chk by (simp add: setShortcodeStatus_def tx_exec_def update_shortcode_def stopped_found)
  have "find_shortcode reactivated = find_shortcode (upd_shortcode 5 (\<lambda>s. stamp_owner_since 1000000 s (?f s)) stopped_db)"
    using set by (simp add: actionSetShortcodeStatus_def client_on_stopped Let_def adm client_owns_stopped
        status_of_def client_id client_req_fields truthy_def find_shortcode_def fun_eq_iff)
  then have "find_shortcode reactivated 5 = Some (stamp_owner_since 1000000 stopped_row (?f stopped_row))"
    by (simp add: find_shortcode_upd stamp_owner_since_def stopped_found)
  then show ?thesis
    by (simp add: stopped_found client_on_stopped client_id stopped_row_fields(3) stamp_owner_since_def)
qed

theorem owner_actions_confined_witness:
  "\<exists>t'. find_shortcode reactivated 5 = Some t' \<and> routing_part t' = routing_part stopped_row"
proof -
  have "\<forall>s. req_session sample_app client_req stopped_db = Some s \<longrightarrow> SHORTCODES_MANAGE \<notin> set (c_perms s)"
    by (simp add: client_on_stopped client_id)
  from owner_actions_confined [OF sa_status stopped_db_wf this stopped_found] show ?thesis by blast
qed

theorem gateway_rows_valid_witness: "list_all row_ok (shortcodes reactivated)"
proof -
  have "\<exists>rq. shortcode_action sample_app rq stopped_db reactivated" by (blast intro: sa_status)
  from gateway_rows_valid [OF r_into_rtranclp [of "\<lambda>d d'. \<exists>rq. shortcode_action sample_app rq d d'", OF this]
      stopped_rows_ok] show ?thesis by (simp add: list_all_iff)
qed

end
