(* ===== verification/Simulator.thy ===== *)
theory Simulator
  imports Shortcodes Actions
begin

text \<open>
  The handler simulator: \<^verbatim>\<open>dashboard/src/lib/simulator.ts\<close> and \<^verbatim>\<open>(authed)/simulator/actions.ts\<close>.  The
  handler is a function from the request posted to what comes back; \<open>JSON.parse\<close> is a parameter.
  Dashes and dots in messages are hyphens.
\<close>

section \<open>Rows and results\<close>

record SimShortcode =
  ss_id :: int
  ss_operator_name :: string
  ss_code :: string
  ss_label :: "ustr option"
  ss_environment :: environment
  ss_handler_url :: string
  ss_auth_mode :: auth_mode
  ss_status :: sc_status
  ss_timeout_secs :: int
  ss_has_token :: bool

datatype SimEvent = Start | Input

record SimLegInput =
  si_shortcodeId :: int
  si_msisdn :: string
  si_sessionId :: string
  si_event :: SimEvent
  si_ussdString :: string

datatype usd_action = CON | END

datatype verdict = Vcon | Vend | Vbad_action | Vnon2xx | Vtimeout | Vtransport | Vnot_allowed | Vnot_found

record SimLegResult =
  sr_ok :: bool
  sr_action :: "usd_action option"
  sr_message :: "string option"
  sr_verdict :: verdict
  sr_detail :: "string option"
  sr_httpStatus :: "int option"
  sr_elapsedMs :: nat
  sr_requestBody :: json
  sr_rawReply :: "string option"

definition loadSimulatableShortcodes :: "(string \<Rightarrow> string \<Rightarrow> bool) \<Rightarrow> int list option \<Rightarrow> db \<Rightarrow> SimShortcode list" where
  "loadSimulatableShortcodes le allowedIds d =
    (if allowedIds = Some [] then []
     else sort_by (\<lambda>a b. if ss_operator_name a = ss_operator_name b then le (ss_code a) (ss_code b)
           else le (ss_operator_name a) (ss_operator_name b))
       (List.map_filter (\<lambda>s. map_option (\<lambda>o'. \<lparr>ss_id = sc_id s, ss_operator_name = op_name o', ss_code = sc_code s,
            ss_label = sc_label s, ss_environment = sc_environment s, ss_handler_url = sc_handler_url s,
            ss_auth_mode = sc_auth_mode s, ss_status = sc_status s, ss_timeout_secs = sc_timeout_secs s,
            ss_has_token = truthy (sc_bearer_token s)\<rparr>) (find_operator d (sc_operator_id s)))
         (filter (\<lambda>s. case allowedIds of None \<Rightarrow> True | Some ids \<Rightarrow> sc_id s \<in> set ids) (shortcodes d))))"

section \<open>Reading a reply\<close>

definition coerceAction :: "json option \<Rightarrow> usd_action option" where
  "coerceAction raw = (case raw of Some (JStr s) \<Rightarrow> (let n = toUpperCase (trim s) in
       if n = ''CON'' then Some CON else if n = ''END'' then Some END else None)
     | _ \<Rightarrow> None)"

definition rstrip :: "(char \<Rightarrow> bool) \<Rightarrow> string \<Rightarrow> string" where
  "rstrip ws s = rev (dropWhile ws (rev s))"

definition action_prefix :: "string \<Rightarrow> usd_action option" where
  \<comment> \<open>the first of \<open>CON\<close> and \<open>END\<close> the upper-cased text starts with\<close>
  "action_prefix upper = (if startsWith upper ''CON'' then Some CON else if startsWith upper ''END'' then Some END else None)"

definition parseHandlerReply :: "(string \<Rightarrow> json option) \<Rightarrow> string \<Rightarrow> (usd_action \<times> string) option" where
  "parseHandlerReply parse bodyText =
    (let trimmed = trim bodyText;
         plain = (case action_prefix (toUpperCase trimmed) of None \<Rightarrow> None
           | Some act \<Rightarrow> (let msg = drop 3 trimmed;
                msg' = (if startsWith msg [CHR 0x20] \<or> startsWith msg [CHR 0x0A] \<or> startsWith msg [CHR 0x0D]
                  then dropWhile is_ws msg else msg)
              in Some (act, rstrip is_ws msg')))
     in if trimmed = [] then None
        else if startsWith trimmed ''{'' then
          (case parse trimmed of None \<Rightarrow> plain
           | Some j \<Rightarrow> (case coerceAction (jfield j ''action'') of None \<Rightarrow> plain
              | Some act \<Rightarrow> Some (act, (case jfield j ''message'' of None \<Rightarrow> [] | Some JNull \<Rightarrow> []
                  | Some v \<Rightarrow> json_toString v))))
        else plain)"

section \<open>One leg\<close>

record sim_request =
  sq_url :: string
  sq_headers :: "(string \<times> string) list"
  sq_body :: json
  sq_rejectUnauthorized :: bool    \<comment> \<open>certificates are checked\<close>
  sq_timeoutMs :: int

datatype sim_response =
    Answered int string            \<comment> \<open>status and text\<close>
  | Aborted                        \<comment> \<open>the timer fired\<close>
  | Unreachable string             \<comment> \<open>the text of any other exception\<close>

type_synonym handler = "sim_request \<Rightarrow> sim_response \<times> nat"
  \<comment> \<open>with the milliseconds it took\<close>

definition postToHandler :: "string \<Rightarrow> (string \<times> string) list \<Rightarrow> json \<Rightarrow> int \<Rightarrow> bool \<Rightarrow> sim_request" where
  \<comment> \<open>the request made: \<open>fetch\<close>, or \<open>node:https\<close> without verification\<close>
  "postToHandler url hs body timeoutMs verifyTls = \<lparr>sq_url = url, sq_headers = hs, sq_body = body,
     sq_rejectUnauthorized = (verifyTls \<or> \<not> startsWith (toLowerCase url) ''https:''), sq_timeoutMs = timeoutMs\<rparr>"

definition blankResult :: "verdict \<Rightarrow> string \<Rightarrow> SimLegResult" where
  "blankResult v detail = \<lparr>sr_ok = False, sr_action = None, sr_message = None, sr_verdict = v, sr_detail = Some detail,
     sr_httpStatus = None, sr_elapsedMs = 0, sr_requestBody = JObj [], sr_rawReply = None\<rparr>"

definition event_str :: "SimEvent \<Rightarrow> string" where
  "event_str e = (case e of Start \<Rightarrow> ''start'' | Input \<Rightarrow> ''input'')"

definition sim_payload :: "shortcode_row \<Rightarrow> string \<Rightarrow> SimLegInput \<Rightarrow> json" where
  "sim_payload s opname i =
    (if sc_payload_format s = Legacy
     then JObj [(''sessionId'', JStr (si_sessionId i)), (''msisdn'', JStr (si_msisdn i)),
       (''networkProvider'', JStr (toUpperCase opname)), (''serviceCode'', JStr (sc_code s)),
       (''UssdString'', JStr (si_ussdString i))]
     else JObj [(''operator'', JStr opname), (''msisdn'', JStr (si_msisdn i)), (''session_id'', JStr (si_sessionId i)),
       (''service_code'', JStr (sc_code s)), (''ussd_string'', JStr (si_ussdString i)),
       (''event'', JStr (event_str (si_event i))),
       (''raw_payload'', JObj [(''simulated'', JBool True), (''source'', JStr ''portal-simulator'')])])"

definition sim_headers :: "shortcode_row \<Rightarrow> (string \<times> string) list" where
  "sim_headers s = (''Content-Type'', ''application/json'') #
     (if sc_auth_mode s = AuthBearer \<and> truthy (sc_bearer_token s)
      then [(''Authorization'', ''Bearer '' @ str_of (sc_bearer_token s))] else [])"

definition sim_timeoutMs :: "shortcode_row \<Rightarrow> int" where
  "sim_timeoutMs s = max 1 (min (if sc_timeout_secs s = 0 then 5 else sc_timeout_secs s) 15) * 1000"

definition leg_result :: "(string \<Rightarrow> json option) \<Rightarrow> json \<Rightarrow> int \<Rightarrow> sim_response \<times> nat \<Rightarrow> SimLegResult" where
  \<comment> \<open>what is made of the handler's response\<close>
  "leg_result parse body timeoutMs r =
    (let failed = \<lparr>sr_ok = False, sr_action = None, sr_message = None, sr_verdict = Vtransport, sr_detail = None,
         sr_httpStatus = None, sr_elapsedMs = snd r, sr_requestBody = body, sr_rawReply = None\<rparr>
     in case fst r of
       Aborted \<Rightarrow> failed\<lparr>sr_verdict := Vtimeout, sr_detail := Some (''No reply within '' @ js_String (timeoutMs div 1000) @ ''s'')\<rparr>
     | Unreachable e \<Rightarrow> failed\<lparr>sr_detail := Some (take 300 e)\<rparr>
     | Answered status txt \<Rightarrow>
        (let rawReply = take 4000 txt in
         if status \<ge> 400 then failed\<lparr>sr_verdict := Vnon2xx, sr_detail := Some (''Handler returned HTTP '' @ js_String status),
             sr_httpStatus := Some status, sr_rawReply := Some rawReply\<rparr>
         else (case parseHandlerReply parse rawReply of
             None \<Rightarrow> failed\<lparr>sr_verdict := Vbad_action, sr_detail := Some ''Reply was not valid CON/END JSON or plain text.'',
               sr_httpStatus := Some status, sr_rawReply := Some rawReply\<rparr>
           | Some (act, msg) \<Rightarrow> \<lparr>sr_ok = True, sr_action = Some act, sr_message = Some msg,
               sr_verdict = (if act = CON then Vcon else Vend), sr_detail = None, sr_httpStatus = Some status,
               sr_elapsedMs = snd r, sr_requestBody = body, sr_rawReply = Some rawReply\<rparr>)))"

definition runSimulatedLeg :: "(string \<Rightarrow> json option) \<Rightarrow> handler \<Rightarrow> SimLegInput \<Rightarrow> int list option \<Rightarrow> db
    \<Rightarrow> sim_request option \<times> SimLegResult" where
  \<comment> \<open>with the request posted, if any\<close>
  "runSimulatedLeg parse post i allowedIds d =
    (if (case allowedIds of None \<Rightarrow> False | Some ids \<Rightarrow> si_shortcodeId i \<notin> set ids)
     then (None, blankResult Vnot_allowed ''You can only simulate handlers for your own shortcodes.'')
     else (case find_shortcode d (si_shortcodeId i) of None \<Rightarrow> (None, blankResult Vnot_found ''Shortcode not found.'')
       | Some s \<Rightarrow> (case find_operator d (sc_operator_id s) of None \<Rightarrow> (None, blankResult Vnot_found ''Shortcode not found.'')
         | Some o' \<Rightarrow> (let body = sim_payload s (op_name o') i; timeoutMs = sim_timeoutMs s;
               rq = postToHandler (sc_handler_url s) (sim_headers s) body timeoutMs (sc_verify_tls s)
             in (Some rq, leg_result parse body timeoutMs (post rq))))))"

definition json_Number :: "json option \<Rightarrow> int option" where
  \<comment> \<open>\<open>Number(x)\<close>; \<open>None\<close> is NaN\<close>
  "json_Number x = (case x of None \<Rightarrow> None | Some JNull \<Rightarrow> Some 0 | Some (JBool b) \<Rightarrow> Some (if b then 1 else 0)
     | Some (JNum n) \<Rightarrow> Some n | Some (JStr s) \<Rightarrow> js_Number s | Some (JArr xs) \<Rightarrow> js_Number (json_toString (JArr xs))
     | Some (JObj _) \<Rightarrow> None)"

definition verdict_str :: "verdict \<Rightarrow> string" where
  "verdict_str v = (case v of Vcon \<Rightarrow> ''con'' | Vend \<Rightarrow> ''end'' | Vbad_action \<Rightarrow> ''bad_action'' | Vnon2xx \<Rightarrow> ''non2xx''
     | Vtimeout \<Rightarrow> ''timeout'' | Vtransport \<Rightarrow> ''transport'' | Vnot_allowed \<Rightarrow> ''not_allowed'' | Vnot_found \<Rightarrow> ''not_found'')"

definition actionSimulateLeg :: "'j app \<Rightarrow> (string \<Rightarrow> json option) \<Rightarrow> handler \<Rightarrow> 'j http_req \<Rightarrow> json \<Rightarrow> db
    \<Rightarrow> sim_request option \<times> SimLegResult \<times> db" where
  "actionSimulateLeg ap parse post rq raw d = (case req_session ap rq d of
       None \<Rightarrow> (None, blankResult Vnot_allowed ''Your session expired - sign in again.'', d)
     | Some session \<Rightarrow>
        (let event = (if jfield raw ''event'' = Some (JStr ''input'') then Input else Start);
             sessionId = take 128 (trim (body_text (Some raw) ''sessionId''))
         in case json_Number (jfield raw ''shortcodeId'') of
              None \<Rightarrow> (None, blankResult Vnot_found ''Pick a shortcode first.'', d)
            | Some i \<Rightarrow>
               (let (sent, result) = runSimulatedLeg parse post \<lparr>si_shortcodeId = i,
                      si_msisdn = trim (body_text (Some raw) ''msisdn''), si_sessionId = sessionId, si_event = event,
                      si_ussdString = take 512 (body_text (Some raw) ''ussdString'')\<rparr> (c_shortcodeIds session) d
                in (sent, result, audit (hr_now rq) \<lparr>ar_actor = Some (c_email session), ar_actorKind = None,
                      ar_action = ''simulator.run'', ar_target = Some (js_String i),
                      ar_outcome = (if sr_ok result then Success else Failure), ar_ip = req_ip rq, ar_userAgent = None,
                      ar_detail = Some (JObj [(''event'', JStr (event_str event)), (''session_id'', JStr sessionId),
                        (''verdict'', JStr (verdict_str (sr_verdict result))),
                        (''http_status'', opt_json JNum (sr_httpStatus result)),
                        (''elapsed_ms'', JNum (int (sr_elapsedMs result)))])\<rparr> d))))"

end
