(* ===== verification/Legs.thy ===== *)
theory Legs
  imports Acl Schema
begin

text \<open>
  The traffic log the gateway writes (\<^verbatim>\<open>ussd_session_logs\<close>, one row per HTTP leg) and the
  predicates \<^verbatim>\<open>dashboard/src/lib/reports.ts\<close> puts over it: \<open>legConds\<close>, \<open>buildWhere\<close> and
  \<open>buildSessionWhere\<close>.  The filters and the allowlist are two predicate builders composed.
\<close>

section \<open>The log\<close>

record leg_row =
  l_id :: int
  l_ts :: int                           \<comment> \<open>microseconds\<close>
  l_operator_name :: string
  l_shortcode_id :: "int option"
  l_service_code :: "string option"
  l_msisdn :: "string option"
  l_session_id :: string
  l_direction :: string
  l_action :: "string option"           \<comment> \<open>handler_response_action\<close>
  l_response_text :: "string option"
  l_ussd_string :: "string option"
  l_error_class :: "string option"
  l_elapsed_ms :: "int option"

definition leg_sql :: "leg_row \<Rightarrow> row" where
  \<comment> \<open>the columns the predicates mention\<close>
  "leg_sql l c = (if c = ''ts'' then VTs (l_ts l)
     else if c = ''shortcode_id'' then (case l_shortcode_id l of None \<Rightarrow> VNull | Some i \<Rightarrow> VInt i)
     else if c = ''msisdn'' then opt_str (l_msisdn l)
     else if c = ''session_id'' then VStr (l_session_id l)
     else if c = ''operator_name'' then VStr (l_operator_name l)
     else if c = ''error_class'' then opt_str (l_error_class l) else VNull)"

definition session_key :: "leg_row \<Rightarrow> string \<times> string" where
  "session_key l = (l_session_id l, l_operator_name l)"

section \<open>Filters\<close>

record ReportFilters =
  rf_fromTs :: "string option"
  rf_toTs :: "string option"
  rf_msisdn :: "string option"
  rf_sessionId :: "string option"
  rf_operators :: "string list"         \<comment> \<open>absent and empty mean the same\<close>
  rf_shortcodeIds :: "int list"
  rf_errorClass :: "string option"

definition error_conds :: "string option \<Rightarrow> sql_cond list \<times> pval list \<Rightarrow> sql_cond list \<times> pval list" where
  "error_conds ec cp = (if ec = Some ''ok'' then (fst cp @ [CIsNull ''error_class''], snd cp)
     else if ec = Some ''error'' then (fst cp @ [CIsNotNull ''error_class''], snd cp)
     else push_cond (truthy ec \<and> ec \<noteq> Some ''any'') (\<lambda>n. CCmp OpEq ''error_class'' (EPar n))
       (PStr (str_of ec)) cp)"

definition filter_conds :: "int \<Rightarrow> ReportFilters \<Rightarrow> pval list \<Rightarrow> sql_cond list \<times> pval list" where
  \<comment> \<open>the filters' part of \<open>legConds\<close>; the date range is widened by \<open>margin\<close> seconds on both sides\<close>
  "filter_conds margin f ps = error_conds (rf_errorClass f)
    (push_cond (rf_shortcodeIds f \<noteq> []) (CAny ''shortcode_id'') (PInts (rf_shortcodeIds f))
    (push_cond (rf_operators f \<noteq> []) (CAny ''operator_name'') (PStrs (rf_operators f))
    (push_cond (truthy (rf_sessionId f)) (\<lambda>n. CCmp OpEq ''session_id'' (EPar n)) (PStr (str_of (rf_sessionId f)))
    (push_cond (truthy (rf_msisdn f)) (\<lambda>n. CCmp OpEq ''msisdn'' (EPar n)) (PStr (str_of (rf_msisdn f)))
    (push_cond (truthy (rf_toTs f)) (\<lambda>n. CCmp OpLt ''ts'' (EDateEnd n margin)) (PStr (str_of (rf_toTs f)))
    (push_cond (truthy (rf_fromTs f)) (\<lambda>n. CCmp OpGe ''ts'' (ETimestamptz n (- margin))) (PStr (str_of (rf_fromTs f)))
      ([], ps)))))))"

definition legConds :: "ReportFilters \<Rightarrow> ShortcodeAcl \<Rightarrow> int \<Rightarrow> pval list \<Rightarrow> sql_cond list \<times> pval list" where
  "legConds f acl margin ps = then_build (acl_conds ''shortcode_id'' ''ts'' GTs) (filter_conds margin) (acl, f) ps"

definition buildWhere :: "ReportFilters \<Rightarrow> ShortcodeAcl \<Rightarrow> sql_cond \<times> pval list" where
  "buildWhere f acl = (let (conds, params) = legConds f acl 0 [] in (CAll conds, params))"

section \<open>What the predicates mean\<close>

definition in_range :: "pg \<Rightarrow> int \<Rightarrow> ReportFilters \<Rightarrow> sqlval \<Rightarrow> bool" where
  "in_range g margin f v \<longleftrightarrow>
     (truthy (rf_fromTs f) \<longrightarrow> (\<exists>t. v = VTs t \<and> pg_timestamptz g (str_of (rf_fromTs f)) - margin * 1000000 \<le> t))
     \<and> (truthy (rf_toTs f) \<longrightarrow> (\<exists>t. v = VTs t
          \<and> t < pg_day_start g (parse_date (str_of (rf_toTs f)) + 1) + margin * 1000000))"

definition error_matches :: "string option \<Rightarrow> sqlval \<Rightarrow> bool" where
  "error_matches ec v \<longleftrightarrow> (if ec = Some ''ok'' then v = VNull else if ec = Some ''error'' then v \<noteq> VNull
     else truthy ec \<and> ec \<noteq> Some ''any'' \<longrightarrow> v = VStr (str_of ec))"

definition filter_matches :: "pg \<Rightarrow> int \<Rightarrow> ReportFilters \<Rightarrow> row \<Rightarrow> bool" where
  "filter_matches g margin f r \<longleftrightarrow> in_range g margin f (r ''ts'')
     \<and> (truthy (rf_msisdn f) \<longrightarrow> r ''msisdn'' = VStr (str_of (rf_msisdn f)))
     \<and> (truthy (rf_sessionId f) \<longrightarrow> r ''session_id'' = VStr (str_of (rf_sessionId f)))
     \<and> (rf_operators f \<noteq> [] \<longrightarrow> (\<exists>o' \<in> set (rf_operators f). r ''operator_name'' = VStr o'))
     \<and> (rf_shortcodeIds f \<noteq> [] \<longrightarrow> (\<exists>i \<in> set (rf_shortcodeIds f). r ''shortcode_id'' = VInt i))
     \<and> error_matches (rf_errorClass f) (r ''error_class'')"

lemma holds_any_strs:
  "holds g (ps @ PStrs ss # post) r (CAny c (Suc (length ps))) \<longleftrightarrow> (\<exists>s \<in> set ss. r c = VStr s)"
  by (cases "r c") (auto simp: holds_def)

lemma holds_date_end:
  "holds g (ps @ PStr s # post) r (CCmp op c (EDateEnd (Suc (length ps)) k)) \<longleftrightarrow>
     (\<exists>t. r c = VTs t \<and> int_cmp op t (pg_day_start g (parse_date s + 1) + k * 1000000))"
  by (cases "r c") (simp_all add: holds_def)

lemma error_conds_prefix: "\<exists>ext. snd cp = ps @ ext \<Longrightarrow> \<exists>ext. snd (error_conds ec cp) = ps @ ext"
  unfolding error_conds_def by (simp add: push_cond_prefix)

lemma error_conds_step:
  assumes "\<And>post. holds g (snd cp @ post) r (CAll (fst cp)) \<longleftrightarrow> m"
  shows "holds g (snd (error_conds ec cp) @ post) r (CAll (fst (error_conds ec cp)))
    \<longleftrightarrow> m \<and> error_matches ec (r ''error_class'')"
proof -
  have p: "holds g (snd (push_cond b (\<lambda>n. CCmp OpEq ''error_class'' (EPar n)) (PStr s) cp) @ post) r
      (CAll (fst (push_cond b (\<lambda>n. CCmp OpEq ''error_class'' (EPar n)) (PStr s) cp)))
      \<longleftrightarrow> m \<and> (b \<longrightarrow> r ''error_class'' = VStr s)" for b s
    by (rule push_cond_step) (simp_all only: assms holds_str_eq)
  show ?thesis
    unfolding error_conds_def error_matches_def using assms [of post] p by auto
qed

interpretation filter_builder: cond_builder g "filter_conds margin" "filter_matches g margin" for g margin
proof (unfold_locales)
  fix f ps cs ps' post r
  assume b: "filter_conds margin f ps = (cs, ps')"
  then have e: "cs = fst (filter_conds margin f ps)" "ps' = snd (filter_conds margin f ps)" by simp_all
  show "\<exists>ext. ps' = ps @ ext"
    unfolding e filter_conds_def by (intro error_conds_prefix push_cond_prefix) simp
  have "holds g (ps' @ post) r (CAll cs) \<longleftrightarrow> ((((((True
      \<and> (truthy (rf_fromTs f) \<longrightarrow> (\<exists>t. r ''ts'' = VTs t
          \<and> int_cmp OpGe t (pg_timestamptz g (str_of (rf_fromTs f)) + (- margin) * 1000000))))
      \<and> (truthy (rf_toTs f) \<longrightarrow> (\<exists>t. r ''ts'' = VTs t
          \<and> int_cmp OpLt t (pg_day_start g (parse_date (str_of (rf_toTs f)) + 1) + margin * 1000000))))
      \<and> (truthy (rf_msisdn f) \<longrightarrow> r ''msisdn'' = VStr (str_of (rf_msisdn f))))
      \<and> (truthy (rf_sessionId f) \<longrightarrow> r ''session_id'' = VStr (str_of (rf_sessionId f))))
      \<and> (rf_operators f \<noteq> [] \<longrightarrow> (\<exists>o' \<in> set (rf_operators f). r ''operator_name'' = VStr o')))
      \<and> (rf_shortcodeIds f \<noteq> [] \<longrightarrow> (\<exists>i \<in> set (rf_shortcodeIds f). r ''shortcode_id'' = VInt i)))
      \<and> error_matches (rf_errorClass f) (r ''error_class'')"
    unfolding e filter_conds_def
    by (intro error_conds_step push_cond_step)
      (simp_all only: holds_any_ints holds_any_strs holds_str_eq holds_ts_cmp holds_date_end fst_conv snd_conv holds_no_cond)
  then show "holds g (ps' @ post) r (CAll cs) \<longleftrightarrow> filter_matches g margin f r"
    by (simp add: filter_matches_def in_range_def)
qed

interpretation leg_builder: cond_builder_pair g "acl_conds ''shortcode_id'' ''ts'' GTs"
  "acl_allows GTs ''shortcode_id'' ''ts''" "filter_conds margin" "filter_matches g margin" for g margin
  by unfold_locales

definition leg_allowed :: "ShortcodeAcl \<Rightarrow> leg_row \<Rightarrow> bool" where
  "leg_allowed acl l \<longleftrightarrow> acl_allows GTs ''shortcode_id'' ''ts'' acl (leg_sql l)"

definition leg_matches :: "pg \<Rightarrow> int \<Rightarrow> ReportFilters \<Rightarrow> leg_row \<Rightarrow> bool" where
  "leg_matches g margin f l \<longleftrightarrow> filter_matches g margin f (leg_sql l)"

lemma legConds_holds:
  assumes "legConds f acl margin ps = (cs, ps')"
  shows "holds g (ps' @ post) (leg_sql l) (CAll cs) \<longleftrightarrow> leg_allowed acl l \<and> leg_matches g margin f l"
  using leg_builder.seq.correct [OF assms [unfolded legConds_def]] by (simp add: leg_allowed_def leg_matches_def)

lemma legConds_extends: "legConds f acl margin ps = (cs, ps') \<Longrightarrow> \<exists>ext. ps' = ps @ ext"
  unfolding legConds_def by (rule leg_builder.seq.extends)

lemma buildWhere_holds:
  "holds g (snd (buildWhere f acl)) (leg_sql l) (fst (buildWhere f acl)) \<longleftrightarrow> leg_allowed acl l \<and> leg_matches g 0 f l"
  using legConds_holds [of f acl 0 "[]" _ _ g "[]" l] by (simp add: buildWhere_def split: prod.splits)

section \<open>Selecting sessions\<close>

definition selectsSessionsByLeg :: "ReportFilters \<Rightarrow> bool" where
  "selectsSessionsByLeg f \<longleftrightarrow> truthy (rf_msisdn f) \<or> truthy (rf_sessionId f) \<or> rf_shortcodeIds f \<noteq> []
     \<or> (truthy (rf_errorClass f) \<and> rf_errorClass f \<noteq> Some ''any'')"

definition SESSION_EDGE_PAD_SECS :: int where "SESSION_EDGE_PAD_SECS = 3600"

record session_where =
  sw_outer :: sql_cond
  sw_selected :: "sql_cond option"   \<comment> \<open>the sub-select of the semi-join on (session_id, operator_name)\<close>
  sw_params :: "pval list"

definition buildSessionWhere :: "ReportFilters \<Rightarrow> ShortcodeAcl \<Rightarrow> session_where" where
  "buildSessionWhere f acl =
    (if \<not> selectsSessionsByLeg f
     then (let (c, ps) = buildWhere f acl in \<lparr>sw_outer = c, sw_selected = None, sw_params = ps\<rparr>)
     else (let (selected, ps1) = legConds f acl 0 [];
               (outer, ps2) = legConds \<lparr>rf_fromTs = rf_fromTs f, rf_toTs = rf_toTs f, rf_msisdn = None,
                   rf_sessionId = None, rf_operators = rf_operators f, rf_shortcodeIds = [], rf_errorClass = None\<rparr>
                 acl SESSION_EDGE_PAD_SECS ps1
           in \<lparr>sw_outer = CAll outer, sw_selected = Some (CAll selected), sw_params = ps2\<rparr>))"

definition where_legs :: "pg \<Rightarrow> session_where \<Rightarrow> leg_row list \<Rightarrow> leg_row list" where
  \<comment> \<open>the legs a query over the clause ranges over\<close>
  "where_legs g w logs = filter (\<lambda>l. holds g (sw_params w) (leg_sql l) (sw_outer w)
     \<and> (case sw_selected w of None \<Rightarrow> True
        | Some c \<Rightarrow> list_ex (\<lambda>l'. session_key l' = session_key l \<and> holds g (sw_params w) (leg_sql l') c) logs)) logs"

definition shared_filters :: "ReportFilters \<Rightarrow> ReportFilters" where
  \<comment> \<open>what every leg of a session shares\<close>
  "shared_filters f = \<lparr>rf_fromTs = rf_fromTs f, rf_toTs = rf_toTs f, rf_msisdn = None, rf_sessionId = None,
     rf_operators = rf_operators f, rf_shortcodeIds = [], rf_errorClass = None\<rparr>"

definition session_selected :: "pg \<Rightarrow> ReportFilters \<Rightarrow> ShortcodeAcl \<Rightarrow> leg_row list \<Rightarrow> string \<times> string \<Rightarrow> bool" where
  \<comment> \<open>one of its legs that the caller may see matches the filters\<close>
  "session_selected g f acl logs k \<longleftrightarrow> (\<exists>l \<in> set logs. session_key l = k \<and> leg_allowed acl l \<and> leg_matches g 0 f l)"

lemma where_legs_by_leg:
  assumes "selectsSessionsByLeg f"
  shows "where_legs g (buildSessionWhere f acl) logs = filter (\<lambda>l. leg_allowed acl l
      \<and> leg_matches g SESSION_EDGE_PAD_SECS (shared_filters f) l \<and> session_selected g f acl logs (session_key l)) logs"
proof -
  obtain sel ps1 where s: "legConds f acl 0 [] = (sel, ps1)" by fastforce
  obtain out ps2 where o': "legConds (shared_filters f) acl SESSION_EDGE_PAD_SECS ps1 = (out, ps2)" by fastforce
  have w: "buildSessionWhere f acl = \<lparr>sw_outer = CAll out, sw_selected = Some (CAll sel), sw_params = ps2\<rparr>"
    using assms s o' by (simp add: buildSessionWhere_def shared_filters_def)
  obtain ext where e: "ps2 = ps1 @ ext" using legConds_extends [OF o'] by blast
  have "holds g ps2 (leg_sql l) (CAll sel) \<longleftrightarrow> leg_allowed acl l \<and> leg_matches g 0 f l" for l
    unfolding e by (rule legConds_holds [OF s])
  moreover have "holds g ps2 (leg_sql l) (CAll out) \<longleftrightarrow> leg_allowed acl l
      \<and> leg_matches g SESSION_EDGE_PAD_SECS (shared_filters f) l" for l
    using legConds_holds [OF o', of g "[]" l] by simp
  ultimately show ?thesis
    unfolding where_legs_def w by (auto simp: session_selected_def list_ex_iff intro!: filter_cong)
qed

lemma where_legs_plain:
  assumes "\<not> selectsSessionsByLeg f"
  shows "where_legs g (buildSessionWhere f acl) logs = filter (\<lambda>l. leg_allowed acl l \<and> leg_matches g 0 f l) logs"
proof -
  obtain c ps where b: "buildWhere f acl = (c, ps)" by fastforce
  have "holds g ps (leg_sql l) c \<longleftrightarrow> leg_allowed acl l \<and> leg_matches g 0 f l" for l
    using buildWhere_holds [of g f acl l] by (simp add: b)
  then show ?thesis using assms by (simp add: where_legs_def buildSessionWhere_def b)
qed

end
