(* ===== verification/Reports.thy ===== *)
theory Reports
  imports Legs Shortcodes
begin

text \<open>
  The queries of \<^verbatim>\<open>dashboard/src/lib/reports.ts\<close> over the traffic log: the leg table, the sessions
  table with its per-session aggregates, the billable totals, the drill-in on one session and the
  shortcode picker.  Durations are in microseconds; the code's \<open>float8\<close> arithmetic on them is exact
  here.  Where PostgreSQL may choose among legs of the same instant the model takes the earliest stored.
\<close>

section \<open>The leg table\<close>

definition MAX_PAGE_SIZE :: int where "MAX_PAGE_SIZE = 100"
definition COUNT_CAP :: nat where "COUNT_CAP = 10000"

record ReportRow =
  rr_leg :: leg_row
  rr_shortcode_code :: "string option"

definition shortcode_code :: "db \<Rightarrow> int option \<Rightarrow> string option \<Rightarrow> string option" where
  \<comment> \<open>LEFT JOIN shortcodes, COALESCE(s.code, service_code)\<close>
  "shortcode_code d sc service = (case sc of None \<Rightarrow> service
     | Some i \<Rightarrow> (case find_shortcode d i of None \<Rightarrow> service | Some s \<Rightarrow> Some (sc_code s)))"

record ReportPage =
  rp_rows :: "ReportRow list"
  rp_totalKnown :: nat
  rp_totalCapped :: bool

definition newest_legs :: "leg_row list \<Rightarrow> leg_row list" where
  \<comment> \<open>ORDER BY l.ts DESC, l.id DESC\<close>
  "newest_legs ls = sort_key (\<lambda>l. - l_ts l) (sort_key (\<lambda>l. - l_id l) ls)"

definition page_size :: "int \<Rightarrow> int" where "page_size pageSize = max 1 (min MAX_PAGE_SIZE pageSize)"

definition page_offset :: "int \<Rightarrow> int \<Rightarrow> int" where "page_offset page ps = max 0 ((page - 1) * ps)"

definition capped_count :: "nat \<Rightarrow> nat \<times> bool" where
  \<comment> \<open>COUNT over LIMIT COUNT_CAP + 1\<close>
  "capped_count n = (let raw = min n (COUNT_CAP + 1); capped = raw > COUNT_CAP
     in (if capped then COUNT_CAP else raw, capped))"

definition loadReportPage :: "pg \<Rightarrow> ReportFilters \<Rightarrow> ShortcodeAcl \<Rightarrow> int \<Rightarrow> int \<Rightarrow> db \<Rightarrow> leg_row list \<Rightarrow> ReportPage" where
  "loadReportPage g f acl page pageSize d logs =
    (let ps = page_size pageSize; offset = page_offset page ps;
         (c, params) = buildWhere f acl;
         matching = filter (\<lambda>l. holds g params (leg_sql l) c) logs;
         (known, capped) = capped_count (length matching)
     in \<lparr>rp_rows = map (\<lambda>l. \<lparr>rr_leg = l, rr_shortcode_code = shortcode_code d (l_shortcode_id l) (l_service_code l)\<rparr>)
           (page_of (nat ps) (nat offset) (newest_legs matching)),
         rp_totalKnown = known, rp_totalCapped = capped\<rparr>)"

section \<open>Sessions\<close>

definition ceil_div :: "int \<Rightarrow> int \<Rightarrow> int" where
  "ceil_div a b = - ((- a) div b)"

definition billable :: "int \<Rightarrow> int \<Rightarrow> int" where
  \<comment> \<open>GREATEST(1, CEIL(CEIL(seconds) / window)), of microseconds\<close>
  "billable window us = max 1 (ceil_div (ceil_div us 1000000) window)"

definition operator_window :: "db \<Rightarrow> string \<Rightarrow> int option" where
  \<comment> \<open>LEFT JOIN operators o ON o.name = ...\<close>
  "operator_window d name = (case List.find (\<lambda>o'. op_name o' = name) (operators d) of None \<Rightarrow> None
     | Some o' \<Rightarrow> op_window o')"

record SessionRow =
  sn_session_id :: string
  sn_operator_name :: string
  sn_shortcode_code :: "string option"
  sn_msisdn :: "string option"
  sn_first_ts :: int
  sn_last_ts :: int
  sn_duration :: int
  sn_leg_count :: nat
  sn_final_action :: "string option"
  sn_final_error_class :: "string option"
  sn_final_ussd_string :: "string option"
  sn_final_response_text :: "string option"
  sn_window :: "int option"
  sn_billable_units :: "int option"

definition group_of :: "string \<times> string \<Rightarrow> leg_row list \<Rightarrow> leg_row list" where
  "group_of k ls = filter (\<lambda>l. session_key l = k) ls"

definition latest_first :: "leg_row list \<Rightarrow> leg_row list" where
  "latest_first ls = sort_key (\<lambda>l. - l_ts l) ls"

definition duration_us :: "leg_row list \<Rightarrow> int" where
  "duration_us ls = Max (l_ts ` set ls) - Min (l_ts ` set ls)"

definition first_some :: "('a \<Rightarrow> 'b option) \<Rightarrow> 'a list \<Rightarrow> 'b option" where
  \<comment> \<open>FIRST_VALUE(x) OVER (ORDER BY (x IS NULL), ...)\<close>
  "first_some f xs = (case filter (\<lambda>x. f x \<noteq> None) xs of [] \<Rightarrow> None | x # _ \<Rightarrow> f x)"

definition session_row :: "db \<Rightarrow> string \<times> string \<Rightarrow> leg_row list \<Rightarrow> SessionRow" where
  \<comment> \<open>one session, of its (non-empty) legs\<close>
  "session_row d k ls =
    (let late = latest_first ls; fin = hd late; us = duration_us ls; win = operator_window d (snd k)
     in \<lparr>sn_session_id = fst k, sn_operator_name = snd k,
         sn_shortcode_code = shortcode_code d (first_some l_shortcode_id late) (l_service_code fin),
         sn_msisdn = first_some l_msisdn late,
         sn_first_ts = Min (l_ts ` set ls), sn_last_ts = Max (l_ts ` set ls), sn_duration = us,
         sn_leg_count = length ls, sn_final_action = l_action fin, sn_final_error_class = l_error_class fin,
         sn_final_ussd_string = l_ussd_string fin, sn_final_response_text = l_response_text fin,
         sn_window = win, sn_billable_units = map_option (\<lambda>w. billable w us) win\<rparr>)"

definition session_keys :: "leg_row list \<Rightarrow> (string \<times> string) list" where
  "session_keys ls = remdups (map session_key ls)"

definition session_rows :: "db \<Rightarrow> leg_row list \<Rightarrow> SessionRow list" where
  "session_rows d ls = map (\<lambda>k. session_row d k (group_of k ls)) (session_keys ls)"

definition by_last_ts :: "(string \<Rightarrow> string \<Rightarrow> bool) \<Rightarrow> SessionRow \<Rightarrow> SessionRow \<Rightarrow> bool" where
  \<comment> \<open>ORDER BY last_ts DESC, session_id DESC under a collation\<close>
  "by_last_ts le a b \<longleftrightarrow> (if sn_last_ts a = sn_last_ts b then le (sn_session_id b) (sn_session_id a)
     else sn_last_ts b < sn_last_ts a)"

section \<open>The nightly rollup\<close>

record rollup_row =
  ru_date :: int
  ru_operator_id :: int
  ru_shortcode_id :: int     \<comment> \<open>0: legs no shortcode was found for\<close>
  ru_sessions :: int
  ru_legs :: int
  ru_errors :: int
  ru_billable_units :: int

definition rollup_sql :: "db \<Rightarrow> rollup_row \<Rightarrow> row" where
  \<comment> \<open>the last column is the name under the operator id, which the sub-select on names compares\<close>
  "rollup_sql d r c = (if c = ''d.date'' then VDate (ru_date r)
     else if c = ''d.shortcode_id'' then VInt (ru_shortcode_id r)
     else if c = ''d.operator_id'' then opt_str (map_option op_name (find_operator d (ru_operator_id r))) else VNull)"

fun str_le :: "string \<Rightarrow> string \<Rightarrow> bool" where
  \<comment> \<open>\<open>a <= b\<close> on strings\<close>
  "str_le [] b = True"
| "str_le (x # a) [] = False"
| "str_le (x # a) (y # b) = (if x = y then str_le a b else (of_char x :: nat) < of_char y)"

definition rollup_conds :: "ReportFilters \<Rightarrow> pval list \<Rightarrow> sql_cond list \<times> pval list" where
  "rollup_conds f ps =
    push_cond (rf_operators f \<noteq> []) (CAny ''d.operator_id'') (PStrs (rf_operators f))
    (push_cond True (\<lambda>n. CCmp OpLe ''d.date'' (EDate n)) (PStr (str_of (rf_toTs f)))
    (push_cond True (\<lambda>n. CCmp OpGe ''d.date'' (EDate n)) (PStr (str_of (rf_fromTs f))) ([], ps)))"

definition tryRollupBoundedCount :: "pg \<Rightarrow> string \<Rightarrow> ReportFilters \<Rightarrow> ShortcodeAcl \<Rightarrow> db \<Rightarrow> rollup_row list option
    \<Rightarrow> int option" where
  \<comment> \<open>\<open>today\<close> is the UTC date; the rollup is \<open>None\<close> when its query fails\<close>
  "tryRollupBoundedCount g today f acl d rollup =
    (if truthy (rf_msisdn f) \<or> truthy (rf_sessionId f)
        \<or> (truthy (rf_errorClass f) \<and> rf_errorClass f \<noteq> Some ''any'')
        \<or> \<not> truthy (rf_fromTs f) \<or> \<not> truthy (rf_toTs f) then None
     else if str_le today (str_of (rf_toTs f)) then None
     else if aclDeniesAll acl then Some 0
     else (let scFilter = aclIntersect acl (rf_shortcodeIds f) in
       if scFilter = Some [] then Some 0
       else (let (conds, params) = then_build rollup_conds (acl_conds ''d.shortcode_id'' ''d.date'' GDate) (f, scFilter) []
         in map_option (\<lambda>rows. sum_list (map ru_sessions
              (filter (\<lambda>r. holds g params (rollup_sql d r) (CAll conds)) rows))) rollup)))"

record SessionPage =
  sp_rows :: "SessionRow list"
  sp_totalKnown :: int
  sp_totalCapped :: bool

definition loadSessionPage :: "pg \<Rightarrow> (string \<Rightarrow> string \<Rightarrow> bool) \<Rightarrow> string \<Rightarrow> ReportFilters \<Rightarrow> ShortcodeAcl \<Rightarrow> int \<Rightarrow> int
    \<Rightarrow> db \<Rightarrow> rollup_row list option \<Rightarrow> leg_row list \<Rightarrow> SessionPage" where
  "loadSessionPage g le today f acl page pageSize d rollup logs =
    (let ps = page_size pageSize; offset = page_offset page ps;
         (c, params) = buildWhere f acl; sessionWhere = buildSessionWhere f acl;
         (known, capped) = (case tryRollupBoundedCount g today f acl d rollup of
             Some n \<Rightarrow> (let cap = n > int COUNT_CAP in (if cap then int COUNT_CAP else n, cap))
           | None \<Rightarrow> (let (k, cap) = capped_count (length (session_keys
                  (filter (\<lambda>l. holds g params (leg_sql l) c) logs))) in (int k, cap)))
     in \<lparr>sp_rows = page_of (nat ps) (nat offset) (sort_by (by_last_ts le)
           (session_rows d (where_legs g sessionWhere logs))),
         sp_totalKnown = known, sp_totalCapped = capped\<rparr>)"

section \<open>Billable totals\<close>

record OperatorSummary =
  os_operator_name :: string
  os_window_secs :: "int option"
  os_sessions :: nat
  os_billable_units :: "int option"

record BillableSummary =
  bs_per_operator :: "OperatorSummary list"
  bs_total :: int

definition summary_secs :: "leg_row list \<Rightarrow> string \<times> string \<Rightarrow> int" where
  \<comment> \<open>per_session.duration_secs\<close>
  "summary_secs ls k = ceil_div (duration_us (group_of k ls)) 1000000"

definition operator_summary :: "db \<Rightarrow> leg_row list \<Rightarrow> string \<Rightarrow> OperatorSummary" where
  \<comment> \<open>one row of per_op\<close>
  "operator_summary d ls name =
    (let ks = filter (\<lambda>k. snd k = name) (session_keys ls); win = operator_window d name
     in \<lparr>os_operator_name = name, os_window_secs = win, os_sessions = length ks,
         os_billable_units = map_option (\<lambda>w. sum_list (map (\<lambda>k. max 1 (ceil_div (summary_secs ls k) w)) ks)) win\<rparr>)"

definition known_operator :: "db \<Rightarrow> string \<Rightarrow> bool" where
  "known_operator d name \<longleftrightarrow> list_ex (\<lambda>o'. op_name o' = name) (operators d)"

definition loadBillableSummary :: "pg \<Rightarrow> (string \<Rightarrow> string \<Rightarrow> bool) \<Rightarrow> ReportFilters \<Rightarrow> ShortcodeAcl \<Rightarrow> db
    \<Rightarrow> leg_row list \<Rightarrow> BillableSummary" where
  "loadBillableSummary g le f acl d logs =
    (let ls = where_legs g (buildSessionWhere f acl) logs;
         per = map (operator_summary d ls) (sort_by le (remdups (filter (known_operator d) (map snd (session_keys ls)))))
     in \<lparr>bs_per_operator = per,
         bs_total = foldl (\<lambda>acc o'. acc + (case os_billable_units o' of Some u \<Rightarrow> u | None \<Rightarrow> int (os_sessions o'))) 0 per\<rparr>)"

section \<open>One session, and the picker\<close>

definition drill_conds :: "string \<Rightarrow> string \<Rightarrow> string option \<Rightarrow> string option \<Rightarrow> ShortcodeAcl \<Rightarrow> sql_cond list \<times> pval list" where
  \<comment> \<open>\<open>$1\<close> and \<open>$2\<close> are the session and the operator\<close>
  "drill_conds sid oper firstTs lastTs acl =
    (let (c1, p1) = acl_conds ''shortcode_id'' ''ts'' GTs acl [PStr sid, PStr oper]
     in push_cond (truthy lastTs) (\<lambda>n. CCmp OpLe ''ts'' (ETimestamptz n 300)) (PStr (str_of lastTs))
       (push_cond (truthy firstTs) (\<lambda>n. CCmp OpGe ''ts'' (ETimestamptz n (- 300))) (PStr (str_of firstTs))
         ([CCmp OpEq ''session_id'' (EPar 1), CCmp OpEq ''operator_name'' (EPar 2)] @ c1, p1)))"

definition loadLegsForSession :: "pg \<Rightarrow> string \<Rightarrow> string \<Rightarrow> ShortcodeAcl \<Rightarrow> string option \<Rightarrow> string option
    \<Rightarrow> leg_row list \<Rightarrow> leg_row list" where
  "loadLegsForSession g sid oper acl firstTs lastTs logs =
    (if acl \<noteq> None \<and> aclDeniesAll acl then []
     else (let (conds, params) = drill_conds sid oper firstTs lastTs acl
       in take 200 (sort_key l_ts (filter (\<lambda>l. holds g params (leg_sql l) (CAll conds)) logs))))"

record ShortcodeOption =
  so_id :: int
  so_operator_name :: string
  so_code :: string
  so_label :: "ustr option"

definition loadShortcodeOptions :: "(string \<Rightarrow> string \<Rightarrow> bool) \<Rightarrow> ShortcodeAcl \<Rightarrow> db \<Rightarrow> ShortcodeOption list" where
  "loadShortcodeOptions le acl d =
    (if aclDeniesAll acl then []
     else (let ids = aclIds acl in
       sort_by (\<lambda>a b. if so_operator_name a = so_operator_name b then le (so_code a) (so_code b)
           else le (so_operator_name a) (so_operator_name b))
         (List.map_filter (\<lambda>s. map_option (\<lambda>o'. \<lparr>so_id = sc_id s, so_operator_name = op_name o', so_code = sc_code s,
              so_label = sc_label s\<rparr>) (find_operator d (sc_operator_id s)))
           (filter (\<lambda>s. case ids of None \<Rightarrow> True | Some is \<Rightarrow> sc_id s \<in> set is) (shortcodes d)))))"

end
