(* ===== verification/Reporting.thy ===== *)
theory Reporting
  imports Reports
begin

text \<open>
  What the report queries promise: pages that show exactly the rows the caller may see, session
  aggregates that do not depend on which leg matched, and billing units that are the least number of
  windows covering a session, in the rows and in the totals alike.
\<close>

section \<open>The leg table\<close>

definition visible_legs :: "pg \<Rightarrow> ReportFilters \<Rightarrow> ShortcodeAcl \<Rightarrow> leg_row list \<Rightarrow> leg_row list" where
  \<comment> \<open>the legs the caller may see and the filters admit, newest first\<close>
  "visible_legs g f acl logs = newest_legs (filter (\<lambda>l. leg_allowed acl l \<and> leg_matches g 0 f l) logs)"

lemma newest_legs_set [simp]: "set (newest_legs ls) = set ls"
  and newest_legs_length [simp]: "length (newest_legs ls) = length ls"
  by (simp_all add: newest_legs_def)

lemma report_where_rows:
  assumes "buildWhere f acl = (c, params)"
  shows "filter (\<lambda>l. holds g params (leg_sql l) c) logs = filter (\<lambda>l. leg_allowed acl l \<and> leg_matches g 0 f l) logs"
  using buildWhere_holds [of g f acl] by (simp add: assms)

lemma loaded_rows:
  assumes "0 < k" "k \<le> MAX_PAGE_SIZE" "1 \<le> p"
  shows "map rr_leg (rp_rows (loadReportPage g f acl p k d logs)) = page_of (nat k) (nat (p - 1) * nat k) (visible_legs g f acl logs)"
proof -
  obtain c params where b: "buildWhere f acl = (c, params)" by fastforce
  have k: "page_size k = k" using assms by (simp add: page_size_def)
  have off: "nat (page_offset p k) = nat (p - 1) * nat k"
    using assms by (simp add: page_offset_def nat_mult_distrib)
  show ?thesis
    unfolding loadReportPage_def Let_def b prod.case k off report_where_rows [OF b] visible_legs_def
    by (simp add: comp_def split: prod.splits)
qed

lemma loaded_count:
  "rp_totalKnown (loadReportPage g f acl p k d logs) = min COUNT_CAP (length (visible_legs g f acl logs))"
  "rp_totalCapped (loadReportPage g f acl p k d logs) \<longleftrightarrow> length (visible_legs g f acl logs) > COUNT_CAP"
proof -
  obtain c params where b: "buildWhere f acl = (c, params)" by fastforce
  have cnt: "capped_count m = (min COUNT_CAP m, m > COUNT_CAP)" for m
    by (auto simp: capped_count_def Let_def min_def)
  show "rp_totalKnown (loadReportPage g f acl p k d logs) = min COUNT_CAP (length (visible_legs g f acl logs))"
    "rp_totalCapped (loadReportPage g f acl p k d logs) \<longleftrightarrow> length (visible_legs g f acl logs) > COUNT_CAP"
    unfolding loadReportPage_def Let_def b prod.case report_where_rows [OF b] visible_legs_def
    by (simp_all add: cnt)
qed

text \<open>
  Turning the pages of the leg table shows every leg the caller may see and the filters admit
  exactly once, newest first, and no other; the total is exact up to the cap of 10,000 and says so when
  it is capped.
\<close>

theorem report_pages_complete:
  assumes "0 < k" "k \<le> MAX_PAGE_SIZE"
  shows "concat (map (\<lambda>p. map rr_leg (rp_rows (loadReportPage g f acl (int p + 1) k d logs))) [0..<n])
      = take (n * nat k) (visible_legs g f acl logs)
    \<and> rp_totalKnown (loadReportPage g f acl q k d logs) = min COUNT_CAP (length (visible_legs g f acl logs))
    \<and> (rp_totalCapped (loadReportPage g f acl q k d logs) \<longleftrightarrow> length (visible_legs g f acl logs) > COUNT_CAP)"
proof -
  have "map rr_leg (rp_rows (loadReportPage g f acl (int p + 1) k d logs)) = page_of (nat k) (p * nat k) (visible_legs g f acl logs)" for p
    using loaded_rows [OF assms, of "int p + 1"] by simp
  then show ?thesis by (simp only: loaded_count concat_pages)
qed

definition no_filters :: ReportFilters where
  "no_filters = \<lparr>rf_fromTs = None, rf_toTs = None, rf_msisdn = None, rf_sessionId = None, rf_operators = [],
     rf_shortcodeIds = [], rf_errorClass = None\<rparr>"

definition sample_leg :: "int \<Rightarrow> int \<Rightarrow> int \<Rightarrow> leg_row" where
  "sample_leg i t sc = \<lparr>l_id = i, l_ts = t, l_operator_name = ''vodacom'', l_shortcode_id = Some sc,
     l_service_code = None, l_msisdn = Some ''255'', l_session_id = ''s'', l_direction = ''inbound'',
     l_action = Some ''continue'', l_response_text = None, l_ussd_string = None, l_error_class = None,
     l_elapsed_ms = None\<rparr>"

lemma no_filters_match [simp]: "leg_matches g m no_filters l"
  by (simp add: leg_matches_def filter_matches_def in_range_def error_matches_def no_filters_def truthy_def)

theorem report_pages_complete_witness:
  "concat (map (\<lambda>p. map rr_leg (rp_rows (loadReportPage sample_pg no_filters (Some [\<lparr>g_id = 5, g_from = 1\<rparr>]) (int p + 1) 1
     sample_db [sample_leg 1 0 5, sample_leg 2 2000000 5, sample_leg 3 2000000 6]))) [0..<2]) = [sample_leg 2 2000000 5]"
proof -
  have "visible_legs sample_pg no_filters (Some [\<lparr>g_id = 5, g_from = 1\<rparr>])
      [sample_leg 1 0 5, sample_leg 2 2000000 5, sample_leg 3 2000000 6] = [sample_leg 2 2000000 5]"
    by (simp add: visible_legs_def leg_allowed_def acl_allows_def leg_sql_def sample_leg_def floor_ok_def newest_legs_def)
  then show ?thesis
    using report_pages_complete [of 1 sample_pg no_filters "Some [\<lparr>g_id = 5, g_from = 1\<rparr>]" sample_db
        "[sample_leg 1 0 5, sample_leg 2 2000000 5, sample_leg 3 2000000 6]" 2]
    by (simp add: MAX_PAGE_SIZE_def)
qed

section \<open>Sessions\<close>

lemma in_range_wider:
  assumes "in_range g 0 f v" "0 \<le> m"
  shows "in_range g m f v"
  using assms unfolding in_range_def by fastforce

lemma matches_shared:
  "leg_matches g 0 f l \<Longrightarrow> 0 \<le> m \<Longrightarrow> leg_matches g m (shared_filters f) l"
  using in_range_wider [of g f "leg_sql l ''ts''" m]
  by (simp add: leg_matches_def filter_matches_def shared_filters_def in_range_def error_matches_def truthy_def)

text \<open>
  C15. The filters choose sessions, not legs of sessions: with a leg-level filter the sessions page shows
  exactly the sessions one of whose visible legs matches, and each is aggregated over all its legs that
  the caller may see within the date range widened by an hour, whichever of them matched.
\<close>

theorem session_aggregates_whole:
  assumes "selectsSessionsByLeg f"
  shows "(k \<in> set (session_keys (where_legs g (buildSessionWhere f acl) logs)) \<longleftrightarrow> session_selected g f acl logs k)
    \<and> (session_selected g f acl logs k \<longrightarrow> group_of k (where_legs g (buildSessionWhere f acl) logs)
        = filter (\<lambda>l. session_key l = k \<and> leg_allowed acl l
            \<and> leg_matches g SESSION_EDGE_PAD_SECS (shared_filters f) l) logs)"
proof -
  have "l \<in> set (where_legs g (buildSessionWhere f acl) logs)"
    if "l \<in> set logs" "leg_allowed acl l" "leg_matches g 0 f l" for l
    using that matches_shared [of g f l SESSION_EDGE_PAD_SECS]
    by (auto simp: where_legs_by_leg [OF assms] session_selected_def SESSION_EDGE_PAD_SECS_def)
  then have "session_selected g f acl logs k \<Longrightarrow> k \<in> set (session_keys (where_legs g (buildSessionWhere f acl) logs))"
    by (force simp: session_selected_def session_keys_def)
  moreover have "k \<in> set (session_keys (where_legs g (buildSessionWhere f acl) logs)) \<Longrightarrow> session_selected g f acl logs k"
    by (auto simp: session_keys_def where_legs_by_leg [OF assms])
  moreover have "session_selected g f acl logs k \<Longrightarrow> group_of k (where_legs g (buildSessionWhere f acl) logs)
        = filter (\<lambda>l. session_key l = k \<and> leg_allowed acl l
            \<and> leg_matches g SESSION_EDGE_PAD_SECS (shared_filters f) l) logs"
    unfolding where_legs_by_leg [OF assms] group_of_def filter_filter by (rule filter_cong) auto
  ultimately show ?thesis by blast
qed

definition failing :: ReportFilters where
  "failing = no_filters\<lparr>rf_errorClass := Some ''error''\<rparr>"

theorem session_aggregates_whole_witness:
  "group_of (''s'', ''vodacom'') (where_legs sample_pg (buildSessionWhere failing None)
     [sample_leg 1 0 5, (sample_leg 2 66000000 5)\<lparr>l_error_class := Some ''timeout''\<rparr>])
   = [sample_leg 1 0 5, (sample_leg 2 66000000 5)\<lparr>l_error_class := Some ''timeout''\<rparr>]"
proof -
  let ?logs = "[sample_leg 1 0 5, (sample_leg 2 66000000 5)\<lparr>l_error_class := Some ''timeout''\<rparr>]"
  have by_leg: "selectsSessionsByLeg failing" by (simp add: selectsSessionsByLeg_def failing_def no_filters_def truthy_def)
  have "session_selected sample_pg failing None ?logs (''s'', ''vodacom'')"
    by (simp add: session_selected_def session_key_def sample_leg_def leg_allowed_def acl_allows_def leg_matches_def
        filter_matches_def in_range_def error_matches_def failing_def no_filters_def truthy_def leg_sql_def opt_str_def)
  moreover have "shared_filters failing = no_filters" by (simp add: shared_filters_def failing_def no_filters_def)
  ultimately show ?thesis
    using session_aggregates_whole [OF by_leg, of "(''s'', ''vodacom'')" sample_pg None ?logs]
    by (simp add: session_key_def sample_leg_def leg_allowed_def acl_allows_def)
qed

section \<open>Billing\<close>

lemma le_div_iff: "0 < b \<Longrightarrow> n \<le> a div b \<longleftrightarrow> n * b \<le> (a::int)"
proof
  assume b: "0 < b"
  show "n * b \<le> a" if "n \<le> a div b"
  proof -
    have "n * b \<le> a div b * b" using that b by simp
    also have "\<dots> \<le> a" using b by (simp add: minus_mod_eq_div_mult [symmetric])
    finally show ?thesis .
  qed
  show "n \<le> a div b" if "n * b \<le> a"
    using zdiv_mono1 [OF that b] b by simp
qed

lemma ceil_div_least: "0 < b \<Longrightarrow> ceil_div a b \<le> n \<longleftrightarrow> a \<le> n * b"
proof -
  assume b: "0 < b"
  have "ceil_div a b \<le> n \<longleftrightarrow> - n \<le> (- a) div b" by (auto simp: ceil_div_def)
  also have "\<dots> \<longleftrightarrow> (- n) * b \<le> - a" using b by (rule le_div_iff)
  also have "\<dots> \<longleftrightarrow> a \<le> n * b" by simp
  finally show ?thesis .
qed

lemma ceil_div_twice: "0 < b \<Longrightarrow> 0 < c \<Longrightarrow> ceil_div (ceil_div a b) c = ceil_div a (b * c)"
proof (rule antisym)
  assume "0 < b" "0 < c"
  have a: "x \<le> ceil_div x b' * b'" if "0 < b'" for x b' using ceil_div_least [OF that, of x "ceil_div x b'"] by simp
  show "ceil_div (ceil_div a b) c \<le> ceil_div a (b * c)"
    using a [of "b * c" a] \<open>0 < b\<close> \<open>0 < c\<close> by (simp add: ceil_div_least mult_ac)
  have "a \<le> ceil_div (ceil_div a b) c * c * b"
    using \<open>0 < b\<close> a [OF \<open>0 < c\<close>, of "ceil_div a b"] ceil_div_least [of b a "ceil_div (ceil_div a b) c * c"] by simp
  then show "ceil_div a (b * c) \<le> ceil_div (ceil_div a b) c"
    using \<open>0 < b\<close> \<open>0 < c\<close> by (simp add: ceil_div_least mult_ac)
qed

text \<open>
  The units billed for a session are the least number of windows, at least one, whose time covers the
  session: rounding the duration up to whole seconds first changes nothing, a session that spills a
  fraction of a second over a boundary is billed the next window, and none is billed a window it did
  not touch.
\<close>

theorem billable_units_least:
  assumes "operator_window d (snd k) = Some w" "0 < w"
  shows "\<exists>u. sn_billable_units (session_row d k ls) = Some u \<and> u = billable w (duration_us ls)
    \<and> (\<forall>n. u \<le> n \<longleftrightarrow> 1 \<le> n \<and> duration_us ls \<le> n * w * 1000000)"
proof -
  have "billable w us \<le> n \<longleftrightarrow> 1 \<le> n \<and> us \<le> n * w * 1000000" for us n
    using assms(2) ceil_div_twice [of 1000000 w us] ceil_div_least [of "1000000 * w" us n]
    by (auto simp: billable_def mult_ac)
  then show ?thesis using assms(1) by (simp add: session_row_def Let_def)
qed

definition windowed_db :: db where
  "windowed_db = sample_db\<lparr>operators := [\<lparr>op_id = 1, op_name = ''vodacom'', op_display_name = ''Vodacom'',
     op_active = True, op_window = Some 20, op_created_at = 0\<rparr>]\<rparr>"

theorem billable_units_least_witness:
  "sn_billable_units (session_row windowed_db (''s'', ''vodacom'') [sample_leg 1 0 5, sample_leg 2 20200000 5]) = Some 2"
proof -
  have w: "operator_window windowed_db (snd (''s'', ''vodacom'')) = Some 20"
    by (simp add: operator_window_def windowed_db_def)
  have d: "duration_us [sample_leg 1 0 5, sample_leg 2 20200000 5] = 20200000"
    by (simp add: duration_us_def sample_leg_def)
  obtain u where u: "sn_billable_units (session_row windowed_db (''s'', ''vodacom'') [sample_leg 1 0 5, sample_leg 2 20200000 5]) = Some u"
    and n: "\<And>n. u \<le> n \<longleftrightarrow> 1 \<le> n \<and> (20200000::int) \<le> n * 20 * 1000000"
    using billable_units_least [OF w, of "[sample_leg 1 0 5, sample_leg 2 20200000 5]"] unfolding d by auto
  have "u \<le> 2" "\<not> u \<le> 1" using n [of 2] n [of 1] by simp_all
  then show ?thesis using u by simp
qed

lemma foldl_sum: "foldl (\<lambda>acc x. acc + h x) (a::int) xs = a + sum_list (map h xs)"
  by (induction xs arbitrary: a) auto

lemma set_sort_by_sum:
  "sum_list (map h (sort_by le xs)) = sum_list (map (h :: 'a \<Rightarrow> int) xs)"
proof -
  have ins: "sum_list (map h (insert_by le x ys)) = h x + sum_list (map h ys)" for x ys
    by (induction ys) auto
  show ?thesis by (induction xs) (simp_all add: sort_by_def ins)
qed

lemma sum_by_group:
  "sum_list (map (\<lambda>n. sum_list (map h (filter (\<lambda>k. s k = n) ks))) (remdups (filter P (map s ks))))
     = sum_list (map (h :: 'k \<Rightarrow> int) (filter (\<lambda>k. P (s k)) ks))"
proof -
  let ?N = "set (filter P (map s ks))"
  have "sum_list (map h (filter (\<lambda>k. P (s k)) ks)) = sum_list (map (\<lambda>k. \<Sum>n \<in> ?N. if s k = n then h k else 0)
      (filter (\<lambda>k. P (s k)) ks))"
    by (rule arg_cong [of _ _ sum_list], rule map_cong [OF refl]) (auto simp: sum.delta)
  also have "\<dots> = (\<Sum>n \<in> ?N. sum_list (map (\<lambda>k. if s k = n then h k else 0) (filter (\<lambda>k. P (s k)) ks)))"
  proof -
    have "sum_list (map (\<lambda>k. \<Sum>n \<in> N. q k n) zs) = (\<Sum>n \<in> N. sum_list (map (\<lambda>k. q k n) zs))"
      for N and q :: "'k \<Rightarrow> 'b \<Rightarrow> int" and zs by (induction zs) (auto simp: sum.distrib)
    then show ?thesis .
  qed
  also have "\<dots> = (\<Sum>n \<in> ?N. sum_list (map h (filter (\<lambda>k. s k = n) ks)))"
  proof (rule sum.cong [OF refl])
    fix n assume "n \<in> ?N"
    then have "P n" by auto
    have "sum_list (map (\<lambda>k. if s k = n then h k else 0) (filter (\<lambda>k. P (s k)) zs))
        = sum_list (map h (filter (\<lambda>k. s k = n) zs))" for zs
      using \<open>P n\<close> by (induction zs) auto
    then show "sum_list (map (\<lambda>k. if s k = n then h k else 0) (filter (\<lambda>k. P (s k)) ks))
        = sum_list (map h (filter (\<lambda>k. s k = n) ks))" .
  qed
  finally show ?thesis by (simp add: sum_list_distinct_conv_sum_set)
qed

definition row_units :: "SessionRow \<Rightarrow> int" where
  \<comment> \<open>what a session row counts for: its units, or one session where the operator bills per session\<close>
  "row_units r = (case sn_billable_units r of None \<Rightarrow> 1 | Some u \<Rightarrow> u)"

text \<open>
  The totals are the sum of the rows: the grand total of the billable summary is what the session
  rows under the same filters and allowlist add up to, a session of an operator without a billing
  window counting as one (sessions of operators that do not exist count in neither).
\<close>

theorem summary_matches_rows:
  "bs_total (loadBillableSummary g le f acl d logs)
     = sum_list (map row_units (filter (\<lambda>r. known_operator d (sn_operator_name r))
         (session_rows d (where_legs g (buildSessionWhere f acl) logs))))"
proof -
  let ?ls = "where_legs g (buildSessionWhere f acl) logs"
  let ?u = "\<lambda>k. row_units (session_row d k (group_of k ?ls))"
  have key: "(case os_billable_units (operator_summary d ?ls n) of Some u \<Rightarrow> u
      | None \<Rightarrow> int (os_sessions (operator_summary d ?ls n)))
      = sum_list (map ?u (filter (\<lambda>k. snd k = n) (session_keys ?ls)))" for n
  proof (cases "operator_window d n")
    case None
    have "sum_list (map ?u ks) = int (length ks)" if "\<forall>k \<in> set ks. snd k = n" for ks
      using that None by (induction ks) (auto simp: row_units_def session_row_def Let_def)
    then show ?thesis by (simp add: operator_summary_def None Let_def)
  next
    case (Some w)
    have "sum_list (map ?u ks) = sum_list (map (\<lambda>k. max 1 (ceil_div (summary_secs ?ls k) w)) ks)"
      if "\<forall>k \<in> set ks. snd k = n" for ks
      using that Some by (induction ks) (auto simp: row_units_def session_row_def Let_def summary_secs_def billable_def)
    then show ?thesis by (simp add: operator_summary_def Some Let_def)
  qed
  have rows: "filter (\<lambda>r. known_operator d (sn_operator_name r)) (session_rows d ?ls)
      = map (\<lambda>k. session_row d k (group_of k ?ls)) (filter (\<lambda>k. known_operator d (snd k)) (session_keys ?ls))"
    by (simp add: session_rows_def filter_map comp_def session_row_def Let_def)
  have "bs_total (loadBillableSummary g le f acl d logs) = sum_list (map (\<lambda>n. sum_list (map ?u
      (filter (\<lambda>k. snd k = n) (session_keys ?ls)))) (remdups (filter (known_operator d) (map snd (session_keys ?ls)))))"
    by (simp add: loadBillableSummary_def Let_def foldl_sum set_sort_by_sum key comp_def)
  also have "\<dots> = sum_list (map ?u (filter (\<lambda>k. known_operator d (snd k)) (session_keys ?ls)))"
    by (rule sum_by_group)
  finally show ?thesis by (simp add: rows comp_def)
qed

end
