(* ===== verification/Export_Query.thy ===== *)
theory Export_Query
  imports Reporting Http
begin

text \<open>
  The part of \<^verbatim>\<open>dashboard/worker/exports_worker.mjs\<close> that turns one job into one CSV: the stored
  filters as a WHERE clause, the queries of the two granularities, and the loop that pages through them.
  What a chunk's query sees may change from one chunk to the next; \<open>job_world\<close> is that environment.
\<close>

section \<open>The WHERE clause\<close>

definition aligned_grants :: "int list \<Rightarrow> int list \<Rightarrow> ShortcodeGrant list" where
  \<comment> \<open>\<open>allow.forEach((id, i) => { const f = Number(from[i]) || 0; ... })\<close>\<close>
  "aligned_grants allow from = map (\<lambda>i. \<lparr>g_id = allow ! i, g_from = (if i < length from then from ! i else 0)\<rparr>)
     [0..<length allow]"

definition worker_acl :: "export_filters \<Rightarrow> pval list \<Rightarrow> sql_cond list \<times> pval list" where
  "worker_acl f ps = (case xf_allowedShortcodeIds f of None \<Rightarrow> ([], ps)
     | Some allow \<Rightarrow> (if length allow = 0 then ([CFalse], ps)
         else (let from = (case xf_allowedShortcodeFrom f of None \<Rightarrow> [] | Some fs \<Rightarrow> fs);
                   byFrom = foldl byFrom_add [] (aligned_grants allow from);
                   (branches, ps') = acl_branches ''shortcode_id'' ''ts'' GTs byFrom ps
               in ([if length branches = 1 then hd branches else CEx branches], ps'))))"

definition worker_buildWhere :: "export_filters \<Rightarrow> sql_cond \<times> pval list" where
  "worker_buildWhere f =
    (let (acl, ps) = worker_acl f [];
         (cs, ps') = error_conds (xf_error_class f)
           (push_cond (xf_shortcodeIds f \<noteq> []) (CAny ''shortcode_id'') (PInts (xf_shortcodeIds f))
           (push_cond (xf_operators f \<noteq> []) (CAny ''operator_name'') (PStrs (xf_operators f))
           (push_cond (truthy (xf_session_id f)) (\<lambda>n. CCmp OpEq ''session_id'' (EPar n)) (PStr (str_of (xf_session_id f)))
           (push_cond (truthy (xf_msisdn f)) (\<lambda>n. CCmp OpEq ''msisdn'' (EPar n)) (PStr (str_of (xf_msisdn f)))
           (push_cond (truthy (xf_to f)) (\<lambda>n. CCmp OpLt ''ts'' (EDateEnd n 0)) (PStr (str_of (xf_to f)))
           (push_cond (truthy (xf_from f)) (\<lambda>n. CCmp OpGe ''ts'' (ETimestamptz n 0)) (PStr (str_of (xf_from f)))
             ([], ps)))))))
     in (CAll (acl @ cs), ps'))"

definition screen_filters :: "export_filters \<Rightarrow> ReportFilters" where
  \<comment> \<open>the filters of the page the export was requested from\<close>
  "screen_filters f = \<lparr>rf_fromTs = xf_from f, rf_toTs = xf_to f, rf_msisdn = xf_msisdn f,
     rf_sessionId = xf_session_id f, rf_operators = xf_operators f, rf_shortcodeIds = xf_shortcodeIds f,
     rf_errorClass = xf_error_class f\<rparr>"

definition stored_acl :: "export_filters \<Rightarrow> ShortcodeAcl" where
  "stored_acl f = map_option (\<lambda>allow. aligned_grants allow
     (case xf_allowedShortcodeFrom f of None \<Rightarrow> [] | Some fs \<Rightarrow> fs)) (xf_allowedShortcodeIds f)"

lemma aligned_grants_Nil [simp]: "aligned_grants allow from = [] \<longleftrightarrow> allow = []"
  by (simp add: aligned_grants_def)

lemma worker_acl_clause: "worker_acl f ps = acl_conds ''shortcode_id'' ''ts'' GTs (stored_acl f) ps"
proof (cases "xf_allowedShortcodeIds f")
  case None
  then show ?thesis by (simp add: worker_acl_def acl_conds_def stored_acl_def)
next
  case (Some allow)
  show ?thesis
  proof (cases "allow = []")
    case True
    then show ?thesis by (simp add: worker_acl_def acl_conds_def stored_acl_def Some aclClause_def aligned_grants_def)
  next
    case False
    then obtain g gs where "aligned_grants allow (case xf_allowedShortcodeFrom f of None \<Rightarrow> [] | Some fs \<Rightarrow> fs) = g # gs"
      using aligned_grants_Nil by (metis neq_Nil_conv)
    then show ?thesis using False
      by (simp add: worker_acl_def acl_conds_def stored_acl_def Some aclClause_def Let_def split: prod.splits)
  qed
qed

lemma worker_where: "worker_buildWhere f = buildWhere (screen_filters f) (stored_acl f)"
proof -
  obtain acl ps where a: "acl_conds ''shortcode_id'' ''ts'' GTs (stored_acl f) [] = (acl, ps)" by fastforce
  show ?thesis
    by (simp add: worker_buildWhere_def buildWhere_def legConds_def then_build_def worker_acl_clause a filter_conds_def
        screen_filters_def Let_def split: prod.splits)
qed

section \<open>Columns and rows\<close>

record render =
  rd_ts :: "int \<Rightarrow> string"      \<comment> \<open>\<open>ts::text\<close>\<close>
  rd_secs :: "int \<Rightarrow> string"    \<comment> \<open>microseconds as seconds in \<open>float8\<close>, printed\<close>

definition LEG_COLUMNS :: "string list" where
  "LEG_COLUMNS = [''ts'', ''operator_name'', ''shortcode_code'', ''msisdn'', ''session_id'', ''direction'',
     ''handler_response_action'', ''error_class'', ''handler_elapsed_ms'', ''ussd_string'', ''handler_response_text'']"

definition SESSION_COLUMNS :: "string list" where
  "SESSION_COLUMNS = [''session_id'', ''operator_name'', ''shortcode_code'', ''msisdn'', ''first_ts'', ''last_ts'',
     ''duration_secs'', ''leg_count'', ''final_action'', ''final_error_class'', ''billable_window_secs'', ''billable_units'']"

definition num_cell :: "int option \<Rightarrow> string" where
  "num_cell x = (case x of None \<Rightarrow> [] | Some n \<Rightarrow> js_String n)"

definition leg_cells :: "render \<Rightarrow> db \<Rightarrow> leg_row \<Rightarrow> string list" where
  "leg_cells rd d l = [rd_ts rd (l_ts l), l_operator_name l, str_of (shortcode_code d (l_shortcode_id l) (l_service_code l)),
     str_of (l_msisdn l), l_session_id l, l_direction l, str_of (l_action l), str_of (l_error_class l),
     num_cell (l_elapsed_ms l), str_of (l_ussd_string l), str_of (l_response_text l)]"

definition export_units :: "int \<Rightarrow> int \<Rightarrow> int" where
  \<comment> \<open>GREATEST(1, CEIL(duration_secs / window)), of microseconds\<close>
  "export_units window us = max 1 (ceil_div us (window * 1000000))"

record export_session =
  xs_key :: "string \<times> string"
  xs_shortcode_code :: "string option"
  xs_msisdn :: "string option"
  xs_first_ts :: int
  xs_last_ts :: int
  xs_duration :: int
  xs_leg_count :: nat
  xs_final_action :: "string option"
  xs_final_error_class :: "string option"
  xs_window :: "int option"
  xs_units :: "int option"

definition export_session_row :: "db \<Rightarrow> string \<times> string \<Rightarrow> leg_row list \<Rightarrow> export_session" where
  \<comment> \<open>\<open>array_agg\<close> without an order: the model takes the legs as stored\<close>
  "export_session_row d k ls =
    (let fin = hd (latest_first ls); us = duration_us ls; win = operator_window d (snd k)
     in \<lparr>xs_key = k, xs_shortcode_code = shortcode_code d (first_some l_shortcode_id ls) (l_service_code fin),
         xs_msisdn = first_some l_msisdn ls, xs_first_ts = Min (l_ts ` set ls), xs_last_ts = Max (l_ts ` set ls),
         xs_duration = us, xs_leg_count = length ls, xs_final_action = l_action fin,
         xs_final_error_class = l_error_class fin, xs_window = win,
         xs_units = map_option (\<lambda>w. export_units w us) win\<rparr>)"

definition export_session_cells :: "render \<Rightarrow> export_session \<Rightarrow> string list" where
  "export_session_cells rd x = [fst (xs_key x), snd (xs_key x), str_of (xs_shortcode_code x), str_of (xs_msisdn x),
     rd_ts rd (xs_first_ts x), rd_ts rd (xs_last_ts x), rd_secs rd (xs_duration x), js_String (int (xs_leg_count x)),
     str_of (xs_final_action x), str_of (xs_final_error_class x), num_cell (xs_window x), num_cell (xs_units x)]"

definition by_export_ts :: "(string \<Rightarrow> string \<Rightarrow> bool) \<Rightarrow> export_session \<Rightarrow> export_session \<Rightarrow> bool" where
  "by_export_ts le a b \<longleftrightarrow> (if xs_last_ts a = xs_last_ts b then le (fst (xs_key b)) (fst (xs_key a))
     else xs_last_ts b < xs_last_ts a)"

section \<open>One query\<close>

record snapshot =
  sn_db :: db
  sn_logs :: "leg_row list"

definition matching_legs :: "pg \<Rightarrow> export_filters \<Rightarrow> leg_row list \<Rightarrow> leg_row list" where
  "matching_legs g f logs = (let (c, ps) = worker_buildWhere f in filter (\<lambda>l. holds g ps (leg_sql l) c) logs)"

definition legs_table :: "pg \<Rightarrow> render \<Rightarrow> export_filters \<Rightarrow> snapshot \<Rightarrow> string list list" where
  "legs_table g rd f s = map (leg_cells rd (sn_db s)) (newest_legs (matching_legs g f (sn_logs s)))"

definition export_sessions :: "pg \<Rightarrow> export_filters \<Rightarrow> snapshot \<Rightarrow> export_session list" where
  \<comment> \<open>the rows of a session export, before they are ordered and printed\<close>
  "export_sessions g f s = (let ls = matching_legs g f (sn_logs s)
     in map (\<lambda>k. export_session_row (sn_db s) k (group_of k ls)) (session_keys ls))"

definition sessions_table :: "pg \<Rightarrow> (string \<Rightarrow> string \<Rightarrow> bool) \<Rightarrow> render \<Rightarrow> export_filters \<Rightarrow> snapshot \<Rightarrow> string list list" where
  "sessions_table g le rd f s = map (export_session_cells rd) (sort_by (by_export_ts le) (export_sessions g f s))"

definition legsQuery :: "pg \<Rightarrow> render \<Rightarrow> export_filters \<Rightarrow> nat \<Rightarrow> nat \<Rightarrow> snapshot \<Rightarrow> string list list" where
  "legsQuery g rd f offset limit s = page_of limit offset (legs_table g rd f s)"

definition sessionsQuery :: "pg \<Rightarrow> (string \<Rightarrow> string \<Rightarrow> bool) \<Rightarrow> render \<Rightarrow> export_filters \<Rightarrow> nat \<Rightarrow> nat \<Rightarrow> snapshot
    \<Rightarrow> string list list" where
  "sessionsQuery g le rd f offset limit s = page_of limit offset (sessions_table g le rd f s)"

section \<open>The loop\<close>

record job_world =
  jw_stop :: "nat \<Rightarrow> bool"                \<comment> \<open>\<open>shutdown\<close> before the \<open>k\<close>th chunk\<close>
  jw_snap :: "nat \<Rightarrow> snapshot"            \<comment> \<open>what the \<open>k\<close>th query sees\<close>
  jw_fails :: "nat \<Rightarrow> string option"      \<comment> \<open>the \<open>k\<close>th query throws\<close>
  jw_sink :: "string option"             \<comment> \<open>the stream's error, awaited after the last chunk\<close>

partial_function (option) export_loop :: "job_world \<Rightarrow> nat \<Rightarrow> (nat \<Rightarrow> snapshot \<Rightarrow> string list list) \<Rightarrow> nat \<Rightarrow> nat
    \<Rightarrow> string list list \<Rightarrow> (string + string list list) option" where
  "export_loop w chunk q k offset written =
    (if jw_stop w k then Some (Inr written)
     else (case jw_fails w k of Some e \<Rightarrow> Some (Inl e)
       | None \<Rightarrow> (let rows = q offset (jw_snap w k) in
           if rows = [] then Some (Inr written)
           else if length rows < chunk then Some (Inr (written @ rows))
           else export_loop w chunk q (Suc k) (offset + chunk) (written @ rows))))"

definition job_query :: "pg \<Rightarrow> (string \<Rightarrow> string \<Rightarrow> bool) \<Rightarrow> render \<Rightarrow> nat \<Rightarrow> granularity \<Rightarrow> export_filters \<Rightarrow> nat
    \<Rightarrow> snapshot \<Rightarrow> string list list" where
  "job_query g le rd chunk gran f offset s = (case gran of Sessions \<Rightarrow> sessionsQuery g le rd f offset chunk s
     | Legs \<Rightarrow> legsQuery g rd f offset chunk s)"

definition job_columns :: "granularity \<Rightarrow> string list" where
  "job_columns gran = (case gran of Sessions \<Rightarrow> SESSION_COLUMNS | Legs \<Rightarrow> LEG_COLUMNS)"

definition processJob :: "pg \<Rightarrow> (string \<Rightarrow> string \<Rightarrow> bool) \<Rightarrow> render \<Rightarrow> nat \<Rightarrow> job_world \<Rightarrow> granularity \<Rightarrow> export_filters
    \<Rightarrow> (string + string \<times> nat) option" where
  \<comment> \<open>the file's text and its number of rows, or what was thrown; \<open>None\<close> is a loop that does not end\<close>
  "processJob g le rd chunk w gran f =
    (case export_loop w chunk (job_query g le rd chunk gran f) 0 0 [] of None \<Rightarrow> None
     | Some (Inl e) \<Rightarrow> Some (Inl e)
     | Some (Inr rows) \<Rightarrow> (case jw_sink w of Some e \<Rightarrow> Some (Inl e)
         | None \<Rightarrow> Some (Inr (csv_line (job_columns gran) @ concat (map csv_line rows), length rows))))"

section \<open>The loop's proof rule\<close>

lemma export_loop_rule:
  assumes "export_loop w chunk q k off acc = Some r"
    and "I k off acc"
    and "\<And>k off acc. I k off acc \<Longrightarrow> \<not> jw_stop w k \<Longrightarrow> chunk \<le> length (q off (jw_snap w k))
      \<Longrightarrow> I (Suc k) (off + chunk) (acc @ q off (jw_snap w k))"
    and "\<And>k off acc. I k off acc \<Longrightarrow> jw_stop w k \<Longrightarrow> R (Inr acc)"
    and "\<And>k off acc e. I k off acc \<Longrightarrow> jw_fails w k = Some e \<Longrightarrow> R (Inl e)"
    and "\<And>k off acc. I k off acc \<Longrightarrow> \<not> jw_stop w k \<Longrightarrow> length (q off (jw_snap w k)) < chunk \<or> q off (jw_snap w k) = []
      \<Longrightarrow> R (Inr (acc @ q off (jw_snap w k)))"
  shows "R r"
proof -
  have "w' = w \<and> chunk' = chunk \<and> q' = q \<and> I k off acc \<longrightarrow> R r"
    if "export_loop w' chunk' q' k off acc = Some r" for w' chunk' q' k off acc r
    using that
  proof (rule export_loop.raw_induct [rotated])
    fix f w' chunk' q' k off acc r
    assume ih: "\<And>w' chunk' q' k off acc r. f w' chunk' q' k off acc = Some r \<Longrightarrow>
        w' = w \<and> chunk' = chunk \<and> q' = q \<and> I k off acc \<longrightarrow> R r"
      and body: "(if jw_stop w' k then Some (Inr acc)
         else case jw_fails w' k of Some e \<Rightarrow> Some (Inl e)
           | None \<Rightarrow> let rs = q' off (jw_snap w' k) in
               if rs = [] then Some (Inr acc)
               else if length rs < chunk' then Some (Inr (acc @ rs))
               else f w' chunk' q' (Suc k) (off + chunk') (acc @ rs)) = Some r"
    show "w' = w \<and> chunk' = chunk \<and> q' = q \<and> I k off acc \<longrightarrow> R r"
    proof (rule impI, elim conjE)
      assume e: "w' = w" "chunk' = chunk" "q' = q" and i: "I k off acc"
      let ?rs = "q off (jw_snap w k)"
      note b = body [unfolded e]
      consider "jw_stop w k" | "\<not> jw_stop w k" "jw_fails w k \<noteq> None"
        | "\<not> jw_stop w k" "jw_fails w k = None" "length ?rs < chunk \<or> ?rs = []"
        | "\<not> jw_stop w k" "jw_fails w k = None" "chunk \<le> length ?rs" "?rs \<noteq> []" by fastforce
      then show "R r"
      proof cases
        case 1
        with b assms(4) [OF i] show ?thesis by simp
      next
        case 2
        with b assms(5) [OF i] show ?thesis by auto
      next
        case 3
        with b assms(6) [OF i] show ?thesis by (auto simp: Let_def split: if_splits)
      next
        case 4
        with b have "f w chunk q (Suc k) (off + chunk) (acc @ ?rs) = Some r"
          by (simp add: Let_def)
        with ih assms(3) [OF i 4(1,3)] show ?thesis by blast
      qed
    qed
  qed
  with assms(1,2) show ?thesis by blast
qed

end
