(* ===== verification/Exporting.thy ===== *)
theory Exporting
  imports Export_Query
begin

text \<open>
  What one export job promises.  \<open>paged_source\<close> is the interface between the chunk loop and a query:
  the pages the query returns are pages of one table per snapshot.  Both granularities provide it.
\<close>

lemma nth_in_page: "off \<le> j \<Longrightarrow> j < off + k \<Longrightarrow> j < length xs \<Longrightarrow> xs ! j \<in> set (page_of k off xs)"
  by (auto simp: page_of_def in_set_conv_nth intro!: exI [of _ "j - off"])

section \<open>Paging through a table that may change\<close>

locale paged_source =
  fixes chunk :: nat
    and q :: "nat \<Rightarrow> snapshot \<Rightarrow> string list list"
    and table :: "snapshot \<Rightarrow> string list list"
  assumes page: "q offset s = page_of chunk offset (table s)"
    and bounded: "length (table s) \<le> length (sn_logs s)"
begin

lemma loop_ends:
  assumes "\<And>k. length (sn_logs (jw_snap w k)) \<le> n"
  shows "\<exists>r. export_loop w chunk q k offset acc = Some r"
proof (induction "n - offset" arbitrary: k offset acc rule: less_induct)
  case less
  let ?rows = "q offset (jw_snap w k)"
  show ?case
  proof (cases "jw_stop w k \<or> jw_fails w k \<noteq> None \<or> length ?rows < chunk \<or> ?rows = []")
    case True
    then show ?thesis by (subst export_loop.simps) (auto simp: Let_def split: option.splits)
  next
    case False
    then have full: "offset + chunk \<le> length (table (jw_snap w k))" "0 < chunk"
      by (auto simp: page page_of_def)
    then have "n - (offset + chunk) < n - offset"
      using assms [of k] bounded [of "jw_snap w k"] by linarith
    from less [OF this, of "Suc k" "acc @ ?rows"] False show ?thesis
      by (subst export_loop.simps) (auto simp: Let_def)
  qed
qed

lemma loop_confined:
  assumes "export_loop w chunk q k off [] = Some (Inr rows)"
  shows "set rows \<subseteq> (\<Union>k. set (table (jw_snap w k)))"
proof -
  have sub: "set (q off (jw_snap w k)) \<subseteq> (\<Union>k. set (table (jw_snap w k)))" for k off
    using set_take_subset set_drop_subset unfolding page page_of_def by fastforce
  have "case (Inr rows :: string + string list list) of Inl e \<Rightarrow> True
      | Inr rows \<Rightarrow> set rows \<subseteq> (\<Union>k. set (table (jw_snap w k)))"
    by (rule export_loop_rule [OF assms, where I = "\<lambda>k off acc. set acc \<subseteq> (\<Union>k. set (table (jw_snap w k)))"])
      (use sub in auto)
  then show ?thesis by simp
qed

lemma loop_fixed:
  assumes "\<And>k. jw_snap w k = s" "\<And>k. jw_fails w k = None" "0 < chunk"
    and "\<And>k. jw_stop w k \<longleftrightarrow> (case n of None \<Rightarrow> False | Some m \<Rightarrow> m \<le> k)"
  shows "export_loop w chunk q 0 0 [] = Some (Inr (case n of None \<Rightarrow> table s | Some m \<Rightarrow> take (m * chunk) (table s)))"
proof -
  have "\<exists>r. export_loop w chunk q 0 0 [] = Some r"
    by (rule loop_ends [of w "length (sn_logs s)"]) (simp add: assms(1))
  then obtain r where r: "export_loop w chunk q 0 0 [] = Some r" ..
  have "r = Inr (case n of None \<Rightarrow> table s | Some m \<Rightarrow> take (m * chunk) (table s))"
  proof (rule export_loop_rule [OF r, where I = "\<lambda>k off acc. off = k * chunk \<and> acc = take off (table s)
        \<and> (case n of None \<Rightarrow> True | Some m \<Rightarrow> k \<le> m)"])
    fix k off and acc :: "string list list"
    assume i: "off = k * chunk \<and> acc = take off (table s) \<and> (case n of None \<Rightarrow> True | Some m \<Rightarrow> k \<le> m)"
    have next_page: "acc @ q off (jw_snap w k) = take (off + chunk) (table s)"
      using i by (simp add: page page_of_def assms(1) take_add)
    show "Inr acc = Inr (case n of None \<Rightarrow> table s | Some m \<Rightarrow> take (m * chunk) (table s))" if "jw_stop w k"
      using i that assms(4) by (auto split: option.splits)
    show "off + chunk = Suc k * chunk \<and> acc @ q off (jw_snap w k) = take (off + chunk) (table s)
        \<and> (case n of None \<Rightarrow> True | Some m \<Rightarrow> Suc k \<le> m)" if "\<not> jw_stop w k"
      using i that next_page assms(4) [of k] by (auto split: option.splits)
    show "Inr (acc @ q off (jw_snap w k)) = Inr (case n of None \<Rightarrow> table s | Some m \<Rightarrow> take (m * chunk) (table s))"
      if "\<not> jw_stop w k" "length (q off (jw_snap w k)) < chunk \<or> q off (jw_snap w k) = []"
    proof -
      have short: "length (table s) \<le> off + chunk" using that(2) assms(3) by (auto simp: page page_of_def assms(1))
      have "off + chunk \<le> m * chunk" if "n = Some m" for m
      proof -
        have "Suc k \<le> m" using that \<open>\<not> jw_stop w k\<close> assms(4) [of k] by simp
        then have "Suc k * chunk \<le> m * chunk" by (rule mult_le_mono1)
        then show ?thesis using i by simp
      qed
      then show ?thesis using short next_page by (auto split: option.splits)
    qed
  qed (use assms(2) in \<open>auto split: option.splits\<close>)
  with r show ?thesis by simp
qed


lemma loop_misses_none:
  assumes "export_loop w chunk q 0 0 [] = Some (Inr rows)" "\<And>k. \<not> jw_stop w k" "0 < chunk"
    and "\<And>k. \<exists>fresh. table (jw_snap w (Suc k)) = fresh @ table (jw_snap w k)"
  shows "set (table (jw_snap w 0)) \<subseteq> set rows"
proof -
  let ?t = "table (jw_snap w 0)"
  let ?I = "\<lambda>k off acc. \<exists>new. table (jw_snap w k) = new @ ?t \<and> set (take (off - length new) ?t) \<subseteq> set acc"
  have seen: "set (take (off + chunk - length new) ?t) \<subseteq> set (acc @ q off (jw_snap w k))"
    if t: "table (jw_snap w k) = new @ ?t" and a: "set (take (off - length new) ?t) \<subseteq> set acc" for k off new acc
  proof
    fix x assume "x \<in> set (take (off + chunk - length new) ?t)"
    then obtain i where i: "i < length ?t" "i < off + chunk - length new" "x = ?t ! i" by (auto simp: in_set_conv_nth)
    show "x \<in> set (acc @ q off (jw_snap w k))"
    proof (cases "i < off - length new")
      case True
      then have "x \<in> set (take (off - length new) ?t)" using i by (auto simp: in_set_conv_nth)
      with a show ?thesis by auto
    next
      case False
      then have "(new @ ?t) ! (length new + i) \<in> set (page_of chunk off (new @ ?t))"
        using i by (intro nth_in_page) auto
      with i show ?thesis by (simp add: page t)
    qed
  qed
  have "case (Inr rows :: string + string list list) of Inl e \<Rightarrow> True | Inr rows \<Rightarrow> set ?t \<subseteq> set rows"
  proof (rule export_loop_rule [OF assms(1), where I = ?I])
    show "?I 0 0 []" by simp
    fix k off and acc :: "string list list"
    assume "?I k off acc"
    then obtain new where n: "table (jw_snap w k) = new @ ?t" "set (take (off - length new) ?t) \<subseteq> set acc" by blast
    note s = seen [OF n]
    show "?I (Suc k) (off + chunk) (acc @ q off (jw_snap w k))"
    proof -
      obtain fresh where "table (jw_snap w (Suc k)) = fresh @ new @ ?t" using assms(4) [of k] n(1) by auto
      moreover have "set (take (off + chunk - length (fresh @ new)) ?t) \<subseteq> set (take (off + chunk - length new) ?t)"
        by (rule set_take_subset_set_take) simp
      ultimately show ?thesis using s by (intro exI [of _ "fresh @ new"]) auto
    qed
    show "case Inr (acc @ q off (jw_snap w k)) of Inl e \<Rightarrow> True | Inr rows \<Rightarrow> set ?t \<subseteq> set rows"
      if "length (q off (jw_snap w k)) < chunk \<or> q off (jw_snap w k) = []"
    proof -
      have "length (new @ ?t) \<le> off + chunk" using that assms(3) by (auto simp: page page_of_def n(1))
      then have "take (off + chunk - length new) ?t = ?t" by simp
      with s show ?thesis by simp
    qed
  qed (use assms(2) in auto)
  then show ?thesis by simp
qed

end

definition job_table :: "pg \<Rightarrow> (string \<Rightarrow> string \<Rightarrow> bool) \<Rightarrow> render \<Rightarrow> granularity \<Rightarrow> export_filters \<Rightarrow> snapshot
    \<Rightarrow> string list list" where
  \<comment> \<open>all rows the job's query selects from one snapshot, in order\<close>
  "job_table g le rd gran f s = (case gran of Sessions \<Rightarrow> sessions_table g le rd f s | Legs \<Rightarrow> legs_table g rd f s)"

lemma matching_legs_eq:
  "matching_legs g f logs = filter (\<lambda>l. leg_allowed (stored_acl f) l \<and> leg_matches g 0 (screen_filters f) l) logs"
proof -
  obtain c ps where b: "buildWhere (screen_filters f) (stored_acl f) = (c, ps)" by fastforce
  show ?thesis unfolding matching_legs_def worker_where b using report_where_rows [OF b] by simp
qed

lemma length_session_keys: "length (session_keys ls) \<le> length ls"
  unfolding session_keys_def by (metis length_map length_remdups_leq)

interpretation job_source: paged_source chunk "job_query g le rd chunk gran f" "job_table g le rd gran f"
  for chunk g le rd gran f
proof unfold_locales
  have m: "length (matching_legs g f logs) \<le> length logs" for logs by (simp add: matching_legs_eq)
  fix offset s
  show "job_query g le rd chunk gran f offset s = page_of chunk offset (job_table g le rd gran f s)"
    by (simp add: job_query_def job_table_def legsQuery_def sessionsQuery_def split: granularity.splits)
  show "length (job_table g le rd gran f s) \<le> length (sn_logs s)"
    using m [of "sn_logs s"] length_session_keys [of "matching_legs g f (sn_logs s)"]
    by (auto simp: job_table_def legs_table_def sessions_table_def export_sessions_def Let_def newest_legs_def split: granularity.splits)
qed

lemma legs_table_eq: "legs_table g rd f s = map (leg_cells rd (sn_db s)) (visible_legs g (screen_filters f) (stored_acl f) (sn_logs s))"
  by (simp add: legs_table_def matching_legs_eq visible_legs_def)

lemma csv_file_read:
  assumes "\<forall>cells \<in> set rows. cells \<noteq> []"
  shows "csv_read Start [] [] (csv_line (job_columns gran) @ concat (map csv_line rows)) = job_columns gran # rows"
proof -
  have "job_columns gran \<noteq> []" by (simp add: job_columns_def LEG_COLUMNS_def SESSION_COLUMNS_def split: granularity.splits)
  then have "\<forall>cells \<in> set (job_columns gran # rows). cells \<noteq> []" using assms by simp
  from read_lines [OF this, of "[]"] show ?thesis by simp
qed

lemma job_table_cells: "\<forall>cells \<in> set (job_table g le rd gran f s). cells \<noteq> []"
  by (auto simp: job_table_def legs_table_def sessions_table_def leg_cells_def export_session_cells_def Let_def
      split: granularity.splits)

lemma processJob_rows:
  assumes "processJob g le rd chunk w gran f = Some (Inr (text, n))"
  shows "\<exists>rows. export_loop w chunk (job_query g le rd chunk gran f) 0 0 [] = Some (Inr rows) \<and> n = length rows
    \<and> text = csv_line (job_columns gran) @ concat (map csv_line rows)
    \<and> csv_read Start [] [] text = job_columns gran # rows"
proof -
  obtain rows where r: "export_loop w chunk (job_query g le rd chunk gran f) 0 0 [] = Some (Inr rows)"
    and t: "text = csv_line (job_columns gran) @ concat (map csv_line rows)" "n = length rows"
    using assms by (auto simp: processJob_def split: option.splits sum.splits)
  have "\<forall>cells \<in> set rows. cells \<noteq> []"
  proof
    fix cells assume "cells \<in> set rows"
    with job_source.loop_confined [OF r] obtain k where "cells \<in> set (job_table g le rd gran f (jw_snap w k))" by blast
    then show "cells \<noteq> []" using job_table_cells by blast
  qed
  from csv_file_read [OF this] r t show ?thesis by blast
qed

definition steady :: "snapshot \<Rightarrow> nat option \<Rightarrow> job_world" where
  \<comment> \<open>nothing changes and nothing fails while the job runs; \<open>shutdown\<close> is raised before the given chunk\<close>
  "steady s n = \<lparr>jw_stop = (\<lambda>k. case n of None \<Rightarrow> False | Some m \<Rightarrow> m \<le> k), jw_snap = (\<lambda>_. s), jw_fails = (\<lambda>_. None),
     jw_sink = None\<rparr>"

lemma steady_job:
  assumes "0 < chunk"
  shows "processJob g le rd chunk (steady s n) gran f = (let rows = (case n of None \<Rightarrow> job_table g le rd gran f s
      | Some m \<Rightarrow> take (m * chunk) (job_table g le rd gran f s))
    in Some (Inr (csv_line (job_columns gran) @ concat (map csv_line rows), length rows)))"
  using job_source.loop_fixed [OF _ _ assms, of "steady s n" s n g le rd gran f]
  by (simp add: processJob_def steady_def Let_def)

definition open_export :: export_filters where
  "open_export = \<lparr>xf_from = None, xf_to = None, xf_msisdn = None, xf_session_id = None, xf_error_class = Some ''any'',
     xf_operators = [], xf_shortcodeIds = [], xf_allowedShortcodeIds = None, xf_allowedShortcodeFrom = None,
     xf_requested_by_email = ''a'', xf_requested_by_role = ''super_admin''\<rparr>"

definition two_legs :: "leg_row list" where
  "two_legs = [sample_leg 1 0 5, (sample_leg 2 66000000 5)\<lparr>l_error_class := Some ''timeout''\<rparr>]"

definition two_snap :: snapshot where
  "two_snap = \<lparr>sn_db = windowed_db, sn_logs = two_legs\<rparr>"

definition plain_render :: render where
  "plain_render = \<lparr>rd_ts = js_String, rd_secs = js_String\<rparr>"

lemma session_row_fields:
  "sn_leg_count (session_row d k ls) = length ls" "sn_duration (session_row d k ls) = duration_us ls"
  "sn_billable_units (session_row d k ls) = map_option (\<lambda>w. billable w (duration_us ls)) (operator_window d (snd k))"
  "xs_leg_count (export_session_row d k ls) = length ls" "xs_duration (export_session_row d k ls) = duration_us ls"
  "xs_units (export_session_row d k ls) = map_option (\<lambda>w. export_units w (duration_us ls)) (operator_window d (snd k))"
  by (simp_all add: session_row_def export_session_row_def Let_def)

lemma windowed_vodacom: "operator_window windowed_db ''vodacom'' = Some 20"
  by (simp add: operator_window_def windowed_db_def)

lemma sample_leg_fields:
  "l_ts (sample_leg i t c) = t" "session_key (sample_leg i t c) = (''s'', ''vodacom'')" "l_error_class (sample_leg i t c) = None"
  "session_key ((sample_leg i t c)\<lparr>l_error_class := e\<rparr>) = (''s'', ''vodacom'')"
  by (simp_all add: sample_leg_def session_key_def)

lemma two_legs_group:
  "session_keys two_legs = [(''s'', ''vodacom'')]" "group_of (''s'', ''vodacom'') two_legs = two_legs" "length two_legs = 2"
  "duration_us two_legs = 66000000"
  by (simp_all add: two_legs_def session_keys_def group_of_def sample_leg_fields duration_us_def)

lemma second_leg_group:
  "session_keys [(sample_leg i t c)\<lparr>l_error_class := e\<rparr>] = [(''s'', ''vodacom'')]"
  "group_of (''s'', ''vodacom'') [(sample_leg i t c)\<lparr>l_error_class := e\<rparr>] = [(sample_leg i t c)\<lparr>l_error_class := e\<rparr>]"
  "duration_us [l] = 0"
  by (simp_all add: session_keys_def group_of_def sample_leg_fields duration_us_def)

lemma open_export_all:
  "leg_allowed (stored_acl open_export) l" "leg_matches g m (screen_filters open_export) l"
  by (simp_all add: stored_acl_def leg_allowed_def acl_allows_def leg_matches_def filter_matches_def in_range_def
      error_matches_def screen_filters_def open_export_def truthy_def)

lemma windowed_positive: "operator_window windowed_db n = Some w \<Longrightarrow> 0 < w"
  by (simp add: operator_window_def windowed_db_def split: if_splits)

text \<open>
  C18. An export is what the screen shows: over a log that does not change, the CSV of a leg export read
  back is the header and, cell for cell, the legs the report pages show under the same filters and
  allowlist, newest first, however many chunks it takes.
\<close>

theorem export_matches_screen:
  assumes "0 < chunk"
  shows "\<exists>text. processJob g le rd chunk (steady s None) Legs f
      = Some (Inr (text, length (visible_legs g (screen_filters f) (stored_acl f) (sn_logs s))))
    \<and> csv_read Start [] [] text = LEG_COLUMNS # map (leg_cells rd (sn_db s))
        (visible_legs g (screen_filters f) (stored_acl f) (sn_logs s))"
proof -
  let ?rows = "map (leg_cells rd (sn_db s)) (visible_legs g (screen_filters f) (stored_acl f) (sn_logs s))"
  have "processJob g le rd chunk (steady s None) Legs f
      = Some (Inr (csv_line (job_columns Legs) @ concat (map csv_line ?rows), length ?rows))"
    by (simp add: steady_job [OF assms] job_table_def legs_table_eq)
  moreover have "\<forall>cells \<in> set ?rows. cells \<noteq> []" by (auto simp: leg_cells_def)
  ultimately show ?thesis using csv_file_read [of ?rows Legs] by (auto simp: job_columns_def)
qed

theorem export_matches_screen_witness:
  "\<exists>text. processJob sample_pg str_le plain_render 1 (steady two_snap None) Legs open_export = Some (Inr (text, 2))
    \<and> csv_read Start [] [] text = LEG_COLUMNS # map (leg_cells plain_render windowed_db) (rev two_legs)"
proof -
  have "visible_legs sample_pg (screen_filters open_export) (stored_acl open_export) (sn_logs two_snap) = rev two_legs"
    by (simp add: visible_legs_def open_export_all two_snap_def two_legs_def newest_legs_def sample_leg_def)
  moreover have "length (rev two_legs) = 2" by (simp add: two_legs_def)
  ultimately show ?thesis
    using export_matches_screen [of 1 sample_pg str_le plain_render two_snap open_export] by (simp add: two_snap_def)
qed

text \<open>
  C19. The chunk loop ends: as long as the log stays below some size while the job runs, the job returns,
  whatever else happens to the log between chunks.
\<close>

theorem export_ends:
  assumes "\<And>k. length (sn_logs (jw_snap w k)) \<le> n"
  shows "\<exists>r. processJob g le rd chunk w gran f = Some r"
proof -
  obtain r where "export_loop w chunk (job_query g le rd chunk gran f) 0 0 [] = Some r"
    using job_source.loop_ends [OF assms] by blast
  then show ?thesis by (auto simp: processJob_def split: sum.splits option.splits)
qed

definition flickering :: job_world where
  \<comment> \<open>legs come and go between chunks\<close>
  "flickering = \<lparr>jw_stop = (\<lambda>_. False), jw_snap = (\<lambda>k. if even k then two_snap else two_snap\<lparr>sn_logs := []\<rparr>),
     jw_fails = (\<lambda>_. None), jw_sink = None\<rparr>"

theorem export_ends_witness: "\<exists>r. processJob sample_pg str_le plain_render 1 flickering Legs open_export = Some r"
  by (rule export_ends [of _ 2]) (simp add: flickering_def two_snap_def two_legs_def)

lemma insort_key_skip: "\<forall>y \<in> set ys. key y < key x \<Longrightarrow> insort_key key x (ys @ zs) = ys @ insort_key key x zs"
  by (induction ys) auto

lemma sort_key_later:
  "\<forall>x \<in> set xs. \<forall>y \<in> set ys. key y < key x \<Longrightarrow> sort_key key (xs @ ys) = sort_key key ys @ sort_key key xs"
  by (induction xs) (simp_all add: insort_key_skip)

lemma insort_key_before: "\<forall>y \<in> set zs. key x < key y \<Longrightarrow> insort_key key x (ys @ zs) = insort_key key x ys @ zs"
proof (induction ys)
  case Nil
  then show ?case by (cases zs) (auto simp: less_imp_le)
qed simp

lemma sort_key_earlier:
  "\<forall>x \<in> set xs. \<forall>y \<in> set ys. key x < key y \<Longrightarrow> sort_key key (xs @ ys) = sort_key key xs @ sort_key key ys"
  by (induction xs) (simp_all add: insort_key_before)

definition later_legs :: "leg_row list \<Rightarrow> leg_row list \<Rightarrow> bool" where
  \<comment> \<open>legs the gateway logs after those there: later in time, with higher ids\<close>
  "later_legs old fresh \<longleftrightarrow> (\<forall>l \<in> set old. \<forall>l' \<in> set fresh. l_ts l < l_ts l' \<and> l_id l < l_id l')"

lemma newest_legs_later: "later_legs old fresh \<Longrightarrow> newest_legs (old @ fresh) = newest_legs fresh @ newest_legs old"
  by (simp add: newest_legs_def later_legs_def sort_key_later sort_key_earlier)

definition growing :: "job_world \<Rightarrow> bool" where
  \<comment> \<open>between chunks the log only gains later legs, and the shortcodes stay\<close>
  "growing w \<longleftrightarrow> (\<forall>k. sn_db (jw_snap w (Suc k)) = sn_db (jw_snap w 0) \<and> (\<exists>fresh.
     sn_logs (jw_snap w (Suc k)) = sn_logs (jw_snap w k) @ fresh \<and> later_legs (sn_logs (jw_snap w k)) fresh))"

text \<open>
  An export of a log that grows while it runs misses nothing: every leg that was there when the job
  began and that its filters admit is in the CSV (it may be there twice).
\<close>

theorem export_misses_none:
  assumes "processJob g le rd chunk w Legs f = Some (Inr (text, n))"
    and "0 < chunk" "\<And>k. \<not> jw_stop w k" "growing w"
    and "l \<in> set (visible_legs g (screen_filters f) (stored_acl f) (sn_logs (jw_snap w 0)))"
  shows "leg_cells rd (sn_db (jw_snap w 0)) l \<in> set (csv_read Start [] [] text)"
proof -
  obtain rows where r: "export_loop w chunk (job_query g le rd chunk Legs f) 0 0 [] = Some (Inr rows)"
    and t: "csv_read Start [] [] text = job_columns Legs # rows"
    using processJob_rows [OF assms(1)] by blast
  let ?P = "\<lambda>l. leg_allowed (stored_acl f) l \<and> leg_matches g 0 (screen_filters f) l"
  have db: "sn_db (jw_snap w k) = sn_db (jw_snap w 0)" for k
    using assms(4) by (cases k) (auto simp: growing_def)
  have "\<exists>fresh. job_table g le rd Legs f (jw_snap w (Suc k)) = fresh @ job_table g le rd Legs f (jw_snap w k)" for k
  proof -
    obtain fresh where l: "sn_logs (jw_snap w (Suc k)) = sn_logs (jw_snap w k) @ fresh"
      "later_legs (sn_logs (jw_snap w k)) fresh" using assms(4) by (auto simp: growing_def)
    have "later_legs (filter ?P (sn_logs (jw_snap w k))) (filter ?P fresh)"
      using l(2) by (auto simp: later_legs_def)
    then show ?thesis by (simp add: job_table_def legs_table_eq visible_legs_def l(1) newest_legs_later db [of "Suc k"] db [of k])
  qed
  from job_source.loop_misses_none [OF r assms(3,2) this]
  have "set (job_table g le rd Legs f (jw_snap w 0)) \<subseteq> set rows" .
  then show ?thesis using assms(5) by (auto simp: t job_table_def legs_table_eq)
qed

definition arriving :: job_world where
  \<comment> \<open>a second leg is logged after the first chunk\<close>
  "arriving = \<lparr>jw_stop = (\<lambda>_. False), jw_snap = (\<lambda>k. two_snap\<lparr>sn_logs := if k = 0 then take 1 two_legs else two_legs\<rparr>),
     jw_fails = (\<lambda>_. None), jw_sink = None\<rparr>"

lemma arriving_table:
  "job_table sample_pg str_le plain_render Legs open_export (jw_snap arriving k)
    = map (leg_cells plain_render windowed_db) (if k = 0 then take 1 two_legs else rev two_legs)"
  by (simp add: job_table_def legs_table_eq visible_legs_def open_export_all arriving_def two_snap_def two_legs_def
      newest_legs_def sample_leg_def)

lemma export_repeats:
  "processJob sample_pg str_le plain_render 1 arriving Legs open_export
    = Some (Inr (csv_line LEG_COLUMNS @ csv_line (leg_cells plain_render windowed_db (sample_leg 1 0 5))
        @ csv_line (leg_cells plain_render windowed_db (sample_leg 1 0 5)), 2))"
proof -
  define qu where "qu = job_query sample_pg str_le plain_render 1 Legs open_export"
  let ?c = "leg_cells plain_render windowed_db (sample_leg 1 0 5)"
  have pg: "qu off (jw_snap arriving k)
      = page_of 1 off (map (leg_cells plain_render windowed_db) (if k = 0 then take 1 two_legs else rev two_legs))" for off k
    by (simp only: qu_def job_source.page arriving_table)
  have pages: "qu 0 (jw_snap arriving 0) = [?c]" "qu (Suc 0) (jw_snap arriving (Suc 0)) = [?c]" "qu 2 (jw_snap arriving 2) = []"
    unfolding pg by (simp_all add: page_of_def two_legs_def)
  have run: "\<not> jw_stop arriving k" "jw_fails arriving k = None" "jw_sink arriving = None" for k
    by (simp_all add: arriving_def)
  have "export_loop arriving 1 qu 2 2 [?c, ?c] = Some (Inr [?c, ?c])"
    by (subst export_loop.simps) (simp add: run pages)
  then have "export_loop arriving 1 qu 1 1 [?c] = Some (Inr [?c, ?c])"
    by (subst export_loop.simps) (simp add: run pages numeral_2_eq_2)
  then have "export_loop arriving 1 qu 0 0 [] = Some (Inr [?c, ?c])"
    by (subst export_loop.simps) (simp add: run pages)
  then show ?thesis by (simp add: processJob_def run job_columns_def qu_def)
qed

theorem export_misses_none_witness:
  "leg_cells plain_render windowed_db (sample_leg 1 0 5) \<in> set (csv_read Start [] []
     (csv_line LEG_COLUMNS @ csv_line (leg_cells plain_render windowed_db (sample_leg 1 0 5))
        @ csv_line (leg_cells plain_render windowed_db (sample_leg 1 0 5))))"
proof -
  have g: "growing arriving"
  proof -
    have "later_legs (take 1 two_legs) (drop 1 two_legs)" by (simp add: later_legs_def two_legs_def sample_leg_def)
    moreover have "later_legs two_legs []" by (simp add: later_legs_def)
    ultimately have "\<exists>fresh. two_legs = (if k = 0 then take 1 two_legs else two_legs) @ fresh
        \<and> later_legs (if k = 0 then take 1 two_legs else two_legs) fresh" for k :: nat
      by (cases k) (auto intro: exI [of _ "drop 1 two_legs"])
    then show ?thesis by (simp add: growing_def arriving_def)
  qed
  have v: "sample_leg 1 0 5 \<in> set (visible_legs sample_pg (screen_filters open_export) (stored_acl open_export)
      (sn_logs (jw_snap arriving 0)))"
    by (simp add: visible_legs_def open_export_all arriving_def two_legs_def)
  have "\<not> jw_stop arriving k" for k by (simp add: arriving_def)
  from export_misses_none [OF export_repeats _ this g v] show ?thesis by (simp add: arriving_def two_snap_def)
qed

section \<open>Where an export differs from the screen\<close>

text \<open>
  A worker told to stop finishes its job all the same: the job ends as a success with only the
  chunks written so far, so a truncated CSV is handed out as complete.
\<close>

theorem shutdown_truncates:
  assumes "0 < chunk"
  shows "\<exists>text. processJob g le rd chunk (steady s (Some m)) gran f
      = Some (Inr (text, min (m * chunk) (length (job_table g le rd gran f s))))
    \<and> csv_read Start [] [] text = job_columns gran # take (m * chunk) (job_table g le rd gran f s)"
proof -
  let ?rows = "take (m * chunk) (job_table g le rd gran f s)"
  have "processJob g le rd chunk (steady s (Some m)) gran f
      = Some (Inr (csv_line (job_columns gran) @ concat (map csv_line ?rows), length ?rows))"
    by (simp add: steady_job [OF assms] Let_def)
  moreover have "\<forall>cells \<in> set ?rows. cells \<noteq> []" using job_table_cells by (meson in_set_takeD)
  ultimately show ?thesis using csv_file_read [of ?rows gran] by (auto simp: min.commute)
qed

theorem shutdown_truncates_witness:
  "\<exists>text. processJob sample_pg str_le plain_render 1 (steady two_snap (Some 1)) Legs open_export = Some (Inr (text, 1))
    \<and> length (job_table sample_pg str_le plain_render Legs open_export two_snap) = 2"
proof -
  have "length (job_table sample_pg str_le plain_render Legs open_export two_snap) = 2"
    by (simp add: job_table_def legs_table_eq visible_legs_def open_export_all two_snap_def two_legs_def)
  then show ?thesis
    using shutdown_truncates [of 1 sample_pg str_le plain_render two_snap 1 Legs open_export] by auto
qed

section \<open>Sessions\<close>

lemma export_units_billable: "0 < w \<Longrightarrow> export_units w us = billable w us"
  using ceil_div_twice [of 1000000 w us] by (simp add: export_units_def billable_def mult.commute)

definition screen_sessions :: "pg \<Rightarrow> export_filters \<Rightarrow> snapshot \<Rightarrow> SessionRow list" where
  \<comment> \<open>the rows of the sessions page under the same filters and allowlist\<close>
  "screen_sessions g f s = session_rows (sn_db s)
     (where_legs g (buildSessionWhere (screen_filters f) (stored_acl f)) (sn_logs s))"

definition same_session :: "export_session \<Rightarrow> SessionRow \<Rightarrow> bool" where
  "same_session x r \<longleftrightarrow> xs_key x = (sn_session_id r, sn_operator_name r) \<and> xs_first_ts x = sn_first_ts r
     \<and> xs_last_ts x = sn_last_ts r \<and> xs_duration x = sn_duration r \<and> xs_leg_count x = sn_leg_count r
     \<and> xs_final_action x = sn_final_action r \<and> xs_final_error_class x = sn_final_error_class r
     \<and> xs_window x = sn_window r \<and> xs_units x = sn_billable_units r"

lemma session_rows_agree:
  assumes "\<And>k w. operator_window d k = Some w \<Longrightarrow> 0 < w"
  shows "same_session (export_session_row d k ls) (session_row d k ls)"
  using assms [of "snd k"]
  by (cases "operator_window d (snd k)")
    (simp_all add: same_session_def export_session_row_def session_row_def Let_def export_units_billable)

text \<open>
  A session export selected by date and operator alone lists the sessions of the sessions page with
  the same span, legs, ending and billed units, although it rounds the duration only once.
\<close>

theorem session_export_agrees:
  assumes "\<not> selectsSessionsByLeg (screen_filters f)"
    and "\<And>n w. operator_window (sn_db s) n = Some w \<Longrightarrow> 0 < w"
  shows "list_all2 same_session (export_sessions g f s) (screen_sessions g f s)"
proof -
  have "matching_legs g f (sn_logs s) = where_legs g (buildSessionWhere (screen_filters f) (stored_acl f)) (sn_logs s)"
    by (simp add: matching_legs_eq where_legs_plain [OF assms(1)])
  then show ?thesis
    by (simp add: export_sessions_def screen_sessions_def session_rows_def Let_def list_all2_map1 list_all2_map2
        list_all2_same session_rows_agree [OF assms(2)])
qed

theorem session_export_agrees_witness:
  "map (\<lambda>x. (xs_leg_count x, xs_units x)) (export_sessions sample_pg open_export two_snap) = [(2, Some 4)]
   \<and> list_all2 same_session (export_sessions sample_pg open_export two_snap) (screen_sessions sample_pg open_export two_snap)"
proof
  have p: "operator_window (sn_db two_snap) n = Some w \<Longrightarrow> 0 < w" for n w
    using windowed_positive by (simp add: two_snap_def)
  have "\<not> selectsSessionsByLeg (screen_filters open_export)"
    by (simp add: selectsSessionsByLeg_def screen_filters_def open_export_def truthy_def)
  from session_export_agrees [OF this p]
  show "list_all2 same_session (export_sessions sample_pg open_export two_snap) (screen_sessions sample_pg open_export two_snap)" .
  show "map (\<lambda>x. (xs_leg_count x, xs_units x)) (export_sessions sample_pg open_export two_snap) = [(2, Some 4)]"
    by (simp add: export_sessions_def matching_legs_eq open_export_all two_snap_def two_legs_group Let_def
        session_row_fields windowed_vodacom export_units_def ceil_div_def)
qed

text \<open>
  With a filter on legs the session export still filters legs, where the page selects sessions: the
  same request that shows two legs, 66 seconds and four units on the page exports one leg and one unit.
\<close>

theorem session_export_underbills:
  "map (\<lambda>r. (sn_leg_count r, sn_duration r, sn_billable_units r))
      (screen_sessions sample_pg (open_export\<lparr>xf_error_class := Some ''error''\<rparr>) two_snap) = [(2, 66000000, Some 4)]
   \<and> map (\<lambda>x. (xs_leg_count x, xs_duration x, xs_units x))
      (export_sessions sample_pg (open_export\<lparr>xf_error_class := Some ''error''\<rparr>) two_snap) = [(1, 0, Some 1)]"
proof
  let ?f = "open_export\<lparr>xf_error_class := Some ''error''\<rparr>"
  have by_leg: "selectsSessionsByLeg (screen_filters ?f)"
    by (simp add: selectsSessionsByLeg_def screen_filters_def open_export_def truthy_def)
  have allowed: "leg_allowed (stored_acl ?f) l" for l
    by (simp add: stored_acl_def leg_allowed_def acl_allows_def open_export_def)
  have errors: "leg_matches g 0 (screen_filters ?f) l \<longleftrightarrow> l_error_class l \<noteq> None" for g l
    by (cases "l_error_class l") (simp_all add: leg_matches_def filter_matches_def in_range_def error_matches_def
        screen_filters_def open_export_def truthy_def leg_sql_def opt_str_def)
  have shared: "leg_matches g m (shared_filters (screen_filters ?f)) l" for g m l
    by (simp add: leg_matches_def filter_matches_def in_range_def error_matches_def shared_filters_def
        screen_filters_def open_export_def truthy_def)
  have sel: "session_selected sample_pg (screen_filters ?f) (stored_acl ?f) two_legs (''s'', ''vodacom'')"
    by (simp add: session_selected_def two_legs_def allowed errors sample_leg_fields)
  have legs: "where_legs sample_pg (buildSessionWhere (screen_filters ?f) (stored_acl ?f)) two_legs = two_legs"
    using sel by (simp add: where_legs_by_leg [OF by_leg] allowed shared two_legs_def sample_leg_fields)
  show "map (\<lambda>r. (sn_leg_count r, sn_duration r, sn_billable_units r)) (screen_sessions sample_pg ?f two_snap)
      = [(2, 66000000, Some 4)]"
    by (simp add: screen_sessions_def two_snap_def legs session_rows_def two_legs_group session_row_fields
        windowed_vodacom billable_def ceil_div_def)
  show "map (\<lambda>x. (xs_leg_count x, xs_duration x, xs_units x)) (export_sessions sample_pg ?f two_snap) = [(1, 0, Some 1)]"
    by (simp add: export_sessions_def matching_legs_eq allowed errors two_snap_def two_legs_def Let_def
        sample_leg_fields second_leg_group session_row_fields windowed_vodacom export_units_def ceil_div_def)
qed

end
