(* ===== verification/Export_Queue.thy ===== *)
theory Export_Queue
  imports Exporting Actions
begin

text \<open>
  The export queue: requesting an export (\<^verbatim>\<open>(authed)/exports/actions.ts\<close>, \<^verbatim>\<open>lib/exports.ts\<close>), what the
  worker does to the queue's rows and to the files (\<^verbatim>\<open>worker/exports_worker.mjs\<close>), and the download
  (\<^verbatim>\<open>api/exports/[id]/download/route.ts\<close>).
\<close>

section \<open>lib/exports.ts\<close>

definition find_export :: "db \<Rightarrow> int \<Rightarrow> export_row option" where
  "find_export d i = List.find (\<lambda>e. e_id e = i) (exports d)"

definition upd_export :: "int \<Rightarrow> (export_row \<Rightarrow> export_row) \<Rightarrow> db \<Rightarrow> db" where
  "upd_export i f d = d\<lparr>exports := map (\<lambda>e. if e_id e = i then f e else e) (exports d)\<rparr>"

definition listExportsForUser :: "int \<Rightarrow> db \<Rightarrow> export_row list" where
  "listExportsForUser userId d = take 100 (sort_key (\<lambda>e. - e_requested_at e) (filter (\<lambda>e. e_user e = userId) (exports d)))"

definition getExportForUser :: "int \<Rightarrow> int \<Rightarrow> db \<Rightarrow> export_row option" where
  "getExportForUser exportId userId d = List.find (\<lambda>e. e_id e = exportId \<and> e_user e = userId) (exports d)"

record EnqueueArgs =
  en_userId :: int
  en_granularity :: granularity
  en_filters :: export_filters

definition enqueueExport :: "int \<Rightarrow> EnqueueArgs \<Rightarrow> db \<Rightarrow> exn + int \<times> db" where
  "enqueueExport now args d =
    (if find_user d (en_userId args) = None then Inl (PgError fk_violation None)
     else Inr (next_id d, d\<lparr>exports := exports d @ [\<lparr>e_id = next_id d, e_user = en_userId args,
         e_granularity = en_granularity args, e_filters = en_filters args, e_status = Queued, e_requested_at = now,
         e_started_at = None, e_completed_at = None, e_file_path = None, e_row_count = None, e_file_size = None,
         e_error = None\<rparr>], next_id := next_id d + 1\<rparr>))"

section \<open>The request\<close>

definition strArrayField :: "form \<Rightarrow> string \<Rightarrow> string list" where
  "strArrayField fd k = filter (\<lambda>v. v \<noteq> []) (map (trim \<circ> snd) (filter (\<lambda>(k', v). k' = k) fd))"

definition intArrayField :: "form \<Rightarrow> string \<Rightarrow> int list" where
  "intArrayField fd k = List.map_filter js_parseInt (strArrayField fd k)"

definition gran_str :: "granularity \<Rightarrow> string" where
  "gran_str gran = (case gran of Legs \<Rightarrow> ''legs'' | Sessions \<Rightarrow> ''sessions'')"

definition request_filters :: "SessionClaims \<Rightarrow> form \<Rightarrow> export_filters" where
  "request_filters session fd = \<lparr>xf_from = fd_opt fd ''from'', xf_to = fd_opt fd ''to'', xf_msisdn = fd_opt fd ''msisdn'',
     xf_session_id = fd_opt fd ''session_id'',
     xf_error_class = Some (case fd_opt fd ''error_class'' of None \<Rightarrow> ''any'' | Some v \<Rightarrow> v),
     xf_operators = strArrayField fd ''operator'', xf_shortcodeIds = intArrayField fd ''shortcode_id'',
     xf_allowedShortcodeIds = c_shortcodeIds session,
     xf_allowedShortcodeFrom = map_option (map (\<lambda>i. case map_of (case c_shortcodeFrom session of None \<Rightarrow> [] | Some m \<Rightarrow> m)
         (js_String i) of None \<Rightarrow> 0 | Some f \<Rightarrow> f)) (c_shortcodeIds session),
     xf_requested_by_email = c_email session, xf_requested_by_role = c_role session\<rparr>"

definition actionCreateExport :: "'j app \<Rightarrow> 'j http_req \<Rightarrow> form \<Rightarrow> db \<Rightarrow> 'j acted" where
  "actionCreateExport ap rq fd d = (case req_session ap rq d of None \<Rightarrow> act_go ''/login'' d
     | Some session \<Rightarrow>
        (let gran = (if fd_str fd ''granularity'' = ''sessions'' then Sessions else Legs);
             filters = request_filters session fd
         in case enqueueExport (hr_now rq) \<lparr>en_userId = session_id session, en_granularity = gran, en_filters = filters\<rparr> d of
              Inl e \<Rightarrow> (Throws e, None, d)
            | Inr (i, d1) \<Rightarrow> act_go ''/exports'' (log_audit rq (Some (c_email session)) ''export.create''
                (Some (js_String i)) Success (Some (JObj [(''id'', JNum i), (''granularity'', JStr (gran_str gran)),
                  (''from'', opt_json JStr (xf_from filters)), (''to'', opt_json JStr (xf_to filters)),
                  (''operators'', JArr (map JStr (xf_operators filters))),
                  (''shortcode_ids'', JArr (map JNum (xf_shortcodeIds filters))),
                  (''msisdn'', opt_json (\<lambda>_. JStr ''redacted'') (xf_msisdn filters))])) d1)))"

section \<open>The worker's statements\<close>

type_synonym files = "string \<Rightarrow> string option"

definition claimOne :: "int \<Rightarrow> (int \<Rightarrow> bool) \<Rightarrow> db \<Rightarrow> export_row option \<times> db" where
  \<comment> \<open>the second argument: rows another transaction holds locked\<close>
  "claimOne now locked d =
    (case sort_key e_id (filter (\<lambda>e. e_status e = Queued \<and> \<not> locked (e_id e)) (exports d)) of
       [] \<Rightarrow> (None, d)
     | row # _ \<Rightarrow> (Some row, upd_export (e_id row) (\<lambda>e. e\<lparr>e_status := Running, e_started_at := Some now\<rparr>) d))"

definition finalize :: "int \<Rightarrow> int \<Rightarrow> string \<Rightarrow> nat \<Rightarrow> nat \<Rightarrow> db \<Rightarrow> db" where
  "finalize now i path rows bytes d = upd_export i (\<lambda>e. e\<lparr>e_status := Ready, e_completed_at := Some now,
     e_file_path := Some path, e_row_count := Some (int rows), e_file_size := Some (int bytes)\<rparr>) d"

definition failJob :: "int \<Rightarrow> int \<Rightarrow> string \<Rightarrow> db \<Rightarrow> db" where
  "failJob now i msg d = upd_export i (\<lambda>e. e\<lparr>e_status := Failed, e_completed_at := Some now,
     e_error := Some (take 2000 msg)\<rparr>) d"

definition reapable :: "int \<Rightarrow> int \<Rightarrow> export_row \<Rightarrow> bool" where
  "reapable now secs e \<longleftrightarrow> e_status e = Running
     \<and> (case e_started_at e of None \<Rightarrow> False | Some t \<Rightarrow> t < now - secs * 1000000)"

definition reapZombies :: "int \<Rightarrow> int \<Rightarrow> db \<Rightarrow> db" where
  "reapZombies now secs d = d\<lparr>exports := map (\<lambda>e. if reapable now secs e
     then e\<lparr>e_status := Queued, e_started_at := None\<rparr> else e) (exports d)\<rparr>"

definition sweep_candidates :: "int \<Rightarrow> int \<Rightarrow> db \<Rightarrow> (int \<times> string) list" where
  "sweep_candidates now hours d = take 1000 (map (\<lambda>e. (e_id e, str_of (e_file_path e)))
     (sort_key e_id (filter (\<lambda>e. e_status e = Ready \<and> e_file_path e \<noteq> None
        \<and> (case e_completed_at e of None \<Rightarrow> False | Some t \<Rightarrow> t < now - hours * 3600 * 1000000)) (exports d))))"

definition sweep_row :: "(string \<Rightarrow> bool) \<Rightarrow> (int \<Rightarrow> bool) \<Rightarrow> int \<times> string \<Rightarrow> db \<times> files \<Rightarrow> db \<times> files" where
  \<comment> \<open>\<open>unlinked p\<close>: the unlink does not fail; \<open>updated i\<close>: the UPDATE does not\<close>
  "sweep_row unlinked updated ip s =
    (if updated (fst ip) then upd_export (fst ip) (\<lambda>e. e\<lparr>e_status := Expired, e_file_path := None\<rparr>) (fst s) else fst s,
     if unlinked (snd ip) then (snd s)(snd ip := None) else snd s)"

definition sweepRetention :: "(string \<Rightarrow> bool) \<Rightarrow> (int \<Rightarrow> bool) \<Rightarrow> int \<Rightarrow> int \<Rightarrow> db \<times> files \<Rightarrow> db \<times> files" where
  "sweepRetention unlinked updated now hours s =
    foldl (\<lambda>s ip. sweep_row unlinked updated ip s) s (sweep_candidates now hours (fst s))"

definition maintenanceTick :: "(string \<Rightarrow> bool) \<Rightarrow> (int \<Rightarrow> bool) \<Rightarrow> int \<Rightarrow> int \<Rightarrow> int \<Rightarrow> db \<times> files \<Rightarrow> db \<times> files" where
  "maintenanceTick unlinked updated now secs hours s =
    sweepRetention unlinked updated now hours (reapZombies now secs (fst s), snd s)"

definition computeRetentionHours :: "string option \<Rightarrow> string option \<Rightarrow> int option" where
  \<comment> \<open>\<open>EXPORTS_RETENTION_HOURS\<close> and \<open>EXPORTS_RETENTION_DAYS\<close>; \<open>None\<close> is NaN\<close>
  "computeRetentionHours h dys = (if truthy h then js_Number (str_of h)
     else if truthy dys then map_option (\<lambda>n. n * 24) (js_Number (str_of dys)) else Some 12)"

definition export_path :: "string \<Rightarrow> int \<Rightarrow> string" where
  "export_path dir i = dir @ ''/export_'' @ js_String i @ ''.csv''"

definition finish_job :: "string \<Rightarrow> int \<Rightarrow> export_row \<Rightarrow> string + string \<times> nat \<Rightarrow> string option \<Rightarrow> db \<times> files \<Rightarrow> db \<times> files" where
  \<comment> \<open>the end of \<open>processJob\<close> and of \<open>tick\<close>; \<open>left\<close> is what a destroyed stream leaves on disk\<close>
  "finish_job dir now job res left s = (case res of
     Inr (text, n) \<Rightarrow> (finalize now (e_id job) (export_path dir (e_id job)) n (length (utf8_encode (units text))) (fst s),
        (snd s)(export_path dir (e_id job) := Some text))
   | Inl msg \<Rightarrow> (failJob now (e_id job) msg (fst s), (snd s)(export_path dir (e_id job) := left)))"

section \<open>The download\<close>

definition status_str :: "export_status \<Rightarrow> string" where
  "status_str st = (case st of Queued \<Rightarrow> ''queued'' | Running \<Rightarrow> ''running'' | Ready \<Rightarrow> ''ready'' | Failed \<Rightarrow> ''failed''
     | Expired \<Rightarrow> ''expired'')"

definition download_GET :: "'j app \<Rightarrow> 'j http_req \<Rightarrow> string \<Rightarrow> db \<Rightarrow> files \<Rightarrow> 'j reply \<times> db" where
  "download_GET ap rq idStr d fs = (case req_session ap rq d of None \<Rightarrow> (reply_error 401 ''unauthorized'', d)
     | Some session \<Rightarrow> (case js_parseInt idStr of None \<Rightarrow> (reply_error 400 ''bad id'', d)
       | Some i \<Rightarrow> (case getExportForUser i (session_id session) d of
           None \<Rightarrow> (reply_error 404 ''not found'', log_audit rq (Some (c_email session)) ''export.download''
              (Some (js_String i)) Denied (reason ''not found or not owned'') d)
         | Some row \<Rightarrow> if e_status row \<noteq> Ready \<or> \<not> truthy (e_file_path row)
             then (reply_error 409 (''export not ready (status='' @ status_str (e_status row) @ '')''), d)
             else (case fs (str_of (e_file_path row)) of None \<Rightarrow> (reply_error 410 ''file missing on disk'', d)
               | Some text \<Rightarrow> (\<lparr>rp_status = 200, rp_body = RText text, rp_cookie = None\<rparr>,
                   log_audit rq (Some (c_email session)) ''export.download'' (Some (js_String i)) Success
                     (Some (JObj [(''id'', JNum i), (''granularity'', JStr (gran_str (e_granularity row))),
                        (''size_bytes'', JNum (int (length (utf8_encode (units text)))))])) d)))))"

end
