(* ===== verification/Export_Lifecycle.thy ===== *)
theory Export_Lifecycle
  imports Export_Queue
begin

text \<open>
  The export queue as a system: requests, any number of workers that claim, run and finish jobs or die,
  the reaper and the retention sweep, in any order.  The documented lifecycle of a job is the abstract
  state machine; the system refines it as long as the reaper only reaps jobs whose worker is gone.
\<close>

section \<open>The documented lifecycle\<close>

inductive lifecycle :: "export_status option \<Rightarrow> export_status option \<Rightarrow> bool" where
  requested: "lifecycle None (Some Queued)"
| claimed: "lifecycle (Some Queued) (Some Running)"
| completed: "lifecycle (Some Running) (Some Ready)"
| failed: "lifecycle (Some Running) (Some Failed)"
| reaped: "lifecycle (Some Running) (Some Queued)"
| swept: "lifecycle (Some Ready) (Some Expired)"

inductive_simps lifecycle_iff: "lifecycle a b"

section \<open>The system\<close>

record sys =
  y_now :: int
  y_db :: db
  y_files :: files
  y_work :: "nat \<Rightarrow> export_row option"      \<comment> \<open>the job a worker is running\<close>
  y_sweep :: "(int \<times> string) list"          \<comment> \<open>rows a sweep has selected and not yet expired\<close>

record deployment =
  dp_pg :: pg
  dp_le :: "string \<Rightarrow> string \<Rightarrow> bool"
  dp_render :: render
  dp_chunk :: nat
  dp_dir :: string
  dp_reap_secs :: int
  dp_hours :: int

definition job_result :: "deployment \<Rightarrow> export_row \<Rightarrow> string + string \<times> nat \<Rightarrow> bool" where
  "job_result p job res \<longleftrightarrow> (\<exists>w. processJob (dp_pg p) (dp_le p) (dp_render p) (dp_chunk p) w (e_granularity job)
     (e_filters job) = Some res)"

definition reaps_live :: "deployment \<Rightarrow> sys \<Rightarrow> bool" where
  \<comment> \<open>the reaper would take a job from a worker that is running it\<close>
  "reaps_live p s \<longleftrightarrow> (\<exists>w job. \<exists>e \<in> set (exports (y_db s)). y_work s w = Some job \<and> e_id e = e_id job
     \<and> reapable (y_now s) (dp_reap_secs p) e)"

inductive sys_step :: "deployment \<Rightarrow> bool \<Rightarrow> sys \<Rightarrow> sys \<Rightarrow> bool" for p prompt where
  later: "y_now s \<le> t \<Longrightarrow> sys_step p prompt s (s\<lparr>y_now := t\<rparr>)"
| other: "exports d' = exports (y_db s) \<Longrightarrow> next_id (y_db s) \<le> next_id d' \<Longrightarrow> sys_step p prompt s (s\<lparr>y_db := d'\<rparr>)"
| request: "enqueueExport (y_now s) args (y_db s) = Inr (i, d') \<Longrightarrow> sys_step p prompt s (s\<lparr>y_db := d'\<rparr>)"
| claim: "y_work s w = None \<Longrightarrow> claimOne (y_now s) locked (y_db s) = (Some row, d')
    \<Longrightarrow> sys_step p prompt s (s\<lparr>y_db := d', y_work := (y_work s)(w := Some row)\<rparr>)"
| finish: "y_work s w = Some job \<Longrightarrow> job_result p job res
    \<Longrightarrow> finish_job (dp_dir p) (y_now s) job res left (y_db s, y_files s) = (d', fs')
    \<Longrightarrow> sys_step p prompt s (s\<lparr>y_db := d', y_files := fs', y_work := (y_work s)(w := None)\<rparr>)"
| crash: "y_work s w = Some job
    \<Longrightarrow> sys_step p prompt s (s\<lparr>y_files := (y_files s)(export_path (dp_dir p) (e_id job) := left), y_work := (y_work s)(w := None)\<rparr>)"
| reap: "(prompt \<Longrightarrow> \<not> reaps_live p s)
    \<Longrightarrow> sys_step p prompt s (s\<lparr>y_db := reapZombies (y_now s) (dp_reap_secs p) (y_db s)\<rparr>)"
| sweep_select: "sys_step p prompt s (s\<lparr>y_sweep := y_sweep s @ sweep_candidates (y_now s) (dp_hours p) (y_db s)\<rparr>)"
| sweep_one: "ip \<in> set (y_sweep s) \<Longrightarrow> sweep_row unlinked updated ip (y_db s, y_files s) = (d', fs')
    \<Longrightarrow> sys_step p prompt s (s\<lparr>y_db := d', y_files := fs', y_sweep := remove1 ip (y_sweep s)\<rparr>)"

inductive reach :: "deployment \<Rightarrow> bool \<Rightarrow> sys \<Rightarrow> bool" for p prompt where
  start: "exports d = [] \<Longrightarrow> reach p prompt \<lparr>y_now = t, y_db = d, y_files = fs, y_work = (\<lambda>_. None), y_sweep = []\<rparr>"
| step: "reach p prompt s \<Longrightarrow> sys_step p prompt s s' \<Longrightarrow> reach p prompt s'"

definition status_of :: "sys \<Rightarrow> int \<Rightarrow> export_status option" where
  "status_of s i = map_option e_status (find_export (y_db s) i)"

section \<open>Rows\<close>

lemma upd_export_simps [simp]:
  "next_id (upd_export i f d) = next_id d"
  "exports (upd_export i f d) = map (\<lambda>e. if e_id e = i then f e else e) (exports d)"
  by (simp_all add: upd_export_def)

definition same_job :: "export_row \<Rightarrow> export_row \<Rightarrow> bool" where
  "same_job e e' \<longleftrightarrow> e_id e = e_id e' \<and> e_user e = e_user e' \<and> e_granularity e = e_granularity e'
     \<and> e_filters e = e_filters e'"

lemma claimOne_Some:
  assumes "claimOne now locked d = (Some row, d')"
  shows "row \<in> set (exports d)" "e_status row = Queued" "\<not> locked (e_id row)"
    "d' = upd_export (e_id row) (\<lambda>e. e\<lparr>e_status := Running, e_started_at := Some now\<rparr>) d"
    "\<forall>e \<in> set (exports d). e_status e = Queued \<and> \<not> locked (e_id e) \<longrightarrow> e_id row \<le> e_id e"
proof -
  let ?q = "filter (\<lambda>e. e_status e = Queued \<and> \<not> locked (e_id e)) (exports d)"
  obtain rest where q: "sort_key e_id ?q = row # rest"
    and d': "d' = upd_export (e_id row) (\<lambda>e. e\<lparr>e_status := Running, e_started_at := Some now\<rparr>) d"
    using assms by (auto simp: claimOne_def split: list.splits)
  have "row \<in> set ?q" using arg_cong [OF q, of set] by auto
  then show "row \<in> set (exports d)" "e_status row = Queued" "\<not> locked (e_id row)" by auto
  show "d' = upd_export (e_id row) (\<lambda>e. e\<lparr>e_status := Running, e_started_at := Some now\<rparr>) d" by (fact d')
  have "sorted (map e_id (row # rest))" using sorted_sort_key [of e_id ?q] q by simp
  moreover have "e \<in> set (row # rest)" if "e \<in> set ?q" for e using that arg_cong [OF q, of set] by auto
  ultimately show "\<forall>e \<in> set (exports d). e_status e = Queued \<and> \<not> locked (e_id e) \<longrightarrow> e_id row \<le> e_id e"
    by fastforce
qed

definition file_of :: "deployment \<Rightarrow> export_row \<Rightarrow> string" where
  "file_of p e = export_path (dp_dir p) (e_id e)"

lemma export_path_inj: "export_path dir i = export_path dir j \<longleftrightarrow> i = j"
  by (simp add: export_path_def)

section \<open>The invariant\<close>

definition wf_rows :: "sys \<Rightarrow> bool" where
  "wf_rows s \<longleftrightarrow> distinct (map e_id (exports (y_db s))) \<and> (\<forall>e \<in> set (exports (y_db s)). e_id e < next_id (y_db s))"

definition wf_work :: "sys \<Rightarrow> bool" where
  \<comment> \<open>a worker's job is marked running, and no other worker has it\<close>
  "wf_work s \<longleftrightarrow> (\<forall>w job. y_work s w = Some job \<longrightarrow>
     (\<exists>e \<in> set (exports (y_db s)). same_job e job \<and> e_status e = Running)
     \<and> (\<forall>w' job'. y_work s w' = Some job' \<longrightarrow> e_id job' = e_id job \<longrightarrow> w' = w))"

definition wf_sweep :: "deployment \<Rightarrow> sys \<Rightarrow> bool" where
  "wf_sweep p s \<longleftrightarrow> (\<forall>ip \<in> set (y_sweep s). fst ip < next_id (y_db s) \<and> snd ip = export_path (dp_dir p) (fst ip)
     \<and> (\<forall>e \<in> set (exports (y_db s)). e_id e = fst ip \<longrightarrow> e_status e = Ready \<or> e_status e = Expired))"

definition wf_ready :: "deployment \<Rightarrow> sys \<Rightarrow> bool" where
  \<comment> \<open>the file of a finished job is what that job produced, unless it is gone\<close>
  "wf_ready p s \<longleftrightarrow> (\<forall>e \<in> set (exports (y_db s)). e_status e = Ready \<longrightarrow> e_file_path e = Some (file_of p e)
     \<and> (\<forall>text. y_files s (file_of p e) = Some text \<longrightarrow> (\<exists>n. job_result p e (Inr (text, n)))))"

definition queue_inv :: "deployment \<Rightarrow> sys \<Rightarrow> bool" where
  "queue_inv p s \<longleftrightarrow> wf_rows s \<and> wf_work s \<and> wf_sweep p s \<and> wf_ready p s"

lemma row_unique:
  "wf_rows s \<Longrightarrow> e \<in> set (exports (y_db s)) \<Longrightarrow> e' \<in> set (exports (y_db s)) \<Longrightarrow> e_id e = e_id e' \<Longrightarrow> e = e'"
  unfolding wf_rows_def by (blast intro: distinct_map_filter_unique)

lemma job_result_same: "same_job e e' \<Longrightarrow> job_result p e = job_result p e'"
  by (simp add: job_result_def same_job_def fun_eq_iff)

definition keeps_job :: "(export_row \<Rightarrow> export_row) \<Rightarrow> bool" where
  "keeps_job f \<longleftrightarrow> (\<forall>e. same_job (f e) e)"

lemma keeps_jobD: "keeps_job f \<Longrightarrow> e_id (f e) = e_id e" "keeps_job f \<Longrightarrow> same_job (f e) e"
  by (simp_all add: keeps_job_def same_job_def)

definition rewritten :: "(export_row \<Rightarrow> export_row) \<Rightarrow> sys \<Rightarrow> sys \<Rightarrow> bool" where
  \<comment> \<open>the step rewrites the rows one by one, keeping what they ask for\<close>
  "rewritten f s s' \<longleftrightarrow> keeps_job f \<and> exports (y_db s') = map f (exports (y_db s)) \<and> next_id (y_db s) \<le> next_id (y_db s')"

lemma rewrittenD:
  assumes "rewritten f s s'"
  shows "exports (y_db s') = map f (exports (y_db s))" "next_id (y_db s) \<le> next_id (y_db s')"
    "e_id (f e) = e_id e" "same_job (f e) e"
  using assms keeps_jobD by (auto simp: rewritten_def)

lemma wf_rows_rewritten:
  assumes "wf_rows s" "rewritten f s s'"
  shows "wf_rows s'"
proof -
  have "e_id \<circ> f = e_id" using rewrittenD(3) [OF assms(2)] by (simp add: fun_eq_iff)
  then show ?thesis
    using assms(1) rewrittenD(1,2) [OF assms(2)] rewrittenD(3) [OF assms(2)] by (force simp: wf_rows_def)
qed

lemma wf_work_rewritten:
  assumes "wf_work s" "rewritten f s s'"
    and "\<And>e w job. e \<in> set (exports (y_db s)) \<Longrightarrow> e_status e = Running \<Longrightarrow> y_work s' w = Some job \<Longrightarrow> e_id job = e_id e
      \<Longrightarrow> e_status (f e) = Running"
    and "\<And>w job. y_work s' w = Some job \<Longrightarrow> y_work s w = Some job"
  shows "wf_work s'"
  unfolding wf_work_def
proof (intro allI impI conjI)
  fix w job assume w: "y_work s' w = Some job"
  then have y: "y_work s w = Some job" by (rule assms(4))
  then obtain e where e: "e \<in> set (exports (y_db s))" "same_job e job" "e_status e = Running"
    using assms(1) unfolding wf_work_def by blast
  moreover have "e_status (f e) = Running" using assms(3) [OF e(1,3) w] e(2) by (simp add: same_job_def)
  moreover have "same_job (f e) job" using rewrittenD(4) [OF assms(2), of e] e(2) by (simp add: same_job_def)
  ultimately show "\<exists>e \<in> set (exports (y_db s')). same_job e job \<and> e_status e = Running"
    by (auto simp: rewrittenD(1) [OF assms(2)])
  show "w' = w" if "y_work s' w' = Some job'" "e_id job' = e_id job" for w' job'
    using that assms(1) y assms(4) [of w' job'] unfolding wf_work_def by simp
qed

lemma wf_sweep_rewritten:
  assumes "wf_sweep p s" "rewritten f s s'"
    and "\<And>e. e \<in> set (exports (y_db s)) \<Longrightarrow> e_id e \<in> fst ` set (y_sweep s) \<Longrightarrow> e_status e = Ready \<or> e_status e = Expired
      \<Longrightarrow> e_status (f e) = Ready \<or> e_status (f e) = Expired"
    and "set (y_sweep s') \<subseteq> set (y_sweep s)"
  shows "wf_sweep p s'"
  unfolding wf_sweep_def
proof
  fix ip assume "ip \<in> set (y_sweep s')"
  then have ip: "ip \<in> set (y_sweep s)" using assms(4) by blast
  with assms(1) have w: "fst ip < next_id (y_db s)" "snd ip = export_path (dp_dir p) (fst ip)"
    "\<And>e. e \<in> set (exports (y_db s)) \<Longrightarrow> e_id e = fst ip \<Longrightarrow> e_status e = Ready \<or> e_status e = Expired"
    unfolding wf_sweep_def by blast+
  have "e_status (f e) = Ready \<or> e_status (f e) = Expired" if "e \<in> set (exports (y_db s))" "e_id e = fst ip" for e
    using assms(3) [OF that(1) _ w(3) [OF that]] that(2) ip by force
  then show "fst ip < next_id (y_db s') \<and> snd ip = export_path (dp_dir p) (fst ip)
      \<and> (\<forall>e \<in> set (exports (y_db s')). e_id e = fst ip \<longrightarrow> e_status e = Ready \<or> e_status e = Expired)"
    using w(1,2) rewrittenD(2) [OF assms(2)] by (auto simp: rewrittenD(1,3) [OF assms(2)])
qed

lemma wf_ready_rewritten:
  assumes "wf_ready p s" "rewritten f s s'"
    and "\<And>e. e \<in> set (exports (y_db s)) \<Longrightarrow> e_status (f e) = Ready \<Longrightarrow> f e = e
       \<and> (y_files s' (file_of p e) = y_files s (file_of p e) \<or> y_files s' (file_of p e) = None)
      \<or> e_file_path (f e) = Some (file_of p e)
       \<and> (\<forall>text. y_files s' (file_of p e) = Some text \<longrightarrow> (\<exists>n. job_result p e (Inr (text, n))))"
  shows "wf_ready p s'"
  unfolding wf_ready_def
proof
  fix e' assume "e' \<in> set (exports (y_db s'))"
  then obtain e where e: "e \<in> set (exports (y_db s))" "e' = f e" by (auto simp: rewrittenD(1) [OF assms(2)])
  have k: "file_of p e' = file_of p e" "job_result p e' = job_result p e"
    using rewrittenD(3,4) [OF assms(2), of e] job_result_same by (auto simp: e(2) file_of_def)
  show "e_status e' = Ready \<longrightarrow> e_file_path e' = Some (file_of p e')
      \<and> (\<forall>text. y_files s' (file_of p e') = Some text \<longrightarrow> (\<exists>n. job_result p e' (Inr (text, n))))"
    using assms(1,3) e k unfolding wf_ready_def by fastforce
qed

lemma rewritten_refl: "exports (y_db s') = exports (y_db s) \<Longrightarrow> next_id (y_db s) \<le> next_id (y_db s') \<Longrightarrow> rewritten id s s'"
  by (simp add: rewritten_def keeps_job_def same_job_def)

lemma rewritten_upd:
  "keeps_job f \<Longrightarrow> y_db s' = upd_export i f (y_db s) \<Longrightarrow> rewritten (\<lambda>e. if e_id e = i then f e else e) s s'"
  by (auto simp: rewritten_def keeps_job_def same_job_def)

lemma running_row:
  assumes "wf_rows s" "wf_work s" "y_work s w = Some job" "e \<in> set (exports (y_db s))" "e_id e = e_id job"
  shows "e_status e = Running \<and> same_job e job"
  using assms row_unique [OF assms(1,4)] unfolding wf_work_def same_job_def by metis

section \<open>Every step keeps it\<close>

lemma inv_parts:
  "queue_inv p s \<Longrightarrow> wf_rows s" "queue_inv p s \<Longrightarrow> wf_work s" "queue_inv p s \<Longrightarrow> wf_sweep p s" "queue_inv p s \<Longrightarrow> wf_ready p s"
  by (simp_all add: queue_inv_def)

lemma inv_untouched:
  assumes "queue_inv p s" "exports (y_db s') = exports (y_db s)" "next_id (y_db s) \<le> next_id (y_db s')"
    "y_files s' = y_files s" "y_work s' = y_work s" "y_sweep s' = y_sweep s"
  shows "queue_inv p s'"
proof -
  have r: "rewritten id s s'" by (rule rewritten_refl [OF assms(2,3)])
  show ?thesis
    unfolding queue_inv_def using assms(4-)
    by (auto intro: wf_rows_rewritten [OF inv_parts(1) [OF assms(1)] r] wf_work_rewritten [OF inv_parts(2) [OF assms(1)] r]
        wf_sweep_rewritten [OF inv_parts(3) [OF assms(1)] r] wf_ready_rewritten [OF inv_parts(4) [OF assms(1)] r])
qed

lemma inv_request:
  assumes "queue_inv p s" "enqueueExport now args (y_db s) = Inr (i, d')"
  shows "queue_inv p (s\<lparr>y_db := d'\<rparr>)"
proof -
  obtain e where d': "exports d' = exports (y_db s) @ [e]" "next_id d' = next_id (y_db s) + 1"
    and e: "e_id e = next_id (y_db s)" "e_status e = Queued"
    using assms(2) by (auto simp: enqueueExport_def split: if_splits)
  note inv = assms(1) [unfolded queue_inv_def]
  have "wf_rows (s\<lparr>y_db := d'\<rparr>)" using inv by (auto simp: wf_rows_def d' e)
  moreover have "wf_work (s\<lparr>y_db := d'\<rparr>)" using inv by (fastforce simp: wf_work_def d')
  moreover have "wf_sweep p (s\<lparr>y_db := d'\<rparr>)" using inv by (fastforce simp: wf_sweep_def d' e)
  moreover have "wf_ready p (s\<lparr>y_db := d'\<rparr>)" using inv by (auto simp: wf_ready_def d' e)
  ultimately show ?thesis by (simp add: queue_inv_def)
qed

lemma inv_claim:
  assumes "queue_inv p s" "y_work s w = None" "claimOne now locked (y_db s) = (Some row, d')"
  shows "queue_inv p (s\<lparr>y_db := d', y_work := (y_work s)(w := Some row)\<rparr>)"
proof -
  let ?f = "\<lambda>e. e\<lparr>e_status := Running, e_started_at := Some now\<rparr>"
  let ?s = "s\<lparr>y_db := d', y_work := (y_work s)(w := Some row)\<rparr>"
  note c = claimOne_Some [OF assms(3)]
  note inv = inv_parts [OF assms(1)]
  have r: "rewritten (\<lambda>e. if e_id e = e_id row then ?f e else e) s ?s"
    by (rule rewritten_upd) (simp_all add: keeps_job_def same_job_def c(4))
  have queued: "e_status e = Queued" if "e \<in> set (exports (y_db s))" "e_id e = e_id row" for e
    using row_unique [OF inv(1) that(1) c(1) that(2)] c(2) by simp
  have idle: "e_id job \<noteq> e_id row" if "y_work s w' = Some job" for w' job
    using that inv(2) queued unfolding wf_work_def same_job_def by fastforce
  have "wf_work ?s"
    unfolding wf_work_def
  proof (intro allI impI conjI)
    fix w1 job assume "y_work ?s w1 = Some job"
    then have w1: "w1 = w \<and> job = row \<or> w1 \<noteq> w \<and> y_work s w1 = Some job" by (auto split: if_splits)
    show "\<exists>e \<in> set (exports (y_db ?s)). same_job e job \<and> e_status e = Running"
    proof (cases "w1 = w")
      case True
      then have "?f row \<in> set (exports (y_db ?s))" using c(1) by (auto simp: c(4) intro!: image_eqI [of _ _ row])
      then show ?thesis using True w1 by (intro bexI [of _ "?f row"]) (simp_all add: same_job_def)
    next
      case False
      with w1 inv(2) obtain e where e: "e \<in> set (exports (y_db s))" "same_job e job" "e_status e = Running"
        unfolding wf_work_def by blast
      then have "e \<in> set (exports (y_db ?s))" using queued by (force simp: c(4))
      with e show ?thesis by blast
    qed
    show "w' = w1" if "y_work ?s w' = Some job'" "e_id job' = e_id job" for w' job'
      using that w1 idle inv(2) by (auto simp: wf_work_def split: if_splits)
  qed
  moreover have "wf_sweep p ?s"
    by (rule wf_sweep_rewritten [OF inv(3) r]) (use queued in \<open>auto split: if_splits\<close>)
  moreover have "wf_ready p ?s" by (rule wf_ready_rewritten [OF inv(4) r]) auto
  ultimately show ?thesis using wf_rows_rewritten [OF inv(1) r] by (simp add: queue_inv_def)
qed

lemma inv_finish:
  assumes "queue_inv p s" "y_work s w = Some job" "job_result p job res"
    and "finish_job (dp_dir p) now job res left (y_db s, y_files s) = (d', fs')"
  shows "queue_inv p (s\<lparr>y_db := d', y_files := fs', y_work := (y_work s)(w := None)\<rparr>)"
proof -
  let ?s = "s\<lparr>y_db := d', y_files := fs', y_work := (y_work s)(w := None)\<rparr>"
  note inv = inv_parts [OF assms(1)]
  obtain f where f: "keeps_job f" "d' = upd_export (e_id job) f (y_db s)"
    and ready: "\<And>e. e_status (f e) = Ready \<Longrightarrow> e_file_path (f e) = Some (file_of p job)
        \<and> (\<exists>text n. fs' (file_of p job) = Some text \<and> res = Inr (text, n))"
    and files: "\<And>q. q \<noteq> file_of p job \<Longrightarrow> fs' q = y_files s q"
  proof (cases res)
    case (Inl msg)
    show ?thesis
      by (rule that [of "\<lambda>e. e\<lparr>e_status := Failed, e_completed_at := Some now, e_error := Some (take 2000 msg)\<rparr>"])
        (use assms(4) Inl in \<open>auto simp: finish_job_def failJob_def keeps_job_def same_job_def file_of_def\<close>)
  next
    case (Inr tn)
    obtain csv n where tn: "tn = (csv, n)" by fastforce
    show ?thesis
      by (rule that [of "\<lambda>e. e\<lparr>e_status := Ready, e_completed_at := Some now, e_file_path := Some (file_of p job),
           e_row_count := Some (int n), e_file_size := Some (int (length (utf8_encode (units csv))))\<rparr>"])
        (use assms(4) Inr tn in \<open>auto simp: finish_job_def finalize_def keeps_job_def same_job_def file_of_def\<close>)
  qed
  have r: "rewritten (\<lambda>e. if e_id e = e_id job then f e else e) s ?s" by (rule rewritten_upd [OF f(1)]) (simp add: f(2))
  have run: "e_status e = Running \<and> same_job e job" if "e \<in> set (exports (y_db s))" "e_id e = e_id job" for e
    using running_row [OF inv(1,2) assms(2)] that by blast
  have "wf_work ?s"
  proof (rule wf_work_rewritten [OF inv(2) r])
    fix e :: export_row and w' job' assume "e_status e = Running" "y_work ?s w' = Some job'" "e_id job' = e_id e"
    then show "e_status (if e_id e = e_id job then f e else e) = Running"
      using inv(2) assms(2) by (auto simp: wf_work_def split: if_splits)
  qed (auto split: if_splits)
  moreover have "wf_sweep p ?s" by (rule wf_sweep_rewritten [OF inv(3) r]) (use run in \<open>auto split: if_splits\<close>)
  moreover have "wf_ready p ?s"
  proof (rule wf_ready_rewritten [OF inv(4) r])
    fix e assume e: "e \<in> set (exports (y_db s))" and st: "e_status (if e_id e = e_id job then f e else e) = Ready"
    show "(if e_id e = e_id job then f e else e) = e
        \<and> (y_files ?s (file_of p e) = y_files s (file_of p e) \<or> y_files ?s (file_of p e) = None)
      \<or> e_file_path (if e_id e = e_id job then f e else e) = Some (file_of p e)
        \<and> (\<forall>text. y_files ?s (file_of p e) = Some text \<longrightarrow> (\<exists>n. job_result p e (Inr (text, n))))"
    proof (cases "e_id e = e_id job")
      case True
      then have "file_of p e = file_of p job" by (simp add: file_of_def)
      moreover have "job_result p e = job_result p job" using run [OF e True] job_result_same by blast
      ultimately show ?thesis using True st ready [of e] assms(3) by auto
    next
      case False
      then show ?thesis using files [of "file_of p e"] by (simp add: file_of_def export_path_inj)
    qed
  qed
  ultimately show ?thesis using wf_rows_rewritten [OF inv(1) r] by (simp add: queue_inv_def)
qed

lemma inv_crash:
  assumes "queue_inv p s" "y_work s w = Some job"
  shows "queue_inv p (s\<lparr>y_files := (y_files s)(export_path (dp_dir p) (e_id job) := left), y_work := (y_work s)(w := None)\<rparr>)"
proof -
  let ?s = "s\<lparr>y_files := (y_files s)(export_path (dp_dir p) (e_id job) := left), y_work := (y_work s)(w := None)\<rparr>"
  note inv = inv_parts [OF assms(1)]
  have r: "rewritten id s ?s" by (rule rewritten_refl) simp_all
  have "wf_work ?s" by (rule wf_work_rewritten [OF inv(2) r]) (auto split: if_splits)
  moreover have "wf_sweep p ?s" by (rule wf_sweep_rewritten [OF inv(3) r]) simp_all
  moreover have "wf_ready p ?s"
    by (rule wf_ready_rewritten [OF inv(4) r])
      (use running_row [OF inv(1,2) assms(2)] in \<open>auto simp: file_of_def export_path_inj\<close>)
  ultimately show ?thesis using wf_rows_rewritten [OF inv(1) r] by (simp add: queue_inv_def)
qed

lemma inv_reap:
  assumes "queue_inv p s" "\<not> reaps_live p s"
  shows "queue_inv p (s\<lparr>y_db := reapZombies (y_now s) (dp_reap_secs p) (y_db s)\<rparr>)"
proof -
  let ?s = "s\<lparr>y_db := reapZombies (y_now s) (dp_reap_secs p) (y_db s)\<rparr>"
  let ?f = "\<lambda>e. if reapable (y_now s) (dp_reap_secs p) e then e\<lparr>e_status := Queued, e_started_at := None\<rparr> else e"
  note inv = inv_parts [OF assms(1)]
  have r: "rewritten ?f s ?s" by (simp add: rewritten_def keeps_job_def same_job_def reapZombies_def)
  have "wf_work ?s" by (rule wf_work_rewritten [OF inv(2) r]) (use assms(2) in \<open>auto simp: reaps_live_def\<close>)
  moreover have "wf_sweep p ?s" by (rule wf_sweep_rewritten [OF inv(3) r]) (auto simp: reapable_def)
  moreover have "wf_ready p ?s" by (rule wf_ready_rewritten [OF inv(4) r]) (auto split: if_splits)
  ultimately show ?thesis using wf_rows_rewritten [OF inv(1) r] by (simp add: queue_inv_def)
qed

lemma inv_sweep_select:
  assumes "queue_inv p s"
  shows "queue_inv p (s\<lparr>y_sweep := y_sweep s @ sweep_candidates now hours (y_db s)\<rparr>)"
proof -
  note inv = inv_parts [OF assms]
  have "fst ip < next_id (y_db s) \<and> snd ip = export_path (dp_dir p) (fst ip)
      \<and> (\<forall>e \<in> set (exports (y_db s)). e_id e = fst ip \<longrightarrow> e_status e = Ready \<or> e_status e = Expired)"
    if ip: "ip \<in> set (sweep_candidates now hours (y_db s))" for ip
  proof -
    obtain e where e: "e \<in> set (exports (y_db s))" "e_status e = Ready" "ip = (e_id e, str_of (e_file_path e))"
      using ip unfolding sweep_candidates_def by (auto dest!: in_set_takeD)
    moreover have "e_file_path e = Some (export_path (dp_dir p) (e_id e))"
      using inv(4) e by (simp add: wf_ready_def file_of_def)
    ultimately show ?thesis using inv(1) row_unique [OF inv(1) _ e(1)] by (auto simp: wf_rows_def str_of_def)
  qed
  then have "wf_sweep p (s\<lparr>y_sweep := y_sweep s @ sweep_candidates now hours (y_db s)\<rparr>)"
    using inv(3) by (auto simp: wf_sweep_def)
  then show ?thesis using assms by (simp add: queue_inv_def wf_rows_def wf_work_def wf_ready_def)
qed

lemma inv_sweep_one:
  assumes "queue_inv p s" "ip \<in> set (y_sweep s)" "sweep_row unlinked updated ip (y_db s, y_files s) = (d', fs')"
  shows "queue_inv p (s\<lparr>y_db := d', y_files := fs', y_sweep := remove1 ip (y_sweep s)\<rparr>)"
proof -
  let ?s = "s\<lparr>y_db := d', y_files := fs', y_sweep := remove1 ip (y_sweep s)\<rparr>"
  let ?f = "\<lambda>e. if e_id e = fst ip \<and> updated (fst ip) then e\<lparr>e_status := Expired, e_file_path := None\<rparr> else e"
  note inv = inv_parts [OF assms(1)]
  have r: "rewritten ?f s ?s"
    using assms(3) by (auto simp: rewritten_def keeps_job_def same_job_def sweep_row_def)
  have swept: "e_status e = Ready \<or> e_status e = Expired" if "e \<in> set (exports (y_db s))" "e_id e = fst ip" for e
    using inv(3) assms(2) that unfolding wf_sweep_def by blast
  have "wf_work ?s" by (rule wf_work_rewritten [OF inv(2) r]) (use swept in \<open>fastforce split: if_splits\<close>)+
  moreover have "wf_sweep p ?s"
    by (rule wf_sweep_rewritten [OF inv(3) r]) (auto dest: subsetD [OF set_remove1_subset] split: if_splits)
  moreover have "wf_ready p ?s"
    by (rule wf_ready_rewritten [OF inv(4) r]) (use assms(3) in \<open>auto simp: sweep_row_def split: if_splits\<close>)
  ultimately show ?thesis using wf_rows_rewritten [OF inv(1) r] by (simp add: queue_inv_def)
qed

lemma inv_step: "sys_step p True s s' \<Longrightarrow> queue_inv p s \<Longrightarrow> queue_inv p s'"
proof (induction rule: sys_step.induct)
  case (later s t)
  then show ?case by (auto intro: inv_untouched)
next
  case (other d' s)
  then show ?case by (auto intro: inv_untouched)
qed (simp_all add: inv_request inv_claim inv_finish inv_crash inv_reap inv_sweep_select inv_sweep_one)

lemma reach_inv: "reach p True s \<Longrightarrow> queue_inv p s"
proof (induction rule: reach.induct)
  case (start d t fs)
  then show ?case by (simp add: queue_inv_def wf_rows_def wf_work_def wf_sweep_def wf_ready_def)
next
  case (step s s')
  then show ?case using inv_step by blast
qed

section \<open>Refinement\<close>

lemma status_rewritten:
  assumes "rewritten f s s'" "wf_rows s"
  shows "status_of s' i = (case find_export (y_db s) i of None \<Rightarrow> None | Some e \<Rightarrow> Some (e_status (f e)))"
proof -
  have "List.find (\<lambda>e. e_id e = i) (map f es) = map_option f (List.find (\<lambda>e. e_id e = i) es)" for es
    by (induction es) (simp_all add: rewrittenD(3) [OF assms(1)])
  then show ?thesis
    by (simp add: status_of_def find_export_def rewrittenD(1) [OF assms(1)] split: option.splits)
qed

definition simulated :: "sys \<Rightarrow> sys \<Rightarrow> bool" where
  "simulated s s' \<longleftrightarrow> (\<forall>i. status_of s' i = status_of s i \<or> lifecycle (status_of s i) (status_of s' i))
     \<and> (\<forall>e \<in> set (exports (y_db s)). \<exists>e' \<in> set (exports (y_db s')). same_job e' e)"

lemma same_job_kept [intro]: "e \<in> A \<Longrightarrow> A \<subseteq> B \<Longrightarrow> \<exists>e' \<in> B. same_job e' e"
  by (auto simp: same_job_def)

lemma simulated_rewritten:
  assumes "rewritten f s s'" "wf_rows s"
    and "\<And>e. e \<in> set (exports (y_db s)) \<Longrightarrow> e_status (f e) = e_status e \<or> lifecycle (Some (e_status e)) (Some (e_status (f e)))"
  shows "simulated s s'"
  unfolding simulated_def
proof (intro conjI allI)
  show "\<forall>e \<in> set (exports (y_db s)). \<exists>e' \<in> set (exports (y_db s')). same_job e' e"
    using rewrittenD(1,4) [OF assms(1)] by auto
  fix i
  show "status_of s' i = status_of s i \<or> lifecycle (status_of s i) (status_of s' i)"
  proof (cases "find_export (y_db s) i")
    case None
    then show ?thesis by (simp add: status_rewritten [OF assms(1,2)]) (simp add: status_of_def)
  next
    case (Some e)
    then have "e \<in> set (exports (y_db s))" unfolding find_export_def by (drule_tac find_SomeD) simp
    from assms(3) [OF this] Some show ?thesis
      by (simp add: status_rewritten [OF assms(1,2)]) (simp add: status_of_def)
  qed
qed

lemma simulated_same: "y_db s' = y_db s \<Longrightarrow> simulated s s'"
  by (auto simp: simulated_def status_of_def intro!: same_job_kept)

lemma find_snoc:
  "List.find P (xs @ [x]) = (case List.find P xs of Some y \<Rightarrow> Some y | None \<Rightarrow> if P x then Some x else None)"
  by (induction xs) auto

lemma simulated_request:
  assumes "wf_rows s" "enqueueExport now args (y_db s) = Inr (i, d')"
  shows "simulated s (s\<lparr>y_db := d'\<rparr>)"
proof -
  obtain e where d': "exports d' = exports (y_db s) @ [e]" and e: "e_id e = next_id (y_db s)" "e_status e = Queued"
    using assms(2) by (auto simp: enqueueExport_def split: if_splits)
  have old: "e_id e' \<noteq> e_id e" if "e' \<in> set (exports (y_db s))" for e'
    using assms(1) that e by (auto simp: wf_rows_def)
  have "find_export d' j = (case find_export (y_db s) j of Some x \<Rightarrow> Some x | None \<Rightarrow> if j = e_id e then Some e else None)" for j
    by (simp add: find_export_def d' find_snoc split: option.splits)
  then have "status_of (s\<lparr>y_db := d'\<rparr>) j = status_of s j \<or> lifecycle (status_of s j) (status_of (s\<lparr>y_db := d'\<rparr>) j)" for j
    by (auto simp: status_of_def lifecycle_iff e split: option.splits)
  moreover have "\<exists>e' \<in> set (exports (y_db (s\<lparr>y_db := d'\<rparr>))). same_job e' x" if "x \<in> set (exports (y_db s))" for x
    by (rule same_job_kept [OF that]) (auto simp: d')
  ultimately show ?thesis unfolding simulated_def by blast
qed

lemma simulated_upd:
  assumes "wf_rows s" "keeps_job f" "y_db s' = upd_export j f (y_db s)"
    and "\<And>e. e \<in> set (exports (y_db s)) \<Longrightarrow> e_id e = j
      \<Longrightarrow> e_status (f e) = e_status e \<or> lifecycle (Some (e_status e)) (Some (e_status (f e)))"
  shows "simulated s s'"
  by (rule simulated_rewritten [OF rewritten_upd [OF assms(2,3)] assms(1)]) (use assms(4) in auto)

lemma step_simulated:
  assumes "sys_step p True s s'" "queue_inv p s"
  shows "simulated s s'"
  using assms
proof (induction rule: sys_step.induct)
  case (other d' s)
  then show ?case by (auto simp: simulated_def status_of_def find_export_def intro!: same_job_kept)
next
  case (request s args i d')
  then show ?case using simulated_request inv_parts(1) by blast
next
  case (claim s w locked row d')
  note c = claimOne_Some [OF claim(2)] and inv = inv_parts [OF claim(3)]
  show ?case
    by (rule simulated_upd [OF inv(1), where j = "e_id row" and f = "\<lambda>e. e\<lparr>e_status := Running, e_started_at := Some (y_now s)\<rparr>"])
      (use c row_unique [OF inv(1) _ c(1)] in \<open>auto simp: keeps_job_def same_job_def lifecycle_iff\<close>)
next
  case (finish s w job res left d' fs')
  note inv = inv_parts [OF finish(4)]
  have run: "e_status e = Running" if "e \<in> set (exports (y_db s))" "e_id e = e_id job" for e
    using running_row [OF inv(1,2) finish(1)] that by blast
  show ?case
  proof (cases res)
    case (Inl msg)
    show ?thesis
      by (rule simulated_upd [OF inv(1), where j = "e_id job"
            and f = "\<lambda>e. e\<lparr>e_status := Failed, e_completed_at := Some (y_now s), e_error := Some (take 2000 msg)\<rparr>"])
        (use finish(3) Inl run in \<open>auto simp: keeps_job_def same_job_def lifecycle_iff finish_job_def failJob_def\<close>)
  next
    case (Inr r)
    show ?thesis
      by (rule simulated_upd [OF inv(1), where j = "e_id job"
            and f = "\<lambda>e. e\<lparr>e_status := Ready, e_completed_at := Some (y_now s),
              e_file_path := Some (export_path (dp_dir p) (e_id job)), e_row_count := Some (int (snd r)),
              e_file_size := Some (int (length (utf8_encode (units (fst r)))))\<rparr>"])
        (use finish(3) Inr run in \<open>auto simp: keeps_job_def same_job_def lifecycle_iff finish_job_def finalize_def split: prod.splits\<close>)
  qed
next
  case (reap s)
  have "rewritten (\<lambda>e. if reapable (y_now s) (dp_reap_secs p) e then e\<lparr>e_status := Queued, e_started_at := None\<rparr> else e) s
      (s\<lparr>y_db := reapZombies (y_now s) (dp_reap_secs p) (y_db s)\<rparr>)"
    by (simp add: rewritten_def keeps_job_def same_job_def reapZombies_def)
  then show ?case
    by (rule simulated_rewritten [OF _ inv_parts(1) [OF reap(2)]]) (simp add: lifecycle_iff reapable_def)
next
  case (sweep_one ip s unlinked updated d' fs')
  note inv = inv_parts [OF sweep_one(3)]
  have swept: "e_status e = Ready \<or> e_status e = Expired" if "e \<in> set (exports (y_db s))" "e_id e = fst ip" for e
    using inv(3) sweep_one(1) that unfolding wf_sweep_def by blast
  show ?case
  proof (cases "updated (fst ip)")
    case True
    show ?thesis
      by (rule simulated_upd [OF inv(1), where j = "fst ip" and f = "\<lambda>e. e\<lparr>e_status := Expired, e_file_path := None\<rparr>"])
        (use sweep_one(2) swept True in \<open>force simp: keeps_job_def same_job_def lifecycle_iff sweep_row_def\<close>)+
  next
    case False
    then show ?thesis using sweep_one(2) by (intro simulated_same) (auto simp: sweep_row_def)
  qed
qed (auto intro: simulated_same)

text \<open>
  C16. The queue refines its documented lifecycle: in every state that requests, workers, the reaper and
  the sweep can reach, a step leaves the status of each job or takes it along an arrow of the lifecycle,
  never changes what a job asks for, and no two workers run one job, provided the reaper never reaps a
  job whose worker is still running it.
\<close>

theorem export_lifecycle_refined:
  assumes "reach p True s" "sys_step p True s s'"
  shows "(status_of s' i = status_of s i \<or> lifecycle (status_of s i) (status_of s' i))
    \<and> (\<forall>e \<in> set (exports (y_db s)). \<exists>e' \<in> set (exports (y_db s')). same_job e' e)
    \<and> (y_work s w = Some job \<and> y_work s w' = Some job' \<and> e_id job = e_id job' \<longrightarrow> w = w')"
proof -
  have "simulated s s'" using assms(2) reach_inv [OF assms(1)] by (rule step_simulated)
  then show ?thesis
    using inv_parts(2) [OF reach_inv [OF assms(1)]] unfolding simulated_def wf_work_def by blast
qed

section \<open>A job reaped while its worker runs\<close>

definition late_row :: export_row where
  "late_row = \<lparr>e_id = 10, e_user = 2, e_granularity = Legs, e_filters = open_export, e_status = Queued, e_requested_at = 0,
     e_started_at = None, e_completed_at = None, e_file_path = None, e_row_count = None, e_file_size = None, e_error = None\<rparr>"

definition queue_sys :: "export_row \<Rightarrow> int \<Rightarrow> (nat \<Rightarrow> export_row option) \<Rightarrow> files \<Rightarrow> sys" where
  "queue_sys e t work fs = \<lparr>y_now = t, y_db = sample_db\<lparr>exports := [e], next_id := 11\<rparr>, y_files = fs, y_work = work, y_sweep = []\<rparr>"

definition late_time :: "deployment \<Rightarrow> int" where
  "late_time p = max 0 ((dp_reap_secs p + 1) * 1000000)"

definition running :: "int \<Rightarrow> export_row" where
  "running t = late_row\<lparr>e_status := Running, e_started_at := Some t\<rparr>"

lemma queue_requested: "reach p b (queue_sys late_row 0 (\<lambda>_. None) (\<lambda>_. None))"
proof -
  have "find_user sample_db 2 \<noteq> None" by (simp add: find_user_def sample_db_def sample_user_def)
  then have "enqueueExport 0 \<lparr>en_userId = 2, en_granularity = Legs, en_filters = open_export\<rparr> sample_db
      = Inr (10, sample_db\<lparr>exports := [late_row], next_id := 11\<rparr>)"
    by (simp add: enqueueExport_def late_row_def) (simp add: sample_db_def)
  from sys_step.request [where s = "\<lparr>y_now = 0, y_db = sample_db, y_files = \<lambda>_. None, y_work = \<lambda>_. None, y_sweep = []\<rparr>", simplified, OF this]
  have s: "sys_step p b \<lparr>y_now = 0, y_db = sample_db, y_files = \<lambda>_. None, y_work = \<lambda>_. None, y_sweep = []\<rparr>
      (queue_sys late_row 0 (\<lambda>_. None) (\<lambda>_. None))" by (simp add: queue_sys_def)
  show ?thesis by (rule reach.step [OF reach.start s]) (simp add: sample_db_def)
qed

lemma queue_claim:
  assumes "work w = None"
  shows "sys_step p b (queue_sys late_row t work fs) (queue_sys (running t) t (work(w := Some late_row)) fs)"
proof -
  have "claimOne t (\<lambda>_. False) (sample_db\<lparr>exports := [late_row], next_id := 11\<rparr>)
      = (Some late_row, sample_db\<lparr>exports := [running t], next_id := 11\<rparr>)"
    by (simp add: claimOne_def upd_export_def running_def) (simp add: late_row_def)
  from sys_step.claim [where s = "queue_sys late_row t work fs" and w = w, unfolded queue_sys_def, simplified, OF assms this]
  show ?thesis by (simp add: queue_sys_def)
qed

lemma queue_late: "0 \<le> t \<Longrightarrow> sys_step p b (queue_sys e 0 work fs) (queue_sys e t work fs)"
  using sys_step.later [of "queue_sys e 0 work fs" t] by (simp add: queue_sys_def)

lemma queue_reap: "sys_step p False (queue_sys (running 0) (late_time p) work fs) (queue_sys late_row (late_time p) work fs)"
proof -
  have "reapable (late_time p) (dp_reap_secs p) (running 0)"
    by (auto simp: reapable_def running_def late_time_def algebra_simps)
  then have "reapZombies (late_time p) (dp_reap_secs p) (sample_db\<lparr>exports := [running 0], next_id := 11\<rparr>)
      = sample_db\<lparr>exports := [late_row], next_id := 11\<rparr>"
    by (simp add: reapZombies_def) (simp add: running_def late_row_def)
  then show ?thesis
    using sys_step.reap [of False p "queue_sys (running 0) (late_time p) work fs"] by (simp add: queue_sys_def)
qed

definition sample_deployment :: deployment where
  "sample_deployment = \<lparr>dp_pg = sample_pg, dp_le = str_le, dp_render = plain_render, dp_chunk = 10000, dp_dir = ''/exports'',
     dp_reap_secs = 600, dp_hours = 12\<rparr>"

lemma status_queue_sys: "status_of (queue_sys e t work fs) i = (if e_id e = i then Some (e_status e) else None)"
  by (simp add: status_of_def queue_sys_def find_export_def)

lemma running_fields: "e_id (running t) = 10" "e_status (running t) = Running" "e_id late_row = 10" "e_status late_row = Queued"
  by (simp_all add: running_def late_row_def)

theorem export_lifecycle_refined_witness:
  "\<exists>s s'. sys_step sample_deployment True s s' \<and> status_of s 10 = Some Queued
     \<and> lifecycle (status_of s 10) (status_of s' 10) \<and> status_of s' 10 = Some Running"
proof (intro exI conjI)
  let ?s = "queue_sys late_row 0 (\<lambda>_. None) (\<lambda>_. None)" and ?s' = "queue_sys (running 0) 0 ((\<lambda>_. None)(0 := Some late_row)) (\<lambda>_. None)"
  show st: "sys_step sample_deployment True ?s ?s'" by (rule queue_claim) simp
  show q: "status_of ?s 10 = Some Queued" and r: "status_of ?s' 10 = Some Running"
    by (simp_all add: status_queue_sys running_fields)
  show "lifecycle (status_of ?s 10) (status_of ?s' 10)"
    using export_lifecycle_refined [OF queue_requested st, of 10 0 late_row 0 late_row] q r by simp
qed

definition broken_world :: job_world where
  \<comment> \<open>the first query throws\<close>
  "broken_world = \<lparr>jw_stop = (\<lambda>_. False), jw_snap = (\<lambda>_. two_snap), jw_fails = (\<lambda>_. Some ''lost''), jw_sink = None\<rparr>"

lemma stopped_result: "\<exists>csv n. job_result p job (Inr (csv, n))"
proof -
  have "export_loop (steady two_snap (Some 0)) (dp_chunk p) q 0 0 [] = Some (Inr [])" for q
    by (subst export_loop.simps) (simp add: steady_def)
  then have "\<exists>csv n. processJob (dp_pg p) (dp_le p) (dp_render p) (dp_chunk p) (steady two_snap (Some 0)) (e_granularity job)
      (e_filters job) = Some (Inr (csv, n))"
    by (simp add: processJob_def) (simp add: steady_def)
  then show ?thesis unfolding job_result_def by blast
qed

lemma broken_result: "job_result p job (Inl ''lost'')"
proof -
  have "export_loop broken_world (dp_chunk p) q 0 0 [] = Some (Inl ''lost'')" for q
    by (subst export_loop.simps) (simp add: broken_world_def)
  then show ?thesis unfolding job_result_def by (intro exI [of _ broken_world]) (simp add: processJob_def)
qed

lemma queue_finish:
  assumes "work w = Some late_row" "job_result p late_row res" "e_id e = 10"
  shows "\<exists>e' fs'. sys_step p b (queue_sys e t work fs) (queue_sys e' t (work(w := None)) fs') \<and> e_id e' = 10
    \<and> e_status e' = (case res of Inl _ \<Rightarrow> Failed | Inr _ \<Rightarrow> Ready)
    \<and> (\<forall>csv n. res = Inr (csv, n) \<longrightarrow> e_user e' = e_user e \<and> e_file_path e' = Some (export_path (dp_dir p) 10)
        \<and> fs' (export_path (dp_dir p) 10) = Some csv)"
proof -
  let ?d = "sample_db\<lparr>exports := [e], next_id := 11\<rparr>"
  obtain d' fs' where f: "finish_job (dp_dir p) t late_row res None (?d, fs) = (d', fs')" by fastforce
  define e' where "e' = (case res of
      Inl msg \<Rightarrow> e\<lparr>e_status := Failed, e_completed_at := Some t, e_error := Some (take 2000 msg)\<rparr>
    | Inr (csv, n) \<Rightarrow> e\<lparr>e_status := Ready, e_completed_at := Some t, e_file_path := Some (export_path (dp_dir p) 10),
        e_row_count := Some (int n), e_file_size := Some (int (length (utf8_encode (units csv))))\<rparr>)"
  have d': "d' = sample_db\<lparr>exports := [e'], next_id := 11\<rparr>"
    using f assms(3) by (auto simp: e'_def finish_job_def failJob_def finalize_def upd_export_def running_fields
        split: sum.splits prod.splits)
  have "sys_step p b (queue_sys e t work fs) (queue_sys e' t (work(w := None)) fs')"
    using sys_step.finish [where s = "queue_sys e t work fs" and w = w, of late_row p res None d' fs' b] assms(1,2) f
    by (simp add: queue_sys_def d')
  moreover have "e_id e' = 10" "e_status e' = (case res of Inl _ \<Rightarrow> Failed | Inr _ \<Rightarrow> Ready)"
    using assms(3) by (simp_all add: e'_def split: sum.splits prod.splits)
  moreover have "e_user e' = e_user e \<and> e_file_path e' = Some (export_path (dp_dir p) 10)
      \<and> fs' (export_path (dp_dir p) 10) = Some csv" if "res = Inr (csv, n)" for csv n
    using that f by (auto simp: e'_def finish_job_def running_fields)
  ultimately show ?thesis by blast
qed

text \<open>
  The proviso is needed, and nothing in the worker provides it: a job that runs longer than the reaper
  waits is given to a second worker while the first still runs it, and a job that was reported ready can
  afterwards be marked failed, whatever the reaper's delay.
\<close>

theorem reaper_breaks_lifecycle:
  "\<exists>s s'. reach p False s \<and> sys_step p False s s' \<and> status_of s 10 = Some Ready \<and> status_of s' 10 = Some Failed"
proof -
  let ?t = "late_time p" and ?none = "\<lambda>_. None" and ?w0 = "(\<lambda>_. None)(0 := Some late_row) :: nat \<Rightarrow> export_row option"
  let ?w01 = "?w0(1 := Some late_row)"
  note go = reach.step
  have 1: "reach p False (queue_sys (running 0) 0 ?w0 ?none)" by (rule go [OF queue_requested queue_claim]) simp
  have 2: "reach p False (queue_sys (running 0) ?t ?w0 ?none)" by (rule go [OF 1 queue_late]) (simp add: late_time_def)
  have 3: "reach p False (queue_sys late_row ?t ?w0 ?none)" by (rule go [OF 2 queue_reap])
  have 4: "reach p False (queue_sys (running ?t) ?t ?w01 ?none)" by (rule go [OF 3 queue_claim]) simp
  obtain csv n where fin: "job_result p late_row (Inr (csv, n))" using stopped_result by blast
  obtain e5 fs5 where 5: "reach p False (queue_sys e5 ?t (?w01(0 := None)) fs5)" "e_id e5 = 10" "e_status e5 = Ready"
    using queue_finish [of ?w01 0 p "Inr (csv, n)" "running ?t" False ?t ?none] fin go [OF 4] by (auto simp: running_fields)
  obtain e6 fs6 where 6: "sys_step p False (queue_sys e5 ?t (?w01(0 := None)) fs5) (queue_sys e6 ?t (?w01(0 := None, 1 := None)) fs6)"
      "e_id e6 = 10" "e_status e6 = Failed"
    using queue_finish [of "?w01(0 := None)" 1 p "Inl ''lost''" e5 False ?t fs5] broken_result 5(2) by auto
  show ?thesis using 5 6 by (intro exI conjI) (auto simp: status_queue_sys)
qed

end
