(* ===== verification/Export_Access.thy ===== *)
theory Export_Access
  imports Export_Lifecycle User_Actions
begin

text \<open>
  Who gets what out of the export queue: the allowlist a request is stamped with, the rows a download can
  contain, and the order in which jobs are served.
\<close>

section \<open>The request\<close>

lemma aligned_map: "aligned_grants ids (map f ids) = map (\<lambda>i. \<lparr>g_id = i, g_from = f i\<rparr>) ids"
  by (rule nth_equalityI) (simp_all add: aligned_grants_def)

lemma request_acl: "stored_acl (request_filters session fd) = sessionAcl (Some session)"
  by (cases "c_shortcodeIds session")
    (auto simp: stored_acl_def request_filters_def sessionAcl_def aligned_map Let_def)

text \<open>
  An export request queues exactly one job, owned by the caller and stamped with the caller's
  allowlist, hand-over floors included; it changes no other job.
\<close>

theorem export_request_scoped:
  assumes "req_session ap rq d = Some session" "find_user d (session_id session) \<noteq> None"
  shows "\<exists>e. exports (acted_db (actionCreateExport ap rq fd d)) = exports d @ [e] \<and> e_status e = Queued
    \<and> e_id e = next_id d \<and> e_user e = session_id session \<and> stored_acl (e_filters e) = sessionAcl (Some session)"
  using assms by (simp add: actionCreateExport_def enqueueExport_def Let_def request_acl)

lemma client_still_valid: "users d = users sample_db \<Longrightarrow> userStillValid d (js_String 2) 0"
  by (simp add: userStillValid_def sample_db_def sample_user_def)

lemma client_reads: "users d = users sample_db \<Longrightarrow> req_session sample_app client_req d = Some client_session"
  by (simp add: client_in_session client_still_valid)

lemma client_number: "session_id client_session = 2"
  by (simp add: session_id_def client_session_def sample_session_def or0_def)

theorem export_request_scoped_witness:
  "\<exists>e. exports (acted_db (actionCreateExport sample_app client_req [(''granularity'', ''legs'')] sample_db)) = [e]
    \<and> e_user e = 2 \<and> stored_acl (e_filters e) = sessionAcl (Some client_session)"
proof -
  have "find_user sample_db (session_id client_session) \<noteq> None"
    unfolding client_number by (simp add: find_user_def sample_db_def sample_user_def)
  from export_request_scoped [OF client_reads [OF refl] this] client_number show ?thesis
    by (auto simp: sample_db_def)
qed

section \<open>The download\<close>

definition from_allowed :: "deployment \<Rightarrow> export_row \<Rightarrow> string list \<Rightarrow> bool" where
  \<comment> \<open>a row printed from legs that the job's allowlist and filters admit\<close>
  "from_allowed p e cells \<longleftrightarrow> (\<exists>(s::snapshot) ls. set ls \<subseteq> {l \<in> set (sn_logs s). leg_allowed (stored_acl (e_filters e)) l
       \<and> leg_matches (dp_pg p) 0 (screen_filters (e_filters e)) l}
     \<and> (case e_granularity e of Legs \<Rightarrow> \<exists>l. ls = [l] \<and> cells = leg_cells (dp_render p) (sn_db s) l
        | Sessions \<Rightarrow> \<exists>k. cells = export_session_cells (dp_render p) (export_session_row (sn_db s) k ls)))"

lemma job_table_allowed:
  assumes "cells \<in> set (job_table (dp_pg p) le (dp_render p) (e_granularity e) (e_filters e) s)"
  shows "from_allowed p e cells"
proof (cases "e_granularity e")
  case Legs
  with assms obtain l where "cells = leg_cells (dp_render p) (sn_db s) l"
    "l \<in> set (visible_legs (dp_pg p) (screen_filters (e_filters e)) (stored_acl (e_filters e)) (sn_logs s))"
    by (auto simp: job_table_def legs_table_eq)
  then show ?thesis unfolding from_allowed_def Legs
    by (intro exI [of _ s] exI [of _ "[l]"]) (simp add: visible_legs_def)
next
  case Sessions
  with assms obtain k where k: "cells = export_session_cells (dp_render p) (export_session_row (sn_db s) k
      (group_of k (matching_legs (dp_pg p) (e_filters e) (sn_logs s))))"
    by (auto simp: job_table_def sessions_table_def export_sessions_def Let_def)
  have "set (group_of k (matching_legs (dp_pg p) (e_filters e) (sn_logs s))) \<subseteq> {l \<in> set (sn_logs s).
      leg_allowed (stored_acl (e_filters e)) l \<and> leg_matches (dp_pg p) 0 (screen_filters (e_filters e)) l}"
    by (auto simp: group_of_def matching_legs_eq)
  with k show ?thesis unfolding from_allowed_def Sessions granularity.case by blast
qed

lemma job_result_allowed:
  assumes "job_result p e (Inr (csv, n))"
  shows "\<forall>cells \<in> set (tl (csv_read Start [] [] csv)). from_allowed p e cells"
proof -
  obtain w where "processJob (dp_pg p) (dp_le p) (dp_render p) (dp_chunk p) w (e_granularity e) (e_filters e) = Some (Inr (csv, n))"
    using assms by (auto simp: job_result_def)
  from processJob_rows [OF this] obtain rows where
    r: "export_loop w (dp_chunk p) (job_query (dp_pg p) (dp_le p) (dp_render p) (dp_chunk p) (e_granularity e) (e_filters e))
        0 0 [] = Some (Inr rows)" and t: "csv_read Start [] [] csv = job_columns (e_granularity e) # rows" by blast
  show ?thesis
  proof
    fix cells assume "cells \<in> set (tl (csv_read Start [] [] csv))"
    then have "cells \<in> set rows" by (simp add: t)
    with job_source.loop_confined [OF r] obtain k where
      "cells \<in> set (job_table (dp_pg p) (dp_le p) (dp_render p) (e_granularity e) (e_filters e) (jw_snap w k))" by blast
    then show "from_allowed p e cells" by (rule job_table_allowed)
  qed
qed



section \<open>The order of service\<close>

definition enqueue_all :: "int \<Rightarrow> EnqueueArgs list \<Rightarrow> db \<Rightarrow> db" where
  \<comment> \<open>requests in a row; one of an unknown user fails and leaves nothing\<close>
  "enqueue_all now reqs d = foldl (\<lambda>d a. case enqueueExport now a d of Inl _ \<Rightarrow> d | Inr (i, d') \<Rightarrow> d') d reqs"

fun serve :: "(int \<times> EnqueueArgs list) list \<Rightarrow> db \<Rightarrow> db" where
  \<comment> \<open>rounds of new requests followed by one claim\<close>
  "serve [] d = d"
| "serve ((now, reqs) # rs) d = serve rs (snd (claimOne now (\<lambda>_. False) (enqueue_all now reqs d)))"

definition queued_upto :: "int \<Rightarrow> db \<Rightarrow> nat" where
  \<comment> \<open>the jobs queued up to and including job \<open>i\<close>\<close>
  "queued_upto i d = card (e_id ` set (filter (\<lambda>e. e_status e = Queued \<and> e_id e \<le> i) (exports d)))"

definition wf_exports :: "db \<Rightarrow> bool" where
  "wf_exports d \<longleftrightarrow> distinct (map e_id (exports d)) \<and> (\<forall>e \<in> set (exports d). e_id e < next_id d)"

definition pending :: "int \<Rightarrow> db \<Rightarrow> bool" where
  \<comment> \<open>the job exists, queued or running\<close>
  "pending i d \<longleftrightarrow> wf_exports d \<and> i < next_id d
     \<and> (\<exists>e \<in> set (exports d). e_id e = i \<and> (e_status e = Queued \<or> e_status e = Running))"

lemma enqueue_keeps:
  assumes "pending i d"
  shows "pending i (enqueue_all now reqs d) \<and> queued_upto i (enqueue_all now reqs d) = queued_upto i d"
  using assms
proof (induction reqs arbitrary: d)
  case (Cons a reqs)
  have "pending i d' \<and> queued_upto i d' = queued_upto i d" if q: "enqueueExport now a d = Inr (j, d')" for j d'
  proof -
    obtain e where d': "exports d' = exports d @ [e]" "next_id d' = next_id d + 1" "e_id e = next_id d"
      using q by (auto simp: enqueueExport_def split: if_splits)
    then show ?thesis using Cons.prems by (auto simp: pending_def wf_exports_def queued_upto_def)
  qed
  with Cons.IH Cons.prems show ?case
    by (auto simp: enqueue_all_def split: sum.splits)
qed (simp add: enqueue_all_def)

lemma claim_advances:
  assumes "pending i d"
  shows "pending i (snd (claimOne now (\<lambda>_. False) d)) \<and> queued_upto i (snd (claimOne now (\<lambda>_. False) d)) = queued_upto i d - 1"
proof -
  let ?q = "\<lambda>d. e_id ` set (filter (\<lambda>e. e_status e = Queued \<and> e_id e \<le> i) (exports d))"
  obtain r d' where c: "claimOne now (\<lambda>_. False) d = (r, d')" by fastforce
  show ?thesis
  proof (cases r)
    case None
    let ?queued = "filter (\<lambda>e. e_status e = Queued) (exports d)"
    from None have "sort_key e_id ?queued = []" and d': "d' = d"
      using c by (simp_all add: claimOne_def split: list.splits)
    then have "set ?queued = {}" by (metis list.set(1) set_sort)
    then have "?q d = {}" by auto
    then show ?thesis using c assms d' by (simp add: queued_upto_def)
  next
    case (Some row)
    let ?f = "\<lambda>e. e\<lparr>e_status := Running, e_started_at := Some now\<rparr>"
    note cl = claimOne_Some [OF c [unfolded Some]]
    have u: "e = row" if "e \<in> set (exports d)" "e_id e = e_id row" for e
      using assms that cl(1) distinct_map_filter_unique [of e_id "exports d"] by (auto simp: pending_def wf_exports_def)
    have q: "?q d' = ?q d - {e_id row}"
    proof -
      have "e \<in> set (exports d') \<and> e_status e = Queued \<longleftrightarrow> e \<in> set (exports d) \<and> e_status e = Queued \<and> e_id e \<noteq> e_id row" for e
        by (auto simp: cl(4))
      then show ?thesis by auto
    qed
    have "e_id row \<in> ?q d" if ne: "?q d \<noteq> {}"
    proof -
      obtain e where "e \<in> set (exports d)" "e_status e = Queued" "e_id e \<le> i" using ne by auto
      then have "e_id row \<le> i" using cl(5) by fastforce
      then show ?thesis using cl(1,2) by auto
    qed
    then have "queued_upto i d' = queued_upto i d - 1" unfolding queued_upto_def q by (cases "?q d = {}") simp_all
    moreover have "pending i d'"
    proof -
      have "map e_id (exports d') = map e_id (exports d)" "next_id d' = next_id d" by (simp_all add: cl(4) comp_def)
      moreover from this have "e_id ` set (exports d') = e_id ` set (exports d)" by (metis list.set_map)
      moreover have "wf_exports d" using assms by (simp add: pending_def)
      moreover have "wf_exports x \<longleftrightarrow> distinct (map e_id (exports x)) \<and> (\<forall>j \<in> e_id ` set (exports x). j < next_id x)" for x
        by (simp add: wf_exports_def)
      ultimately have "wf_exports d'" by metis
      moreover obtain e where "e \<in> set (exports d)" "e_id e = i" "e_status e = Queued \<or> e_status e = Running"
        using assms by (auto simp: pending_def)
      moreover from this have "(if e_id e = e_id row then ?f e else e) \<in> set (exports d')" by (auto simp: cl(4))
      ultimately show ?thesis using assms unfolding pending_def
        by (intro conjI bexI [of _ "if e_id e = e_id row then ?f e else e"]) (auto simp: cl(4))
    qed
    ultimately show ?thesis by (simp add: c)
  qed
qed



end
