(* ===== verification/Simulating.thy ===== *)
theory Simulating
  imports Simulator Export_Access
begin

text \<open>
  What the simulator promises: it reads a reply as the gateway does, reaches only handlers of the caller's
  shortcodes, and keeps the bearer token to itself.
\<close>

section \<open>The gateway's reading\<close>

definition py_ws :: "char \<Rightarrow> bool" where
  \<comment> \<open>\<open>str.isspace\<close> below 256\<close>
  "py_ws c \<longleftrightarrow> is_ws c \<or> (28 \<le> (of_char c :: nat) \<and> (of_char c :: nat) \<le> 31) \<or> (of_char c :: nat) = 133"

definition forwarder_reply :: "(string \<Rightarrow> json option) \<Rightarrow> string \<Rightarrow> (usd_action \<times> string) option" where
  \<comment> \<open>\<open>_parse_handler_reply\<close>, errors as \<open>None\<close>; \<open>str(msg)\<close> only of strings and of a missing message, \<open>None\<close> as printed\<close>
  "forwarder_reply parse body =
    (let stripped = rstrip py_ws (dropWhile py_ws body) in
     if stripped = [] then None
     else if startsWith stripped ''{'' \<or> startsWith stripped ''['' then
       (case parse stripped of Some (JObj fs) \<Rightarrow> (case coerceAction (map_of fs ''action'') of None \<Rightarrow> None
          | Some act \<Rightarrow> Some (act, (case map_of fs ''message'' of None \<Rightarrow> [] | Some JNull \<Rightarrow> ''None'' | Some v \<Rightarrow> json_toString v)))
        | _ \<Rightarrow> None)
     else (case action_prefix (toUpperCase stripped) of None \<Rightarrow> None
       | Some act \<Rightarrow> Some (act, rstrip py_ws (dropWhile py_ws (drop 3 stripped)))))"

lemma dropWhile_same: "(\<And>c. c \<in> set xs \<Longrightarrow> P c = Q c) \<Longrightarrow> dropWhile P xs = dropWhile Q xs"
  by (induction xs) auto

lemma rstrip_same: "(\<And>c. c \<in> set xs \<Longrightarrow> P c = Q c) \<Longrightarrow> rstrip P xs = rstrip Q xs"
  unfolding rstrip_def by (rule arg_cong [where f = rev], rule dropWhile_same) simp

lemma trim_rstrip: "trim s = rstrip is_ws (dropWhile is_ws s)"
  by (simp add: trim_def rstrip_def)

definition same_spaces :: "string \<Rightarrow> bool" where
  \<comment> \<open>no character that only Python counts as white space\<close>
  "same_spaces s \<longleftrightarrow> list_all (\<lambda>c. py_ws c = is_ws c) s"

definition usual_separator :: "string \<Rightarrow> bool" where
  \<comment> \<open>what follows the action, if white space, is a space or a line break\<close>
  "usual_separator msg \<longleftrightarrow> (case msg of [] \<Rightarrow> True | c # _ \<Rightarrow> is_ws c \<longrightarrow> c = CHR 0x20 \<or> c = CHR 0x0A \<or> c = CHR 0x0D)"

definition text_message :: "json option \<Rightarrow> bool" where
  \<comment> \<open>the message of a JSON reply is absent or a string\<close>
  "text_message j = (case j of Some (JObj fs) \<Rightarrow> (case map_of fs ''message'' of None \<Rightarrow> True | Some (JStr _) \<Rightarrow> True | _ \<Rightarrow> False)
     | _ \<Rightarrow> True)"

lemma trim_chars: "c \<in> set (trim s) \<Longrightarrow> c \<in> set s"
  unfolding trim_def set_rev by (drule set_dropWhileD, simp, drule set_dropWhileD)

lemma py_strip: "same_spaces s \<Longrightarrow> rstrip py_ws (dropWhile py_ws s) = trim s"
proof -
  assume s: "same_spaces s"
  then have eq: "py_ws c = is_ws c" if "c \<in> set s" for c using that by (simp add: same_spaces_def list_all_iff)
  have "dropWhile py_ws s = dropWhile is_ws s" by (rule dropWhile_same) (rule eq)
  moreover have "rstrip py_ws (dropWhile is_ws s) = rstrip is_ws (dropWhile is_ws s)"
    by (rule rstrip_same) (use eq in \<open>auto dest: set_dropWhileD\<close>)
  ultimately show ?thesis by (simp add: trim_rstrip)
qed

lemma startsWith_one: "startsWith s [c] \<longleftrightarrow> (\<exists>r. s = c # r)"
  by (cases s) auto

lemma not_object_prefix: "startsWith s ''{'' \<Longrightarrow> action_prefix (toUpperCase s) = None"
  and not_array_prefix: "startsWith s ''['' \<Longrightarrow> action_prefix (toUpperCase s) = None"
  by (auto simp: startsWith_one action_prefix_def toUpperCase_def upper_char_def Let_def)

lemma plain_message:
  assumes "same_spaces s" "usual_separator msg" "set msg \<subseteq> set s"
  shows "rstrip is_ws (if startsWith msg [CHR 0x20] \<or> startsWith msg [CHR 0x0A] \<or> startsWith msg [CHR 0x0D]
      then dropWhile is_ws msg else msg) = rstrip py_ws (dropWhile py_ws msg)"
proof -
  have eq: "py_ws c = is_ws c" if "c \<in> set msg" for c using that assms(1,3) by (auto simp: same_spaces_def list_all_iff)
  have "(if startsWith msg [CHR 0x20] \<or> startsWith msg [CHR 0x0A] \<or> startsWith msg [CHR 0x0D]
      then dropWhile is_ws msg else msg) = dropWhile is_ws msg"
    using assms(2) by (cases msg) (auto simp: usual_separator_def)
  also have "\<dots> = dropWhile py_ws msg" by (rule dropWhile_same) (simp add: eq)
  finally show ?thesis using rstrip_same [of "dropWhile py_ws msg" is_ws py_ws] eq by (auto dest: set_dropWhileD)
qed

definition json_laws :: "(string \<Rightarrow> json option) \<Rightarrow> bool" where
  \<comment> \<open>a text that starts with a bracket is no object\<close>
  "json_laws parse \<longleftrightarrow> (\<forall>s fs. startsWith s ''['' \<longrightarrow> parse s \<noteq> Some (JObj fs))"

lemma plain_replies_alike:
  assumes "same_spaces body" "usual_separator (drop 3 (trim body))"
    and "\<not> startsWith (trim body) ''{''" "\<not> startsWith (trim body) ''[''"
  shows "parseHandlerReply parse body = forwarder_reply parse body"
proof -
  let ?t = "trim body"
  have "set (drop 3 ?t) \<subseteq> set body" by (auto dest: in_set_dropD trim_chars)
  from plain_message [OF assms(1,2) this]
  have same: "(case action_prefix (toUpperCase ?t) of None \<Rightarrow> None | Some act \<Rightarrow> Some (act, rstrip is_ws
        (if startsWith (drop 3 ?t) [CHR 0x20] \<or> startsWith (drop 3 ?t) [CHR 0x0A] \<or> startsWith (drop 3 ?t) [CHR 0x0D]
          then dropWhile is_ws (drop 3 ?t) else drop 3 ?t)))
      = (case action_prefix (toUpperCase ?t) of None \<Rightarrow> None
        | Some act \<Rightarrow> Some (act, rstrip py_ws (dropWhile py_ws (drop 3 ?t))))"
    by (simp only:)
  show ?thesis
    unfolding parseHandlerReply_def forwarder_reply_def py_strip [OF assms(1)] Let_def
    using same assms(3,4) by (simp only: if_False simp_thms)
qed

lemma object_replies_alike:
  assumes "same_spaces body" "text_message (parse (trim body))" "trim body \<noteq> []" "startsWith (trim body) ''{''"
  shows "parseHandlerReply parse body = forwarder_reply parse body"
proof (cases "parse (trim body)")
  case None
  then show ?thesis using assms(3,4) not_object_prefix [OF assms(4)]
    by (simp add: parseHandlerReply_def forwarder_reply_def py_strip [OF assms(1)])
next
  case (Some j)
  have "parseHandlerReply parse body = (case coerceAction (jfield j ''action'') of None \<Rightarrow> None
      | Some act \<Rightarrow> Some (act, (case jfield j ''message'' of None \<Rightarrow> [] | Some JNull \<Rightarrow> [] | Some v \<Rightarrow> json_toString v)))"
    using assms(3,4) not_object_prefix [OF assms(4)] Some
    by (cases "coerceAction (jfield j ''action'')") (simp_all add: parseHandlerReply_def Let_def)
  also have "\<dots> = forwarder_reply parse body"
    using assms Some
    by (cases j) (auto simp: forwarder_reply_def py_strip jfield_def text_message_def coerceAction_def
        split: option.splits json.splits)
  finally show ?thesis .
qed

lemma array_replies_alike:
  assumes "json_laws parse" "same_spaces body" "trim body \<noteq> []" "startsWith (trim body) ''[''"
  shows "parseHandlerReply parse body = forwarder_reply parse body"
proof -
  have "\<not> startsWith (trim body) ''{''" using assms(3,4) by (auto simp: startsWith_one)
  moreover have "parse (trim body) \<noteq> Some (JObj fs)" for fs using assms(1,4) by (simp add: json_laws_def)
  ultimately show ?thesis using assms(3,4) not_array_prefix [OF assms(4)]
    by (auto simp: parseHandlerReply_def forwarder_reply_def py_strip [OF assms(2)] Let_def split: option.splits json.splits)
qed


definition no_json :: "string \<Rightarrow> json option" where
  "no_json s = None"


definition null_message :: "string \<Rightarrow> json option" where
  "null_message s = Some (JObj [(''action'', JStr ''CON''), (''message'', JNull)])"

text \<open>
  Outside those replies the two differ, although the simulator says it parses exactly like the
  gateway: a tab after the action stays in the simulated message, and a null message is shown as nothing
  where customers see the word None.
\<close>

theorem simulator_misreads:
  "parseHandlerReply no_json (''CON'' @ [CHR 0x09] @ ''Menu'') = Some (CON, CHR 0x09 # ''Menu'')
   \<and> forwarder_reply no_json (''CON'' @ [CHR 0x09] @ ''Menu'') = Some (CON, ''Menu'')
   \<and> (\<exists>parse. parseHandlerReply parse ''{}'' = Some (CON, []) \<and> forwarder_reply parse ''{}'' = Some (CON, ''None''))"
proof (intro conjI exI [of _ null_message])
  show "parseHandlerReply no_json (''CON'' @ [CHR 0x09] @ ''Menu'') = Some (CON, CHR 0x09 # ''Menu'')" by code_simp
  show "forwarder_reply no_json (''CON'' @ [CHR 0x09] @ ''Menu'') = Some (CON, ''Menu'')" by code_simp
  show "parseHandlerReply null_message ''{}'' = Some (CON, [])" by code_simp
  show "forwarder_reply null_message ''{}'' = Some (CON, ''None'')" by code_simp
qed

section \<open>Confinement\<close>

definition handler_request :: "shortcode_row \<Rightarrow> sim_request \<Rightarrow> bool" where
  \<comment> \<open>a request made for this shortcode: its URL, its token if it has one, at most 15 seconds, certificates
     checked unless the shortcode waives it\<close>
  "handler_request s rq \<longleftrightarrow> sq_url rq = sc_handler_url s \<and> sq_timeoutMs rq \<le> 15000
     \<and> (\<forall>v. (''Authorization'', v) \<in> set (sq_headers rq) \<longrightarrow> sc_auth_mode s = AuthBearer
          \<and> (\<exists>t. sc_bearer_token s = Some t \<and> v = ''Bearer '' @ t))
     \<and> (sc_verify_tls s \<longrightarrow> sq_rejectUnauthorized rq)"



definition with_tokens :: "(int \<Rightarrow> string option) \<Rightarrow> db \<Rightarrow> db" where
  \<comment> \<open>the same database with other bearer tokens\<close>
  "with_tokens f d = d\<lparr>shortcodes := map (\<lambda>s. s\<lparr>sc_bearer_token := f (sc_id s)\<rparr>) (shortcodes d)\<rparr>"

text \<open>
  The browser never learns a bearer token: given what the handler answers, the result shown and the
  audit entry do not depend on the tokens stored.
\<close>

theorem token_never_shown:
  "fst (snd (actionSimulateLeg ap parse (\<lambda>_. answer) rq raw (with_tokens f d)))
     = fst (snd (actionSimulateLeg ap parse (\<lambda>_. answer) rq raw d))
   \<and> audit_log (snd (snd (actionSimulateLeg ap parse (\<lambda>_. answer) rq raw (with_tokens f d))))
     = audit_log (snd (snd (actionSimulateLeg ap parse (\<lambda>_. answer) rq raw d)))"
proof -
  have us: "users (with_tokens f d) = users d" "audit_log (with_tokens f d) = audit_log d" "next_id (with_tokens f d) = next_id d"
    by (simp_all add: with_tokens_def)
  have "userStillValid (with_tokens f d) = userStillValid d" by (intro ext) (unfold userStillValid_def us, rule refl)
  then have ses: "req_session ap rq (with_tokens f d) = req_session ap rq d"
    unfolding req_session_def getSession_def by (simp only:)
  have "List.find (\<lambda>s. sc_id s = i) (map (\<lambda>s. s\<lparr>sc_bearer_token := f (sc_id s)\<rparr>) ss)
      = map_option (\<lambda>s. s\<lparr>sc_bearer_token := f (sc_id s)\<rparr>) (List.find (\<lambda>s. sc_id s = i) ss)" for i ss
    by (induction ss) auto
  then have sc: "find_shortcode (with_tokens f d) i = map_option (\<lambda>s. s\<lparr>sc_bearer_token := f (sc_id s)\<rparr>) (find_shortcode d i)" for i
    by (simp add: find_shortcode_def with_tokens_def)
  have op: "find_operator (with_tokens f d) = find_operator d" by (simp add: find_operator_def with_tokens_def fun_eq_iff)
  have run: "snd (runSimulatedLeg parse (\<lambda>_. answer) inp ids (with_tokens f d)) = snd (runSimulatedLeg parse (\<lambda>_. answer) inp ids d)" for inp ids
    by (simp add: runSimulatedLeg_def sc op Let_def sim_payload_def sim_timeoutMs_def split: option.splits)
  show ?thesis
  proof (cases "req_session ap rq d")
    case None
    then show ?thesis by (simp add: actionSimulateLeg_def ses us)
  next
    case (Some session)
    show ?thesis
    proof (cases "json_Number (jfield raw ''shortcodeId'')")
      case None
      then show ?thesis using Some by (simp add: actionSimulateLeg_def ses us)
    next
      case n: (Some i)
      show ?thesis using Some n run
        by (simp add: actionSimulateLeg_def ses Let_def case_prod_beta audit_def audit_insert_def us split: prod.splits)
    qed
  qed
qed

end
