(* ===== verification/Operators.thy ===== *)
theory Operators
  imports Reporting User_Actions
begin

text \<open>
  Editing the mobile operators: \<^verbatim>\<open>dashboard/src/lib/operators.ts\<close> and
  \<^verbatim>\<open>dashboard/src/app/(authed)/operators/actions.ts\<close>.  What an operator bills by
  (\<open>op_window\<close>) feeds the session rows of Reports; here it is shown to stay within the range they
  rely on.
\<close>

section \<open>The table\<close>

record OperatorWrite =
  ow_display_name :: string
  ow_window :: "int option"
  ow_active :: bool

definition listOperatorsAdmin :: "db \<Rightarrow> operator_row list" where
  "listOperatorsAdmin d = sort_key op_id (operators d)"

definition getOperator :: "int \<Rightarrow> db \<Rightarrow> operator_row option" where
  "getOperator i d = find_operator d i"

definition window_ok :: "int option \<Rightarrow> bool" where
  \<comment> \<open>the CHECK on \<open>billable_window_secs\<close>\<close>
  "window_ok w \<longleftrightarrow> (case w of None \<Rightarrow> True | Some n \<Rightarrow> 1 \<le> n \<and> n \<le> 600)"

definition write_operator :: "OperatorWrite \<Rightarrow> operator_row \<Rightarrow> operator_row" where
  "write_operator w r = r\<lparr>op_display_name := ow_display_name w, op_window := ow_window w, op_active := ow_active w\<rparr>"

definition updateOperator :: "int \<Rightarrow> OperatorWrite \<Rightarrow> db \<Rightarrow> (exn + unit) \<times> db" where
  \<comment> \<open>one UPDATE; the constraints are those of the row it finds\<close>
  "updateOperator i w d = (if find_operator d i = None then (Inr (), d)
     else if \<not> fits 64 (Some (ow_display_name w)) then (Inl (PgError ''22001'' None), d)
     else if \<not> window_ok (ow_window w) then (Inl (PgError ''23514'' None), d)
     else (Inr (), d\<lparr>operators := map (\<lambda>r. if op_id r = i then write_operator w r else r) (operators d)\<rparr>))"

section \<open>The action\<close>

definition parseOperatorWrite :: "form \<Rightarrow> string + OperatorWrite" where
  \<comment> \<open>\<open>parseWrite\<close>; the dash of the last message as a hyphen\<close>
  "parseOperatorWrite fd =
    (let display_name = fd_str fd ''display_name''; windowStr = fd_str fd ''billable_window_secs'';
         active = fd_bool fd ''active''
     in if display_name = [] then Inl ''display_name required''
        else if length display_name > 64 then Inl ''display_name too long (max 64)''
        else if windowStr = [] \<or> windowStr = ''null'' \<or> windowStr = ''0''
        then Inr \<lparr>ow_display_name = display_name, ow_window = None, ow_active = active\<rparr>
        else (case js_parseInt windowStr of
            None \<Rightarrow> Inl ''billable_window_secs must be empty (per-leg) or 1-600''
          | Some n \<Rightarrow> if n < 1 \<or> n > 600 then Inl ''billable_window_secs must be empty (per-leg) or 1-600''
              else Inr \<lparr>ow_display_name = display_name, ow_window = Some n, ow_active = active\<rparr>))"

definition actionUpdateOperator :: "'j app \<Rightarrow> 'j http_req \<Rightarrow> int \<Rightarrow> form \<Rightarrow> db \<Rightarrow> 'j acted" where
  "actionUpdateOperator ap rq i fd d = (case require_perm ap rq [SHORTCODES_MANAGE] d of None \<Rightarrow> act_go ''/'' d
    | Some session \<Rightarrow> (case parseOperatorWrite fd of
         Inl e \<Rightarrow> act_err (''/operators/'' @ js_String i) e d
       | Inr w \<Rightarrow> (case updateOperator i w d of
            (Inl e, d1) \<Rightarrow> (Throws e, None, d1)
          | (Inr _, d1) \<Rightarrow> act_go ''/operators''
              (log_audit rq (Some (c_email session)) ''operator.update'' (Some (js_String i)) Success
                (Some (JObj [(''id'', JNum i), (''display_name'', JStr (ow_display_name w)),
                   (''billable_window_secs'', opt_json JNum (ow_window w)), (''active'', JBool (ow_active w))])) d1))))"

section \<open>What edits keep\<close>

definition operator_ok :: "operator_row \<Rightarrow> bool" where
  "operator_ok r \<longleftrightarrow> op_display_name r \<noteq> [] \<and> length (op_display_name r) \<le> 64 \<and> window_ok (op_window r)"

definition routing_key :: "operator_row \<Rightarrow> int \<times> string \<times> int" where
  \<comment> \<open>what the gateway routes by, which the dashboard never edits\<close>
  "routing_key r = (op_id r, op_name r, op_created_at r)"

lemma parsed_ok:
  "parseOperatorWrite fd = Inr w \<Longrightarrow> ow_display_name w \<noteq> [] \<and> length (ow_display_name w) \<le> 64 \<and> window_ok (ow_window w)"
  by (auto simp: parseOperatorWrite_def Let_def window_ok_def split: if_splits option.splits)

lemma write_operator_laws:
  "routing_key (write_operator w r) = routing_key r"
  "operator_ok (write_operator w r) \<longleftrightarrow> ow_display_name w \<noteq> [] \<and> length (ow_display_name w) \<le> 64 \<and> window_ok (ow_window w)"
  by (simp_all add: write_operator_def routing_key_def operator_ok_def)

lemma updateOperator_operators:
  "operators (snd (updateOperator i w d)) = operators d
   \<or> operators (snd (updateOperator i w d)) = map (\<lambda>r. if op_id r = i then write_operator w r else r) (operators d)"
  by (simp add: updateOperator_def)

lemma action_operators:
  "operators (acted_db (actionUpdateOperator ap rq i fd d)) = operators d
   \<or> (\<exists>w. parseOperatorWrite fd = Inr w
        \<and> operators (acted_db (actionUpdateOperator ap rq i fd d))
          = map (\<lambda>r. if op_id r = i then write_operator w r else r) (operators d))"
proof (cases "require_perm ap rq [SHORTCODES_MANAGE] d")
  case (Some session)
  show ?thesis
  proof (cases "parseOperatorWrite fd")
    case (Inr w)
    from updateOperator_operators [of i w d] show ?thesis
      by (cases "updateOperator i w d") (auto simp: actionUpdateOperator_def Some Inr act_go_def split: sum.splits)
  qed (simp add: actionUpdateOperator_def Some)
qed (simp add: actionUpdateOperator_def)

lemma action_keeps_operators:
  assumes "\<forall>r \<in> set (operators d). operator_ok r"
  shows "(\<forall>r \<in> set (operators (acted_db (actionUpdateOperator ap rq i fd d))). operator_ok r)
    \<and> map routing_key (operators (acted_db (actionUpdateOperator ap rq i fd d))) = map routing_key (operators d)"
  using action_operators [of ap rq i fd d]
proof
  assume "\<exists>w. parseOperatorWrite fd = Inr w \<and> operators (acted_db (actionUpdateOperator ap rq i fd d))
    = map (\<lambda>r. if op_id r = i then write_operator w r else r) (operators d)"
  then obtain w where w: "parseOperatorWrite fd = Inr w" and o: "operators (acted_db (actionUpdateOperator ap rq i fd d))
    = map (\<lambda>r. if op_id r = i then write_operator w r else r) (operators d)" by blast
  show ?thesis using parsed_ok [OF w] assms by (auto simp: o write_operator_laws)
qed (use assms in simp)

lemma windows_bounded:
  assumes "\<forall>r \<in> set (operators d). operator_ok r" "operator_window d n = Some w"
  shows "1 \<le> w \<and> w \<le> 600"
proof -
  obtain r where r: "List.find (\<lambda>r. op_name r = n) (operators d) = Some r" "op_window r = Some w"
    using assms(2) by (auto simp: operator_window_def split: option.splits)
  from r(1) have "r \<in> set (operators d)" by (auto simp: find_Some_iff)
  with assms(1) have "operator_ok r" by blast
  with r(2) show ?thesis by (simp add: operator_ok_def window_ok_def)
qed

text \<open>
  C23. Any sequence of operator edits, by whoever and with whatever form, keeps every operator with a
  display name that fits its column and a billing window that is absent or of 1 to 600 seconds, and
  never touches the names the gateway routes by; so every session billed by windows is billed by a
  positive one.
\<close>

theorem operators_stay_valid:
  assumes "(\<lambda>d d'. \<exists>rq i fd. d' = acted_db (actionUpdateOperator ap rq i fd d))\<^sup>*\<^sup>* d d'"
    and "\<forall>r \<in> set (operators d). operator_ok r"
  shows "(\<forall>r \<in> set (operators d'). operator_ok r) \<and> map routing_key (operators d') = map routing_key (operators d)
    \<and> (operator_window d' n = Some w \<longrightarrow> 1 \<le> w \<and> w \<le> 600)"
proof -
  from assms have "(\<forall>r \<in> set (operators d'). operator_ok r) \<and> map routing_key (operators d') = map routing_key (operators d)"
  proof (induction rule: rtranclp_induct)
    case (step y z)
    then show ?case using action_keeps_operators by metis
  qed simp
  with windows_bounded [of d'] show ?thesis by blast
qed

section \<open>Samples\<close>

definition manager_session :: SessionClaims where
  "manager_session = sample_session\<lparr>c_perms := [SHORTCODES_MANAGE]\<rparr>"

definition manager_req :: "(string \<times> jwt_payload) http_req" where
  "manager_req = sample_req JNull (Some (ae_secret sample_env, \<lparr>j_claims = manager_session, j_iat = 0, j_exp = 28800\<rparr>))"

lemma manager_reads:
  assumes "users d = users sample_db"
  shows "req_session sample_app manager_req d = Some manager_session"
proof -
  have "userStillValid d (js_String 2) 0"
    using assms by (simp add: userStillValid_def sample_db_def sample_user_def)
  moreover have "verifySession sample_verify sample_env (req_ms manager_req)
      (ae_secret sample_env, \<lparr>j_claims = manager_session, j_iat = 0, j_exp = 28800\<rparr>) = Some manager_session"
    by (simp add: verifySession_def sample_secret sample_verify_def req_ms_def manager_req_def sample_req_def)
  moreover have "hr_session manager_req
      = Some (ae_secret sample_env, \<lparr>j_claims = manager_session, j_iat = 0, j_exp = 28800\<rparr>)"
    by (simp add: manager_req_def sample_req_def)
  ultimately show ?thesis
    by (simp add: req_session_def getSession_def sample_app_def)
      (simp add: manager_session_def sample_session_def or0_def)
qed

definition window_form :: form where
  "window_form = [(''display_name'', ''Voda''), (''billable_window_secs'', ''30''), (''active'', ''on'')]"

theorem operators_stay_valid_witness:
  "operator_window (acted_db (actionUpdateOperator sample_app manager_req 1 window_form windowed_db)) ''vodacom'' = Some 30
   \<and> (1 :: int) \<le> 30 \<and> list_all operator_ok (operators (acted_db (actionUpdateOperator sample_app manager_req 1 window_form windowed_db)))"
proof -
  let ?d = "acted_db (actionUpdateOperator sample_app manager_req 1 window_form windowed_db)"
  have r: "req_session sample_app manager_req windowed_db = Some manager_session"
    by (rule manager_reads) (simp add: windowed_db_def)
  have s: "require_perm sample_app manager_req [SHORTCODES_MANAGE] windowed_db = Some manager_session"
    by (simp add: require_perm_def r hasPerm_def manager_session_def)
  have p: "parseOperatorWrite window_form = Inr \<lparr>ow_display_name = ''Voda'', ow_window = Some 30, ow_active = True\<rparr>"
    by code_simp
  have u: "operator_window (snd (updateOperator 1 \<lparr>ow_display_name = ''Voda'', ow_window = Some 30, ow_active = True\<rparr> windowed_db))
      ''vodacom'' = Some 30"
    "\<exists>d'. updateOperator 1 \<lparr>ow_display_name = ''Voda'', ow_window = Some 30, ow_active = True\<rparr> windowed_db = (Inr (), d')"
    by (simp_all add: updateOperator_def windowed_db_def find_operator_def fits_def window_ok_def
        operator_window_def write_operator_def)
  then have w: "operator_window ?d ''vodacom'' = Some 30"
    by (auto simp: actionUpdateOperator_def s p operator_window_def)
  have ok: "\<forall>r \<in> set (operators windowed_db). operator_ok r"
    by (simp add: windowed_db_def operator_ok_def window_ok_def)
  have "(\<lambda>d d'. \<exists>rq i fd. d' = acted_db (actionUpdateOperator sample_app rq i fd d))\<^sup>*\<^sup>* windowed_db ?d" by blast
  from operators_stay_valid [OF this ok, of "''vodacom''" 30] w show ?thesis by (simp add: list_all_iff)
qed

end
