(* ===== verification/Archive.thy ===== *)
theory Archive
  imports Reporting User_Actions
begin

text \<open>
  The reader over archived traffic: \<^verbatim>\<open>dashboard/src/lib/archive.ts\<close> and the server part of
  \<^verbatim>\<open>dashboard/src/app/(authed)/archive/page.tsx\<close>.  Every search is bounded to a window of days,
  because the archive has no index, and leaves an audit entry.  \<open>Date.parse\<close> and the rendering of
  sizes are parameters.
\<close>

section \<open>Searching\<close>

definition ARCHIVE_MAX_WINDOW_DAYS :: "(string \<Rightarrow> string option) \<Rightarrow> int option" where
  \<comment> \<open>of \<open>process.env\<close>; \<open>None\<close> is NaN\<close>
  "ARCHIVE_MAX_WINDOW_DAYS vars = (let v = vars ''DASHBOARD_ARCHIVE_MAX_WINDOW_DAYS'' in
     if truthy v then js_Number (str_of v) else Some 7)"

definition ARCHIVE_ROW_CAP :: nat where "ARCHIVE_ROW_CAP = 500"

record partition =
  \<comment> \<open>a row of the inventory view\<close>
  pt_covers_from :: int
  pt_covers_to :: int
  pt_bytes :: int

record ArchiveCoverage =
  ac_partitions :: nat
  ac_from :: "int option"
  ac_to :: "int option"
  ac_bytes :: int
  ac_size :: string

definition archiveCoverage :: "(int \<Rightarrow> string) \<Rightarrow> partition list \<Rightarrow> ArchiveCoverage" where
  "archiveCoverage pretty ps = (let total = sum_list (map pt_bytes ps) in
     \<lparr>ac_partitions = length ps,
      ac_from = (if ps = [] then None else Some (Min (set (map pt_covers_from ps)))),
      ac_to = (if ps = [] then None else Some (Max (set (map pt_covers_to ps)))),
      ac_bytes = total, ac_size = pretty total\<rparr>)"

record ArchiveFilters =
  rf_fromDate :: string
  rf_toDate :: string
  rf_arch_msisdn :: "string option"
  rf_arch_sessionId :: "string option"
  rf_arch_shortcodeId :: "int option"
  rf_arch_operatorName :: "string option"

datatype archive_error = InvalidRange | TooWide

definition span_ms :: "(string \<Rightarrow> int option) \<Rightarrow> ArchiveFilters \<Rightarrow> int option" where
  \<comment> \<open>\<open>spanDays\<close>, in milliseconds; \<open>None\<close> is NaN\<close>
  "span_ms date_parse f = (case (date_parse (rf_toDate f @ ''T00:00:00Z''), date_parse (rf_fromDate f @ ''T00:00:00Z'')) of
     (Some b, Some a) \<Rightarrow> Some (b - a) | _ \<Rightarrow> None)"

definition archive_conds :: "ArchiveFilters \<Rightarrow> sql_cond list \<times> pval list" where
  "archive_conds f =
    push_cond (truthy (rf_arch_operatorName f)) (\<lambda>n. CCmp OpEq ''operator_name'' (EPar n)) (PStr (str_of (rf_arch_operatorName f)))
    (push_cond (or0 (rf_arch_shortcodeId f) \<noteq> 0) (\<lambda>n. CCmp OpEq ''shortcode_id'' (EPar n)) (PInt (or0 (rf_arch_shortcodeId f)))
    (push_cond (truthy (rf_arch_sessionId f)) (\<lambda>n. CCmp OpEq ''session_id'' (EPar n)) (PStr (str_of (rf_arch_sessionId f)))
    (push_cond (truthy (rf_arch_msisdn f)) (\<lambda>n. CCmp OpEq ''msisdn'' (EPar n)) (PStr (str_of (rf_arch_msisdn f)))
    (push_cond True (\<lambda>n. CCmp OpLt ''ts'' (EDateEnd n 0)) (PStr (rf_toDate f))
    (push_cond True (\<lambda>n. CCmp OpGe ''ts'' (EDateStart n)) (PStr (rf_fromDate f)) ([], []))))))"

record ArchiveSearchResult =
  as_rows :: "leg_row list"      \<comment> \<open>eleven of its columns\<close>
  as_capped :: bool

definition searchArchive :: "pg \<Rightarrow> (string \<Rightarrow> int option) \<Rightarrow> int option \<Rightarrow> ArchiveFilters \<Rightarrow> leg_row list
    \<Rightarrow> archive_error + ArchiveSearchResult" where
  "searchArchive g date_parse maxDays f archived = (case span_ms date_parse f of
       None \<Rightarrow> Inl InvalidRange
     | Some span \<Rightarrow>
        if span < 0 then Inl InvalidRange
        else if (case maxDays of None \<Rightarrow> False | Some k \<Rightarrow> span + 86400000 > k * 86400000) then Inl TooWide
        else (let (conds, params) = archive_conds f;
                  r = take (ARCHIVE_ROW_CAP + 1) (sort_key (\<lambda>l. - l_ts l)
                    (filter (\<lambda>l. holds g params (leg_sql l) (CAll conds)) archived));
                  capped = length r > ARCHIVE_ROW_CAP
              in Inr \<lparr>as_rows = (if capped then take ARCHIVE_ROW_CAP r else r), as_capped = capped\<rparr>))"

section \<open>What a search finds\<close>

definition archive_matches :: "pg \<Rightarrow> ArchiveFilters \<Rightarrow> leg_row \<Rightarrow> bool" where
  "archive_matches g f l \<longleftrightarrow>
     pg_day_start g (parse_date (rf_fromDate f)) \<le> l_ts l \<and> l_ts l < pg_day_start g (parse_date (rf_toDate f) + 1)
   \<and> (truthy (rf_arch_msisdn f) \<longrightarrow> l_msisdn l = rf_arch_msisdn f)
   \<and> (truthy (rf_arch_sessionId f) \<longrightarrow> Some (l_session_id l) = rf_arch_sessionId f)
   \<and> (or0 (rf_arch_shortcodeId f) \<noteq> 0 \<longrightarrow> l_shortcode_id l = rf_arch_shortcodeId f)
   \<and> (truthy (rf_arch_operatorName f) \<longrightarrow> Some (l_operator_name l) = rf_arch_operatorName f)"

lemma holds_date_start:
  "holds g (ps @ PStr s # post) r (CCmp op c (EDateStart (Suc (length ps)))) \<longleftrightarrow>
     (\<exists>t. r c = VTs t \<and> int_cmp op t (pg_day_start g (parse_date s)))"
  by (cases "r c") (simp_all add: holds_def)

lemma truthy_some: "truthy x \<Longrightarrow> x = Some (str_of x)"
  by (cases x) (simp_all add: truthy_def str_of_def)

lemma archive_conds_hold:
  "holds g (snd (archive_conds f)) (leg_sql l) (CAll (fst (archive_conds f))) \<longleftrightarrow> archive_matches g f l"
proof -
  have "holds g (snd (archive_conds f) @ []) (leg_sql l) (CAll (fst (archive_conds f))) \<longleftrightarrow> ((((((True
      \<and> (True \<longrightarrow> (\<exists>t. leg_sql l ''ts'' = VTs t \<and> int_cmp OpGe t (pg_day_start g (parse_date (rf_fromDate f))))))
      \<and> (True \<longrightarrow> (\<exists>t. leg_sql l ''ts'' = VTs t \<and> int_cmp OpLt t (pg_day_start g (parse_date (rf_toDate f) + 1) + 0 * 1000000))))
      \<and> (truthy (rf_arch_msisdn f) \<longrightarrow> leg_sql l ''msisdn'' = VStr (str_of (rf_arch_msisdn f))))
      \<and> (truthy (rf_arch_sessionId f) \<longrightarrow> leg_sql l ''session_id'' = VStr (str_of (rf_arch_sessionId f))))
      \<and> (or0 (rf_arch_shortcodeId f) \<noteq> 0 \<longrightarrow> leg_sql l ''shortcode_id'' = VInt (or0 (rf_arch_shortcodeId f))))
      \<and> (truthy (rf_arch_operatorName f) \<longrightarrow> leg_sql l ''operator_name'' = VStr (str_of (rf_arch_operatorName f))))"
    unfolding archive_conds_def
    by (intro push_cond_step) (simp_all only: holds_int_eq holds_str_eq holds_date_start holds_date_end fst_conv snd_conv
        holds_no_cond append_Nil2)
  then show ?thesis
    by (auto simp: archive_matches_def leg_sql_def opt_str_def or0_def truthy_def str_of_def split: option.splits)
qed

definition utc_midnights :: "(string \<Rightarrow> int option) \<Rightarrow> bool" where
  \<comment> \<open>what \<open>Date.parse\<close> does on a calendar date followed by \<open>T00:00:00Z\<close>\<close>
  "utc_midnights date_parse \<longleftrightarrow> (\<forall>z. 0 \<le> z \<and> z < 2786860 \<longrightarrow> date_parse (fmt_date z @ ''T00:00:00Z'') = Some (86400000 * z))"

definition day_range :: "int \<Rightarrow> int \<Rightarrow> ArchiveFilters \<Rightarrow> bool" where
  "day_range a b f \<longleftrightarrow> 0 \<le> a \<and> a < 2786860 \<and> 0 \<le> b \<and> b < 2786860 \<and> rf_fromDate f = fmt_date a \<and> rf_toDate f = fmt_date b"

lemma span_of_days:
  assumes "utc_midnights date_parse" "day_range a b f"
  shows "span_ms date_parse f = Some (86400000 * (b - a))"
proof -
  have "date_parse (fmt_date b @ ''T00:00:00Z'') = Some (86400000 * b)" "date_parse (fmt_date a @ ''T00:00:00Z'') = Some (86400000 * a)"
    using assms by (auto simp: utc_midnights_def day_range_def)
  then show ?thesis using assms(2) by (simp add: span_ms_def day_range_def)
qed

text \<open>
  C24. A search over the days a to b runs exactly when a is not after b and they span at most the days
  allowed; it then reads that window only, shows at most five hundred legs, newest first, which are all
  that match when it does not say that it was capped, and says so exactly when more match.
\<close>

theorem archive_search_bounded:
  assumes "utc_midnights date_parse" "day_range a b f"
  shows "searchArchive g date_parse (Some k) f archived =
    (if b < a then Inl InvalidRange
     else if k < b - a + 1 then Inl TooWide
     else (let found = sort_key (\<lambda>l. - l_ts l) (filter (archive_matches g f) archived)
       in Inr \<lparr>as_rows = take 500 found, as_capped = (500 < length found)\<rparr>))
   \<and> (\<forall>l. archive_matches g f l \<longrightarrow> pg_day_start g a \<le> l_ts l \<and> l_ts l < pg_day_start g (b + 1))"
proof -
  obtain cs ps where c: "archive_conds f = (cs, ps)" by fastforce
  have "filter (\<lambda>l. holds g ps (leg_sql l) (CAll cs)) archived = filter (archive_matches g f) archived"
    using archive_conds_hold [of g f] by (intro filter_cong [OF refl]) (simp only: c fst_conv snd_conv)
  moreover have "parse_date (fmt_date a) = a" "parse_date (fmt_date b) = b"
    using assms(2) by (simp_all add: day_range_def parse_fmt_date)
  ultimately show ?thesis using assms(2)
    unfolding searchArchive_def span_of_days [OF assms] option.case prod.case c Let_def
    by (auto simp del: holds_CAll simp: ARCHIVE_ROW_CAP_def archive_matches_def day_range_def min_def)
qed

section \<open>The page\<close>

record archive_params =
  sp_from :: "string option"
  sp_to :: "string option"
  sp_msisdn :: "string option"
  sp_session_id :: "string option"
  sp_operator :: "string option"

record archive_view =
  av_coverage :: ArchiveCoverage
  av_rows :: "leg_row list"
  av_capped :: bool
  av_error :: "string option"

definition opt_trim :: "string option \<Rightarrow> string option" where
  \<comment> \<open>\<open>x?.trim() || undefined\<close>\<close>
  "opt_trim x = (let t = trim (str_of x) in if t = [] then None else Some t)"

definition page_filters :: "archive_params \<Rightarrow> ArchiveFilters" where
  "page_filters sp = \<lparr>rf_fromDate = trim (str_of (sp_from sp)), rf_toDate = trim (str_of (sp_to sp)),
     rf_arch_msisdn = opt_trim (sp_msisdn sp), rf_arch_sessionId = opt_trim (sp_session_id sp),
     rf_arch_shortcodeId = None, rf_arch_operatorName = opt_trim (sp_operator sp)\<rparr>"

definition archive_error_text :: "int option \<Rightarrow> archive_error \<Rightarrow> string" where
  \<comment> \<open>the dash as a hyphen\<close>
  "archive_error_text maxDays e = (case e of InvalidRange \<Rightarrow> ''invalid date range''
     | TooWide \<Rightarrow> ''date range too wide - the archive is unindexed, so searches are limited to ''
         @ (case maxDays of None \<Rightarrow> ''NaN'' | Some k \<Rightarrow> js_String k) @ '' days at a time'')"

definition archive_outcome :: "int option \<Rightarrow> string option \<Rightarrow> archive_error + ArchiveSearchResult
    \<Rightarrow> leg_row list \<times> bool \<times> string option" where
  \<comment> \<open>rows, capped and error after the try block; \<open>fails\<close> is what the query throws, if it does\<close>
  "archive_outcome maxDays fails res = (case res of Inl e \<Rightarrow> ([], False, Some (archive_error_text maxDays e))
     | Inr r \<Rightarrow> (case fails of Some m \<Rightarrow> ([], False, Some m) | None \<Rightarrow> (as_rows r, as_capped r, None)))"

definition search_detail :: "archive_params \<Rightarrow> leg_row list \<times> bool \<times> string option \<Rightarrow> json" where
  "search_detail sp res = (case res of (rows, capped, err) \<Rightarrow> JObj [(''from'', JStr (trim (str_of (sp_from sp)))),
     (''to'', JStr (trim (str_of (sp_to sp)))),
     (''msisdn'', if opt_trim (sp_msisdn sp) \<noteq> None then JStr ''redacted'' else JNull),
     (''session_id'', opt_json JStr (opt_trim (sp_session_id sp))), (''operator'', opt_json JStr (opt_trim (sp_operator sp))),
     (''rows'', JNum (int (length rows))), (''capped'', JBool capped), (''error'', opt_json JStr err)])"

definition ArchivePage :: "'j app \<Rightarrow> pg \<Rightarrow> (string \<Rightarrow> int option) \<Rightarrow> (int \<Rightarrow> string) \<Rightarrow> string option \<Rightarrow> 'j http_req
    \<Rightarrow> archive_params \<Rightarrow> partition list \<Rightarrow> leg_row list \<Rightarrow> db \<Rightarrow> archive_view option \<times> db" where
  \<comment> \<open>no view is a redirect to the start page\<close>
  "ArchivePage ap g date_parse pretty fails rq sp parts archived d =
    (case require_perm ap rq [ARCHIVE_VIEW] d of None \<Rightarrow> (None, d)
     | Some session \<Rightarrow>
        (let f = page_filters sp; maxDays = ARCHIVE_MAX_WINDOW_DAYS (app_vars ap)
         in if rf_fromDate f = [] \<or> rf_toDate f = []
            then (Some \<lparr>av_coverage = archiveCoverage pretty parts, av_rows = [], av_capped = False, av_error = None\<rparr>, d)
            else (let res = archive_outcome maxDays fails (searchArchive g date_parse maxDays f archived)
              in (Some \<lparr>av_coverage = archiveCoverage pretty parts, av_rows = fst res, av_capped = fst (snd res),
                    av_error = snd (snd res)\<rparr>,
                  log_audit rq (Some (c_email session)) ''archive.search'' (Some (rf_fromDate f @ ''..'' @ rf_toDate f))
                    (if snd (snd res) \<noteq> None then Failure else Success) (Some (search_detail sp res)) d))))"

definition archive_entry :: "string \<Rightarrow> archive_params \<Rightarrow> archive_view \<Rightarrow> audit_row \<Rightarrow> bool" where
  \<comment> \<open>an audit row that says who searched the archive for what, and with what result\<close>
  "archive_entry actor sp v a \<longleftrightarrow> a_actor a = Some actor \<and> a_action a = ''archive.search''
     \<and> a_target a = Some (trim (str_of (sp_from sp)) @ ''..'' @ trim (str_of (sp_to sp)))
     \<and> a_outcome a = (if av_error v = None then Success else Failure)
     \<and> a_detail a = Some (search_detail sp (av_rows v, av_capped v, av_error v))"

text \<open>
  Whoever is shown archived traffic held the permission, and, unless a value is too long for its
  column of the audit log, the search is recorded: one new entry with the actor, the range, the
  filters, the number of legs shown and the outcome.
\<close>

theorem archive_search_audited:
  assumes "ArchivePage ap g date_parse pretty fails rq sp parts archived d = (Some v, d')" "av_rows v \<noteq> []"
  shows "\<exists>session. req_session ap rq d = Some session \<and> hasPerm (Some session) ARCHIVE_VIEW
    \<and> (fits 255 (Some (c_email session)) \<and> fits 64 (req_ip rq)
        \<and> fits 255 (Some (trim (str_of (sp_from sp)) @ ''..'' @ trim (str_of (sp_to sp))))
       \<longrightarrow> (\<exists>a. audit_log d' = audit_log d @ [a] \<and> archive_entry (c_email session) sp v a))"
proof -
  obtain session where s: "req_session ap rq d = Some session" "hasPerm (Some session) ARCHIVE_VIEW"
    using assms(1) by (auto simp: ArchivePage_def require_perm_def split: option.splits if_splits)
  define res where "res = archive_outcome (ARCHIVE_MAX_WINDOW_DAYS (app_vars ap)) fails
    (searchArchive g date_parse (ARCHIVE_MAX_WINDOW_DAYS (app_vars ap)) (page_filters sp) archived)"
  have p: "require_perm ap rq [ARCHIVE_VIEW] d = Some session" using s by (simp add: require_perm_def)
  have v: "v = \<lparr>av_coverage = archiveCoverage pretty parts, av_rows = fst res, av_capped = fst (snd res), av_error = snd (snd res)\<rparr>"
    and d': "d' = log_audit rq (Some (c_email session)) ''archive.search''
      (Some (rf_fromDate (page_filters sp) @ ''..'' @ rf_toDate (page_filters sp)))
      (if snd (snd res) \<noteq> None then Failure else Success) (Some (search_detail sp res)) d"
    using assms by (auto simp: ArchivePage_def p Let_def res_def [symmetric] split: if_splits)
  show ?thesis
    by (rule exI [of _ session]) (auto simp: s d' v log_audit_def audit_def audit_insert_def archive_entry_def page_filters_def fits_def)
qed

text \<open>
  The trail is not a second copy of what it guards: two searches for different subscribers that are
  alike otherwise and find equally much leave the same audit log.
\<close>

theorem archive_msisdn_redacted:
  assumes "opt_trim m \<noteq> None" "opt_trim m' \<noteq> None"
    and "ArchivePage ap g date_parse pretty fails rq (sp\<lparr>sp_msisdn := m\<rparr>) parts archived d = (Some v, d1)"
    and "ArchivePage ap g date_parse pretty fails rq (sp\<lparr>sp_msisdn := m'\<rparr>) parts archived d = (Some v', d2)"
    and "length (av_rows v) = length (av_rows v')" "av_capped v = av_capped v'" "av_error v = av_error v'"
  shows "d1 = d2"
proof -
  obtain session where p: "require_perm ap rq [ARCHIVE_VIEW] d = Some session"
    using assms(3) by (auto simp: ArchivePage_def split: option.splits)
  define out where "out = (\<lambda>m. archive_outcome (ARCHIVE_MAX_WINDOW_DAYS (app_vars ap)) fails
    (searchArchive g date_parse (ARCHIVE_MAX_WINDOW_DAYS (app_vars ap)) (page_filters (sp\<lparr>sp_msisdn := m\<rparr>)) archived))"
  have f: "rf_fromDate (page_filters (sp\<lparr>sp_msisdn := x\<rparr>)) = trim (str_of (sp_from sp))"
    "rf_toDate (page_filters (sp\<lparr>sp_msisdn := x\<rparr>)) = trim (str_of (sp_to sp))" for x
    by (simp_all add: page_filters_def)
  have det: "search_detail (sp\<lparr>sp_msisdn := m\<rparr>) r = search_detail (sp\<lparr>sp_msisdn := m'\<rparr>) r'"
    if "length (fst r) = length (fst r')" "snd r = snd r'" for r r' :: "leg_row list \<times> bool \<times> string option"
    using that assms(1,2) by (auto simp: search_detail_def split: prod.splits)
  show ?thesis
  proof (cases "trim (str_of (sp_from sp)) = [] \<or> trim (str_of (sp_to sp)) = []")
    case True
    have "d1 = d" using assms(3) True by (auto simp: ArchivePage_def p f Let_def)
    moreover have "d2 = d" using assms(4) True by (auto simp: ArchivePage_def p f Let_def)
    ultimately show ?thesis by simp
  next
    case False
    have one: "v = \<lparr>av_coverage = archiveCoverage pretty parts, av_rows = fst (out m), av_capped = fst (snd (out m)),
        av_error = snd (snd (out m))\<rparr>" "d1 = log_audit rq (Some (c_email session)) ''archive.search''
          (Some (trim (str_of (sp_from sp)) @ ''..'' @ trim (str_of (sp_to sp)))) (if snd (snd (out m)) \<noteq> None then Failure else Success)
          (Some (search_detail (sp\<lparr>sp_msisdn := m\<rparr>) (out m))) d"
      using assms(3) False by (auto simp: ArchivePage_def p f Let_def out_def)
    have two: "v' = \<lparr>av_coverage = archiveCoverage pretty parts, av_rows = fst (out m'), av_capped = fst (snd (out m')),
        av_error = snd (snd (out m'))\<rparr>" "d2 = log_audit rq (Some (c_email session)) ''archive.search''
          (Some (trim (str_of (sp_from sp)) @ ''..'' @ trim (str_of (sp_to sp)))) (if snd (snd (out m')) \<noteq> None then Failure else Success)
          (Some (search_detail (sp\<lparr>sp_msisdn := m'\<rparr>) (out m'))) d"
      using assms(4) False by (auto simp: ArchivePage_def p f Let_def out_def)
    have "snd (out m) = snd (out m')" using assms(6,7) one(1) two(1) by (simp add: prod_eq_iff)
    with det [of "out m" "out m'"] assms(5) one two show ?thesis by simp
  qed
qed

text \<open>
  A caller who sends a first \<open>X-Forwarded-For\<close> value longer than the \<open>ip\<close> column sees the same
  archived traffic and leaves no entry at all.
\<close>

theorem archive_search_unaudited:
  assumes "\<not> fits 64 (req_ip rq)"
  shows "snd (ArchivePage ap g date_parse pretty fails rq sp parts archived d) = d"
  using assms by (auto simp: ArchivePage_def Let_def log_audit_def audit_too_long_ip split: option.splits)

section \<open>Samples\<close>

definition sample_dates :: "string \<Rightarrow> int option" where
  \<comment> \<open>dates of the form the page sends\<close>
  "sample_dates s = (if drop 10 s = ''T00:00:00Z'' then Some (86400000 * parse_date (take 10 s)) else None)"

lemma length_fmt_date:
  assumes "0 \<le> z" "z < 2786860"
  shows "length (fmt_date z) = 10"
proof -
  obtain y m d where c: "civil_from_days z = (y, m, d)" by (cases "civil_from_days z")
  note r = civil_ranges [OF c assms]
  have "length (pad 4 (nat y)) = 4" "length (pad 2 (nat m)) = 2" "length (pad 2 (nat d)) = 2"
    using r by (simp_all add: length_pad4 length_pad2)
  then show ?thesis by (simp add: fmt_date_def c)
qed

lemma sample_dates_utc: "utc_midnights sample_dates"
  by (simp add: utc_midnights_def sample_dates_def length_fmt_date parse_fmt_date)

lemma fmt_one: "fmt_date 1 = ''1970-01-02''"
  by code_simp

definition one_day :: ArchiveFilters where
  "one_day = \<lparr>rf_fromDate = ''1970-01-02'', rf_toDate = ''1970-01-02'', rf_arch_msisdn = None, rf_arch_sessionId = None,
     rf_arch_shortcodeId = None, rf_arch_operatorName = None\<rparr>"

theorem archive_search_bounded_witness:
  "searchArchive sample_pg sample_dates (Some 7) one_day [sample_leg 1 5 5, sample_leg 2 86400000007 5]
    = Inr \<lparr>as_rows = [sample_leg 2 86400000007 5], as_capped = False\<rparr>"
proof -
  have r: "day_range 1 1 one_day" by (simp add: day_range_def one_day_def fmt_one)
  have f: "filter (archive_matches sample_pg one_day) [sample_leg 1 5 5, sample_leg 2 86400000007 5] = [sample_leg 2 86400000007 5]"
    by code_simp
  show ?thesis
    using conjunct1 [OF archive_search_bounded [OF sample_dates_utc r, of sample_pg 7 "[sample_leg 1 5 5, sample_leg 2 86400000007 5]"]]
    unfolding f by simp
qed

definition archivist_session :: SessionClaims where
  "archivist_session = sample_session\<lparr>c_perms := [ARCHIVE_VIEW]\<rparr>"

definition archive_app :: "(string \<times> jwt_payload) app" where
  "archive_app = sample_app\<lparr>app_vars := (\<lambda>_. None)\<rparr>"

definition archivist_req :: "string option \<Rightarrow> (string \<times> jwt_payload) http_req" where
  "archivist_req xff = (sample_req JNull (Some (ae_secret sample_env, \<lparr>j_claims = archivist_session, j_iat = 0, j_exp = 28800\<rparr>)))
     \<lparr>hr_headers := (\<lambda>k. if k = ''x-forwarded-for'' then xff else None)\<rparr>"

lemma archivist_reads: "req_session archive_app (archivist_req xff) sample_db = Some archivist_session"
proof -
  have "userStillValid sample_db (js_String 2) 0" by (simp add: userStillValid_def sample_db_def sample_user_def)
  moreover have "verifySession sample_verify sample_env (req_ms (archivist_req xff))
      (ae_secret sample_env, \<lparr>j_claims = archivist_session, j_iat = 0, j_exp = 28800\<rparr>) = Some archivist_session"
    by (simp add: verifySession_def sample_secret sample_verify_def req_ms_def archivist_req_def sample_req_def)
  moreover have "hr_session (archivist_req xff)
      = Some (ae_secret sample_env, \<lparr>j_claims = archivist_session, j_iat = 0, j_exp = 28800\<rparr>)"
    by (simp add: archivist_req_def sample_req_def)
  ultimately show ?thesis
    by (simp add: req_session_def getSession_def archive_app_def sample_app_def)
      (simp add: archivist_session_def sample_session_def or0_def)
qed

definition day_params :: "string option \<Rightarrow> archive_params" where
  "day_params m = \<lparr>sp_from = Some ''1970-01-02'', sp_to = Some ''1970-01-02'', sp_msisdn = m, sp_session_id = None, sp_operator = None\<rparr>"

definition day_page :: "string option \<Rightarrow> string option \<Rightarrow> archive_view option \<times> db" where
  \<comment> \<open>the page of one day, by the forwarded address and the subscriber asked for\<close>
  "day_page xff m = ArchivePage archive_app sample_pg sample_dates js_String None (archivist_req xff) (day_params m) []
     [sample_leg 1 5 5, sample_leg 2 86400000007 5] sample_db"

lemma day_page_view:
  "\<exists>v d'. day_page xff m = (Some v, d') \<and> av_capped v = False \<and> av_error v = None
     \<and> av_rows v = (if opt_trim m = None then [sample_leg 2 86400000007 5] else [])"
  if "m \<in> {None, Some ''1'', Some ''2''}"
proof -
  have p: "require_perm archive_app (archivist_req xff) [ARCHIVE_VIEW] sample_db = Some archivist_session"
    by (simp add: require_perm_def archivist_reads hasPerm_def archivist_session_def)
  have k: "ARCHIVE_MAX_WINDOW_DAYS (app_vars archive_app) = Some 7"
    by (simp add: ARCHIVE_MAX_WINDOW_DAYS_def archive_app_def truthy_def)
  have range: "day_range 1 1 (page_filters (day_params m))"
    by (simp add: day_range_def page_filters_def day_params_def fmt_one str_of_def trim_def is_ws_def)
  have pd: "parse_date (rf_fromDate (page_filters (day_params m))) = 1" "parse_date (rf_toDate (page_filters (day_params m))) = 1"
    using range by (simp_all add: day_range_def parse_fmt_date)
  have rest: "rf_arch_msisdn (page_filters (day_params m)) = opt_trim m" "rf_arch_sessionId (page_filters (day_params m)) = None"
    "rf_arch_shortcodeId (page_filters (day_params m)) = None" "rf_arch_operatorName (page_filters (day_params m)) = None"
    by (simp_all add: page_filters_def day_params_def opt_trim_def str_of_def)
  have m: "truthy (opt_trim m) \<longleftrightarrow> opt_trim m \<noteq> None" "opt_trim m \<noteq> Some ''255''"
    using that by (auto simp: opt_trim_def truthy_def str_of_def trim_def is_ws_def)
  have "archive_matches sample_pg (page_filters (day_params m)) (sample_leg i t 5)
      \<longleftrightarrow> 86400000000 \<le> t \<and> t < 172800000000 \<and> opt_trim m = None" for i t
    unfolding archive_matches_def pd rest m(1) using m(2) by (auto simp: sample_pg_def sample_leg_def truthy_def or0_def)
  then have f: "filter (archive_matches sample_pg (page_filters (day_params m))) [sample_leg 1 5 5, sample_leg 2 86400000007 5]
      = (if opt_trim m = None then [sample_leg 2 86400000007 5] else [])" by simp
  have r: "searchArchive sample_pg sample_dates (Some 7) (page_filters (day_params m)) [sample_leg 1 5 5, sample_leg 2 86400000007 5]
      = Inr \<lparr>as_rows = (if opt_trim m = None then [sample_leg 2 86400000007 5] else []), as_capped = False\<rparr>"
    using conjunct1 [OF archive_search_bounded [OF sample_dates_utc range, of sample_pg 7 "[sample_leg 1 5 5, sample_leg 2 86400000007 5]"]]
    unfolding f by simp
  have n: "rf_fromDate (page_filters (day_params m)) \<noteq> []" "rf_toDate (page_filters (day_params m)) \<noteq> []"
    by (simp_all add: page_filters_def day_params_def str_of_def trim_def is_ws_def)
  show ?thesis by (simp add: day_page_def ArchivePage_def p k n Let_def r archive_outcome_def)
qed

theorem archive_search_audited_witness:
  "\<exists>v d' a. day_page None None = (Some v, d') \<and> audit_log d' = [a] \<and> archive_entry ''cl'' (day_params None) v a"
proof -
  obtain v d' where v: "day_page None None = (Some v, d')" "av_rows v \<noteq> []"
    using day_page_view [of None None] by (auto simp: opt_trim_def str_of_def)
  have f: "fits 64 (req_ip (archivist_req None))"
    "fits 255 (Some (trim (str_of (sp_from (day_params None))) @ ''..'' @ trim (str_of (sp_to (day_params None)))))"
    by (simp add: req_ip_def clientIp_def archivist_req_def sample_req_def truthy_def fits_def) code_simp
  have e: "c_email archivist_session = ''cl''" "fits 255 (Some ''cl'')"
    by (simp_all add: archivist_session_def sample_session_def fits_def)
  obtain session a where s: "req_session archive_app (archivist_req None) sample_db = Some session"
    "fits 255 (Some (c_email session)) \<Longrightarrow> audit_log d' = audit_log sample_db @ [a] \<and> archive_entry (c_email session) (day_params None) v a"
    using archive_search_audited [OF v(1) [unfolded day_page_def] v(2)] f by blast
  from s(1) have "session = archivist_session" by (simp add: archivist_reads)
  with s(2) e v(1) show ?thesis by (auto simp: sample_db_def)
qed

theorem archive_msisdn_redacted_witness: "snd (day_page None (Some ''1'')) = snd (day_page None (Some ''2''))"
proof -
  have o: "opt_trim (Some ''1'') \<noteq> None" "opt_trim (Some ''2'') \<noteq> None" by code_simp+
  obtain v d1 where one: "day_page None (Some ''1'') = (Some v, d1)" "av_rows v = []" "av_capped v = False" "av_error v = None"
    using day_page_view [of "Some ''1''" None] o by auto
  obtain v' d2 where two: "day_page None (Some ''2'') = (Some v', d2)" "av_rows v' = []" "av_capped v' = False" "av_error v' = None"
    using day_page_view [of "Some ''2''" None] o by auto
  have sp: "day_params m = (day_params None)\<lparr>sp_msisdn := m\<rparr>" for m by (simp add: day_params_def)
  from archive_msisdn_redacted [OF o one(1) [unfolded day_page_def sp [of "Some ''1''"]] two(1) [unfolded day_page_def sp [of "Some ''2''"]]]
    one two show ?thesis by simp
qed

theorem archive_search_unaudited_witness:
  "\<exists>v. day_page (Some (replicate 65 CHR ''1'')) None = (Some v, sample_db) \<and> av_rows v \<noteq> []"
proof -
  obtain v d' where v: "day_page (Some (replicate 65 CHR ''1'')) None = (Some v, d')" "av_rows v \<noteq> []"
    using day_page_view [of None "Some (replicate 65 CHR ''1'')"] by (auto simp: opt_trim_def str_of_def)
  have "req_ip (archivist_req (Some (replicate 65 CHR ''1''))) = Some (replicate 65 CHR ''1'')"
    by (simp add: req_ip_def clientIp_def archivist_req_def split_head_def trim_def is_ws_def)
  then have "\<not> fits 64 (req_ip (archivist_req (Some (replicate 65 CHR ''1''))))" by (simp add: fits_def)
  from archive_search_unaudited [OF this, of archive_app sample_pg sample_dates js_String None "day_params None" "[]"
      "[sample_leg 1 5 5, sample_leg 2 86400000007 5]" sample_db, folded day_page_def] v
  show ?thesis by auto
qed

end
