(* ===== verification/Rollups.thy ===== *)
theory Rollups
  imports Reporting Actions
begin

text \<open>
  What is read from the daily rollup instead of the log: the summary page and its CSV
  (\<^verbatim>\<open>dashboard/src/lib/summary.ts\<close>) and the traffic chart of the overview
  (\<^verbatim>\<open>dashboard/src/lib/overview.ts\<close>).  CSV cells that show a name a person typed are in the UTF-8
  bytes the stream sends.
\<close>

section \<open>The summary\<close>

datatype GroupBy = ByDate | ByOperator | ByShortcode | ByOwner

record SummaryFilters =
  sf_fromDate :: string
  sf_toDate :: string
  sf_operatorIds :: "int list"        \<comment> \<open>absent and empty mean the same\<close>
  sf_shortcodeIds :: "int list"
  sf_ownerUserId :: "int option"

record SummaryRow =
  su_date :: int
  su_group_label :: "string option"
  su_sessions :: int
  su_legs :: int
  su_errors :: int
  su_billable_units :: int

definition utf8_text :: "ustr \<Rightarrow> string" where
  "utf8_text us = map char_of (utf8_encode us)"

definition dataThroughDate :: "int \<Rightarrow> string" where
  \<comment> \<open>yesterday, of the UTC day number of today\<close>
  "dataThroughDate today = fmt_date (today - 1)"

record bucket =
  \<comment> \<open>a rollup row joined with its operator, its shortcode and the shortcode's owner\<close>
  bk_row :: rollup_row
  bk_operator :: operator_row
  bk_shortcode :: "shortcode_row option"
  bk_owner :: "user_row option"

definition buckets :: "db \<Rightarrow> rollup_row list \<Rightarrow> bucket list" where
  "buckets d rows = List.map_filter (\<lambda>r. map_option (\<lambda>o'. let s = find_shortcode d (ru_shortcode_id r) in
     \<lparr>bk_row = r, bk_operator = o', bk_shortcode = s,
      bk_owner = (case s of None \<Rightarrow> None | Some s' \<Rightarrow> find_user d (sc_owner s'))\<rparr>)
     (find_operator d (ru_operator_id r))) rows"

definition bucket_sql :: "bucket \<Rightarrow> row" where
  "bucket_sql b c = (if c = ''d.date'' then VDate (ru_date (bk_row b))
     else if c = ''d.shortcode_id'' then VInt (ru_shortcode_id (bk_row b))
     else if c = ''d.operator_id'' then VInt (ru_operator_id (bk_row b))
     else if c = ''s.owner_user_id'' then (case bk_shortcode b of None \<Rightarrow> VNull | Some s \<Rightarrow> VInt (sc_owner s)) else VNull)"

definition unmatched :: string where "unmatched = ''unmatched''"

definition group_key :: "GroupBy \<Rightarrow> bucket \<Rightarrow> (string \<times> string) option" where
  \<comment> \<open>\<open>groupCol\<close> and \<open>labelCol\<close>\<close>
  "group_key gb b = (case gb of ByDate \<Rightarrow> None
     | ByOperator \<Rightarrow> Some (op_name (bk_operator b), op_display_name (bk_operator b))
     | ByShortcode \<Rightarrow> Some (case bk_shortcode b of None \<Rightarrow> (unmatched, unmatched)
         | Some s \<Rightarrow> (sc_code s, sc_code s @ (case sc_label s of None \<Rightarrow> [] | Some l \<Rightarrow> utf8_text ([0x20, 0xB7, 0x20] @ l))))
     | ByOwner \<Rightarrow> Some (case bk_owner b of None \<Rightarrow> (unmatched, unmatched)
         | Some u \<Rightarrow> (u_email u, u_name u @ '' <'' @ u_email u @ ''>'')))"

definition range_conds :: "SummaryFilters \<Rightarrow> pval list \<Rightarrow> sql_cond list \<times> pval list" where
  \<comment> \<open>\<open>d.date BETWEEN $1::date AND $2::date\<close>\<close>
  "range_conds f ps = push_cond True (\<lambda>n. CCmp OpLe ''d.date'' (EDate n)) (PStr (sf_toDate f))
    (push_cond True (\<lambda>n. CCmp OpGe ''d.date'' (EDate n)) (PStr (sf_fromDate f)) ([], ps))"

definition pick_conds :: "SummaryFilters \<Rightarrow> pval list \<Rightarrow> sql_cond list \<times> pval list" where
  "pick_conds f ps =
    push_cond (sf_ownerUserId f \<noteq> None) (\<lambda>n. CCmp OpEq ''s.owner_user_id'' (EPar n)) (PInt (or0 (sf_ownerUserId f)))
    (push_cond (sf_shortcodeIds f \<noteq> []) (CAny ''d.shortcode_id'') (PInts (sf_shortcodeIds f))
    (push_cond (sf_operatorIds f \<noteq> []) (CAny ''d.operator_id'') (PInts (sf_operatorIds f)) ([], ps)))"

definition summary_conds :: "SummaryFilters \<Rightarrow> ShortcodeAcl \<Rightarrow> pval list \<Rightarrow> sql_cond list \<times> pval list" where
  "summary_conds f acl ps = then_build range_conds (then_build (acl_conds ''d.shortcode_id'' ''d.date'' GDate) pick_conds)
     (f, (acl, f)) ps"

definition summary_row :: "int \<times> (string \<times> string) option \<Rightarrow> bucket list \<Rightarrow> SummaryRow" where
  "summary_row k bs = \<lparr>su_date = fst k, su_group_label = map_option snd (snd k),
     su_sessions = sum_list (map (ru_sessions \<circ> bk_row) bs), su_legs = sum_list (map (ru_legs \<circ> bk_row) bs),
     su_errors = sum_list (map (ru_errors \<circ> bk_row) bs),
     su_billable_units = sum_list (map (ru_billable_units \<circ> bk_row) bs)\<rparr>"

definition summary_key :: "GroupBy \<Rightarrow> bucket \<Rightarrow> int \<times> (string \<times> string) option" where
  "summary_key gb b = (ru_date (bk_row b), group_key gb b)"

definition by_summary_key :: "(string \<Rightarrow> string \<Rightarrow> bool) \<Rightarrow> int \<times> (string \<times> string) option \<Rightarrow> int \<times> (string \<times> string) option \<Rightarrow> bool" where
  \<comment> \<open>ORDER BY d.date DESC, groupCol\<close>
  "by_summary_key le a b \<longleftrightarrow> (if fst a = fst b then (case (snd a, snd b) of (Some x, Some y) \<Rightarrow> le (fst x) (fst y) | _ \<Rightarrow> True)
     else fst b < fst a)"

definition loadDailySummary :: "pg \<Rightarrow> (string \<Rightarrow> string \<Rightarrow> bool) \<Rightarrow> SummaryFilters \<Rightarrow> ShortcodeAcl \<Rightarrow> GroupBy \<Rightarrow> int \<Rightarrow> db
    \<Rightarrow> rollup_row list \<Rightarrow> SummaryRow list" where
  "loadDailySummary g le f acl gb maxRows d rows =
    (let (conds, params) = summary_conds f acl [];
         bs = filter (\<lambda>b. holds g params (bucket_sql b) (CAll conds)) (buckets d rows);
         keys = sort_by (by_summary_key le) (remdups (map (summary_key gb) bs))
     in take (nat (max 1 (min maxRows 50000)))
          (map (\<lambda>k. summary_row k (filter (\<lambda>b. summary_key gb b = k) bs)) keys))"

definition SUMMARY_CSV_ROW_CAP :: int where "SUMMARY_CSV_ROW_CAP = 50000"

definition group_header :: "GroupBy \<Rightarrow> string" where
  "group_header gb = (case gb of ByOperator \<Rightarrow> ''operator'' | ByShortcode \<Rightarrow> ''shortcode'' | ByOwner \<Rightarrow> ''owner'' | ByDate \<Rightarrow> [])"

definition summary_headers :: "GroupBy \<Rightarrow> string list" where
  "summary_headers gb = (if gb \<noteq> ByDate then [''date'', group_header gb, ''unique_session_ids'', ''legs'', ''session_counts'']
     else [''date'', ''unique_session_ids'', ''legs'', ''session_counts''])"

definition summary_cells :: "GroupBy \<Rightarrow> SummaryRow \<Rightarrow> string list" where
  "summary_cells gb r = (if gb \<noteq> ByDate
     then [fmt_date (su_date r), str_of (su_group_label r), js_String (su_sessions r), js_String (su_legs r),
       js_String (su_billable_units r)]
     else [fmt_date (su_date r), js_String (su_sessions r), js_String (su_legs r), js_String (su_billable_units r)])"

definition streamDailySummaryCsv :: "pg \<Rightarrow> (string \<Rightarrow> string \<Rightarrow> bool) \<Rightarrow> string \<Rightarrow> SummaryFilters \<Rightarrow> ShortcodeAcl \<Rightarrow> GroupBy
    \<Rightarrow> db \<Rightarrow> rollup_row list \<Rightarrow> string" where
  \<comment> \<open>the chunks enqueued, joined; the header is joined without quoting\<close>
  "streamDailySummaryCsv g le truncated f acl gb d rows =
    (let rs = loadDailySummary g le f acl gb SUMMARY_CSV_ROW_CAP d rows
     in join_with '','' (summary_headers gb) @ [CHR 0x0A] @ concat (map (csv_line \<circ> summary_cells gb) rs)
        @ (if int (length rs) \<ge> SUMMARY_CSV_ROW_CAP then truncated else []))"

record OwnerOption =
  oo_id :: int
  oo_email :: string
  oo_name :: string
  oo_shortcode_count :: nat

definition listShortcodeOwners :: "(string \<Rightarrow> string \<Rightarrow> bool) \<Rightarrow> db \<Rightarrow> OwnerOption list" where
  "listShortcodeOwners le d = sort_by (\<lambda>a b. le (oo_name a) (oo_name b))
     (List.map_filter (\<lambda>u. let n = length (filter (\<lambda>s. sc_owner s = u_id u \<and> sc_active s) (shortcodes d)) in
        if n = 0 then None else Some \<lparr>oo_id = u_id u, oo_email = u_email u, oo_name = u_name u, oo_shortcode_count = n\<rparr>)
      (users d))"

section \<open>The export route\<close>

type_synonym query_string = "(string \<times> string) list"

definition qs_get :: "query_string \<Rightarrow> string \<Rightarrow> string option" where
  "qs_get q k = map_of q k"

definition qs_ints :: "query_string \<Rightarrow> string \<Rightarrow> int list" where
  \<comment> \<open>\<open>asIntArray(searchParams.getAll(k))\<close>\<close>
  "qs_ints q k = List.map_filter (\<lambda>(k', v). if k' = k then js_parseInt v else None) q"

definition qs_or :: "query_string \<Rightarrow> string \<Rightarrow> string \<Rightarrow> string" where
  "qs_or q k dflt = (if truthy (qs_get q k) then str_of (qs_get q k) else dflt)"

definition qs_group :: "query_string \<Rightarrow> GroupBy" where
  "qs_group q = (let v = qs_get q ''group_by'' in if v = Some ''date_operator'' then ByOperator
     else if v = Some ''date_shortcode'' then ByShortcode else if v = Some ''date_owner'' then ByOwner else ByDate)"

definition summary_filters :: "SessionClaims \<Rightarrow> int \<Rightarrow> query_string \<Rightarrow> SummaryFilters" where
  "summary_filters session today q = \<lparr>sf_fromDate = qs_or q ''from'' (dataThroughDate today),
     sf_toDate = qs_or q ''to'' (dataThroughDate today), sf_operatorIds = qs_ints q ''operator_id'',
     sf_shortcodeIds = qs_ints q ''shortcode_id'',
     sf_ownerUserId = (if hasPerm (Some session) REPORTS_VIEW_ALL \<and> truthy (qs_get q ''owner_user_id'')
       then js_parseInt (str_of (qs_get q ''owner_user_id'')) else None)\<rparr>"

definition summary_export_GET :: "'j app \<Rightarrow> pg \<Rightarrow> (string \<Rightarrow> string \<Rightarrow> bool) \<Rightarrow> string \<Rightarrow> (SummaryFilters \<Rightarrow> GroupBy \<Rightarrow> json)
    \<Rightarrow> 'j http_req \<Rightarrow> query_string \<Rightarrow> db \<Rightarrow> rollup_row list \<Rightarrow> 'j reply \<times> db" where
  "summary_export_GET ap g le truncated detail rq q d rows = (case req_session ap rq d of
       None \<Rightarrow> (reply_error 401 ''unauthorized'', d)
     | Some session \<Rightarrow>
        if \<not> hasPerm (Some session) REPORTS_VIEW_OWN \<and> \<not> hasPerm (Some session) REPORTS_VIEW_ALL
        then (reply_error 403 ''forbidden'', d)
        else (let f = summary_filters session (hr_now rq div 86400000000) q; gb = qs_group q
          in (\<lparr>rp_status = 200, rp_body = RText (streamDailySummaryCsv g le truncated f (sessionAcl (Some session)) gb d rows),
                rp_cookie = None\<rparr>,
              log_audit rq (Some (c_email session)) ''summary.export'' (Some ''csv'') Success (Some (detail f gb)) d)))"

section \<open>The overview\<close>

record DailyTrafficRow =
  dt_day :: int
  dt_operator_name :: string
  dt_billable_units :: int

definition month_conds :: "int \<Rightarrow> int \<Rightarrow> int option \<Rightarrow> rollup_row \<Rightarrow> bool" where
  \<comment> \<open>the range of the month, and \<open>d.date < today\<close> where the query has it\<close>
  "month_conds from next below r \<longleftrightarrow> from \<le> ru_date r \<and> ru_date r < next
     \<and> (case below of None \<Rightarrow> True | Some t \<Rightarrow> ru_date r < t)"

definition day_totals :: "db \<Rightarrow> rollup_row list \<Rightarrow> DailyTrafficRow list" where
  \<comment> \<open>GROUP BY date, operator name\<close>
  "day_totals d rows =
    (let named = List.map_filter (\<lambda>r. map_option (\<lambda>o'. (ru_date r, op_name o', ru_billable_units r))
           (find_operator d (ru_operator_id r))) rows
     in map (\<lambda>k. \<lparr>dt_day = fst k, dt_operator_name = snd k,
          dt_billable_units = sum_list (map (snd \<circ> snd) (filter (\<lambda>x. (fst x, fst (snd x)) = k) named))\<rparr>)
        (remdups (map (\<lambda>x. (fst x, fst (snd x))) named)))"

definition merge_totals :: "(string \<Rightarrow> string \<Rightarrow> bool) \<Rightarrow> DailyTrafficRow list \<Rightarrow> DailyTrafficRow list" where
  \<comment> \<open>the outer SUM over the UNION ALL, in order\<close>
  "merge_totals le xs = map (\<lambda>k. \<lparr>dt_day = fst k, dt_operator_name = snd k,
      dt_billable_units = sum_list (map dt_billable_units (filter (\<lambda>x. (dt_day x, dt_operator_name x) = k) xs))\<rparr>)
    (sort_by (\<lambda>a b. if fst a = fst b then le (snd a) (snd b) else fst a < fst b)
      (remdups (map (\<lambda>x. (dt_day x, dt_operator_name x)) xs)))"

definition rollup_acl_sql :: "rollup_row \<Rightarrow> row" where
  "rollup_acl_sql r c = (if c = ''d.date'' then VDate (ru_date r)
     else if c = ''d.shortcode_id'' then VInt (ru_shortcode_id r) else VNull)"

definition month_start :: "string \<Rightarrow> int" where
  "month_start ym = parse_date (ym @ ''-01'')"

definition next_month :: "int \<Rightarrow> int" where
  \<comment> \<open>\<open>date + interval '1 month'\<close> of the first of a month\<close>
  "next_month z = (case civil_from_days z of (y, m, _) \<Rightarrow> if m = 12 then days_from_civil (y + 1) 1 1 else days_from_civil y (m + 1) 1)"

definition loadDailyTraffic :: "pg \<Rightarrow> (string \<Rightarrow> string \<Rightarrow> bool) \<Rightarrow> ShortcodeAcl \<Rightarrow> string \<Rightarrow> int \<Rightarrow> db \<Rightarrow> rollup_row list
    \<Rightarrow> rollup_row list \<Rightarrow> DailyTrafficRow list" where
  \<comment> \<open>\<open>today\<close> is the local day; the last two are the nightly rollup and the view of today\<close>
  "loadDailyTraffic g le acl ym today d nightly mv =
    (if aclDeniesAll acl then []
     else (let (c, params) = aclClause acl ''d.shortcode_id'' ''d.date'' GDate [];
               ok = (\<lambda>r. holds g params (rollup_acl_sql r) c);
               a = month_start ym; b = next_month a;
               past_days = day_totals d (filter (\<lambda>r. month_conds a b (Some today) r \<and> ok r) nightly);
               todays = day_totals d (filter (\<lambda>r. month_conds a b None r \<and> ok r) mv)
           in merge_totals le (past_days @ todays)))"

end
