(* ===== verification/Rollup_Views.thy ===== *)
theory Rollup_Views
  imports Rollups Export_Access
begin

text \<open>
  What the summary page, its CSV and the overview chart show of the rollups.  \<open>summary_wants\<close> and
  \<open>day_allowed\<close> say which buckets a caller is to see; the predicates of \<^verbatim>\<open>summary.ts\<close> are
  builders under the \<open>cond_builder\<close> interface, composed with the one of the allowlist.
\<close>

section \<open>Which buckets are counted\<close>

definition range_matches :: "SummaryFilters \<Rightarrow> row \<Rightarrow> bool" where
  "range_matches f r \<longleftrightarrow> (\<exists>d. r ''d.date'' = VDate d \<and> parse_date (sf_fromDate f) \<le> d \<and> d \<le> parse_date (sf_toDate f))"

definition pick_matches :: "SummaryFilters \<Rightarrow> row \<Rightarrow> bool" where
  "pick_matches f r \<longleftrightarrow>
     (sf_operatorIds f \<noteq> [] \<longrightarrow> (\<exists>i \<in> set (sf_operatorIds f). r ''d.operator_id'' = VInt i))
   \<and> (sf_shortcodeIds f \<noteq> [] \<longrightarrow> (\<exists>i \<in> set (sf_shortcodeIds f). r ''d.shortcode_id'' = VInt i))
   \<and> (case sf_ownerUserId f of None \<Rightarrow> True | Some i \<Rightarrow> r ''s.owner_user_id'' = VInt i)"

lemma holds_date_cmp:
  "holds g (ps @ PStr s # post) r (CCmp op c (EDate (Suc (length ps)))) \<longleftrightarrow>
     (\<exists>d. r c = VDate d \<and> int_cmp op d (parse_date s))"
  by (cases "r c") (simp_all add: holds_def)

interpretation range_builder: cond_builder g range_conds range_matches for g
proof (unfold_locales)
  fix f ps cs ps' post r
  assume "range_conds f ps = (cs, ps')"
  then have e: "cs = fst (range_conds f ps)" "ps' = snd (range_conds f ps)" by simp_all
  show "\<exists>ext. ps' = ps @ ext" unfolding e range_conds_def by (intro push_cond_prefix) simp
  have "holds g (ps' @ post) r (CAll cs) \<longleftrightarrow> ((True
      \<and> (True \<longrightarrow> (\<exists>d. r ''d.date'' = VDate d \<and> int_cmp OpGe d (parse_date (sf_fromDate f)))))
      \<and> (True \<longrightarrow> (\<exists>d. r ''d.date'' = VDate d \<and> int_cmp OpLe d (parse_date (sf_toDate f)))))"
    unfolding e range_conds_def
    by (intro push_cond_step) (simp_all only: holds_date_cmp fst_conv snd_conv holds_no_cond)
  then show "holds g (ps' @ post) r (CAll cs) \<longleftrightarrow> range_matches f r" by (auto simp: range_matches_def)
qed

interpretation pick_builder: cond_builder g pick_conds pick_matches for g
proof (unfold_locales)
  fix f ps cs ps' post r
  assume "pick_conds f ps = (cs, ps')"
  then have e: "cs = fst (pick_conds f ps)" "ps' = snd (pick_conds f ps)" by simp_all
  show "\<exists>ext. ps' = ps @ ext" unfolding e pick_conds_def by (intro push_cond_prefix) simp
  have "holds g (ps' @ post) r (CAll cs) \<longleftrightarrow> (((True
      \<and> (sf_operatorIds f \<noteq> [] \<longrightarrow> (\<exists>i \<in> set (sf_operatorIds f). r ''d.operator_id'' = VInt i)))
      \<and> (sf_shortcodeIds f \<noteq> [] \<longrightarrow> (\<exists>i \<in> set (sf_shortcodeIds f). r ''d.shortcode_id'' = VInt i)))
      \<and> (sf_ownerUserId f \<noteq> None \<longrightarrow> r ''s.owner_user_id'' = VInt (or0 (sf_ownerUserId f))))"
    unfolding e pick_conds_def
    by (intro push_cond_step) (simp_all only: holds_any_ints holds_int_eq fst_conv snd_conv holds_no_cond)
  then show "holds g (ps' @ post) r (CAll cs) \<longleftrightarrow> pick_matches f r"
    by (auto simp: pick_matches_def or0_def split: option.splits)
qed

interpretation scoped_picks: cond_builder_pair g "acl_conds ''d.shortcode_id'' ''d.date'' GDate"
  "acl_allows GDate ''d.shortcode_id'' ''d.date''" pick_conds pick_matches for g
  by unfold_locales

interpretation summary_builder: cond_builder_pair g range_conds range_matches
  "then_build (acl_conds ''d.shortcode_id'' ''d.date'' GDate) pick_conds"
  "\<lambda>ab r. acl_allows GDate ''d.shortcode_id'' ''d.date'' (fst ab) r \<and> pick_matches (snd ab) r" for g
  by unfold_locales

definition date_allowed :: "ShortcodeAcl \<Rightarrow> rollup_row \<Rightarrow> bool" where
  "date_allowed acl r \<longleftrightarrow> acl_allows GDate ''d.shortcode_id'' ''d.date'' acl (rollup_acl_sql r)"

definition summary_wants :: "SummaryFilters \<Rightarrow> ShortcodeAcl \<Rightarrow> bucket \<Rightarrow> bool" where
  "summary_wants f acl b \<longleftrightarrow> (let r = bk_row b in
     parse_date (sf_fromDate f) \<le> ru_date r \<and> ru_date r \<le> parse_date (sf_toDate f) \<and> date_allowed acl r
   \<and> (sf_operatorIds f = [] \<or> ru_operator_id r \<in> set (sf_operatorIds f))
   \<and> (sf_shortcodeIds f = [] \<or> ru_shortcode_id r \<in> set (sf_shortcodeIds f))
   \<and> (case sf_ownerUserId f of None \<Rightarrow> True | Some i \<Rightarrow> map_option sc_owner (bk_shortcode b) = Some i))"

lemma allowed_bucket: "acl_allows GDate ''d.shortcode_id'' ''d.date'' acl (bucket_sql b) \<longleftrightarrow> date_allowed acl (bk_row b)"
proof -
  have "bucket_sql b ''d.shortcode_id'' = rollup_acl_sql (bk_row b) ''d.shortcode_id''"
    "bucket_sql b ''d.date'' = rollup_acl_sql (bk_row b) ''d.date''"
    by (simp_all add: bucket_sql_def rollup_acl_sql_def)
  then show ?thesis unfolding date_allowed_def acl_allows_def by (cases acl) simp_all
qed

lemma summary_conds_hold:
  assumes "summary_conds f acl [] = (cs, ps)"
  shows "holds g ps (bucket_sql b) (CAll cs) \<longleftrightarrow> summary_wants f acl b"
proof -
  have "holds g ps (bucket_sql b) (CAll cs) \<longleftrightarrow> range_matches f (bucket_sql b)
      \<and> acl_allows GDate ''d.shortcode_id'' ''d.date'' acl (bucket_sql b) \<and> pick_matches f (bucket_sql b)"
    using summary_builder.seq.where_holds [OF assms [unfolded summary_conds_def]] by simp
  moreover have "range_matches f (bucket_sql b) \<longleftrightarrow>
      parse_date (sf_fromDate f) \<le> ru_date (bk_row b) \<and> ru_date (bk_row b) \<le> parse_date (sf_toDate f)"
    by (simp add: range_matches_def bucket_sql_def)
  moreover have "pick_matches f (bucket_sql b) \<longleftrightarrow>
      (sf_operatorIds f = [] \<or> ru_operator_id (bk_row b) \<in> set (sf_operatorIds f))
    \<and> (sf_shortcodeIds f = [] \<or> ru_shortcode_id (bk_row b) \<in> set (sf_shortcodeIds f))
    \<and> (case sf_ownerUserId f of None \<Rightarrow> True | Some i \<Rightarrow> map_option sc_owner (bk_shortcode b) = Some i)"
    by (auto simp: pick_matches_def bucket_sql_def split: option.splits)
  ultimately show ?thesis by (auto simp: summary_wants_def Let_def allowed_bucket)
qed

lemma loadDailySummary_wanted:
  "loadDailySummary g le f acl gb maxRows d rows =
    (let bs = filter (summary_wants f acl) (buckets d rows)
     in take (nat (max 1 (min maxRows 50000))) (map (\<lambda>k. summary_row k (filter (\<lambda>b. summary_key gb b = k) bs))
          (sort_by (by_summary_key le) (remdups (map (summary_key gb) bs)))))"
proof -
  obtain cs ps where c: "summary_conds f acl [] = (cs, ps)" by fastforce
  have "filter (\<lambda>b. holds g ps (bucket_sql b) (CAll cs)) (buckets d rows) = filter (summary_wants f acl) (buckets d rows)"
    by (rule filter_cong [OF refl]) (rule summary_conds_hold [OF c])
  then show ?thesis unfolding loadDailySummary_def Let_def c prod.case by (simp only:)
qed

section \<open>Totals\<close>

lemma summary_group_sum:
  "sum_list (map (\<lambda>k. sum_list (map h (filter (\<lambda>b. summary_key gb b = k) bs)))
      (sort_by le (remdups (map (summary_key gb) bs)))) = sum_list (map (h :: bucket \<Rightarrow> int) bs)"
  using sum_by_group [of h "summary_key gb" bs "\<lambda>_. True"] by (simp add: set_sort_by_sum)

text \<open>
  Whatever the grouping, a summary that is not cut off by its row limit counts every rollup bucket
  that the filters want and the allowlist admits exactly once: its rows add up to the buckets, in
  sessions, legs, errors and billable units.
\<close>

theorem summary_totals:
  assumes "int (length (loadDailySummary g le f acl gb maxRows d rows)) < max 1 (min maxRows 50000)"
  shows "sum_list (map su_sessions (loadDailySummary g le f acl gb maxRows d rows))
      = sum_list (map (ru_sessions \<circ> bk_row) (filter (summary_wants f acl) (buckets d rows)))
    \<and> sum_list (map su_legs (loadDailySummary g le f acl gb maxRows d rows))
      = sum_list (map (ru_legs \<circ> bk_row) (filter (summary_wants f acl) (buckets d rows)))
    \<and> sum_list (map su_errors (loadDailySummary g le f acl gb maxRows d rows))
      = sum_list (map (ru_errors \<circ> bk_row) (filter (summary_wants f acl) (buckets d rows)))
    \<and> sum_list (map su_billable_units (loadDailySummary g le f acl gb maxRows d rows))
      = sum_list (map (ru_billable_units \<circ> bk_row) (filter (summary_wants f acl) (buckets d rows)))"
proof -
  let ?bs = "filter (summary_wants f acl) (buckets d rows)"
  let ?ks = "sort_by (by_summary_key le) (remdups (map (summary_key gb) ?bs))"
  let ?all = "map (\<lambda>k. summary_row k (filter (\<lambda>b. summary_key gb b = k) ?bs)) ?ks"
  have t: "loadDailySummary g le f acl gb maxRows d rows = take (nat (max 1 (min maxRows 50000))) ?all"
    by (simp add: loadDailySummary_wanted Let_def)
  with assms have "length ?all < nat (max 1 (min maxRows 50000))"
    by (simp add: min_def split: if_splits)
  with t have all: "loadDailySummary g le f acl gb maxRows d rows = ?all" by simp
  have "map su_sessions ?all = map (\<lambda>k. sum_list (map (ru_sessions \<circ> bk_row) (filter (\<lambda>b. summary_key gb b = k) ?bs))) ?ks"
    "map su_legs ?all = map (\<lambda>k. sum_list (map (ru_legs \<circ> bk_row) (filter (\<lambda>b. summary_key gb b = k) ?bs))) ?ks"
    "map su_errors ?all = map (\<lambda>k. sum_list (map (ru_errors \<circ> bk_row) (filter (\<lambda>b. summary_key gb b = k) ?bs))) ?ks"
    "map su_billable_units ?all = map (\<lambda>k. sum_list (map (ru_billable_units \<circ> bk_row) (filter (\<lambda>b. summary_key gb b = k) ?bs))) ?ks"
    by (simp_all add: summary_row_def)
  then show ?thesis unfolding all by (simp only: summary_group_sum simp_thms)
qed

lemma date_allowed_floor:
  \<comment> \<open>a scoped caller: a granted shortcode, and days that begin at or after its floor\<close>
  "date_allowed (Some gs) r \<longleftrightarrow> (\<exists>g \<in> set gs. ru_shortcode_id r = g_id g \<and> floor_ok GDate (g_from g) (VDate (ru_date r)))"
  by (simp add: date_allowed_def acl_allows_def rollup_acl_sql_def)

section \<open>The CSV of a scoped caller\<close>

lemma buckets_filter: "buckets d (filter P rows) = filter (P \<circ> bk_row) (buckets d rows)"
  by (induction rows) (auto simp: buckets_def Let_def split: option.splits)

lemma summary_own_rows:
  "loadDailySummary g le f acl gb maxRows d (filter (date_allowed acl) rows) = loadDailySummary g le f acl gb maxRows d rows"
proof -
  have "filter (summary_wants f acl) (buckets d (filter (date_allowed acl) rows)) = filter (summary_wants f acl) (buckets d rows)"
    unfolding buckets_filter filter_filter by (rule filter_cong [OF refl]) (auto simp: summary_wants_def Let_def)
  then show ?thesis by (simp only: loadDailySummary_wanted)
qed

lemma qs_get_filter: "k \<noteq> k' \<Longrightarrow> qs_get (filter (\<lambda>p. fst p \<noteq> k') q) k = qs_get q k"
  by (induction q) (auto simp: qs_get_def)

lemma qs_ints_filter: "k \<noteq> k' \<Longrightarrow> qs_ints (filter (\<lambda>p. fst p \<noteq> k') q) k = qs_ints q k"
  by (induction q) (auto simp: qs_ints_def split: option.splits)

text \<open>
  C21. A caller who may not see everybody's reports gets the same summary CSV, and leaves the same audit
  entry, whatever the buckets outside the own allowlist hold and whatever \<open>owner_user_id\<close> the URL
  carries: neither the traffic of other shortcodes, nor days before a hand-over, nor the owner filter
  reach the reply.
\<close>

theorem summary_export_scoped:
  assumes "req_session ap rq d = Some session" "\<not> hasPerm (Some session) REPORTS_VIEW_ALL"
  shows "summary_export_GET ap g le truncated detail rq q d rows
    = summary_export_GET ap g le truncated detail rq (filter (\<lambda>p. fst p \<noteq> ''owner_user_id'') q) d
        (filter (date_allowed (sessionAcl (Some session))) rows)"
proof -
  let ?q = "filter (\<lambda>p. fst p \<noteq> ''owner_user_id'') q"
  have "summary_filters session t ?q = summary_filters session t q" for t
    using assms(2) by (simp add: summary_filters_def qs_or_def qs_get_filter qs_ints_filter)
  moreover have "qs_group ?q = qs_group q" by (simp add: qs_group_def qs_get_filter)
  moreover have "streamDailySummaryCsv g le truncated f (sessionAcl (Some session)) gb d
      (filter (date_allowed (sessionAcl (Some session))) rows)
    = streamDailySummaryCsv g le truncated f (sessionAcl (Some session)) gb d rows" for f gb
    by (simp add: streamDailySummaryCsv_def summary_own_rows)
  ultimately show ?thesis by (simp add: summary_export_GET_def assms(1))
qed

section \<open>The overview chart\<close>

definition units_at :: "db \<Rightarrow> int \<times> string \<Rightarrow> rollup_row list \<Rightarrow> int" where
  \<comment> \<open>the units of one day and operator\<close>
  "units_at d k rows = sum_list (map ru_billable_units (filter (\<lambda>r. ru_date r = fst k
     \<and> map_option op_name (find_operator d (ru_operator_id r)) = Some (snd k)) rows))"

definition traffic_key :: "DailyTrafficRow \<Rightarrow> int \<times> string" where
  "traffic_key x = (dt_day x, dt_operator_name x)"

definition in_month :: "string \<Rightarrow> int \<Rightarrow> bool" where
  "in_month ym z \<longleftrightarrow> month_start ym \<le> z \<and> z < next_month (month_start ym)"

definition chart_rows :: "ShortcodeAcl \<Rightarrow> string \<Rightarrow> rollup_row list \<Rightarrow> rollup_row list" where
  "chart_rows acl ym rows = filter (\<lambda>r. in_month ym (ru_date r) \<and> date_allowed acl r) rows"

lemma at_one_key:
  assumes "\<And>k. key (F k) = k" "distinct ks"
  shows "sum_list (map h (filter (\<lambda>x. key x = k) (map F ks))) = (if k \<in> set ks then h (F k) else (0 :: int))"
  using assms(2) by (induction ks) (auto simp: assms(1))

lemma named_rows:
  "sum_list (map (snd \<circ> snd) (filter (\<lambda>x. (fst x, fst (snd x)) = k)
      (List.map_filter (\<lambda>r. map_option (\<lambda>o'. (ru_date r, op_name o', ru_billable_units r)) (find_operator d (ru_operator_id r))) rows)))
    = units_at d k rows"
  by (induction rows) (auto simp: units_at_def split: option.splits)

lemma day_totals_at: "sum_list (map dt_billable_units (filter (\<lambda>x. traffic_key x = k) (day_totals d rows))) = units_at d k rows"
proof -
  define named where "named = List.map_filter (\<lambda>r. map_option (\<lambda>o'. (ru_date r, op_name o', ru_billable_units r))
    (find_operator d (ru_operator_id r))) rows"
  let ?F = "\<lambda>k. \<lparr>dt_day = fst k, dt_operator_name = snd k,
    dt_billable_units = sum_list (map (snd \<circ> snd) (filter (\<lambda>x. (fst x, fst (snd x)) = k) named))\<rparr>"
  let ?ks = "remdups (map (\<lambda>x. (fst x, fst (snd x))) named)"
  have "sum_list (map dt_billable_units (filter (\<lambda>x. traffic_key x = k) (day_totals d rows)))
      = (if k \<in> set ?ks then dt_billable_units (?F k) else 0)"
    unfolding day_totals_def named_def [symmetric] Let_def
    by (rule at_one_key) (simp_all add: traffic_key_def)
  also have "\<dots> = sum_list (map (snd \<circ> snd) (filter (\<lambda>x. (fst x, fst (snd x)) = k) named))"
  proof (cases "k \<in> set ?ks")
    case False
    then have "filter (\<lambda>x. (fst x, fst (snd x)) = k) named = []" by (auto simp: filter_empty_conv)
    with False show ?thesis by simp
  qed simp
  finally show ?thesis unfolding named_def named_rows .
qed

lemma distinct_insert_by: "distinct (insert_by le x ys) \<longleftrightarrow> x \<notin> set ys \<and> distinct ys"
  by (induction ys) auto

lemma distinct_sort_by: "distinct (sort_by le xs) \<longleftrightarrow> distinct xs"
proof (induction xs)
  case (Cons x xs)
  have "sort_by le (x # xs) = insert_by le x (sort_by le xs)" by (simp add: sort_by_def)
  with Cons show ?case by (simp add: distinct_insert_by)
qed (simp add: sort_by_def)

lemma merge_totals_rows:
  "distinct (map traffic_key (merge_totals le xs))"
  "e \<in> set (merge_totals le xs) \<Longrightarrow> traffic_key e \<in> traffic_key ` set xs
     \<and> dt_billable_units e = sum_list (map dt_billable_units (filter (\<lambda>x. traffic_key x = traffic_key e) xs))"
  by (auto simp: merge_totals_def traffic_key_def distinct_sort_by o_def)

lemma day_totals_keys: "x \<in> set (day_totals d rows) \<Longrightarrow> dt_day x \<in> ru_date ` set rows"
  by (auto simp: day_totals_def Let_def List.map_filter_def)

lemma loadDailyTraffic_merged:
  assumes "\<not> aclDeniesAll acl"
  shows "loadDailyTraffic g le acl ym today d nightly mv = merge_totals le
    (day_totals d (chart_rows acl ym (filter (\<lambda>r. ru_date r < today) nightly)) @ day_totals d (chart_rows acl ym mv))"
proof -
  obtain c ps where c: "aclClause acl ''d.shortcode_id'' ''d.date'' GDate [] = (c, ps)" by fastforce
  have ok: "holds g ps (rollup_acl_sql r) c \<longleftrightarrow> date_allowed acl r" for r
    using aclClause_correct [OF c, of g "[]" "rollup_acl_sql r"] by (simp add: date_allowed_def)
  have "filter (\<lambda>r. month_conds (month_start ym) (next_month (month_start ym)) (Some today) r \<and> holds g ps (rollup_acl_sql r) c) nightly
      = chart_rows acl ym (filter (\<lambda>r. ru_date r < today) nightly)"
    "filter (\<lambda>r. month_conds (month_start ym) (next_month (month_start ym)) None r \<and> holds g ps (rollup_acl_sql r) c) mv
      = chart_rows acl ym mv"
    by (auto simp: chart_rows_def filter_filter ok month_conds_def in_month_def intro!: filter_cong)
  then show ?thesis using assms by (simp add: loadDailyTraffic_def c Let_def)
qed

lemma traffic_units:
  assumes "e \<in> set (loadDailyTraffic g le acl ym today d nightly mv)"
  shows "dt_billable_units e = units_at d (traffic_key e) (chart_rows acl ym (filter (\<lambda>r. ru_date r < today) nightly))
      + units_at d (traffic_key e) (chart_rows acl ym mv)"
    and "dt_day e \<in> ru_date ` set (chart_rows acl ym (filter (\<lambda>r. ru_date r < today) nightly) @ chart_rows acl ym mv)"
proof -
  let ?p = "chart_rows acl ym (filter (\<lambda>r. ru_date r < today) nightly)" and ?m = "chart_rows acl ym mv"
  have a: "\<not> aclDeniesAll acl" using assms by (auto simp: loadDailyTraffic_def)
  have e: "e \<in> set (merge_totals le (day_totals d ?p @ day_totals d ?m))"
    using assms by (simp only: loadDailyTraffic_merged [OF a])
  from merge_totals_rows(2) [OF e]
  show "dt_billable_units e = units_at d (traffic_key e) ?p + units_at d (traffic_key e) ?m"
    by (simp add: day_totals_at)
  from merge_totals_rows(2) [OF e] obtain x where "x \<in> set (day_totals d ?p) \<union> set (day_totals d ?m)" "traffic_key e = traffic_key x"
    by auto
  then show "dt_day e \<in> ru_date ` set (?p @ ?m)"
    by (auto simp: traffic_key_def dest: day_totals_keys)
qed

lemma units_at_other_day:
  "(\<And>r. r \<in> set rows \<Longrightarrow> ru_date r \<noteq> fst k) \<Longrightarrow> units_at d k rows = 0"
  by (auto simp: units_at_def filter_empty_conv intro: sum_list_0 arg_cong [of "filter _ _" "[]"])


text \<open>
  The view of today is read without asking for today's date: while its refresh is overdue and it
  still holds a day the nightly rollup has meanwhile written, that day's bar is doubled.
\<close>

theorem overview_double_counts:
  assumes "e \<in> set (loadDailyTraffic g le acl ym today d nightly mv)" "dt_day e < today"
    and "filter (\<lambda>r. ru_date r = dt_day e) mv = filter (\<lambda>r. ru_date r = dt_day e) nightly"
  shows "dt_billable_units e = 2 * units_at d (dt_day e, dt_operator_name e) (filter (date_allowed acl) nightly)"
proof -
  let ?k = "(dt_day e, dt_operator_name e)"
  have m: "in_month ym (dt_day e)" using traffic_units(2) [OF assms(1)] by (auto simp: chart_rows_def)
  have chart: "units_at d ?k (chart_rows acl ym rows) = units_at d ?k (filter (date_allowed acl) (filter (\<lambda>r. ru_date r = dt_day e) rows))" for rows
    unfolding units_at_def chart_rows_def filter_filter using m by (auto intro!: arg_cong [of _ _ sum_list] filter_cong map_cong)
  have all: "units_at d ?k (filter (date_allowed acl) (filter (\<lambda>r. ru_date r = dt_day e) nightly)) = units_at d ?k (filter (date_allowed acl) nightly)"
    unfolding units_at_def filter_filter by (auto intro!: arg_cong [of _ _ sum_list] filter_cong map_cong)
  have past: "filter (\<lambda>r. ru_date r = dt_day e) (filter (\<lambda>r. ru_date r < today) nightly) = filter (\<lambda>r. ru_date r = dt_day e) nightly"
    unfolding filter_filter using assms(2) by (auto intro!: filter_cong)
  show ?thesis using traffic_units(1) [OF assms(1)] by (simp only: traffic_key_def chart past all assms(3) mult_2)
qed

section \<open>Samples\<close>

lemma may_days: "parse_date ''2026-05-01'' = 20574" "parse_date ''2026-05-31'' = 20604"
  by (simp_all add: parse_date_def digits_val_def days_from_civil_def digit_val_def Let_def)

definition sample_bucket :: "int \<Rightarrow> int \<Rightarrow> int \<Rightarrow> rollup_row" where
  "sample_bucket day sc n = \<lparr>ru_date = day, ru_operator_id = 1, ru_shortcode_id = sc,
     ru_sessions = 1, ru_legs = 3, ru_errors = 0, ru_billable_units = n\<rparr>"

definition sample_rollup :: "rollup_row list" where
  \<comment> \<open>two shortcodes, the first on two days\<close>
  "sample_rollup = [sample_bucket 20574 5 4, sample_bucket 20575 5 3, sample_bucket 20575 6 8]"

definition may_filters :: SummaryFilters where
  "may_filters = \<lparr>sf_fromDate = ''2026-05-01'', sf_toDate = ''2026-05-31'', sf_operatorIds = [], sf_shortcodeIds = [],
     sf_ownerUserId = None\<rparr>"

definition only_five :: ShortcodeAcl where
  "only_five = Some [\<lparr>g_id = 5, g_from = 0\<rparr>]"

lemma summary_length: "length (loadDailySummary g le f acl gb m d rows) \<le> length rows"
proof -
  have "length (buckets d rows) \<le> length rows"
    by (induction rows) (auto simp: buckets_def Let_def split: option.splits)
  moreover have "length (remdups (map (summary_key gb) (filter P bs))) \<le> length bs" for P bs
    by (rule order_trans [OF length_remdups_leq]) simp
  ultimately show ?thesis by (simp add: loadDailySummary_wanted Let_def min_def) (meson le_trans nle_le)
qed

theorem summary_totals_witness:
  "sum_list (map su_billable_units (loadDailySummary sample_pg str_le may_filters only_five ByDate 5000 windowed_db sample_rollup)) = 7"
proof -
  have "length (loadDailySummary sample_pg str_le may_filters only_five ByDate 5000 windowed_db sample_rollup) \<le> 3"
    by (rule order_trans [OF summary_length]) (simp add: sample_rollup_def)
  then have "int (length (loadDailySummary sample_pg str_le may_filters only_five ByDate 5000 windowed_db sample_rollup)) < max 1 (min 5000 50000)"
    by simp
  from summary_totals [OF this] have "sum_list (map su_billable_units
      (loadDailySummary sample_pg str_le may_filters only_five ByDate 5000 windowed_db sample_rollup))
    = sum_list (map (ru_billable_units \<circ> bk_row) (filter (summary_wants may_filters only_five) (buckets windowed_db sample_rollup)))"
    by blast
  also have "\<dots> = 7"
  proof -
    have w: "summary_wants may_filters only_five b \<longleftrightarrow> 20574 \<le> ru_date (bk_row b) \<and> ru_date (bk_row b) \<le> 20604
        \<and> ru_shortcode_id (bk_row b) = 5" for b
      by (auto simp: summary_wants_def Let_def may_filters_def may_days only_five_def date_allowed_floor floor_ok_def)
    show ?thesis
      by (simp add: w buckets_def sample_rollup_def sample_bucket_def windowed_db_def find_operator_def Let_def)
  qed
  finally show ?thesis .
qed

theorem summary_export_scoped_witness:
  "summary_export_GET sample_app sample_pg str_le [] (\<lambda>_ _. JNull) client_req [(''owner_user_id'', ''1'')] sample_db sample_rollup
    = summary_export_GET sample_app sample_pg str_le [] (\<lambda>_ _. JNull) client_req [] sample_db
        [sample_bucket 20574 5 4, sample_bucket 20575 5 3]"
proof -
  have r: "req_session sample_app client_req sample_db = Some client_session" by (rule client_reads) simp
  have v: "\<not> hasPerm (Some client_session) REPORTS_VIEW_ALL" by code_simp
  have "filter (date_allowed (sessionAcl (Some client_session))) sample_rollup
      = [sample_bucket 20574 5 4, sample_bucket 20575 5 3]"
    by (simp add: sample_rollup_def date_allowed_def acl_allows_def rollup_acl_sql_def sample_bucket_def sessionAcl_def
        client_session_def sample_session_def floor_ok_def)
  with summary_export_scoped [OF r v, of sample_pg str_le "[]" "\<lambda>_ _. JNull" "[(''owner_user_id'', ''1'')]" sample_rollup]
  show ?thesis by simp
qed

lemma may_month: "month_start ''2026-05'' = 20574" "next_month 20574 = 20605"
  by (simp add: month_start_def may_days) code_simp

definition chart :: "rollup_row list \<Rightarrow> DailyTrafficRow list" where
  \<comment> \<open>the chart of May for an unrestricted caller on the second of May\<close>
  "chart mv = loadDailyTraffic sample_pg str_le None ''2026-05'' 20575 windowed_db sample_rollup mv"

lemmas chart_eval = merge_totals_def day_totals_def Let_def sort_by_def windowed_db_def find_operator_def sample_bucket_def

lemma chart_merged: "chart mv = merge_totals str_le
    (day_totals windowed_db [sample_bucket 20574 5 4] @ day_totals windowed_db (filter (\<lambda>r. 20574 \<le> ru_date r \<and> ru_date r < 20605) mv))"
proof -
  have "chart_rows None ''2026-05'' (filter (\<lambda>r. ru_date r < 20575) sample_rollup) = [sample_bucket 20574 5 4]"
    "chart_rows None ''2026-05'' mv = filter (\<lambda>r. 20574 \<le> ru_date r \<and> ru_date r < 20605) mv"
    by (simp_all add: chart_rows_def in_month_def may_month date_allowed_def acl_allows_def)
      (simp add: sample_rollup_def sample_bucket_def)
  then show ?thesis by (simp add: chart_def loadDailyTraffic_merged aclDeniesAll_def)
qed


theorem overview_double_counts_witness:
  "\<exists>e. e \<in> set (chart [sample_bucket 20574 5 4]) \<and> dt_billable_units e = 8"
proof -
  have c: "chart [sample_bucket 20574 5 4] = [\<lparr>dt_day = 20574, dt_operator_name = ''vodacom'', dt_billable_units = 8\<rparr>]"
    (is "_ = [?e]") by (simp add: chart_merged chart_eval)
  then have e: "?e \<in> set (chart [sample_bucket 20574 5 4])" by simp
  have "dt_day ?e < 20575" by code_simp
  moreover have "filter (\<lambda>r. ru_date r = dt_day ?e) [sample_bucket 20574 5 4] = filter (\<lambda>r. ru_date r = dt_day ?e) sample_rollup"
    by code_simp
  ultimately have "dt_billable_units ?e = 2 * units_at windowed_db (dt_day ?e, dt_operator_name ?e) (filter (date_allowed None) sample_rollup)"
    using overview_double_counts [OF e [unfolded chart_def]] by blast
  also have "\<dots> = 8" by code_simp
  finally show ?thesis using e by blast
qed

end
