(* ===== verification/Read_Routes.thy ===== *)
theory Read_Routes
  imports Rollup_Views
begin

text \<open>
  The small read routes under \<^verbatim>\<open>dashboard/src/app/api\<close>: the legs of one session, the audit
  CSV and the liveness probe.  How a leg is written as JSON is a parameter.
\<close>

section \<open>Handlers\<close>

definition qs_trim :: "query_string \<Rightarrow> string \<Rightarrow> string" where
  "qs_trim q k = trim (qs_or q k [])"

definition opt_nonempty :: "string \<Rightarrow> string option" where
  \<comment> \<open>\<open>s || undefined\<close>\<close>
  "opt_nonempty s = (if s = [] then None else Some s)"

definition session_legs_GET :: "'j app \<Rightarrow> pg \<Rightarrow> (leg_row \<Rightarrow> json) \<Rightarrow> 'j http_req \<Rightarrow> query_string \<Rightarrow> db \<Rightarrow> leg_row list \<Rightarrow> 'j reply" where
  "session_legs_GET ap g leg_json rq q d logs = (case req_session ap rq d of
       None \<Rightarrow> reply_error 401 ''unauthorized''
     | Some session \<Rightarrow>
        (let sessionId = qs_trim q ''session_id''; oper = toLowerCase (qs_trim q ''operator'');
             firstTs = opt_nonempty (qs_trim q ''first_ts''); lastTs = opt_nonempty (qs_trim q ''last_ts'')
         in if sessionId = [] \<or> oper = [] then reply_error 400 ''session_id and operator required''
            else reply_json 200 [(''legs'', JArr (map leg_json
              (loadLegsForSession g sessionId oper (sessionAcl (Some session)) firstTs lastTs logs)))]))"

definition audit_filters :: "query_string \<Rightarrow> AuditFilters" where
  "audit_filters q = \<lparr>af_from = opt_nonempty (str_of (qs_get q ''from'')), af_to = opt_nonempty (str_of (qs_get q ''to'')),
     af_actor = opt_nonempty (str_of (qs_get q ''actor'')), af_actionPrefix = opt_nonempty (str_of (qs_get q ''action'')),
     af_outcome = (let v = qs_get q ''outcome'' in
       if v = Some ''success'' \<or> v = Some ''failure'' \<or> v = Some ''denied'' then v else None),
     af_page = None, af_pageSize = None\<rparr>"

definition audit_filters_json :: "AuditFilters \<Rightarrow> json" where
  "audit_filters_json f = JObj [(''filters'', JObj [(''from'', opt_json JStr (af_from f)), (''to'', opt_json JStr (af_to f)),
     (''actor'', opt_json JStr (af_actor f)), (''actionPrefix'', opt_json JStr (af_actionPrefix f)),
     (''outcome'', opt_json JStr (af_outcome f))])]"

definition audit_export_GET :: "'j app \<Rightarrow> pg \<Rightarrow> (json \<Rightarrow> string) \<Rightarrow> (int \<Rightarrow> string) \<Rightarrow> string \<Rightarrow> 'j http_req \<Rightarrow> query_string
    \<Rightarrow> db \<Rightarrow> 'j reply \<times> db" where
  \<comment> \<open>the entry is written first, so the stream contains it\<close>
  "audit_export_GET ap g stringify ts_text truncated rq q d = (case require_perm ap rq [AUDIT_VIEW] d of
       None \<Rightarrow> (reply_error 403 ''forbidden'', d)
     | Some session \<Rightarrow>
        (let f = audit_filters q;
             d1 = log_audit rq (Some (c_email session)) ''audit.export'' (Some ''csv'') Success (Some (audit_filters_json f)) d
         in (\<lparr>rp_status = 200, rp_body = RText (streamAuditLogCsv g stringify ts_text truncated f d1), rp_cookie = None\<rparr>, d1)))"

definition health_GET :: "string option \<Rightarrow> 'j reply" where
  \<comment> \<open>\<open>SELECT 1\<close>, and what it throws\<close>
  "health_GET err = (case err of None \<Rightarrow> reply_json 200 [(''ok'', JBool True)]
     | Some e \<Rightarrow> reply_json 503 [(''ok'', JBool False), (''error'', JStr e)])"

section \<open>The expanded session\<close>

definition near_session :: "pg \<Rightarrow> string option \<Rightarrow> string option \<Rightarrow> leg_row \<Rightarrow> bool" where
  \<comment> \<open>within five minutes of the instants given\<close>
  "near_session g firstTs lastTs l \<longleftrightarrow>
     (truthy firstTs \<longrightarrow> pg_timestamptz g (str_of firstTs) - 300000000 \<le> l_ts l)
   \<and> (truthy lastTs \<longrightarrow> l_ts l \<le> pg_timestamptz g (str_of lastTs) + 300000000)"

lemma acl_conds_after:
  assumes "acl_conds sc ts gr acl ps = (cs, ps')"
  shows "holds g (ps' @ post) r (CAll cs) \<longleftrightarrow> acl_allows gr sc ts acl r" and "\<exists>ext. ps' = ps @ ext"
  using acl_builder.correct [OF assms] acl_builder.extends [OF assms] by blast+

lemma drill_conds_hold:
  "holds g (snd (drill_conds sid oper firstTs lastTs acl)) (leg_sql l) (CAll (fst (drill_conds sid oper firstTs lastTs acl)))
    \<longleftrightarrow> session_key l = (sid, oper) \<and> leg_allowed acl l \<and> near_session g firstTs lastTs l"
proof -
  obtain c1 p1 where a: "acl_conds ''shortcode_id'' ''ts'' GTs acl [PStr sid, PStr oper] = (c1, p1)" by fastforce
  obtain ext where e: "p1 = [PStr sid, PStr oper] @ ext" using acl_conds_after(2) [OF a] by blast
  have base: "holds g (p1 @ post) (leg_sql l) (CAll ([CCmp OpEq ''session_id'' (EPar 1), CCmp OpEq ''operator_name'' (EPar 2)] @ c1))
      \<longleftrightarrow> session_key l = (sid, oper) \<and> leg_allowed acl l" for post
    using acl_conds_after(1) [OF a, of g post "leg_sql l"]
    by (simp add: e holds_def [of g _ _ "CCmp _ _ _"] param_def leg_sql_def [of l "''session_id''"]
        leg_sql_def [of l "''operator_name''"] session_key_def leg_allowed_def)
  have "holds g (snd (drill_conds sid oper firstTs lastTs acl) @ []) (leg_sql l) (CAll (fst (drill_conds sid oper firstTs lastTs acl)))
    \<longleftrightarrow> ((session_key l = (sid, oper) \<and> leg_allowed acl l)
      \<and> (truthy firstTs \<longrightarrow> (\<exists>t. leg_sql l ''ts'' = VTs t \<and> int_cmp OpGe t (pg_timestamptz g (str_of firstTs) + (- 300) * 1000000))))
      \<and> (truthy lastTs \<longrightarrow> (\<exists>t. leg_sql l ''ts'' = VTs t \<and> int_cmp OpLe t (pg_timestamptz g (str_of lastTs) + 300 * 1000000)))"
    unfolding drill_conds_def a Let_def prod.case
    by (intro push_cond_step) (simp_all only: base holds_ts_cmp fst_conv snd_conv)
  then show ?thesis by (auto simp: near_session_def leg_sql_def [of l "''ts''"])
qed

lemma loadLegs_found:
  "loadLegsForSession g sid oper acl firstTs lastTs logs = take 200 (sort_key l_ts
     (filter (\<lambda>l. session_key l = (sid, oper) \<and> leg_allowed acl l \<and> near_session g firstTs lastTs l) logs))"
proof (cases "aclDeniesAll acl")
  case True
  then have "\<not> leg_allowed acl l" for l by (simp add: leg_allowed_def aclDeniesAll_allows)
  with True show ?thesis by (auto simp: loadLegsForSession_def aclDeniesAll_def)
next
  case False
  obtain cs ps where c: "drill_conds sid oper firstTs lastTs acl = (cs, ps)" by fastforce
  have "filter (\<lambda>l. holds g ps (leg_sql l) (CAll cs)) logs
      = filter (\<lambda>l. session_key l = (sid, oper) \<and> leg_allowed acl l \<and> near_session g firstTs lastTs l) logs"
    using drill_conds_hold [of g sid oper firstTs lastTs acl] by (intro filter_cong [OF refl]) (simp only: c fst_conv snd_conv)
  with False show ?thesis by (simp only: loadLegsForSession_def c Let_def prod.case simp_thms if_False)
qed

text \<open>
  Expanding a row of the sessions page with the instants the row shows gives, in order of time, only
  legs of that session that the caller may read, and among them every leg the row was aggregated from,
  as long as no more than two hundred lie around it.
\<close>

theorem expanded_session_whole:
  assumes "ls \<noteq> []" "set ls \<subseteq> {l \<in> set logs. session_key l = k \<and> leg_allowed acl l}"
    and "show_ts (sn_first_ts (session_row d k ls)) \<noteq> []" "pg_timestamptz g (show_ts (sn_first_ts (session_row d k ls))) = sn_first_ts (session_row d k ls)"
    and "show_ts (sn_last_ts (session_row d k ls)) \<noteq> []" "pg_timestamptz g (show_ts (sn_last_ts (session_row d k ls))) = sn_last_ts (session_row d k ls)"
    and "length (filter (\<lambda>l. session_key l = k) logs) \<le> 200"
    and "shown = loadLegsForSession g (fst k) (snd k) acl (Some (show_ts (sn_first_ts (session_row d k ls))))
      (Some (show_ts (sn_last_ts (session_row d k ls)))) logs"
  shows "set ls \<subseteq> set shown \<and> set shown \<subseteq> {l \<in> set logs. session_key l = k \<and> leg_allowed acl l} \<and> sorted (map l_ts shown)"
proof -
  let ?P = "\<lambda>l. session_key l = k \<and> leg_allowed acl l \<and> near_session g (Some (show_ts (sn_first_ts (session_row d k ls))))
    (Some (show_ts (sn_last_ts (session_row d k ls)))) l"
  have "length (filter ?P logs) \<le> length (filter (\<lambda>l. session_key l = k) logs)"
    by (induction logs) auto
  with assms(7,8) have shown: "shown = sort_key l_ts (filter ?P logs)" by (simp add: loadLegs_found)
  have edge: "sn_first_ts (session_row d k ls) \<le> l_ts l" "l_ts l \<le> sn_last_ts (session_row d k ls)" if "l \<in> set ls" for l
    using that by (simp_all add: session_row_def Let_def)
  have "?P l" if l: "l \<in> set ls" for l
    using assms(2-6) edge [OF l] l by (auto simp: near_session_def truthy_def str_of_def)
  with assms(2) show ?thesis by (auto simp: shown)
qed

definition clock_pg :: pg where
  \<comment> \<open>timestamps written as microseconds\<close>
  "clock_pg = sample_pg\<lparr>pg_timestamptz := (\<lambda>s. or0 (js_Number s))\<rparr>"

theorem expanded_session_whole_witness:
  "loadLegsForSession clock_pg ''s'' ''vodacom'' only_five (Some (js_String 7)) (Some (js_String 900000000))
      [sample_leg 1 7 5, sample_leg 2 900000000 5, sample_leg 3 8 6] = [sample_leg 1 7 5, sample_leg 2 900000000 5]"
proof -
  define ls where "ls = [sample_leg 1 7 5, sample_leg 2 900000000 5]"
  define logs where "logs = [sample_leg 1 7 5, sample_leg 2 900000000 5, sample_leg 3 8 6]"
  define shown where "shown = loadLegsForSession clock_pg ''s'' ''vodacom'' only_five (Some (js_String 7)) (Some (js_String 900000000)) logs"
  have ts: "sn_first_ts (session_row windowed_db (''s'', ''vodacom'') ls) = 7"
    "sn_last_ts (session_row windowed_db (''s'', ''vodacom'') ls) = 900000000"
    by (simp_all add: session_row_def Let_def ls_def sample_leg_def)
  have al: "leg_allowed only_five (sample_leg i t sc) \<longleftrightarrow> sc = 5" for i t sc
    by (simp add: leg_allowed_def acl_allows_def only_five_def leg_sql_def sample_leg_def floor_ok_def)
  have one: "ls \<noteq> []" "set ls \<subseteq> {l \<in> set logs. session_key l = (''s'', ''vodacom'') \<and> leg_allowed only_five l}"
    by (simp_all add: ls_def logs_def al) (simp add: session_key_def sample_leg_def)
  have clock: "pg_timestamptz clock_pg (js_String t) = t" for t by (simp add: clock_pg_def or0_def)
  have few: "length (filter (\<lambda>l. session_key l = (''s'', ''vodacom'')) logs) \<le> 200" by (simp add: logs_def)
  have sh: "set ls \<subseteq> set shown \<and> set shown \<subseteq> {l \<in> set logs. session_key l = (''s'', ''vodacom'') \<and> leg_allowed only_five l}
      \<and> sorted (map l_ts shown)"
    by (rule expanded_session_whole [where show_ts = js_String and d = windowed_db and g = clock_pg, OF one])
      (simp_all add: ts clock few shown_def)
  have "filter (\<lambda>l. session_key l = (''s'', ''vodacom'') \<and> leg_allowed only_five l
      \<and> near_session clock_pg (Some (js_String 7)) (Some (js_String 900000000)) l) logs = ls"
    by (simp add: logs_def ls_def al near_session_def truthy_def str_of_def clock) (simp add: session_key_def sample_leg_def)
  then have "shown = ls" by (simp add: shown_def loadLegs_found) (simp add: ls_def sample_leg_def)
  with sh show ?thesis by (simp add: shown_def ls_def logs_def)
qed

end
