(* ===== verification/Search_Params.thy ===== *)
theory Search_Params
  imports Reporting Auth
begin

text \<open>
  From the URL of the sessions and legs pages to the filters their queries run with: the search-param
  plumbing of \<^verbatim>\<open>(authed)/sessions/page.tsx\<close>, \<^verbatim>\<open>(authed)/reports/page.tsx\<close> and
  \<^verbatim>\<open>(authed)/_filterBar.tsx\<close>.  A query string is its list of pairs; percent-encoding is left
  to the platform, and so is reading a date (\<open>date_ms\<close>, the constructor \<open>Date\<close> on a string).
\<close>

section \<open>Search params\<close>

datatype param = One string | Many "string list"

type_synonym params = "(string \<times> param) list"   \<comment> \<open>the object, in key order\<close>

definition asString :: "param option \<Rightarrow> string option" where
  "asString v = (case v of Some (Many xs) \<Rightarrow> (case xs of [] \<Rightarrow> None | x # _ \<Rightarrow> Some x)
     | Some (One s) \<Rightarrow> if s \<noteq> [] then Some s else None | None \<Rightarrow> None)"

definition asStringArray :: "param option \<Rightarrow> string list" where
  "asStringArray v = filter (\<lambda>s. length s > 0) (case v of None \<Rightarrow> [] | Some (Many xs) \<Rightarrow> xs | Some (One s) \<Rightarrow> [s])"

definition asIntArray :: "param option \<Rightarrow> int list" where
  "asIntArray v = List.map_filter js_parseInt (asStringArray v)"

definition asPositiveInt :: "param option \<Rightarrow> int \<Rightarrow> int option \<Rightarrow> int" where
  "asPositiveInt v fallback max_n = (case asString v of None \<Rightarrow> fallback
     | Some s \<Rightarrow> (case (if s = [] then None else js_parseInt s) of None \<Rightarrow> fallback
         | Some n \<Rightarrow> if n < 1 then fallback else (case max_n of None \<Rightarrow> n | Some m \<Rightarrow> if m = 0 then n else min n m)))"

definition param_truthy :: "param option \<Rightarrow> bool" where
  "param_truthy v = (case v of None \<Rightarrow> False | Some (One s) \<Rightarrow> s \<noteq> [] | Some (Many _) \<Rightarrow> True)"

definition iso_day :: "int \<Rightarrow> string" where
  \<comment> \<open>\<open>new Date(ms).toISOString().slice(0, 10)\<close>\<close>
  "iso_day ms = fmt_date (ms div 86400000)"

definition defaultFromIfMissing :: "int \<Rightarrow> params \<Rightarrow> string option" where
  "defaultFromIfMissing now sp = (if param_truthy (map_of sp ''from'') \<or> param_truthy (map_of sp ''to'') then None
     else Some (iso_day (now - 24 * 3600 * 1000)))"

definition parseFilters :: "int \<Rightarrow> params \<Rightarrow> ReportFilters" where
  \<comment> \<open>of the legs page\<close>
  "parseFilters now sp = \<lparr>rf_fromTs = (case asString (map_of sp ''from'') of Some s \<Rightarrow> Some s | None \<Rightarrow> defaultFromIfMissing now sp),
     rf_toTs = asString (map_of sp ''to''), rf_msisdn = asString (map_of sp ''msisdn''),
     rf_sessionId = asString (map_of sp ''session_id''), rf_operators = asStringArray (map_of sp ''operator''),
     rf_shortcodeIds = asIntArray (map_of sp ''shortcode_id''),
     rf_errorClass = (let e = asString (map_of sp ''error_class'') in if truthy e then e else Some ''any'')\<rparr>"

section \<open>The window of the sessions page\<close>

definition SESSIONS_MAX_WINDOW_DAYS :: "(string \<Rightarrow> string option) \<Rightarrow> int" where
  "SESSIONS_MAX_WINDOW_DAYS vars = (case (case vars ''DASHBOARD_SESSIONS_MAX_WINDOW_DAYS'' of None \<Rightarrow> Some 92
       | Some v \<Rightarrow> js_Number v) of Some n \<Rightarrow> if n \<ge> 0 then n else 92 | None \<Rightarrow> 92)"

definition daysBetween :: "(string \<Rightarrow> int option) \<Rightarrow> int \<Rightarrow> string option \<Rightarrow> string option \<Rightarrow> int" where
  "daysBetween date_ms now from to = (if \<not> truthy from then 0
     else (case (date_ms (str_of from), if truthy to then date_ms (str_of to) else Some now) of
         (Some start, Some end') \<Rightarrow> max 0 ((end' - start) div (24 * 3600 * 1000)) + 1
       | _ \<Rightarrow> 0))"

definition sessions_parseFilters :: "(string \<Rightarrow> int option) \<Rightarrow> int \<Rightarrow> int \<Rightarrow> params \<Rightarrow> ReportFilters \<times> string option" where
  \<comment> \<open>with \<open>clampedFrom\<close>\<close>
  "sessions_parseFilters date_ms maxDays now sp =
    (let raw = parseFilters now sp; windowDays = daysBetween date_ms now (rf_fromTs raw) (rf_toTs raw)
     in if truthy (rf_fromTs raw) \<and> maxDays > 0 \<and> windowDays > maxDays
        then (let anchor = (if truthy (rf_toTs raw) then or0 (date_ms (str_of (rf_toTs raw))) else now)
              in (raw\<lparr>rf_fromTs := Some (iso_day (anchor - maxDays * 24 * 3600 * 1000))\<rparr>, rf_fromTs raw))
        else (raw, None))"

definition utc_dates :: "(string \<Rightarrow> int option) \<Rightarrow> bool" where
  \<comment> \<open>\<open>Date\<close> reads a calendar date as its midnight in UTC\<close>
  "utc_dates date_ms \<longleftrightarrow> (\<forall>z. 0 \<le> z \<and> z < 2786860 \<longrightarrow> date_ms (fmt_date z) = Some (86400000 * z))"

lemma fmt_date_nonempty: "0 \<le> z \<Longrightarrow> z < 2786860 \<Longrightarrow> fmt_date z \<noteq> []"
  by (auto simp: fmt_date_def split: prod.splits)

lemma asString_date: "0 \<le> z \<Longrightarrow> z < 2786860 \<Longrightarrow> asString (Some (One (fmt_date z))) = Some (fmt_date z)"
  by (simp add: asString_def fmt_date_nonempty)

lemma daysBetween_dates:
  assumes "utc_dates date_ms" "0 \<le> a" "a \<le> b" "b < 2786860"
  shows "daysBetween date_ms now (Some (fmt_date a)) (Some (fmt_date b)) = b - a + 1"
proof -
  have "86400000 * b - 86400000 * a = (b - a) * 86400000" by simp
  then have "(86400000 * b - 86400000 * a) div 86400000 = b - a" by simp
  then show ?thesis
    using assms by (simp add: daysBetween_def truthy_def str_of_def utc_dates_def fmt_date_nonempty)
qed

text \<open>
  Asked for the days a to b, the sessions page runs over exactly those when they are at most the
  maximum; otherwise it keeps every other filter and moves the start to the maximum before b, which is a
  window of one day more than the maximum, since both ends are included.
\<close>

theorem sessions_window:
  assumes "utc_dates date_ms" "0 \<le> a" "a \<le> b" "b < 2786860" "0 < k" "k \<le> b"
    and "map_of sp ''from'' = Some (One (fmt_date a))" "map_of sp ''to'' = Some (One (fmt_date b))"
  shows "sessions_parseFilters date_ms k now sp =
      (if b - a + 1 \<le> k then (parseFilters now sp, None)
       else ((parseFilters now sp)\<lparr>rf_fromTs := Some (fmt_date (b - k))\<rparr>, Some (fmt_date a)))
    \<and> daysBetween date_ms now (rf_fromTs (fst (sessions_parseFilters date_ms k now sp)))
        (rf_toTs (fst (sessions_parseFilters date_ms k now sp))) = (if b - a + 1 \<le> k then b - a + 1 else k + 1)"
proof -
  have raw: "rf_fromTs (parseFilters now sp) = Some (fmt_date a)" "rf_toTs (parseFilters now sp) = Some (fmt_date b)"
    using assms(2-4,7,8) by (simp_all add: parseFilters_def asString_date)
  have ab: "date_ms (fmt_date b) = Some (86400000 * b)" "fmt_date a \<noteq> []" "fmt_date b \<noteq> []"
    using assms(1-4) by (auto simp: utc_dates_def fmt_date_nonempty)
  have "86400000 * b - k * 86400000 = (b - k) * 86400000" by (simp add: algebra_simps)
  then have cut: "(86400000 * b - k * 86400000) div 86400000 = b - k" by simp
  have one: "sessions_parseFilters date_ms k now sp =
      (if b - a + 1 \<le> k then (parseFilters now sp, None)
       else ((parseFilters now sp)\<lparr>rf_fromTs := Some (fmt_date (b - k))\<rparr>, Some (fmt_date a)))"
    using assms(5) ab cut
    by (simp add: sessions_parseFilters_def raw daysBetween_dates [OF assms(1-4)] Let_def truthy_def str_of_def iso_day_def or0_def)
  then show ?thesis
    using daysBetween_dates [OF assms(1-4)] daysBetween_dates [OF assms(1), of "b - k" b now] assms(4-6) by (simp add: raw)
qed

text \<open>
  A URL that names only an end is not clamped at all, although the maximum is meant for every URL:
  the filters have no start, so every leg before the end is in range, however old.
\<close>

theorem sessions_unclamped:
  assumes "map_of sp ''from'' = None" "map_of sp ''to'' = Some (One t)" "t \<noteq> []"
  shows "sessions_parseFilters date_ms k now sp = (parseFilters now sp, None)
    \<and> in_range g 0 (fst (sessions_parseFilters date_ms k now sp)) (VTs u) = (u < pg_day_start g (parse_date t + 1))"
proof -
  have "rf_fromTs (parseFilters now sp) = None" "rf_toTs (parseFilters now sp) = Some t"
    using assms by (simp_all add: parseFilters_def asString_def defaultFromIfMissing_def param_truthy_def)
  then show ?thesis using assms(3)
    by (simp add: sessions_parseFilters_def Let_def truthy_def in_range_def str_of_def)
qed

section \<open>Page links\<close>

type_synonym pairs = "(string \<times> string) list"

definition entry_pairs :: "string \<times> param \<Rightarrow> pairs" where
  "entry_pairs e = (case snd e of One s \<Rightarrow> [(fst e, s)] | Many xs \<Rightarrow> map (Pair (fst e)) xs)"

fun usp_set :: "string \<Rightarrow> string \<Rightarrow> pairs \<Rightarrow> pairs" where
  \<comment> \<open>\<open>URLSearchParams.set\<close>: the first pair of the key gets the value, the others go\<close>
  "usp_set k v [] = [(k, v)]"
| "usp_set k v (p # ps) = (if fst p = k then (k, v) # filter (\<lambda>q. fst q \<noteq> k) ps else p # usp_set k v ps)"

definition put_entry :: "pairs \<Rightarrow> string \<times> param \<Rightarrow> pairs" where
  "put_entry p e = (case snd e of Many xs \<Rightarrow> p @ map (Pair (fst e)) xs | One s \<Rightarrow> usp_set (fst e) s p)"

definition override :: "pairs \<Rightarrow> string \<times> string option \<Rightarrow> pairs" where
  "override p kv = (case snd kv of None \<Rightarrow> filter (\<lambda>q. fst q \<noteq> fst kv) p | Some v \<Rightarrow> usp_set (fst kv) v p)"

definition buildQs :: "params \<Rightarrow> (string \<times> string option) list \<Rightarrow> pairs" where
  "buildQs sp overrides = foldl override (foldl put_entry [] (filter (\<lambda>e. fst e \<noteq> ''page'') sp)) overrides"

definition read_param :: "pairs \<Rightarrow> string \<Rightarrow> param option" where
  \<comment> \<open>what the page of a followed link gets for a key\<close>
  "read_param ps k = (case map snd (filter (\<lambda>p. fst p = k) ps) of [] \<Rightarrow> None | [s] \<Rightarrow> Some (One s) | xs \<Rightarrow> Some (Many xs))"

definition read_params :: "pairs \<Rightarrow> params" where
  "read_params ps = List.map_filter (\<lambda>k. map_option (Pair k) (read_param ps k)) (remdups (map fst ps))"

definition url_params :: "params \<Rightarrow> bool" where
  \<comment> \<open>an object that came from a URL: every key once, an array only for a repeated key\<close>
  "url_params sp \<longleftrightarrow> distinct (map fst sp) \<and> (\<forall>e \<in> set sp. case snd e of One _ \<Rightarrow> True | Many xs \<Rightarrow> 2 \<le> length xs)"

lemma usp_set_new: "k \<notin> fst ` set p \<Longrightarrow> usp_set k v p = p @ [(k, v)]"
  by (induction p) auto

lemma put_entries:
  "distinct (map fst sp) \<Longrightarrow> fst ` set sp \<inter> fst ` set p = {} \<Longrightarrow> foldl put_entry p sp = p @ concat (map entry_pairs sp)"
proof (induction sp arbitrary: p)
  case (Cons e sp)
  have keys: "fst ` set (entry_pairs e) \<subseteq> {fst e}" by (auto simp: entry_pairs_def split: param.splits)
  have "put_entry p e = p @ entry_pairs e"
    using Cons.prems by (cases "snd e") (simp_all add: put_entry_def entry_pairs_def usp_set_new)
  moreover have "foldl put_entry (p @ entry_pairs e) sp = (p @ entry_pairs e) @ concat (map entry_pairs sp)"
  proof (rule Cons.IH)
    show "distinct (map fst sp)" using Cons.prems(1) by simp
    have "fst ` set sp \<inter> fst ` set p = {}" using Cons.prems(2) by (simp add: Int_insert_left split: if_splits)
    moreover have "fst e \<notin> fst ` set sp" using Cons.prems(1) by simp
    moreover have "A \<inter> (B \<union> C) = {}" if "A \<inter> B = {}" "x \<notin> A" "C \<subseteq> {x}" for A B C :: "string set" and x
      using that by blast
    ultimately show "fst ` set sp \<inter> fst ` set (p @ entry_pairs e) = {}"
      using keys unfolding set_append image_Un by simp
  qed
  ultimately show ?case by simp
qed simp

lemma map_of_read: "map_of (read_params ps) k = read_param ps k"
proof -
  have m: "map_of (List.map_filter (\<lambda>k. map_option (Pair k) (f k)) ks) k = (if k \<in> set ks then f k else None)"
    for ks :: "string list" and f :: "string \<Rightarrow> param option"
    by (induction ks) (auto split: option.splits)
  have "read_param ps k = None" if "k \<notin> fst ` set ps"
  proof -
    have "filter (\<lambda>p. fst p = k) ps = []" using that by (auto simp: filter_empty_conv)
    then show ?thesis by (simp add: read_param_def)
  qed
  then show ?thesis by (auto simp: read_params_def m)
qed

lemma entries_values:
  assumes "distinct (map fst es)"
  shows "map snd (filter (\<lambda>p. fst p = k) (concat (map entry_pairs es)))
    = (case map_of es k of None \<Rightarrow> [] | Some (One s) \<Rightarrow> [s] | Some (Many xs) \<Rightarrow> xs)"
  using assms
proof (induction es)
  case (Cons e es)
  have other: "filter (\<lambda>p. fst p = k) (concat (map entry_pairs es)) = []" if "k \<notin> fst ` set es" for es
    using that by (induction es) (auto simp: entry_pairs_def filter_empty_conv split: param.splits)
  show ?case
  proof (cases "fst e = k")
    case True
    then have "filter (\<lambda>p. fst p = k) (concat (map entry_pairs es)) = []" using Cons.prems by (intro other) auto
    moreover have "map snd (filter (\<lambda>p. fst p = k) (entry_pairs e)) = (case snd e of One s \<Rightarrow> [s] | Many xs \<Rightarrow> xs)"
      using True by (cases "snd e") (simp_all add: entry_pairs_def comp_def)
    ultimately show ?thesis using True by (cases e) simp
  next
    case False
    then have "filter (\<lambda>p. fst p = k) (entry_pairs e) = []"
      by (auto simp: entry_pairs_def filter_empty_conv split: param.splits)
    then show ?thesis using False Cons by (cases e) simp
  qed
qed simp

lemma read_entries:
  assumes "url_params sp"
  shows "read_param (concat (map entry_pairs sp)) k = map_of sp k"
proof -
  have "2 \<le> length xs" if "map_of sp k = Some (Many xs)" for xs
    using assms map_of_SomeD [OF that] by (auto simp: url_params_def)
  then show ?thesis using entries_values [of sp k] assms
    by (cases "map_of sp k") (auto simp: url_params_def read_param_def split: param.splits list.splits)
qed

lemma read_usp_set: "read_param (usp_set k v ps) k' = (if k' = k then Some (One v) else read_param ps k')"
proof -
  have "filter (\<lambda>p. fst p = k') (usp_set k v ps) = (if k' = k then [(k, v)] else filter (\<lambda>p. fst p = k') ps)"
  proof (induction ps)
    case (Cons p ps)
    have "filter (\<lambda>q. fst q = k') (filter (\<lambda>q. fst q \<noteq> k) ps) = (if k' = k then [] else filter (\<lambda>q. fst q = k') ps)"
      by (auto simp: filter_filter filter_empty_conv intro: filter_cong)
    with Cons show ?case by auto
  qed simp
  then show ?thesis by (simp add: read_param_def)
qed

lemma link_params:
  assumes "url_params sp"
  shows "map_of (read_params (buildQs sp [(''page'', Some v)])) k = (if k = ''page'' then Some (One v) else map_of sp k)"
proof -
  let ?sp = "filter (\<lambda>e. fst e \<noteq> ''page'') sp"
  have "url_params ?sp" using assms by (auto simp: url_params_def distinct_map_filter)
  then have "read_param (concat (map entry_pairs ?sp)) k = map_of ?sp k" by (rule read_entries)
  moreover have "map_of ?sp k = (if k = ''page'' then None else map_of sp k)"
    by (induction sp) auto
  moreover have "foldl put_entry [] ?sp = concat (map entry_pairs ?sp)"
    using put_entries [of ?sp "[]"] \<open>url_params ?sp\<close> by (simp add: url_params_def)
  ultimately show ?thesis by (simp add: map_of_read buildQs_def override_def read_usp_set)
qed

text \<open>
  A link to another page of a listing leads to that page under the same filters, repeated keys
  included: what the page reads from the link is what it read from the URL the link was built on, with
  the page replaced.
\<close>

theorem page_links_keep_filters:
  assumes "url_params sp" "1 \<le> n"
  shows "parseFilters now (read_params (buildQs sp [(''page'', Some (js_String n))])) = parseFilters now sp
    \<and> sessions_parseFilters date_ms k now (read_params (buildQs sp [(''page'', Some (js_String n))]))
        = sessions_parseFilters date_ms k now sp
    \<and> asPositiveInt (map_of (read_params (buildQs sp [(''page'', Some (js_String n))])) ''page'') 1 None = n
    \<and> asPositiveInt (map_of (read_params (buildQs sp [(''page'', Some (js_String n))])) ''page_size'') 10 (Some 100)
        = asPositiveInt (map_of sp ''page_size'') 10 (Some 100)"
proof -
  have f: "parseFilters now (read_params (buildQs sp [(''page'', Some (js_String n))])) = parseFilters now sp"
    unfolding parseFilters_def defaultFromIfMissing_def by (simp add: link_params [OF assms(1)])
  then show ?thesis using assms
    by (simp add: sessions_parseFilters_def link_params asPositiveInt_def asString_def)
qed

section \<open>Samples\<close>

definition url_dates :: "string \<Rightarrow> int option" where "url_dates s = Some (86400000 * parse_date s)"

lemma url_dates_utc: "utc_dates url_dates"
  by (simp add: utc_dates_def url_dates_def parse_fmt_date)

definition wide_params :: params where
  \<comment> \<open>days 1 to 200\<close>
  "wide_params = [(''from'', One (fmt_date 1)), (''to'', One (fmt_date 200)), (''operator'', Many [''tigo'', ''airtel''])]"

theorem sessions_window_witness:
  "rf_fromTs (fst (sessions_parseFilters url_dates 92 0 wide_params)) = Some (fmt_date 108)
   \<and> daysBetween url_dates 0 (rf_fromTs (fst (sessions_parseFilters url_dates 92 0 wide_params)))
       (rf_toTs (fst (sessions_parseFilters url_dates 92 0 wide_params))) = 93"
proof -
  have "map_of wide_params ''from'' = Some (One (fmt_date 1))" "map_of wide_params ''to'' = Some (One (fmt_date 200))"
    by (simp_all add: wide_params_def)
  note w = sessions_window [OF url_dates_utc _ _ _ _ _ this, of 92 0]
  have "fst (sessions_parseFilters url_dates 92 0 wide_params) = (parseFilters 0 wide_params)\<lparr>rf_fromTs := Some (fmt_date 108)\<rparr>"
    using conjunct1 [OF w] by simp
  moreover have "daysBetween url_dates 0 (rf_fromTs (fst (sessions_parseFilters url_dates 92 0 wide_params)))
       (rf_toTs (fst (sessions_parseFilters url_dates 92 0 wide_params))) = (if 200 - 1 + 1 \<le> (92 :: int) then 200 - 1 + 1 else 92 + 1)"
    by (rule conjunct2 [OF w]) simp_all
  ultimately show ?thesis by (intro conjI) simp_all
qed

theorem sessions_unclamped_witness:
  "in_range sample_pg 0 (fst (sessions_parseFilters url_dates 92 0 [(''to'', One ''1970-01-02'')])) (VTs 0)
   = (0 < pg_day_start sample_pg (parse_date ''1970-01-02'' + 1))"
proof -
  have "map_of [(''to'', One ''1970-01-02'')] ''from'' = None" "map_of [(''to'', One ''1970-01-02'')] ''to'' = Some (One ''1970-01-02'')"
    by simp_all
  from sessions_unclamped [OF this] show ?thesis by blast
qed

theorem page_links_keep_filters_witness:
  "rf_operators (parseFilters 0 (read_params (buildQs wide_params [(''page'', Some (js_String 3))]))) = [''tigo'', ''airtel'']"
proof -
  have "url_params wide_params" by (simp add: url_params_def wide_params_def)
  from page_links_keep_filters [OF this, of 3 0] show ?thesis
    by (simp add: parseFilters_def asStringArray_def wide_params_def)
qed

end
