(* ===== verification/Overview_Page.thy ===== *)
theory Overview_Page
  imports Rollup_Views
begin

text \<open>
  The data of the overview page, \<^verbatim>\<open>(authed)/page.tsx\<close>: the tiles of the last day, the busiest
  day of the chart, and the most dialled strings, which are kept in the framework's cache across requests
  and callers.  The cache (\<open>unstable_cache\<close>) is a parameter, known only to hand out what was computed
  under the same key.
\<close>

section \<open>Tiles\<close>

record Totals =
  tt_rows_24h :: nat
  tt_rows_1h :: nat
  tt_unique_sessions_24h :: nat
  tt_err_24h :: nat

definition since :: "int \<Rightarrow> int \<Rightarrow> leg_row \<Rightarrow> bool" where
  \<comment> \<open>\<open>ts > now() - interval\<close>, of hours\<close>
  "since now hours l \<longleftrightarrow> l_ts l > now - hours * 3600000000"

definition loadTotals :: "pg \<Rightarrow> int \<Rightarrow> ShortcodeAcl \<Rightarrow> leg_row list \<Rightarrow> Totals" where
  "loadTotals g now acl logs =
    (let (scClause, params) = aclClause acl ''shortcode_id'' ''ts'' GTs [];
         ok = (\<lambda>l. holds g params (leg_sql l) scClause)
     in \<lparr>tt_rows_24h = length (filter (\<lambda>l. since now 24 l \<and> ok l) logs),
         tt_rows_1h = length (filter (\<lambda>l. since now 1 l \<and> ok l) logs),
         tt_unique_sessions_24h = card (set (map l_session_id (filter (\<lambda>l. since now 24 l \<and> ok l) logs))),
         tt_err_24h = length (filter (\<lambda>l. since now 24 l \<and> l_error_class l \<noteq> None \<and> ok l) logs)\<rparr>)"

section \<open>Most dialled\<close>

record TrailRow =
  tr_ussd_string :: string
  tr_n :: nat

datatype trail_mode = Day string | Today

definition trail_conds :: "ShortcodeAcl \<Rightarrow> trail_mode \<Rightarrow> sql_cond list \<times> pval list" where
  \<comment> \<open>the clauses with parameters; both ends of a day share theirs\<close>
  "trail_conds acl mode = (let (cs, ps) = acl_conds ''shortcode_id'' ''ts'' GTs acl []
     in case mode of Today \<Rightarrow> (cs, ps)
       | Day date \<Rightarrow> (let (n, ps') = push ps (PStr date)
           in (cs @ [CCmp OpGe ''ts'' (EDateStart n), CCmp OpLt ''ts'' (EDateEnd n 0)], ps')))"

definition dialled :: "int \<Rightarrow> trail_mode \<Rightarrow> leg_row \<Rightarrow> bool" where
  \<comment> \<open>the clauses without parameters\<close>
  "dialled now mode l \<longleftrightarrow> truthy (l_ussd_string l) \<and> (mode = Today \<longrightarrow> l_ts l \<ge> now - 24 * 3600000000)"

definition by_count :: "(string \<Rightarrow> string \<Rightarrow> bool) \<Rightarrow> TrailRow \<Rightarrow> TrailRow \<Rightarrow> bool" where
  "by_count le a b \<longleftrightarrow> (if tr_n a = tr_n b then le (tr_ussd_string a) (tr_ussd_string b) else tr_n b < tr_n a)"

definition trail_rows :: "leg_row list \<Rightarrow> TrailRow list" where
  \<comment> \<open>GROUP BY ussd_string\<close>
  "trail_rows ls = map (\<lambda>s. \<lparr>tr_ussd_string = s, tr_n = length (filter (\<lambda>l. l_ussd_string l = Some s) ls)\<rparr>)
     (remdups (List.map_filter l_ussd_string ls))"

definition loadTopTrails :: "pg \<Rightarrow> (string \<Rightarrow> string \<Rightarrow> bool) \<Rightarrow> ShortcodeAcl \<Rightarrow> trail_mode \<Rightarrow> nat \<Rightarrow> int \<Rightarrow> leg_row list
    \<Rightarrow> TrailRow list" where
  "loadTopTrails g le acl mode limit now logs =
    (if acl \<noteq> None \<and> aclDeniesAll acl then []
     else (let (conds, params) = trail_conds acl mode
       in take limit (sort_by (by_count le) (trail_rows
            (filter (\<lambda>l. dialled now mode l \<and> holds g params (leg_sql l) (CAll conds)) logs)))))"

definition grant_text :: "ShortcodeGrant \<Rightarrow> string" where
  "grant_text x = ''{\"id\":'' @ js_String (g_id x) @ '',\"from\":'' @ js_String (g_from x) @ ''}''"

definition acl_text :: "ShortcodeAcl \<Rightarrow> string" where
  \<comment> \<open>\<open>JSON.stringify(acl ?? "all")\<close>\<close>
  "acl_text acl = (case acl of None \<Rightarrow> ''\"all\"'' | Some gs \<Rightarrow> ''['' @ join_with '','' (map grant_text gs) @ '']'')"

definition trail_key :: "ShortcodeAcl \<Rightarrow> trail_mode \<Rightarrow> string list" where
  "trail_key acl mode = [''top-trails'', case mode of Day date \<Rightarrow> ''day:'' @ date | Today \<Rightarrow> ''today'', acl_text acl]"

definition topTrailsCached :: "(string list \<Rightarrow> int \<Rightarrow> TrailRow list \<Rightarrow> 'c \<Rightarrow> TrailRow list \<times> 'c) \<Rightarrow> pg
    \<Rightarrow> (string \<Rightarrow> string \<Rightarrow> bool) \<Rightarrow> ShortcodeAcl \<Rightarrow> trail_mode \<Rightarrow> int \<Rightarrow> int \<Rightarrow> leg_row list \<Rightarrow> 'c \<Rightarrow> TrailRow list \<times> 'c" where
  \<comment> \<open>the first argument is \<open>unstable_cache\<close>: key, lifetime, what the callback would compute now, cache\<close>
  "topTrailsCached unstable_cache g le acl mode revalidate now logs c =
     unstable_cache (trail_key acl mode) revalidate (loadTopTrails g le acl mode 8 now logs) c"

section \<open>The busiest day\<close>

definition day_sums :: "DailyTrafficRow list \<Rightarrow> (int \<times> int) list" where
  \<comment> \<open>\<open>dayTotals\<close>, in insertion order\<close>
  "day_sums daily = map (\<lambda>d. (d, sum_list (map dt_billable_units (filter (\<lambda>r. dt_day r = d) daily))))
     (rev (remdups (rev (map dt_day daily))))"

definition peak_day :: "DailyTrafficRow list \<Rightarrow> int option \<times> int" where
  "peak_day daily = foldl (\<lambda>(peakDate, peakVal) (d, v). if v > peakVal then (Some d, v) else (peakDate, peakVal)) (None, -1)
     (day_sums daily)"

definition TrailsSection :: "(string list \<Rightarrow> int \<Rightarrow> TrailRow list \<Rightarrow> 'c \<Rightarrow> TrailRow list \<times> 'c) \<Rightarrow> pg
    \<Rightarrow> (string \<Rightarrow> string \<Rightarrow> bool) \<Rightarrow> ShortcodeAcl \<Rightarrow> DailyTrafficRow list \<Rightarrow> int \<Rightarrow> leg_row list \<Rightarrow> 'c
    \<Rightarrow> (TrailRow list \<times> TrailRow list) \<times> 'c" where
  \<comment> \<open>the two lists shown; the day of today is the UTC one, and days compare as their dates\<close>
  "TrailsSection unstable_cache g le acl daily now logs c =
    (let (peakTrails, c1) = (case fst (peak_day daily) of None \<Rightarrow> ([], c)
           | Some z \<Rightarrow> topTrailsCached unstable_cache g le acl (Day (fmt_date z))
               (if z < now div 86400000000 then 86400 else 300) now logs c);
         (todayTrails, c2) = topTrailsCached unstable_cache g le acl Today 300 now logs c1
     in ((peakTrails, todayTrails), c2))"

section \<open>What the tiles say\<close>

lemma scoped_legs:
  assumes "aclClause acl ''shortcode_id'' ''ts'' GTs [] = (c, ps)"
  shows "holds g ps (leg_sql l) c \<longleftrightarrow> leg_allowed acl l"
  using aclClause_correct [OF assms, of g "[]" "leg_sql l"] by (simp add: leg_allowed_def)

lemma length_filter_mono: "(\<And>x. x \<in> set xs \<Longrightarrow> P x \<Longrightarrow> Q x) \<Longrightarrow> length (filter P xs) \<le> length (filter Q xs)"
  by (induction xs) (auto intro: le_SucI)

text \<open>
  The tiles count legs the caller may read and nothing else, and they agree with each other: the last
  hour, the failures and the sessions are at most the legs of the day, sessions are there exactly when legs
  are, and so the error rate is at most a hundred per cent.
\<close>

theorem tiles_agree:
  "loadTotals g now acl logs = loadTotals g now None (filter (leg_allowed acl) logs)
   \<and> tt_rows_1h (loadTotals g now acl logs) \<le> tt_rows_24h (loadTotals g now acl logs)
   \<and> tt_err_24h (loadTotals g now acl logs) \<le> tt_rows_24h (loadTotals g now acl logs)
   \<and> tt_unique_sessions_24h (loadTotals g now acl logs) \<le> tt_rows_24h (loadTotals g now acl logs)
   \<and> (tt_unique_sessions_24h (loadTotals g now acl logs) = 0 \<longleftrightarrow> tt_rows_24h (loadTotals g now acl logs) = 0)"
proof -
  obtain c ps where c: "aclClause acl ''shortcode_id'' ''ts'' GTs [] = (c, ps)" by fastforce
  obtain c' ps' where c': "aclClause None ''shortcode_id'' ''ts'' GTs [] = (c', ps')" by fastforce
  have all: "leg_allowed None l" for l by (simp add: leg_allowed_def acl_allows_def)
  let ?day = "filter (\<lambda>l. since now 24 l \<and> leg_allowed acl l) logs"
  have t: "loadTotals g now acl logs = \<lparr>tt_rows_24h = length ?day,
      tt_rows_1h = length (filter (\<lambda>l. since now 1 l \<and> leg_allowed acl l) logs),
      tt_unique_sessions_24h = card (set (map l_session_id ?day)),
      tt_err_24h = length (filter (\<lambda>l. since now 24 l \<and> l_error_class l \<noteq> None \<and> leg_allowed acl l) logs)\<rparr>"
    by (simp add: loadTotals_def c scoped_legs [OF c] Let_def)
  have "loadTotals g now acl logs = loadTotals g now None (filter (leg_allowed acl) logs)"
    unfolding t by (simp add: loadTotals_def c' scoped_legs [OF c'] all Let_def conj_ac)
  moreover have "tt_rows_1h (loadTotals g now acl logs) \<le> tt_rows_24h (loadTotals g now acl logs)"
    "tt_err_24h (loadTotals g now acl logs) \<le> tt_rows_24h (loadTotals g now acl logs)"
    unfolding t by (auto simp: since_def intro!: length_filter_mono)
  moreover have "tt_unique_sessions_24h (loadTotals g now acl logs) \<le> tt_rows_24h (loadTotals g now acl logs)"
    unfolding t using card_length [of "map l_session_id ?day"] by simp
  moreover have "tt_unique_sessions_24h (loadTotals g now acl logs) = 0 \<longleftrightarrow> tt_rows_24h (loadTotals g now acl logs) = 0"
    unfolding t by (auto simp: filter_empty_conv)
  ultimately show ?thesis by blast
qed

section \<open>What the cache hands out\<close>

lemma cut_at:
  "c \<notin> set xs \<Longrightarrow> c \<notin> set ys \<Longrightarrow> xs @ c # r = ys @ c # r' \<Longrightarrow> xs = ys \<and> r = r'"
proof (induction xs arbitrary: ys)
  case Nil
  then show ?case by (cases ys) auto
next
  case (Cons x xs)
  then show ?case by (cases ys) auto
qed

lemma js_String_chars: "c \<in> set (js_String i) \<Longrightarrow> is_digit c \<or> c = CHR ''-''"
  using dec_digits by (auto simp: js_String_def split: if_splits)

lemma js_String_plain: "CHR '','' \<notin> set (js_String i)" "CHR ''}'' \<notin> set (js_String i)"
  by (auto dest!: js_String_chars simp: is_digit_def)

lemma grant_text_inj:
  assumes "grant_text x @ r = grant_text y @ r'"
  shows "x = y \<and> r = r'"
proof -
  have "js_String (g_id x) @ CHR '','' # ''\"from\":'' @ js_String (g_from x) @ ''}'' @ r
      = js_String (g_id y) @ CHR '','' # ''\"from\":'' @ js_String (g_from y) @ ''}'' @ r'"
    using assms by (simp add: grant_text_def)
  from cut_at [OF js_String_plain(1) js_String_plain(1) this]
  have i: "js_String (g_id x) = js_String (g_id y)"
    and "js_String (g_from x) @ CHR ''}'' # r = js_String (g_from y) @ CHR ''}'' # r'" by simp_all
  from cut_at [OF js_String_plain(2) js_String_plain(2) this(2)] i show ?thesis
    by (cases x; cases y) simp
qed

fun grants_tail :: "ShortcodeGrant list \<Rightarrow> string" where
  "grants_tail [] = '']''"
| "grants_tail (x # xs) = CHR '','' # grant_text x @ grants_tail xs"

lemma grants_tail_inj: "grants_tail xs = grants_tail ys \<Longrightarrow> xs = ys"
proof (induction xs arbitrary: ys)
  case Nil
  then show ?case by (cases ys) auto
next
  case (Cons x xs)
  then obtain y ys' where ys: "ys = y # ys'" by (cases ys) auto
  with Cons.prems grant_text_inj show ?case using Cons.IH by fastforce
qed

fun closed :: "ShortcodeGrant list \<Rightarrow> string" where
  "closed [] = '']''"
| "closed (x # xs) = grant_text x @ grants_tail xs"

lemma closed_inj: "closed gs = closed hs \<Longrightarrow> gs = hs"
proof (cases gs; cases hs)
  fix x xs y ys assume "closed gs = closed hs" and e: "gs = x # xs" "hs = y # ys"
  then have "grant_text x @ grants_tail xs = grant_text y @ grants_tail ys" by simp
  then show "gs = hs" using grant_text_inj grants_tail_inj e by blast
qed (simp_all add: grant_text_def)

lemma join_grants: "join_with '','' (map grant_text gs) @ '']'' = closed gs"
proof (cases gs)
  case (Cons x xs)
  have "join_with '','' (map grant_text (x # xs)) @ '']'' = grant_text x @ grants_tail xs"
    by (induction xs arbitrary: x) auto
  then show ?thesis using Cons by simp
qed simp

lemma acl_text_inj:
  assumes "acl_text a = acl_text b"
  shows "a = b"
proof -
  have some: "gs = hs" if e: "join_with '','' (map grant_text gs) @ '']'' = join_with '','' (map grant_text hs) @ '']''" for gs hs
    using e closed_inj by (simp only: join_grants)
  show ?thesis using assms some by (cases a; cases b) (auto simp: acl_text_def)
qed

lemma trail_key_inj: "trail_key a m = trail_key b m' \<Longrightarrow> a = b \<and> m = m'"
  by (cases m; cases m') (auto simp: trail_key_def dest: acl_text_inj)


record trails_request =
  tq_acl :: ShortcodeAcl
  tq_mode :: trail_mode
  tq_revalidate :: int
  tq_now :: int
  tq_logs :: "leg_row list"   \<comment> \<open>the log when the request arrives\<close>

definition fresh :: "pg \<Rightarrow> (string \<Rightarrow> string \<Rightarrow> bool) \<Rightarrow> trails_request \<Rightarrow> TrailRow list" where
  "fresh g le q = loadTopTrails g le (tq_acl q) (tq_mode q) 8 (tq_now q) (tq_logs q)"

definition served :: "(string list \<Rightarrow> int \<Rightarrow> TrailRow list \<Rightarrow> 'c \<Rightarrow> TrailRow list \<times> 'c) \<Rightarrow> pg
    \<Rightarrow> (string \<Rightarrow> string \<Rightarrow> bool) \<Rightarrow> trails_request \<Rightarrow> 'c \<Rightarrow> TrailRow list \<times> 'c" where
  "served uc g le q = topTrailsCached uc g le (tq_acl q) (tq_mode q) (tq_revalidate q) (tq_now q) (tq_logs q)"

definition cache_after :: "(string list \<Rightarrow> int \<Rightarrow> TrailRow list \<Rightarrow> 'c \<Rightarrow> TrailRow list \<times> 'c) \<Rightarrow> pg
    \<Rightarrow> (string \<Rightarrow> string \<Rightarrow> bool) \<Rightarrow> trails_request list \<Rightarrow> 'c \<Rightarrow> 'c" where
  "cache_after uc g le qs = fold (\<lambda>q c. snd (served uc g le q c)) qs"

definition keyed_cache :: "('k \<Rightarrow> int \<Rightarrow> 'v \<Rightarrow> 'c \<Rightarrow> 'v \<times> 'c) \<Rightarrow> ('c \<Rightarrow> 'k \<Rightarrow> 'v set) \<Rightarrow> bool" where
  \<comment> \<open>what a call hands out is fresh or was kept under its key, and only the fresh value is kept anew\<close>
  "keyed_cache uc kept \<longleftrightarrow> (\<forall>k r v c. (fst (uc k r v c) = v \<or> fst (uc k r v c) \<in> kept c k)
     \<and> kept (snd (uc k r v c)) k \<subseteq> insert v (kept c k)
     \<and> (\<forall>k'. k' \<noteq> k \<longrightarrow> kept (snd (uc k r v c)) k' \<subseteq> kept c k'))"

lemma served_cases:
  assumes "keyed_cache uc kept"
  shows "fst (served uc g le q c) = fresh g le q \<or> fst (served uc g le q c) \<in> kept c (trail_key (tq_acl q) (tq_mode q))"
  using assms by (simp add: keyed_cache_def served_def topTrailsCached_def fresh_def)

lemma served_keeps:
  assumes "keyed_cache uc kept" and "v \<in> kept (snd (served uc g le q c)) k"
  shows "v \<in> kept c k \<or> k = trail_key (tq_acl q) (tq_mode q) \<and> v = fresh g le q"
  using assms unfolding keyed_cache_def served_def topTrailsCached_def fresh_def
  by (metis insertE subsetD)

lemma kept_after:
  assumes "keyed_cache uc kept" and "\<And>k. kept c k = {}" and "v \<in> kept (cache_after uc g le qs c) k"
  shows "\<exists>q \<in> set qs. k = trail_key (tq_acl q) (tq_mode q) \<and> v = fresh g le q"
  using assms(3)
proof (induction qs rule: rev_induct)
  case Nil
  then show ?case by (simp add: cache_after_def assms(2))
next
  case (snoc q qs)
  then show ?case using served_keeps [OF assms(1), of v g le q "cache_after uc g le qs c" k]
    by (auto simp: cache_after_def)
qed

lemma trail_conds_allow:
  assumes "trail_conds acl mode = (cs, ps)" and "holds g ps (leg_sql l) (CAll cs)"
  shows "leg_allowed acl l"
proof -
  obtain c1 p1 where a: "acl_conds ''shortcode_id'' ''ts'' GTs acl [] = (c1, p1)" by fastforce
  have "(\<exists>post. ps = p1 @ post) \<and> set c1 \<subseteq> set cs"
    using assms(1) by (auto simp: trail_conds_def a push_def Let_def split: trail_mode.splits)
  then obtain post where "ps = p1 @ post" and "set c1 \<subseteq> set cs" by blast
  then have "holds g (p1 @ post) (leg_sql l) (CAll c1)" using assms(2) by auto
  then show ?thesis using acl_builder.correct [OF a] by (simp add: leg_allowed_def)
qed

lemma trail_rows_dialled: "r \<in> set (trail_rows ls) \<Longrightarrow> \<exists>l \<in> set ls. l_ussd_string l = Some (tr_ussd_string r)"
  by (auto simp: trail_rows_def List.map_filter_def)

lemma fresh_allowed:
  assumes "r \<in> set (fresh g le q)"
  shows "\<exists>l \<in> set (tq_logs q). leg_allowed (tq_acl q) l \<and> l_ussd_string l = Some (tr_ussd_string r)"
proof -
  obtain cs ps where c: "trail_conds (tq_acl q) (tq_mode q) = (cs, ps)" by fastforce
  have "r \<in> set (trail_rows (filter (\<lambda>l. dialled (tq_now q) (tq_mode q) l \<and> holds g ps (leg_sql l) (CAll cs)) (tq_logs q)))"
    using assms by (auto simp: fresh_def loadTopTrails_def c dest!: in_set_takeD split: if_splits)
  then show ?thesis using trail_rows_dialled trail_conds_allow [OF c] by fastforce
qed

text \<open>
  C38. Whatever the framework's cache keeps and forgets, as long as it only hands out what was computed under
  the key asked for, no caller is shown another caller's strings: after any history of requests the answer
  is one the database gave to a request of the same allowlist, time floors included, and the same period, so
  every string shown was dialled in a leg the caller may read.
\<close>

theorem trails_cache_scoped:
  assumes "keyed_cache uc kept" and "\<And>k. kept c k = {}"
    and "trails = fst (served uc g le q (cache_after uc g le qs c))"
  shows "(\<exists>q' \<in> set (qs @ [q]). tq_acl q' = tq_acl q \<and> tq_mode q' = tq_mode q \<and> trails = fresh g le q')
    \<and> (\<forall>r \<in> set trails. \<exists>q' \<in> set (qs @ [q]). \<exists>l \<in> set (tq_logs q').
         leg_allowed (tq_acl q) l \<and> l_ussd_string l = Some (tr_ussd_string r))"
proof -
  let ?c = "cache_after uc g le qs c" and ?k = "trail_key (tq_acl q) (tq_mode q)"
  have "trails = fresh g le q \<or> trails \<in> kept ?c ?k"
    using served_cases [OF assms(1), of g le q ?c] by (simp add: assms(3))
  then have "\<exists>q' \<in> set (qs @ [q]). tq_acl q' = tq_acl q \<and> tq_mode q' = tq_mode q \<and> trails = fresh g le q'"
  proof
    assume "trails \<in> kept ?c ?k"
    then obtain q' where "q' \<in> set qs" "?k = trail_key (tq_acl q') (tq_mode q')" "trails = fresh g le q'"
      using kept_after [OF assms(1,2)] by blast
    then show ?thesis using trail_key_inj by (metis Un_iff set_append)
  qed simp
  then show ?thesis using fresh_allowed by metis
qed

definition one_entry :: "string list \<Rightarrow> int \<Rightarrow> TrailRow list \<Rightarrow> (string list \<times> TrailRow list) option
    \<Rightarrow> TrailRow list \<times> (string list \<times> TrailRow list) option" where
  \<comment> \<open>a cache that keeps the last answer for ever\<close>
  "one_entry k r v c = (case c of Some (k', v') \<Rightarrow> if k' = k then (v', c) else (v, Some (k, v)) | None \<Rightarrow> (v, Some (k, v)))"

lemma one_entry_keyed: "keyed_cache one_entry (\<lambda>c k. {v. c = Some (k, v)})"
  by (auto simp: keyed_cache_def one_entry_def split: option.splits prod.splits)


definition dialled_leg :: leg_row where
  "dialled_leg = (sample_leg 1 5 7)\<lparr>l_ussd_string := Some ''*150#''\<rparr>"

definition sample_trails_request :: "ShortcodeAcl \<Rightarrow> trails_request" where
  "sample_trails_request acl = \<lparr>tq_acl = acl, tq_mode = Today, tq_revalidate = 300, tq_now = 86400000000,
     tq_logs = [dialled_leg]\<rparr>"

theorem trails_cache_scoped_witness:
  "fst (served one_entry sample_pg (\<lambda>_ _. True) (sample_trails_request (Some [\<lparr>g_id = 7, g_from = 10\<rparr>]))
      (cache_after one_entry sample_pg (\<lambda>_ _. True) [sample_trails_request None] None))
    = fresh sample_pg (\<lambda>_ _. True) (sample_trails_request (Some [\<lparr>g_id = 7, g_from = 10\<rparr>]))"
  using conjunct1 [OF trails_cache_scoped [OF one_entry_keyed, of None _ sample_pg "\<lambda>_ _. True"
      "sample_trails_request (Some [\<lparr>g_id = 7, g_from = 10\<rparr>])" "[sample_trails_request None]"]]
  by (simp add: sample_trails_request_def)

end
