(* ===== verification/Simulator_Client.thy ===== *)
theory Simulator_Client
  imports Simulator
begin

text \<open>
  The simulator in the browser, \<^verbatim>\<open>(authed)/simulator/_simulator.tsx\<close>: what is in its React state,
  what its controls do and when they are disabled, and the calls it makes.  A call in flight is part of
  the state (\<open>pending\<close>); the server's answer to it is any result.  A call that fails altogether ends in
  the page's error boundary and is not modelled.
\<close>

section \<open>State\<close>

record LegEntry =
  le_n :: nat
  le_event :: SimEvent
  le_input :: string
  le_result :: SimLegResult

record sim_client =
  cl_scId :: int
  cl_msisdn :: string
  cl_sessionId :: string
  cl_ussdTrail :: string
  cl_active :: bool
  cl_legs :: "LegEntry list"
  cl_input :: string
  cl_showRaw :: bool
  cl_pending :: "(SimLegInput \<times> string) option"   \<comment> \<open>the call in flight, with what was typed for it\<close>

definition Simulator :: "SimShortcode list \<Rightarrow> sim_client" where
  \<comment> \<open>when the component is mounted\<close>
  "Simulator scs = \<lparr>cl_scId = (case scs of [] \<Rightarrow> 0 | s # _ \<Rightarrow> ss_id s), cl_msisdn = ''255700000001'', cl_sessionId = [],
     cl_ussdTrail = [], cl_active = False, cl_legs = [], cl_input = [], cl_showRaw = False, cl_pending = None\<rparr>"

definition started :: "sim_client \<Rightarrow> bool" where
  "started s \<longleftrightarrow> length (cl_legs s) > 0"

datatype screen = Dial_prompt | Shows string | Warns verdict "string option"

definition screen_of :: "sim_client \<Rightarrow> screen" where
  "screen_of s = (if cl_legs s = [] then Dial_prompt
     else (let r = le_result (last (cl_legs s))
       in if sr_ok r then Shows (case sr_message r of None \<Rightarrow> [] | Some m \<Rightarrow> m)
          else Warns (sr_verdict r) (if truthy (sr_detail r) then sr_detail r else None)))"

section \<open>Controls\<close>

definition genSessionId :: "string \<Rightarrow> string" where
  \<comment> \<open>of a random UUID\<close>
  "genSessionId uuid = ''SIM-'' @ toUpperCase (take 12 (filter (\<lambda>c. c \<noteq> CHR ''-'') uuid))"

definition reset :: "sim_client \<Rightarrow> sim_client" where
  "reset s = s\<lparr>cl_sessionId := [], cl_ussdTrail := [], cl_active := False, cl_legs := [], cl_input := []\<rparr>"

definition runLeg :: "SimEvent \<Rightarrow> string \<Rightarrow> string \<Rightarrow> string \<Rightarrow> sim_client \<Rightarrow> sim_client" where
  "runLeg event legInput sid trail s = s\<lparr>cl_pending := Some (\<lparr>si_shortcodeId = cl_scId s, si_msisdn = cl_msisdn s,
     si_sessionId = sid, si_event = event, si_ussdString = trail\<rparr>, legInput)\<rparr>"

definition answered :: "SimLegResult \<Rightarrow> sim_client \<Rightarrow> sim_client" where
  \<comment> \<open>the rest of \<open>runLeg\<close>, when the call returns\<close>
  "answered result s = (case cl_pending s of None \<Rightarrow> s
     | Some (i, legInput) \<Rightarrow> s\<lparr>cl_legs := cl_legs s @ [\<lparr>le_n = length (cl_legs s) + 1, le_event = si_event i,
           le_input = legInput, le_result = result\<rparr>],
         cl_active := (sr_verdict result = Vcon), cl_input := [], cl_pending := None\<rparr>)"

definition startSession :: "string \<Rightarrow> sim_client \<Rightarrow> sim_client" where
  "startSession uuid s = (let sid = genSessionId uuid
     in runLeg Start [] sid [] (s\<lparr>cl_sessionId := sid, cl_ussdTrail := [], cl_legs := []\<rparr>))"

definition sendInput :: "sim_client \<Rightarrow> sim_client" where
  "sendInput s = (if \<not> cl_active s \<or> cl_pending s \<noteq> None then s
     else (let trail = (if cl_ussdTrail s \<noteq> [] then cl_ussdTrail s @ ''*'' @ cl_input s else cl_input s)
       in runLeg Input (cl_input s) (cl_sessionId s) trail (s\<lparr>cl_ussdTrail := trail\<rparr>)))"

datatype ui_event = Pick int | Type_msisdn string | Type_input string | Show_raw bool
  | Press_start string | Press_send | Press_clear | Answer SimLegResult

definition enabled :: "SimShortcode list \<Rightarrow> sim_client \<Rightarrow> ui_event \<Rightarrow> bool" where
  \<comment> \<open>what is shown and not disabled\<close>
  "enabled scs s e = (case e of
       Pick i \<Rightarrow> \<not> started s \<and> i \<in> ss_id ` set scs
     | Type_msisdn _ \<Rightarrow> \<not> started s
     | Type_input _ \<Rightarrow> cl_active s
     | Show_raw _ \<Rightarrow> True
     | Press_start _ \<Rightarrow> cl_pending s = None
     | Press_send \<Rightarrow> cl_active s \<and> cl_pending s = None
     | Press_clear \<Rightarrow> started s \<and> cl_pending s = None
     | Answer _ \<Rightarrow> cl_pending s \<noteq> None)"

definition ui_step :: "ui_event \<Rightarrow> sim_client \<Rightarrow> sim_client" where
  "ui_step e s = (case e of
       Pick i \<Rightarrow> s\<lparr>cl_scId := i\<rparr>
     | Type_msisdn m \<Rightarrow> s\<lparr>cl_msisdn := m\<rparr>
     | Type_input t \<Rightarrow> s\<lparr>cl_input := t\<rparr>
     | Show_raw b \<Rightarrow> s\<lparr>cl_showRaw := b\<rparr>
     | Press_start uuid \<Rightarrow> startSession uuid s
     | Press_send \<Rightarrow> sendInput s
     | Press_clear \<Rightarrow> reset s
     | Answer r \<Rightarrow> answered r s)"

definition session_calls :: "ui_event \<Rightarrow> sim_client \<Rightarrow> SimLegInput list \<Rightarrow> SimLegInput list" where
  \<comment> \<open>the calls of the session on screen after an event that leads to the state\<close>
  "session_calls e s' calls = (case e of
       Press_start _ \<Rightarrow> [fst (the (cl_pending s'))]
     | Press_send \<Rightarrow> calls @ [fst (the (cl_pending s'))]
     | Press_clear \<Rightarrow> []
     | _ \<Rightarrow> calls)"

inductive simulated :: "SimShortcode list \<Rightarrow> SimLegInput list \<Rightarrow> sim_client \<Rightarrow> bool" for scs where
  mount: "simulated scs [] (Simulator scs)"
| event: "simulated scs (session_calls e (ui_step e s) calls) (ui_step e s)"
    if "simulated scs calls s" "enabled scs s e"

section \<open>The dialogue\<close>

definition extends_trail :: "SimLegInput \<Rightarrow> SimLegInput \<Rightarrow> LegEntry \<Rightarrow> bool" where
  \<comment> \<open>a leg sent after another was answered\<close>
  "extends_trail i j l \<longleftrightarrow> si_event j = Input \<and> si_sessionId j = si_sessionId i \<and> sr_verdict (le_result l) = Vcon
     \<and> (\<exists>typed. si_ussdString j = (if si_ussdString i = [] then typed else si_ussdString i @ ''*'' @ typed))"

definition dialogue :: "SimLegInput list \<Rightarrow> LegEntry list \<Rightarrow> bool" where
  "dialogue calls legs \<longleftrightarrow> (calls \<noteq> [] \<longrightarrow> si_event (hd calls) = Start \<and> si_ussdString (hd calls) = [])
     \<and> (\<forall>k. Suc k < length calls \<longrightarrow> extends_trail (calls ! k) (calls ! Suc k) (legs ! k))"

definition sim_inv :: "SimLegInput list \<Rightarrow> sim_client \<Rightarrow> bool" where
  "sim_inv calls s \<longleftrightarrow> dialogue calls (cl_legs s)
     \<and> map le_n (cl_legs s) = [1..<Suc (length (cl_legs s))]
     \<and> map le_event (cl_legs s) = map si_event (take (length (cl_legs s)) calls)
     \<and> length calls = length (cl_legs s) + (if cl_pending s = None then 0 else 1)
     \<and> (\<forall>p. cl_pending s = Some p \<longrightarrow> fst p = last calls)
     \<and> (calls \<noteq> [] \<longrightarrow> cl_sessionId s = si_sessionId (last calls) \<and> cl_ussdTrail s = si_ussdString (last calls))
     \<and> (cl_active s \<and> cl_pending s = None \<longrightarrow> cl_legs s \<noteq> [] \<and> sr_verdict (le_result (last (cl_legs s))) = Vcon)"


lemma dialogue_start: "si_event i = Start \<Longrightarrow> si_ussdString i = [] \<Longrightarrow> dialogue [i] []"
  by (simp add: dialogue_def)

lemma dialogue_legs:
  assumes "dialogue calls legs" and "length calls \<le> Suc (length legs)"
  shows "dialogue calls (legs @ [l])"
  using assms by (auto simp: dialogue_def nth_append)

lemma dialogue_call:
  assumes "dialogue calls legs" and "length calls = length legs" and "calls \<noteq> []"
    and "extends_trail (last calls) j (last legs)"
  shows "dialogue (calls @ [j]) legs"
proof -
  have "legs \<noteq> []" using assms(2,3) by auto
  then have "extends_trail (calls ! k) j (legs ! k)" if "Suc k = length legs" for k
  proof -
    have "last calls = calls ! k" "last legs = legs ! k"
      using assms(2,3) \<open>legs \<noteq> []\<close> that by (metis last_conv_nth diff_Suc_1)+
    then show ?thesis using assms(4) by simp
  qed
  then show ?thesis using assms by (auto simp: dialogue_def nth_append less_Suc_eq)
qed

lemma sim_inv_mount: "sim_inv [] (Simulator scs)"
  by (simp add: sim_inv_def dialogue_def Simulator_def)

lemma sim_inv_start: "sim_inv (session_calls (Press_start u) (ui_step (Press_start u) s) calls) (ui_step (Press_start u) s)"
  by (simp add: session_calls_def ui_step_def sim_inv_def startSession_def runLeg_def Let_def dialogue_start)

lemma sim_inv_answer:
  assumes "sim_inv calls s" "cl_pending s = Some (i, t)"
  shows "sim_inv calls (answered r s)"
proof -
  let ?n = "length (cl_legs s)"
  from assms have c: "length calls = Suc ?n" "i = last calls" by (auto simp: sim_inv_def)
  then have "calls \<noteq> []" by auto
  then have "calls ! ?n = i" using c by (simp add: last_conv_nth)
  then have "take (Suc ?n) calls = take ?n calls @ [i]" using c by (metis lessI take_Suc_conv_app_nth)
  then have "map si_event calls = map si_event (take ?n calls) @ [si_event i]" using c by (metis list.simps(8,9) map_append order_refl take_all)
  then show ?thesis using assms c by (auto simp: sim_inv_def answered_def dialogue_legs)
qed

lemma sim_inv_send:
  assumes "sim_inv calls s" "cl_active s" "cl_pending s = None"
  shows "sim_inv (session_calls Press_send (ui_step Press_send s) calls) (ui_step Press_send s)"
proof -
  let ?trail = "if cl_ussdTrail s \<noteq> [] then cl_ussdTrail s @ ''*'' @ cl_input s else cl_input s"
  let ?j = "\<lparr>si_shortcodeId = cl_scId s, si_msisdn = cl_msisdn s, si_sessionId = cl_sessionId s, si_event = Input,
      si_ussdString = ?trail\<rparr>"
  have step: "ui_step Press_send s = s\<lparr>cl_ussdTrail := ?trail, cl_pending := Some (?j, cl_input s)\<rparr>"
    using assms(2,3) by (simp add: ui_step_def sendInput_def runLeg_def Let_def)
  have len: "length calls = length (cl_legs s)" "calls \<noteq> []" and d: "dialogue calls (cl_legs s)"
    using assms by (auto simp: sim_inv_def)
  have "extends_trail (last calls) ?j (last (cl_legs s))"
    using assms by (auto simp: sim_inv_def extends_trail_def)
  with d len have "dialogue (calls @ [?j]) (cl_legs s)" by (intro dialogue_call)
  then show ?thesis using assms len by (simp add: step session_calls_def sim_inv_def)
qed

lemma simulated_inv: "simulated scs calls s \<Longrightarrow> sim_inv calls s"
proof (induction rule: simulated.induct)
  case mount
  then show ?case by (rule sim_inv_mount)
next
  case (event calls s e)
  show ?case
  proof (cases e)
    case (Press_start u)
    then show ?thesis using sim_inv_start by simp
  next
    case Press_send
    then show ?thesis using event sim_inv_send by (simp add: enabled_def)
  next
    case (Answer r)
    then obtain i t where "cl_pending s = Some (i, t)" using event by (auto simp: enabled_def)
    then show ?thesis using sim_inv_answer event.IH Answer by (simp add: session_calls_def ui_step_def)
  qed (use event in \<open>auto simp: session_calls_def ui_step_def sim_inv_def dialogue_def reset_def enabled_def\<close>)
qed



lemmas ui_defs = enabled_def started_def ui_step_def startSession_def sendInput_def runLeg_def answered_def session_calls_def Let_def

definition replied :: "verdict \<Rightarrow> SimLegResult" where
  "replied v = \<lparr>sr_ok = True, sr_action = Some CON, sr_message = Some ''Menu'', sr_verdict = v, sr_detail = None,
     sr_httpStatus = Some 200, sr_elapsedMs = 20, sr_requestBody = JObj [], sr_rawReply = None\<rparr>"

definition sample_ss :: "int \<Rightarrow> SimShortcode" where
  "sample_ss i = \<lparr>ss_id = i, ss_operator_name = ''vodacom'', ss_code = ''*150#'', ss_label = None, ss_environment = Sandbox,
     ss_handler_url = ''https://h/ussd'', ss_auth_mode = AuthNone, ss_status = Active, ss_timeout_secs = 5, ss_has_token = False\<rparr>"

fun ui_run :: "ui_event list \<Rightarrow> SimLegInput list \<times> sim_client \<Rightarrow> SimLegInput list \<times> sim_client" where
  "ui_run [] cs = cs"
| "ui_run (e # es) (calls, s) = ui_run es (session_calls e (ui_step e s) calls, ui_step e s)"

fun all_enabled :: "SimShortcode list \<Rightarrow> ui_event list \<Rightarrow> sim_client \<Rightarrow> bool" where
  "all_enabled scs [] s = True"
| "all_enabled scs (e # es) s = (enabled scs s e \<and> all_enabled scs es (ui_step e s))"

lemma ui_run_simulated:
  "simulated scs calls s \<Longrightarrow> all_enabled scs es s \<Longrightarrow> simulated scs (fst (ui_run es (calls, s))) (snd (ui_run es (calls, s)))"
  by (induction es arbitrary: calls s) (auto intro: simulated.event)

text \<open>
  The shortcode can be changed while the first leg is in flight, because the selector is disabled only
  once a leg has been answered: the second leg then goes to another shortcode's handler under the session id
  of the first.
\<close>

theorem simulator_switches_handler:
  "\<exists>calls s. simulated [sample_ss 1, sample_ss 2] calls s \<and> length calls = 2
     \<and> si_sessionId (calls ! 0) = si_sessionId (calls ! 1)
     \<and> si_shortcodeId (calls ! 0) = 1 \<and> si_shortcodeId (calls ! 1) = 2 \<and> si_event (calls ! 1) = Input"
proof -
  let ?scs = "[sample_ss 1, sample_ss 2]"
  let ?es = "[Press_start ''ab'', Pick 2, Answer (replied Vcon), Type_input ''1'', Press_send]"
  let ?r = "ui_run ?es ([], Simulator ?scs)"
  have "all_enabled ?scs ?es (Simulator ?scs)"
    by (simp add: ui_defs replied_def Simulator_def sample_ss_def)
  then have "simulated ?scs (fst ?r) (snd ?r)" using ui_run_simulated simulated.mount by blast
  moreover have "length (fst ?r) = 2 \<and> si_sessionId (fst ?r ! 0) = si_sessionId (fst ?r ! 1)
     \<and> si_shortcodeId (fst ?r ! 0) = 1 \<and> si_shortcodeId (fst ?r ! 1) = 2 \<and> si_event (fst ?r ! 1) = Input"
    by (simp add: ui_defs replied_def Simulator_def sample_ss_def)
  ultimately show ?thesis by blast
qed

definition two_legs :: "ui_event list" where
  "two_legs = [Press_start ''ab'', Answer (replied Vcon), Type_input ''1'', Press_send, Answer (replied Vend)]"


end
