(* ===== verification/Navigation.thy ===== *)
theory Navigation
  imports Auth
begin

text \<open>
  The shell around every page, \<^verbatim>\<open>(authed)/layout.tsx\<close> and \<^verbatim>\<open>(authed)/_nav.tsx\<close>: which entries
  the sidebar and the mobile bar hold for a session, and which entry is highlighted on a path.
\<close>

section \<open>Entries\<close>

record NavItem =
  ni_href :: string
  ni_label :: string
  ni_icon :: string
  ni_matchPrefix :: "string option"

abbreviation nav_item :: "string \<Rightarrow> string \<Rightarrow> string \<Rightarrow> NavItem" where
  \<comment> \<open>an entry that matches by its own href\<close>
  "nav_item href label icon \<equiv> \<lparr>ni_href = href, ni_label = label, ni_icon = icon, ni_matchPrefix = Some href\<rparr>"

definition canSeeShortcodesAdmin :: "SessionClaims \<Rightarrow> bool" where
  "canSeeShortcodesAdmin session \<longleftrightarrow> hasPerm (Some session) SHORTCODES_MANAGE \<or> hasPerm (Some session) SHORTCODES_VIEW"

definition canSeeOperatorsAdmin :: "SessionClaims \<Rightarrow> bool" where
  "canSeeOperatorsAdmin session \<longleftrightarrow> hasPerm (Some session) SHORTCODES_MANAGE \<or> hasPerm (Some session) OPERATORS_VIEW"

definition canSeeUsers :: "SessionClaims \<Rightarrow> bool" where
  "canSeeUsers session \<longleftrightarrow> hasPerm (Some session) PORTAL_USERS_MANAGE
     \<or> hasPerm (Some session) PORTAL_USERS_VIEW \<or> hasPerm (Some session) VIEWERS_MANAGE_OWN"

definition base_items :: "NavItem list" where
  "base_items = [
     \<lparr>ni_href = ''/'', ni_label = ''Overview'', ni_icon = ''overview'', ni_matchPrefix = None\<rparr>,
     nav_item ''/summary'' ''Reports Summary'' ''summary'',
     nav_item ''/sessions'' ''Sessions'' ''sessions'',
     nav_item ''/reports'' ''Session Hops'' ''hops'',
     nav_item ''/exports'' ''Download Exports'' ''exports'',
     nav_item ''/integration'' ''Integration Document'' ''integration'',
     nav_item ''/simulator'' ''Handler Simulator'' ''simulator'']"

definition nav_items :: "SessionClaims \<Rightarrow> NavItem list" where
  "nav_items session = base_items
     @ (if canSeeShortcodesAdmin session then [nav_item ''/shortcodes'' ''Shortcodes'' ''shortcodes''] else [])
     @ (if canSeeOperatorsAdmin session then [nav_item ''/operators'' ''Operators'' ''operators''] else [])
     @ (if \<not> canSeeShortcodesAdmin session \<and> c_role session = ''client''
        then [nav_item ''/my-shortcodes'' ''My shortcodes'' ''myShortcodes''] else [])
     @ (if canSeeUsers session then [nav_item ''/users'' ''Portal users'' ''users''] else [])
     @ (if hasPerm (Some session) AUDIT_VIEW then [nav_item ''/audit'' ''Audit log'' ''audit''] else [])
     @ (if hasPerm (Some session) ARCHIVE_VIEW then [nav_item ''/archive'' ''Archive'' ''archive''] else [])"

definition mobile_links :: "SessionClaims \<Rightarrow> string list" where
  "mobile_links session = [''/'', ''/sessions'', ''/reports'', ''/integration'', ''/simulator'']
     @ (if canSeeShortcodesAdmin session then [''/shortcodes''] else [])
     @ (if canSeeUsers session then [''/users''] else [])"

section \<open>The shell\<close>

record shell =
  sh_items :: "NavItem list"
  sh_mobile :: "string list"
  sh_name :: string
  sh_role :: string
  sh_banner :: "(string \<times> string) option"   \<comment> \<open>viewing as, really\<close>

definition AuthedLayout :: "SessionClaims option \<Rightarrow> shell option" where
  \<comment> \<open>no shell is a redirect to the login page\<close>
  "AuthedLayout session = map_option (\<lambda>c. \<lparr>sh_items = nav_items c, sh_mobile = mobile_links c, sh_name = c_name c,
     sh_role = c_role c, sh_banner = map_option (\<lambda>i. (c_email c, i_email i)) (c_imp c)\<rparr>) session"

definition nav_active :: "string \<Rightarrow> NavItem \<Rightarrow> bool" where
  "nav_active pathname it = (case ni_matchPrefix it of
       Some p \<Rightarrow> if p \<noteq> [] then (if p = ''/'' then pathname = ''/'' else startsWith pathname p) else pathname = ni_href it
     | None \<Rightarrow> pathname = ni_href it)"

definition highlighted :: "string \<Rightarrow> SessionClaims \<Rightarrow> string list" where
  "highlighted pathname session = map ni_href (filter (nav_active pathname) (nav_items session))"


section \<open>The entries against the route gate\<close>

definition all_items :: "NavItem list" where
  \<comment> \<open>every entry a sidebar can have\<close>
  "all_items = base_items @ [nav_item ''/shortcodes'' ''Shortcodes'' ''shortcodes''] @ [nav_item ''/operators'' ''Operators'' ''operators'']
     @ [nav_item ''/my-shortcodes'' ''My shortcodes'' ''myShortcodes''] @ [nav_item ''/users'' ''Portal users'' ''users'']
     @ [nav_item ''/audit'' ''Audit log'' ''audit''] @ [nav_item ''/archive'' ''Archive'' ''archive'']"

definition offered :: "SessionClaims \<Rightarrow> string \<Rightarrow> bool" where
  "offered c h \<longleftrightarrow> (if h = ''/shortcodes'' then canSeeShortcodesAdmin c
     else if h = ''/operators'' then canSeeOperatorsAdmin c
     else if h = ''/my-shortcodes'' then \<not> canSeeShortcodesAdmin c \<and> c_role c = ''client''
     else if h = ''/users'' then canSeeUsers c
     else if h = ''/audit'' then hasPerm (Some c) AUDIT_VIEW
     else if h = ''/archive'' then hasPerm (Some c) ARCHIVE_VIEW
     else True)"

lemma filter_single: "filter P [x] = (if P x then [x] else [])"
  by simp

lemma base_items_offered: "filter (\<lambda>it. offered c (ni_href it)) base_items = base_items"
  by (simp add: base_items_def offered_def)

lemma nav_items_offered: "nav_items c = filter (\<lambda>it. offered c (ni_href it)) all_items"
  unfolding all_items_def filter_append base_items_offered filter_single nav_items_def
  by (simp add: offered_def)

lemma item_hrefs: "map ni_href all_items = [''/'', ''/summary'', ''/sessions'', ''/reports'', ''/exports'', ''/integration'',
    ''/simulator'', ''/shortcodes'', ''/operators'', ''/my-shortcodes'', ''/users'', ''/audit'', ''/archive'']"
  by (simp add: all_items_def base_items_def)

lemma all_items_distinct: "distinct (map ni_href all_items)"
  unfolding item_hrefs by simp

lemma nav_items_distinct: "distinct (map ni_href (nav_items c))"
  unfolding nav_items_offered by (rule distinct_map_filter [OF all_items_distinct])

lemma gates_of_items:
  "requiredPermFor ''/integration'' = None"
  "requiredPermFor ''/'' = Some [REPORTS_VIEW_OWN, REPORTS_VIEW_ALL]"
  "requiredPermFor ''/summary'' = Some [REPORTS_VIEW_OWN, REPORTS_VIEW_ALL]"
  "requiredPermFor ''/sessions'' = Some [REPORTS_VIEW_OWN, REPORTS_VIEW_ALL]"
  "requiredPermFor ''/reports'' = Some [REPORTS_VIEW_OWN, REPORTS_VIEW_ALL]"
  "requiredPermFor ''/exports'' = Some [REPORTS_VIEW_OWN, REPORTS_VIEW_ALL]"
  "requiredPermFor ''/simulator'' = Some [REPORTS_VIEW_OWN, REPORTS_VIEW_ALL]"
  "requiredPermFor ''/my-shortcodes'' = Some [REPORTS_VIEW_OWN, REPORTS_VIEW_ALL]"
  "requiredPermFor ''/shortcodes'' = Some [SHORTCODES_VIEW, SHORTCODES_MANAGE]"
  "requiredPermFor ''/operators'' = Some [OPERATORS_VIEW, SHORTCODES_MANAGE]"
  "requiredPermFor ''/users'' = Some [PORTAL_USERS_VIEW, PORTAL_USERS_MANAGE, VIEWERS_MANAGE_OWN]"
  "requiredPermFor ''/audit'' = Some [AUDIT_VIEW]"
  "requiredPermFor ''/archive'' = Some [ARCHIVE_VIEW]"
  by code_simp+

definition report_reader :: "SessionClaims \<Rightarrow> bool" where
  "report_reader c \<longleftrightarrow> REPORTS_VIEW_OWN \<in> set (c_perms c) \<or> REPORTS_VIEW_ALL \<in> set (c_perms c)"

lemma href_cases:
  assumes "it \<in> set all_items"
  shows "ni_href it \<in> {''/'', ''/summary'', ''/sessions'', ''/reports'', ''/exports'', ''/integration'', ''/simulator'',
    ''/shortcodes'', ''/operators'', ''/my-shortcodes'', ''/users'', ''/audit'', ''/archive''}"
proof -
  have "ni_href it \<in> set (map ni_href all_items)" using assms by simp
  then show ?thesis unfolding item_hrefs by simp
qed

lemma report_gate: "report_reader c \<Longrightarrow> list_ex (\<lambda>k. k \<in> set (c_perms c)) [REPORTS_VIEW_OWN, REPORTS_VIEW_ALL]"
  by (auto simp: report_reader_def)

lemma item_gate:
  assumes "report_reader c" "it \<in> set all_items" "ni_href it \<noteq> ''/my-shortcodes''"
  shows "passes_gate (c_perms c) (ni_href it) \<longleftrightarrow> offered c (ni_href it)"
  using href_cases [OF assms(2)] assms(3) report_gate [OF assms(1)]
  by (elim insertE; simp add: passes_gate_def gates_of_items offered_def canSeeShortcodesAdmin_def canSeeOperatorsAdmin_def
      canSeeUsers_def hasPerm_def) blast+


section \<open>Highlighting\<close>

lemma prefixes_comparable: "startsWith p a \<Longrightarrow> startsWith p b \<Longrightarrow> startsWith a b \<or> startsWith b a"
  by (auto simp: startsWith_iff append_eq_append_conv2)

lemma filter_at_most_one:
  assumes "distinct xs" "\<And>x y. x \<in> set xs \<Longrightarrow> y \<in> set xs \<Longrightarrow> P x \<Longrightarrow> P y \<Longrightarrow> x = y"
  shows "filter P xs = [] \<or> (\<exists>x. filter P xs = [x])"
proof (cases "filter P xs")
  case (Cons x ys)
  then have m: "set (x # ys) = {z \<in> set xs. P z}" by (metis set_filter)
  then have "y = x" if "y \<in> set ys" for y using that assms(2) [of y x] by auto
  moreover have "x \<notin> set ys" using assms(1) Cons by (metis distinct.simps(2) distinct_filter)
  ultimately have "ys = []" by (cases ys) auto
  then show ?thesis using Cons by simp
qed simp

lemma hrefs_incomparable:
  "list_all (\<lambda>a. list_all (\<lambda>b. a = ''/'' \<or> b = ''/'' \<or> \<not> startsWith a b \<or> a = b) (map ni_href all_items)) (map ni_href all_items)"
  by code_simp

lemma item_prefixes:
  assumes "a \<in> set all_items" "b \<in> set all_items" "ni_href a \<noteq> ''/''" "ni_href b \<noteq> ''/''" "startsWith (ni_href a) (ni_href b)"
  shows "ni_href a = ni_href b"
  using hrefs_incomparable assms by (fastforce simp: list_all_iff)

lemma items_match:
  "list_all (\<lambda>it. ni_matchPrefix it = (if ni_href it = ''/'' then None else Some (ni_href it)) \<and> ni_href it \<noteq> []) all_items"
  by code_simp

lemma item_active:
  "it \<in> set all_items \<Longrightarrow> nav_active p it \<longleftrightarrow> (if ni_href it = ''/'' then p = ''/'' else startsWith p (ni_href it))"
  using items_match by (auto simp: list_all_iff nav_active_def)

lemma hrefs_not_root: "list_all (\<lambda>h. h = ''/'' \<or> \<not> startsWith ''/'' h) (map ni_href all_items)"
  by code_simp

lemma item_not_root: "it \<in> set all_items \<Longrightarrow> ni_href it \<noteq> ''/'' \<Longrightarrow> \<not> startsWith ''/'' (ni_href it)"
  using hrefs_not_root by (auto simp: list_all_iff)

lemma root_item: "a \<in> set all_items \<Longrightarrow> b \<in> set all_items \<Longrightarrow> ni_href a = ni_href b \<Longrightarrow> a = b"
  using all_items_distinct by (simp add: distinct_map inj_on_def)

lemma active_unique:
  assumes "a \<in> set all_items" "b \<in> set all_items" "nav_active p a" "nav_active p b"
  shows "a = b"
proof (cases "p = ''/''")
  case True
  have "ni_href x = ''/''" if "x \<in> set all_items" "nav_active p x" for x
    using item_active [OF that(1), of p] item_not_root [OF that(1)] that(2) unfolding True by argo
  then show ?thesis using assms root_item by simp
next
  case False
  have "startsWith p (ni_href x) \<and> ni_href x \<noteq> ''/''" if "x \<in> set all_items" "nav_active p x" for x
    using item_active [OF that(1), of p] that(2) False by argo
  then have p: "startsWith p (ni_href a)" "startsWith p (ni_href b)" "ni_href a \<noteq> ''/''" "ni_href b \<noteq> ''/''"
    using assms by simp_all
  from prefixes_comparable [OF p(1,2)] have "ni_href a = ni_href b"
    using item_prefixes [OF assms(1,2)] item_prefixes [OF assms(2,1)] p(3,4) by argo
  then show ?thesis using assms(1,2) root_item by simp
qed

text \<open>
  On every path at most one entry is highlighted, and on its own page, or on any page below it other
  than those of the overview, an entry that is shown is the one highlighted.
\<close>

theorem nav_highlights_one:
  shows "length (highlighted p c) \<le> 1
    \<and> (it \<in> set (nav_items c) \<longrightarrow> highlighted (ni_href it) c = [ni_href it]
        \<and> (ni_href it \<noteq> ''/'' \<longrightarrow> highlighted (ni_href it @ rest) c = [ni_href it]))"
proof -
  have all: "x \<in> set all_items" if "x \<in> set (nav_items c)" for x using that by (simp add: nav_items_offered)
  have one: "filter (nav_active q) (nav_items c) = [] \<or> (\<exists>x. filter (nav_active q) (nav_items c) = [x])" for q
    using nav_items_distinct by (intro filter_at_most_one) (auto simp: distinct_map dest!: all intro: active_unique)
  have shown: "highlighted q c = [ni_href it]" if "it \<in> set (nav_items c)" "nav_active q it" for q
  proof -
    have "it \<in> set (filter (nav_active q) (nav_items c))" using that by simp
    moreover have "it \<in> set [x] \<longleftrightarrow> x = it" for x by auto
    ultimately show ?thesis using one [of q] by (metis empty_iff highlighted_def list.set(1) list.simps(8,9))
  qed
  have "length (highlighted p c) \<le> 1" using one [of p] by (auto simp: highlighted_def)
  moreover have "nav_active (ni_href it) it" "ni_href it \<noteq> ''/'' \<Longrightarrow> nav_active (ni_href it @ rest) it" if "it \<in> set (nav_items c)"
    using item_active [OF all [OF that]] by (auto simp: startsWith_iff)
  ultimately show ?thesis using shown by blast
qed

section \<open>A client\<close>

definition menu_claims :: SessionClaims where
  "menu_claims = \<lparr>c_sub = ''4'', c_email = ''c@x'', c_name = ''C'', c_role = ''client'',
     c_perms = [REPORTS_VIEW_OWN, VIEWERS_MANAGE_OWN, SHORTCODES_MANAGE_SANDBOX], c_shortcodeIds = Some [7],
     c_shortcodeFrom = None, c_pwv = None, c_imp = None\<rparr>"


theorem nav_highlights_one_witness:
  "highlighted ''/sessions/42'' menu_claims = [''/sessions'']"
proof -
  have "nav_item ''/sessions'' ''Sessions'' ''sessions'' \<in> set (nav_items menu_claims)"
    by (simp add: nav_items_def base_items_def)
  from nav_highlights_one [of p menu_claims, THEN conjunct2, rule_format, OF this, THEN conjunct2, rule_format, of "''/42''"]
  show ?thesis by simp
qed

end
