(* ===== verification/User_Pages.thy ===== *)
theory User_Pages
  imports Operators Export_Access
begin

text \<open>
  The pages of portal users, \<^verbatim>\<open>(authed)/users/page.tsx\<close>, and the edit and create forms of users,
  shortcodes and operators (\<^verbatim>\<open>_edit.tsx\<close>, \<^verbatim>\<open>_new.tsx\<close>) with the dialogs that intercept their
  routes (\<^verbatim>\<open>@modal\<close>): who is shown what, and which controls a row carries.  Markup is left out; a page is
  the data and the controls it shows, a redirect, or not found.
\<close>

datatype 'v page_result = Redirect string | Not_found | Shown 'v

section \<open>Portal users\<close>

record users_params =
  up_error :: "string option"
  up_saved :: "string option"
  up_created :: "string option"
  up_reset :: "string option"
  up_email :: "string option"
  up_role_id :: "string option"
  up_active :: "string option"
  up_q :: "string option"

definition WELCOME_EMAIL_FAILED :: string where
  \<comment> \<open>the dash as a hyphen\<close>
  "WELCOME_EMAIL_FAILED = ''The account was created, but the login details email could not be sent - share them another way.''"

definition users_flash :: "users_params \<Rightarrow> string option" where
  "users_flash sp = (if truthy (up_created sp) then Some (''Account created.'' @ welcomeEmailNotice (up_email sp))
     else if truthy (up_saved sp) then Some ''Saved.''
     else if truthy (up_reset sp) then Some ''Password reset.'' else None)"

definition users_error :: "users_params \<Rightarrow> string option" where
  "users_error sp = (case up_error sp of Some e \<Rightarrow> Some e
     | None \<Rightarrow> if truthy (up_created sp) \<and> up_email sp = Some ''failed'' then Some WELCOME_EMAIL_FAILED else None)"

definition users_filters :: "users_params \<Rightarrow> UserListFilters" where
  "users_filters sp = \<lparr>ulf_roleId = (if truthy (up_role_id sp) then js_parseInt (str_of (up_role_id sp)) else None),
     ulf_active = (if up_active sp = Some ''1'' then Some True else if up_active sp = Some ''0'' then Some False else None),
     ulf_search = (let q = trim (str_of (up_q sp)) in if q = [] then None else Some q)\<rparr>"

record user_line =
  ul_user :: UserRow
  ul_edit :: bool                          \<comment> \<open>the Edit link\<close>
  ul_view_as :: "bool option"              \<comment> \<open>the View as button, and whether it is enabled\<close>

record full_list =
  fl_new :: bool                           \<comment> \<open>the New user link\<close>
  fl_actions :: bool                       \<comment> \<open>the column of actions\<close>
  fl_lines :: "user_line list"
  fl_roles :: "role_row list"
  fl_unfiltered :: bool

definition FullList :: "pg \<Rightarrow> (string \<Rightarrow> string \<Rightarrow> bool) \<Rightarrow> bool \<Rightarrow> bool \<Rightarrow> int \<Rightarrow> UserListFilters \<Rightarrow> db \<Rightarrow> full_list" where
  "FullList g le readOnly canImpersonate selfId f d = \<lparr>fl_new = (\<not> readOnly), fl_actions = (\<not> readOnly \<or> canImpersonate),
     fl_lines = map (\<lambda>u. \<lparr>ul_user = u, ul_edit = (\<not> readOnly),
         ul_view_as = (if canImpersonate \<and> ur_id u \<noteq> selfId then Some (ur_active u) else None)\<rparr>) (listUsers g le f d),
     fl_roles = listRoles d,
     fl_unfiltered = (\<not> (or0 (ulf_roleId f) \<noteq> 0 \<or> ulf_active f \<noteq> None \<or> truthy (ulf_search f)))\<rparr>"

datatype create_form = Nothing_owned | At_limit | Offered

record viewer_card =
  vc_viewer :: AdminViewerRow
  vc_shortcodes :: "(ShortcodeRow \<times> bool) list"   \<comment> \<open>the grants matrix, with the boxes ticked\<close>
  vc_canEditEmail :: bool

record admin_view =
  vw_create :: create_form
  vw_cards :: "viewer_card list"

definition AdminViewerView :: "(string \<Rightarrow> string \<Rightarrow> bool) \<Rightarrow> int \<Rightarrow> db \<Rightarrow> admin_view" where
  "AdminViewerView le adminUserId d =
    (let viewers = listViewersForAdmin le adminUserId d; myShortcodes = listShortcodesOwnedBy le adminUserId d;
         atLimit = length viewers \<ge> ADMIN_MAX_VIEWERS
     in \<lparr>vw_create = (if length myShortcodes = 0 then Nothing_owned else if atLimit then At_limit else Offered),
         vw_cards = map (\<lambda>v. \<lparr>vc_viewer = v,
             vc_shortcodes = map (\<lambda>s. (s, sc_id (sr_row s) \<in> set (av_granted_shortcode_ids v))) myShortcodes,
             vc_canEditEmail = (av_created_by_user_id v = Some adminUserId)\<rparr>) viewers\<rparr>)"

datatype users_view = All_users full_list | Own_viewers admin_view

definition UsersPage :: "'j app \<Rightarrow> pg \<Rightarrow> (string \<Rightarrow> string \<Rightarrow> bool) \<Rightarrow> 'j http_req \<Rightarrow> users_params \<Rightarrow> db
    \<Rightarrow> (users_view \<times> string option \<times> string option) page_result" where
  \<comment> \<open>with the flash and the error\<close>
  "UsersPage ap g le rq sp d = (case req_session ap rq d of None \<Rightarrow> Redirect ''/login''
     | Some session \<Rightarrow>
        (let canManageAll = hasPerm (Some session) PORTAL_USERS_MANAGE; canViewAll = hasPerm (Some session) PORTAL_USERS_VIEW;
             canManageOwn = hasPerm (Some session) VIEWERS_MANAGE_OWN;
             canImpersonate = hasPerm (Some session) PORTAL_USERS_IMPERSONATE
         in if canManageAll \<or> canViewAll
            then Shown (All_users (FullList g le (\<not> canManageAll) canImpersonate (session_id session) (users_filters sp) d),
                   users_flash sp, users_error sp)
            else if canManageOwn
            then Shown (Own_viewers (AdminViewerView le (session_id session) d), users_flash sp, users_error sp)
            else Redirect ''/''))"

section \<open>Forms\<close>

definition guarded_form :: "'j app \<Rightarrow> 'j http_req \<Rightarrow> string \<Rightarrow> string \<Rightarrow> db \<Rightarrow> 'v page_result \<Rightarrow> 'v page_result" where
  \<comment> \<open>the check every form begins with\<close>
  "guarded_form ap rq perm back d form = (case req_session ap rq d of None \<Rightarrow> Redirect back
     | Some session \<Rightarrow> if \<not> hasPerm (Some session) perm then Redirect back else form)"

definition found_form :: "(int \<Rightarrow> 'r option) \<Rightarrow> int option \<Rightarrow> 'r page_result" where
  \<comment> \<open>of an id that may be NaN\<close>
  "found_form get i = (case i of None \<Rightarrow> Not_found | Some k \<Rightarrow> (case get k of None \<Rightarrow> Not_found | Some r \<Rightarrow> Shown r))"

definition UserEdit :: "'j app \<Rightarrow> 'j http_req \<Rightarrow> int option \<Rightarrow> db \<Rightarrow> UserRow page_result" where
  "UserEdit ap rq i d = guarded_form ap rq PORTAL_USERS_MANAGE ''/users'' d (found_form (\<lambda>k. getUser k d) i)"

definition UserNew :: "'j app \<Rightarrow> 'j http_req \<Rightarrow> db \<Rightarrow> role_row list page_result" where
  "UserNew ap rq d = guarded_form ap rq PORTAL_USERS_MANAGE ''/users'' d (Shown (listRoles d))"

definition ShortcodeEdit :: "'j app \<Rightarrow> 'j http_req \<Rightarrow> int option \<Rightarrow> db \<Rightarrow> ShortcodeRow page_result" where
  "ShortcodeEdit ap rq i d = guarded_form ap rq SHORTCODES_MANAGE ''/shortcodes'' d (found_form (\<lambda>k. getShortcode k d) i)"

definition OperatorEdit :: "'j app \<Rightarrow> 'j http_req \<Rightarrow> int option \<Rightarrow> db \<Rightarrow> operator_row page_result" where
  "OperatorEdit ap rq i d = guarded_form ap rq SHORTCODES_MANAGE ''/operators'' d (found_form (\<lambda>k. getOperator k d) i)"

definition userEditTitle :: "int option \<Rightarrow> db \<Rightarrow> string" where
  "userEditTitle i d = (case found_form (\<lambda>k. getUser k d) i of Shown u \<Rightarrow> ''Edit user '' @ ur_email u | _ \<Rightarrow> ''Edit user'')"

definition shortcodeEditTitle :: "int option \<Rightarrow> db \<Rightarrow> string" where
  "shortcodeEditTitle i d = (case found_form (\<lambda>k. getShortcode k d) i of
     Shown r \<Rightarrow> ''Edit shortcode '' @ sr_operator_name r @ ''/'' @ sc_code (sr_row r) | _ \<Rightarrow> ''Edit shortcode'')"

definition operatorEditTitle :: "int option \<Rightarrow> db \<Rightarrow> string" where
  "operatorEditTitle i d = (case found_form (\<lambda>k. getOperator k d) i of Shown r \<Rightarrow> ''Edit operator '' @ op_name r | _ \<Rightarrow> ''Edit operator'')"

definition UserEditModal :: "'j app \<Rightarrow> 'j http_req \<Rightarrow> string \<Rightarrow> db \<Rightarrow> string \<times> UserRow page_result" where
  \<comment> \<open>the title of the dialog, and what it wraps\<close>
  "UserEditModal ap rq i d = (userEditTitle (js_parseInt i) d, UserEdit ap rq (js_parseInt i) d)"

definition ShortcodeEditModal :: "'j app \<Rightarrow> 'j http_req \<Rightarrow> string \<Rightarrow> db \<Rightarrow> string \<times> ShortcodeRow page_result" where
  "ShortcodeEditModal ap rq i d = (shortcodeEditTitle (js_parseInt i) d, ShortcodeEdit ap rq (js_parseInt i) d)"

definition OperatorEditModal :: "'j app \<Rightarrow> 'j http_req \<Rightarrow> string \<Rightarrow> db \<Rightarrow> string \<times> operator_row page_result" where
  "OperatorEditModal ap rq i d = (operatorEditTitle (js_parseInt i) d, OperatorEdit ap rq (js_parseInt i) d)"


section \<open>Who is listed\<close>

lemma listed_row:
  "r \<in> set (listUsers g le f d) \<longleftrightarrow> (\<exists>u \<in> set (users d). \<exists>ro. find_role d (u_role_id u) = Some ro
     \<and> r = user_row_view d u ro \<and> user_matches f (user_sql u))"
proof -
  obtain cs ps where c: "user_where f [] = (cs, ps)" by fastforce
  have "holds g ps (user_sql u) (CAll cs) \<longleftrightarrow> user_matches f (user_sql u)" for u
    using user_builder.correct [OF c, of g "[]"] by simp
  then show ?thesis by (auto simp: listUsers_def c join_roles_def split: option.splits) metis
qed

lemma filter_unique_key: "distinct (map f xs) \<Longrightarrow> x \<in> set xs \<Longrightarrow> filter (\<lambda>y. f y = f x) xs = [x]"
  by (induction xs) (auto simp: filter_empty_conv image_iff)

lemma getUser_row:
  assumes "wf_users d" "u \<in> set (users d)" "find_role d (u_role_id u) = Some ro"
  shows "getUser (u_id u) d = Some (user_row_view d u ro)"
proof -
  have "filter (\<lambda>v. u_id v = u_id u) (users d) = [u]"
    using assms(1,2) by (simp add: wf_users_def filter_unique_key)
  then show ?thesis using assms(3) by (simp add: getUser_def join_roles_def)
qed

text \<open>
  The list of portal users shows exactly the accounts the filters of the URL admit, and a row carries an
  Edit link exactly when the form behind it opens for the same caller, with that row; the New user link
  likewise.
\<close>

theorem users_page_links_open:
  assumes "UsersPage ap g le rq sp d = Shown (All_users fl, flash, err)" "wf_users d"
  shows "(\<lambda>l. ul_user l) ` set (fl_lines fl) = {user_row_view d u ro |u ro. u \<in> set (users d)
        \<and> find_role d (u_role_id u) = Some ro \<and> user_matches (users_filters sp) (user_sql u)}
    \<and> (l \<in> set (fl_lines fl) \<longrightarrow> UserEdit ap rq (Some (ur_id (ul_user l))) d
        = (if ul_edit l then Shown (ul_user l) else Redirect ''/users''))
    \<and> UserNew ap rq d = (if fl_new fl then Shown (listRoles d) else Redirect ''/users'')"
proof -
  obtain session where ses: "req_session ap rq d = Some session"
    and fl: "fl = FullList g le (\<not> hasPerm (Some session) PORTAL_USERS_MANAGE)
      (hasPerm (Some session) PORTAL_USERS_IMPERSONATE) (session_id session) (users_filters sp) d"
    using assms(1) by (auto simp: UsersPage_def Let_def split: option.splits if_splits)
  have "(\<lambda>l. ul_user l) ` set (fl_lines fl) = set (listUsers g le (users_filters sp) d)"
    by (force simp: fl FullList_def)
  moreover have "UserEdit ap rq (Some (ur_id (ul_user l))) d = (if ul_edit l then Shown (ul_user l) else Redirect ''/users'')"
    if l: "l \<in> set (fl_lines fl)"
  proof -
    have "ul_user l \<in> set (listUsers g le (users_filters sp) d)" and e: "ul_edit l = hasPerm (Some session) PORTAL_USERS_MANAGE"
      using l by (auto simp: fl FullList_def)
    then obtain u ro where u: "u \<in> set (users d)" "find_role d (u_role_id u) = Some ro" "ul_user l = user_row_view d u ro"
      using listed_row by blast
    then have "getUser (ur_id (ul_user l)) d = Some (ul_user l)"
      using getUser_row [OF assms(2)] by (simp add: user_row_view_def)
    then show ?thesis by (simp add: UserEdit_def guarded_form_def found_form_def ses e)
  qed
  moreover have "UserNew ap rq d = (if fl_new fl then Shown (listRoles d) else Redirect ''/users'')"
    by (simp add: UserNew_def guarded_form_def ses fl FullList_def)
  ultimately show ?thesis using listed_row [of _ g le "users_filters sp" d] by blast
qed

section \<open>The admin's viewers\<close>

lemma viewer_grants_mem:
  "i \<in> set (viewer_grants d a v) \<longleftrightarrow> (\<exists>g \<in> set (grants d). gr_user g = v \<and> gr_shortcode g = i) \<and> i \<in> set (admin_shortcodes d a)"
  by (auto simp: viewer_grants_def)

lemma viewers_counted:
  assumes "wf_users d"
  shows "length (listViewersForAdmin le a d) = countViewers a d"
proof -
  let ?in = "\<lambda>u. is_viewer d u \<and> viewer_grants d a (u_id u) \<noteq> []"
  let ?ids = "map gr_user (filter (\<lambda>g. (case find_user d (gr_user g) of None \<Rightarrow> False | Some u \<Rightarrow> is_viewer d u)
      \<and> gr_shortcode g \<in> set (admin_shortcodes d a)) (grants d))"
  have has: "viewer_grants d a i \<noteq> [] \<longleftrightarrow> (\<exists>g \<in> set (grants d). gr_user g = i \<and> gr_shortcode g \<in> set (admin_shortcodes d a))" for i
    by (auto simp: viewer_grants_def filter_empty_conv)
  have same: "set (map u_id (filter ?in (users d))) = set ?ids"
  proof (intro equalityI subsetI)
    fix i assume "i \<in> set (map u_id (filter ?in (users d)))"
    then obtain u where u: "u \<in> set (users d)" "is_viewer d u" "viewer_grants d a i \<noteq> []" "u_id u = i" by auto
    then obtain g where "g \<in> set (grants d)" "gr_user g = i" "gr_shortcode g \<in> set (admin_shortcodes d a)" using has by blast
    then show "i \<in> set ?ids" using wf_find_user [OF assms u(1)] u(2,4) by (auto intro!: image_eqI [of _ _ g])
  next
    fix i assume "i \<in> set ?ids"
    then obtain g u where g: "g \<in> set (grants d)" "gr_user g = i" "gr_shortcode g \<in> set (admin_shortcodes d a)"
      "find_user d i = Some u" "is_viewer d u" by (auto split: option.splits)
    then have "u \<in> set (users d)" "u_id u = i" using find_user_mem by blast+
    moreover have "viewer_grants d a i \<noteq> []" using has g(1-3) by blast
    ultimately show "i \<in> set (map u_id (filter ?in (users d)))" using g(5) by (auto intro!: image_eqI [of _ _ u])
  qed
  have "distinct (map u_id (filter ?in (users d)))"
    using assms by (simp add: wf_users_def distinct_map_filter)
  then have "length (filter ?in (users d)) = card (set ?ids)"
    unfolding same [symmetric] by (simp only: distinct_card length_map)
  moreover have "countViewers a d = card (set ?ids)" unfolding countViewers_def by (rule length_remdups_card_conv)
  ultimately show ?thesis by (simp add: listViewersForAdmin_def)
qed

text \<open>
  A client sees on the users page exactly the client_viewer accounts holding a grant on a shortcode it
  owns, with the ticked boxes being those grants, and is offered the form for a new viewer exactly when it
  has a shortcode to grant and the limit the action enforces is not reached.
\<close>

theorem admin_view_exact:
  assumes "wf_users d" "wf_shortcodes d"
  shows "(\<lambda>c. av_id (vc_viewer c)) ` set (vw_cards (AdminViewerView le a d))
      = {u_id u |u. u \<in> set (users d) \<and> is_viewer d u \<and> (\<exists>g \<in> set (grants d). gr_user g = u_id u \<and> gr_shortcode g \<in> set (admin_shortcodes d a))}
    \<and> (vc \<in> set (vw_cards (AdminViewerView le a d)) \<longrightarrow> (r, ticked) \<in> set (vc_shortcodes vc) \<longrightarrow>
        sc_owner (sr_row r) = a \<and> ticked = (\<exists>g \<in> set (grants d). gr_user g = av_id (vc_viewer vc) \<and> gr_shortcode g = sc_id (sr_row r)))
    \<and> (vw_create (AdminViewerView le a d) = Offered \<longleftrightarrow>
        listShortcodesOwnedBy le a d \<noteq> [] \<and> countViewers a d < ADMIN_MAX_VIEWERS)"
proof (intro conjI impI)
  have cards: "vc_viewer ` set (vw_cards (AdminViewerView le a d)) = set (listViewersForAdmin le a d)"
    by (force simp: AdminViewerView_def Let_def)
  have "(\<lambda>c. av_id (vc_viewer c)) ` set (vw_cards (AdminViewerView le a d)) = av_id ` set (listViewersForAdmin le a d)"
    unfolding cards [symmetric] by force
  also have "\<dots> = {u_id u |u. u \<in> set (users d) \<and> is_viewer d u \<and> viewer_grants d a (u_id u) \<noteq> []}"
    by (force simp: listViewersForAdmin_def viewer_row_def)
  finally show "(\<lambda>c. av_id (vc_viewer c)) ` set (vw_cards (AdminViewerView le a d))
      = {u_id u |u. u \<in> set (users d) \<and> is_viewer d u \<and> (\<exists>g \<in> set (grants d). gr_user g = u_id u \<and> gr_shortcode g \<in> set (admin_shortcodes d a))}"
    by (auto simp: viewer_grants_def filter_empty_conv)
  show "vw_create (AdminViewerView le a d) = Offered \<longleftrightarrow>
        listShortcodesOwnedBy le a d \<noteq> [] \<and> countViewers a d < ADMIN_MAX_VIEWERS"
    by (auto simp: AdminViewerView_def Let_def viewers_counted [OF assms(1)])
  assume vc: "vc \<in> set (vw_cards (AdminViewerView le a d))" and r: "(r, ticked) \<in> set (vc_shortcodes vc)"
  then have v: "vc_viewer vc \<in> set (listViewersForAdmin le a d)" and mine: "r \<in> set (listShortcodesOwnedBy le a d)"
    and t: "ticked = (sc_id (sr_row r) \<in> set (av_granted_shortcode_ids (vc_viewer vc)))"
    by (auto simp: AdminViewerView_def Let_def)
  from mine obtain s where s: "s \<in> set (shortcodes d)" "sc_owner s = a" "sr_row r = s"
    by (auto simp: listShortcodesOwnedBy_def view_rows_def List.map_filter_def shortcode_view_def split: option.splits)
  then show "sc_owner (sr_row r) = a" by simp
  have "av_granted_shortcode_ids (vc_viewer vc) = sort (viewer_grants d a (av_id (vc_viewer vc)))"
    using v by (auto simp: listViewersForAdmin_def viewer_row_def)
  moreover have "sc_id s \<in> set (admin_shortcodes d a)" using s by (auto simp: admin_shortcodes_def)
  ultimately show "ticked = (\<exists>g \<in> set (grants d). gr_user g = av_id (vc_viewer vc) \<and> gr_shortcode g = sc_id (sr_row r))"
    unfolding t using s by (auto simp: viewer_grants_mem)
qed

section \<open>The dialog\<close>

text \<open>
  The title of the edit dialog is computed before the form checks the permission: a caller the form
  turns away, such as a client, is told the e-mail address of any account it asks for by number.
\<close>

theorem edit_title_unguarded:
  assumes "req_session ap rq d = Some session" "\<not> hasPerm (Some session) PORTAL_USERS_MANAGE"
    and "wf_users d" "u \<in> set (users d)"
  shows "UserEditModal ap rq (js_String (u_id u)) d = (''Edit user '' @ u_email u, Redirect ''/users'')"
proof -
  obtain ro where ro: "find_role d (u_role_id u) = Some ro"
    using assms(3,4) by (cases "find_role d (u_role_id u)") (force simp: wf_users_def find_role_def find_None_iff)+
  have "js_parseInt (js_String (u_id u)) = Some (u_id u)" by simp
  then show ?thesis using getUser_row [OF assms(3,4) ro] assms(1,2)
    by (simp add: UserEditModal_def UserEdit_def guarded_form_def userEditTitle_def found_form_def user_row_view_def)
qed


section \<open>A super admin, a client\<close>

definition no_params :: users_params where
  "no_params = \<lparr>up_error = None, up_saved = None, up_created = None, up_reset = None, up_email = None, up_role_id = None,
     up_active = None, up_q = None\<rparr>"

lemma root_manages: "hasPerm (Some root_session) PORTAL_USERS_MANAGE"
proof -
  obtain u where "u \<in> set (users sample_db)" "u_id u = 1" "c_perms root_session = perms_of_role sample_db (u_role_id u)"
    using loadUserClaims_SomeD(3) [OF root_loaded] by blast
  then show ?thesis by (force simp: hasPerm_def sample_db_def sample_user_def perms_of_role_def Perms_def)
qed

theorem users_page_links_open_witness:
  "UserNew sample_app sample_imp sample_db = Shown (listRoles sample_db)"
proof -
  obtain fl where fl: "UsersPage sample_app sample_pg (\<lambda>_ _. True) sample_imp no_params sample_db = Shown (All_users fl, users_flash no_params, users_error no_params)"
    and new: "fl_new fl"
    using root_manages root_in_session by (simp add: UsersPage_def FullList_def)
  from users_page_links_open [OF fl sample_db_wf_users] new show ?thesis by simp
qed

definition vodacom :: operator_row where
  "vodacom = \<lparr>op_id = 1, op_name = ''vodacom'', op_display_name = ''V'', op_active = True, op_window = None, op_created_at = 0\<rparr>"

theorem admin_view_exact_witness:
  "vw_create (AdminViewerView (\<lambda>_ _. True) 2 (sample_db\<lparr>operators := [vodacom]\<rparr>)) = Offered"
proof -
  let ?d = "sample_db\<lparr>operators := [vodacom]\<rparr>"
  have w: "wf_users ?d" "wf_shortcodes ?d"
    using sample_db_wf by (simp_all add: wf_db_def wf_users_def wf_shortcodes_def)
  have "countViewers 2 ?d < ADMIN_MAX_VIEWERS"
    by (simp add: countViewers_def ADMIN_MAX_VIEWERS_def sample_db_def)
  moreover have "listShortcodesOwnedBy (\<lambda>_ _. True) 2 ?d \<noteq> []"
    by (simp add: listShortcodesOwnedBy_def sample_db_def sample_shortcode_def view_rows_def List.map_filter_def shortcode_view_def
        find_operator_def find_user_def vodacom_def sample_user_def sort_by_def)
  ultimately show ?thesis using admin_view_exact [OF w, of "\<lambda>_ _. True" 2] by blast
qed

theorem edit_title_unguarded_witness:
  "UserEditModal sample_app client_req (js_String 1) sample_db = (''Edit user root'', Redirect ''/users'')"
proof -
  have r: "req_session sample_app client_req sample_db = Some client_session" by (rule client_reads) simp
  have p: "\<not> hasPerm (Some client_session) PORTAL_USERS_MANAGE" by code_simp
  have "sample_user 1 ''root'' 1 \<in> set (users sample_db)" "u_id (sample_user 1 ''root'' 1) = 1" "u_email (sample_user 1 ''root'' 1) = ''root''"
    by (simp_all add: sample_db_def sample_user_def)
  then show ?thesis using edit_title_unguarded [OF r p sample_db_wf_users] by fastforce
qed

end
