(* ===== verification/Listing_Pages.thy ===== *)
theory Listing_Pages
  imports Read_Routes User_Pages Search_Params Navigation
begin

text \<open>
  The audit page and the summary page, \<^verbatim>\<open>(authed)/audit/page.tsx\<close> and \<^verbatim>\<open>(authed)/summary/page.tsx\<close>:
  from the URL to the filters, the rows and the links, and what the Download CSV link of each exports.
  A link is the list of its parameters.  A parameter the page declares as a string is one string.
\<close>

section \<open>The audit page\<close>

record audit_params =
  ad_from :: "string option"
  ad_to :: "string option"
  ad_actor :: "string option"
  ad_action :: "string option"
  ad_outcome :: "string option"
  ad_page :: "string option"

definition audit_page_filters :: "audit_params \<Rightarrow> AuditFilters" where
  "audit_page_filters sp = \<lparr>af_from = opt_nonempty (str_of (ad_from sp)), af_to = opt_nonempty (str_of (ad_to sp)),
     af_actor = opt_nonempty (str_of (ad_actor sp)),
     af_actionPrefix = (if truthy (ad_action sp) \<and> ad_action sp \<noteq> Some ''all'' then ad_action sp else None),
     af_outcome = (if ad_outcome sp = Some ''success'' \<or> ad_outcome sp = Some ''failure'' \<or> ad_outcome sp = Some ''denied''
       then ad_outcome sp else None),
     af_page = Some (max 1 (case js_parseInt (case ad_page sp of None \<Rightarrow> ''1'' | Some s \<Rightarrow> s) of
       None \<Rightarrow> 1 | Some n \<Rightarrow> if n = 0 then 1 else n)),
     af_pageSize = Some 50\<rparr>"

definition set_if :: "string \<Rightarrow> string option \<Rightarrow> query_string" where
  "set_if k v = (if truthy v then [(k, str_of v)] else [])"

definition baseQS :: "audit_params \<Rightarrow> query_string" where
  "baseQS sp = set_if ''from'' (ad_from sp) @ set_if ''to'' (ad_to sp) @ set_if ''actor'' (ad_actor sp)
     @ set_if ''action'' (ad_action sp) @ set_if ''outcome'' (ad_outcome sp)"

definition linkFor :: "audit_params \<Rightarrow> int \<Rightarrow> query_string" where
  "linkFor sp p = usp_set ''page'' (js_String p) (baseQS sp)"

definition listActionPrefixes :: "(string \<Rightarrow> string \<Rightarrow> bool) \<Rightarrow> db \<Rightarrow> string list" where
  "listActionPrefixes le d = sort_by le (remdups (map (\<lambda>a. takeWhile (\<lambda>c. c \<noteq> CHR ''.'') (a_action a))
     (filter (\<lambda>a. a_action a \<noteq> []) (audit_log d))))"

record audit_view =
  al_rows :: "audit_row list"
  al_total :: nat
  al_page :: int
  al_pageCount :: int
  al_prefixes :: "string list"
  al_prev :: "query_string option"
  al_next :: "query_string option"
  al_csv :: query_string

definition Audit_page :: "'j app \<Rightarrow> pg \<Rightarrow> (string \<Rightarrow> string \<Rightarrow> bool) \<Rightarrow> 'j http_req \<Rightarrow> audit_params \<Rightarrow> db \<Rightarrow> audit_view page_result" where
  "Audit_page ap g le rq sp d = (case require_perm ap rq [AUDIT_VIEW] d of None \<Rightarrow> Redirect ''/''
     | Some session \<Rightarrow>
        (let r = listAuditLog g (audit_page_filters sp) d; page = ap_page r;
             pageCount = max 1 ((int (ap_total r) + ap_pageSize r - 1) div ap_pageSize r)
         in Shown \<lparr>al_rows = ap_rows r, al_total = ap_total r, al_page = page, al_pageCount = pageCount,
              al_prefixes = listActionPrefixes le d,
              al_prev = (if page > 1 then Some (linkFor sp (page - 1)) else None),
              al_next = (if page < pageCount then Some (linkFor sp (page + 1)) else None),
              al_csv = baseQS sp\<rparr>))"

definition audit_url :: "query_string \<Rightarrow> audit_params" where
  \<comment> \<open>the search params of a followed link\<close>
  "audit_url q = \<lparr>ad_from = qs_get q ''from'', ad_to = qs_get q ''to'', ad_actor = qs_get q ''actor'',
     ad_action = qs_get q ''action'', ad_outcome = qs_get q ''outcome'', ad_page = qs_get q ''page''\<rparr>"

lemma set_if_get: "qs_get (set_if k v @ q) k' = (if k' = k \<and> truthy v then v else qs_get q k')"
  by (cases v) (simp_all add: set_if_def qs_get_def truthy_def str_of_def)

lemma base_get:
  "qs_get (baseQS sp) ''from'' = (if truthy (ad_from sp) then ad_from sp else None)"
  "qs_get (baseQS sp) ''to'' = (if truthy (ad_to sp) then ad_to sp else None)"
  "qs_get (baseQS sp) ''actor'' = (if truthy (ad_actor sp) then ad_actor sp else None)"
  "qs_get (baseQS sp) ''action'' = (if truthy (ad_action sp) then ad_action sp else None)"
  "qs_get (baseQS sp) ''outcome'' = (if truthy (ad_outcome sp) then ad_outcome sp else None)"
  "qs_get (baseQS sp) ''page'' = None"
  using set_if_get [of "''outcome''" "ad_outcome sp" "[]"] by (simp_all add: baseQS_def set_if_get, simp_all add: qs_get_def)

lemma set_if_key: "k' \<in> fst ` set (set_if k v) \<longleftrightarrow> k' = k \<and> truthy v"
  by (auto simp: set_if_def)

lemma base_no_page: "''page'' \<notin> fst ` set (baseQS sp)"
  by (simp add: baseQS_def image_Un set_if_key)

lemma link_get: "qs_get (linkFor sp p) k = (if k = ''page'' then Some (js_String p) else qs_get (baseQS sp) k)"
proof (cases "k = ''page''")
  case True
  then show ?thesis using base_get(6) [of sp]
    by (simp add: linkFor_def usp_set_new [OF base_no_page] qs_get_def map_add_def)
next
  case False
  then show ?thesis
    by (simp add: linkFor_def usp_set_new [OF base_no_page] qs_get_def map_add_def split: option.split)
qed

definition kept :: "string option \<Rightarrow> string option" where
  "kept v = (if truthy v then v else None)"

lemma kept_same:
  "opt_nonempty (str_of (kept v)) = opt_nonempty (str_of v)" "truthy (kept v) = truthy v"
  "s \<noteq> [] \<Longrightarrow> kept v = Some s \<longleftrightarrow> v = Some s" "truthy v \<Longrightarrow> kept v = v"
  by (cases v; auto simp: kept_def truthy_def str_of_def opt_nonempty_def)+

lemma action_kept: "(if truthy (kept v) \<and> kept v \<noteq> Some s then kept v else None) = (if truthy v \<and> v \<noteq> Some s then v else None)"
  by (simp add: kept_same kept_def)

lemma outcome_kept: "(if kept v = Some ''success'' \<or> kept v = Some ''failure'' \<or> kept v = Some ''denied'' then kept v else None)
    = (if v = Some ''success'' \<or> v = Some ''failure'' \<or> v = Some ''denied'' then v else None)"
  by (simp add: kept_same)

lemmas base_kept = base_get [folded kept_def]

lemma followed_url:
  "ad_from (audit_url (linkFor sp p)) = kept (ad_from sp)" "ad_to (audit_url (linkFor sp p)) = kept (ad_to sp)"
  "ad_actor (audit_url (linkFor sp p)) = kept (ad_actor sp)" "ad_action (audit_url (linkFor sp p)) = kept (ad_action sp)"
  "ad_outcome (audit_url (linkFor sp p)) = kept (ad_outcome sp)" "ad_page (audit_url (linkFor sp p)) = Some (js_String p)"
  by (simp_all add: audit_url_def link_get base_kept)

lemma followed_filters:
  "audit_page_filters (audit_url (linkFor sp p)) = (audit_page_filters sp)\<lparr>af_page := Some (max 1 p)\<rparr>"
  unfolding audit_page_filters_def
  by (simp only: followed_url kept_same(1) action_kept outcome_kept option.case js_parseInt_String AuditFilters.update_convs)
    (simp add: max_def)

lemma same_where: "audit_where (audit_filters (baseQS sp)) ps = audit_where (audit_page_filters sp) ps"
proof -
  have a: "truthy (opt_nonempty (str_of v)) \<and> opt_nonempty (str_of v) \<noteq> Some ''all''
      \<longleftrightarrow> truthy (if truthy v \<and> v \<noteq> Some ''all'' then v else None) \<and> (if truthy v \<and> v \<noteq> Some ''all'' then v else None) \<noteq> Some ''all''" for v
    by (cases v) (auto simp: truthy_def str_of_def opt_nonempty_def)
  have f: "audit_filters (baseQS sp) = (audit_page_filters sp)\<lparr>af_actionPrefix := opt_nonempty (str_of (ad_action sp)),
      af_page := None, af_pageSize := None\<rparr>"
    unfolding audit_filters_def audit_page_filters_def Let_def
    by (simp only: base_kept kept_same(1) outcome_kept AuditFilters.update_convs)
  have "str_of (if truthy v \<and> v \<noteq> Some ''all'' then v else None) = str_of (opt_nonempty (str_of v))"
    if "truthy (opt_nonempty (str_of v)) \<and> opt_nonempty (str_of v) \<noteq> Some ''all''" for v
    using that by (cases v) (auto simp: truthy_def str_of_def opt_nonempty_def)
  then show ?thesis unfolding audit_where_def f using a [of "ad_action sp"]
    by (simp add: audit_page_filters_def push_cond_def)
qed

lemma same_matching:
  assumes "audit_where f [] = audit_where f' []"
  shows "matching_log g f d = matching_log g f' d"
proof -
  obtain cs ps where c: "audit_where f [] = (cs, ps)" by fastforce
  then have c': "audit_where f' [] = (cs, ps)" using assms by simp
  show ?thesis unfolding matching_log_def audit_where_rows [OF c, symmetric] audit_where_rows [OF c', symmetric] ..
qed

lemma stream_matching:
  assumes "length (matching_log g f d) < AUDIT_CSV_ROW_CAP"
  shows "streamAuditLogCsv g stringify ts_text truncated f d
    = csv_line audit_csv_headers @ concat (map (\<lambda>a. csv_line (audit_cells stringify ts_text a)) (matching_log g f d))"
proof -
  obtain cs ps where c: "audit_where f [] = (cs, ps)" by fastforce
  show ?thesis using assms
    unfolding streamAuditLogCsv_def c Let_def prod.case audit_where_rows [OF c] matching_log_def [symmetric]
    by (simp add: page_of_def)
qed

lemma page_count_covers: "0 < k \<Longrightarrow> n \<le> nat (max 1 ((int n + int k - 1) div int k)) * k"
proof -
  assume k: "0 < k"
  have "int n \<le> ((int n + int k - 1) div int k) * int k"
    using k div_mult_mod_eq [of "int n + int k - 1" "int k"] pos_mod_bound [of "int k" "int n + int k - 1"] by linarith
  also have "\<dots> \<le> max 1 ((int n + int k - 1) div int k) * int k" by (intro mult_right_mono) auto
  finally show ?thesis by (metis nat_int nat_mult_distrib nat_mono max.cobounded1 zero_le_one order_trans)
qed

text \<open>
  Download CSV on the audit page exports what the page shows: line for line the rows of all its pages in
  their order, under the same five filters, as long as fewer rows match than the export's cap; and the links
  Prev and Next lead to the neighbouring pages of the same listing.
\<close>

theorem audit_csv_is_pages:
  assumes "Audit_page ap g le rq sp d = Shown v"
    and "length (matching_log g (audit_page_filters sp) d) < AUDIT_CSV_ROW_CAP"
  shows "streamAuditLogCsv g stringify ts_text truncated (audit_filters (al_csv v)) d
      = csv_line audit_csv_headers @ concat (map (\<lambda>a. csv_line (audit_cells stringify ts_text a))
          (concat (map (\<lambda>p. ap_rows (listAuditLog g (audit_page_filters (audit_url (linkFor sp (int p + 1)))) d))
             [0..<nat (al_pageCount v)])))
    \<and> (al_next v = Some q \<longrightarrow> audit_page_filters (audit_url q) = (audit_page_filters sp)\<lparr>af_page := Some (al_page v + 1)\<rparr>)
    \<and> (al_prev v = Some q \<longrightarrow> audit_page_filters (audit_url q) = (audit_page_filters sp)\<lparr>af_page := Some (al_page v - 1)\<rparr>)"
proof (intro conjI impI)
  let ?f = "audit_page_filters sp" and ?m = "matching_log g (audit_page_filters sp) d"
  let ?n = "nat (al_pageCount v)"
  have pages: "concat (map (\<lambda>p. ap_rows (listAuditLog g (audit_page_filters (audit_url (linkFor sp (int p + 1)))) d)) [0..<?n])
      = take (?n * 50) ?m"
  proof -
    have "audit_page_filters (audit_url (linkFor sp (int p + 1))) = ?f\<lparr>af_page := Some (int p + 1), af_pageSize := Some 50\<rparr>" for p
      unfolding followed_filters by (simp add: audit_page_filters_def max_def)
    then show ?thesis using conjunct1 [OF audit_pages_complete [of 50 g ?f d ?n]] by simp
  qed
  let ?r = "listAuditLog g ?f d"
  have r: "ap_pageSize ?r = 50" "ap_page ?r \<ge> 1"
    by (simp_all add: listAuditLog_def audit_page_filters_def Let_def split: prod.split)
  have v: "al_pageCount v = max 1 ((int (ap_total ?r) + 50 - 1) div 50)" "al_csv v = baseQS sp" "al_page v \<ge> 1"
    "al_prev v = (if al_page v > 1 then Some (linkFor sp (al_page v - 1)) else None)"
    "al_next v = (if al_page v < al_pageCount v then Some (linkFor sp (al_page v + 1)) else None)"
    using assms(1) r by (auto simp: Audit_page_def Let_def split: option.splits)
  have "ap_total (listAuditLog g ?f d) = length ?m"
    using conjunct2 [OF audit_pages_complete [where f = ?f and k = 50 and q = "the (af_page ?f)" and g = g and d = d]]
    by (simp add: audit_page_filters_def)
  then have "length ?m \<le> ?n * 50" using page_count_covers [of 50 "length ?m"] v(1) by simp
  with pages have "concat (map (\<lambda>p. ap_rows (listAuditLog g (audit_page_filters (audit_url (linkFor sp (int p + 1)))) d)) [0..<?n]) = ?m"
    by simp
  moreover have m: "matching_log g (audit_filters (baseQS sp)) d = ?m" by (rule same_matching) (rule same_where)
  ultimately show "streamAuditLogCsv g stringify ts_text truncated (audit_filters (al_csv v)) d
      = csv_line audit_csv_headers @ concat (map (\<lambda>a. csv_line (audit_cells stringify ts_text a))
          (concat (map (\<lambda>p. ap_rows (listAuditLog g (audit_page_filters (audit_url (linkFor sp (int p + 1)))) d)) [0..<?n])))"
    using stream_matching [of g "audit_filters (baseQS sp)" d] assms(2) by (simp add: v(2))
  show "audit_page_filters (audit_url q) = ?f\<lparr>af_page := Some (al_page v + 1)\<rparr>" if "al_next v = Some q"
    using that v(3,5) by (auto simp: followed_filters max_def split: if_splits)
  show "audit_page_filters (audit_url q) = ?f\<lparr>af_page := Some (al_page v - 1)\<rparr>" if "al_prev v = Some q"
    using that v(3,4) by (auto simp: followed_filters max_def split: if_splits)
qed

section \<open>The summary page\<close>

record summary_params =
  sy_from :: "string option"
  sy_to :: "string option"
  sy_operator_id :: "param option"
  sy_shortcode_id :: "param option"
  sy_owner_user_id :: "string option"
  sy_group_by :: "string option"

definition asArray :: "param option \<Rightarrow> string list" where
  "asArray v = (if \<not> param_truthy v then [] else (case v of Some (Many xs) \<Rightarrow> xs | Some (One s) \<Rightarrow> [s] | None \<Rightarrow> []))"

definition page_ints :: "param option \<Rightarrow> int list" where
  \<comment> \<open>\<open>asIntArray\<close> of this page\<close>
  "page_ints v = List.map_filter js_parseInt (asArray v)"

definition defaultFromDate :: "int \<Rightarrow> string" where
  \<comment> \<open>of the UTC day number of today\<close>
  "defaultFromDate today = fmt_date (today - 8)"

definition summary_group :: "string \<Rightarrow> GroupBy" where
  \<comment> \<open>the switch of \<open>loadDailySummary\<close>, for any string\<close>
  "summary_group s = (if s = ''date_operator'' then ByOperator else if s = ''date_shortcode'' then ByShortcode
     else if s = ''date_owner'' then ByOwner else ByDate)"

definition or_else :: "string option \<Rightarrow> string \<Rightarrow> string" where
  \<comment> \<open>\<open>v || dflt\<close>\<close>
  "or_else v dflt = (if truthy v then str_of v else dflt)"

definition page_groupBy :: "summary_params \<Rightarrow> string" where
  "page_groupBy sp = (case sy_group_by sp of None \<Rightarrow> ''date_operator'' | Some s \<Rightarrow> s)"

definition page_owner :: "summary_params \<Rightarrow> int option option" where
  \<comment> \<open>\<open>None\<close> is undefined, \<open>Some None\<close> is NaN\<close>
  "page_owner sp = (if truthy (sy_owner_user_id sp) then Some (js_parseInt (str_of (sy_owner_user_id sp))) else None)"

definition summary_page_filters :: "bool \<Rightarrow> int \<Rightarrow> summary_params \<Rightarrow> SummaryFilters" where
  "summary_page_filters canSeeAll today sp = \<lparr>sf_fromDate = or_else (sy_from sp) (defaultFromDate today),
     sf_toDate = or_else (sy_to sp) (dataThroughDate today),
     sf_operatorIds = page_ints (sy_operator_id sp), sf_shortcodeIds = page_ints (sy_shortcode_id sp),
     sf_ownerUserId = (if canSeeAll then (case page_owner sp of Some (Some n) \<Rightarrow> Some n | _ \<Rightarrow> None) else None)\<rparr>"

definition csvParams :: "bool \<Rightarrow> int \<Rightarrow> summary_params \<Rightarrow> query_string" where
  "csvParams canSeeAll today sp =
    [(''from'', or_else (sy_from sp) (defaultFromDate today)), (''to'', or_else (sy_to sp) (dataThroughDate today)),
     (''group_by'', page_groupBy sp)]
    @ map (\<lambda>i. (''operator_id'', js_String i)) (page_ints (sy_operator_id sp))
    @ map (\<lambda>i. (''shortcode_id'', js_String i)) (page_ints (sy_shortcode_id sp))
    @ (case page_owner sp of Some n \<Rightarrow> if canSeeAll
         then [(''owner_user_id'', case n of None \<Rightarrow> ''NaN'' | Some k \<Rightarrow> js_String k)] else [] | None \<Rightarrow> [])"

record summary_view =
  sv_rows :: "SummaryRow list"
  sv_sessions :: int
  sv_legs :: int
  sv_billable :: int
  sv_owners :: "OwnerOption list"
  sv_csv :: query_string

definition SummaryPage :: "'j app \<Rightarrow> pg \<Rightarrow> (string \<Rightarrow> string \<Rightarrow> bool) \<Rightarrow> 'j http_req \<Rightarrow> summary_params \<Rightarrow> db \<Rightarrow> rollup_row list
    \<Rightarrow> summary_view page_result" where
  "SummaryPage ap g le rq sp d rollup = (case req_session ap rq d of None \<Rightarrow> Redirect ''/login''
     | Some session \<Rightarrow>
        (let acl = sessionAcl (Some session); canSeeAll = hasPerm (Some session) REPORTS_VIEW_ALL;
             today = hr_now rq div 86400000000;
             rows = loadDailySummary g le (summary_page_filters canSeeAll today sp) acl (summary_group (page_groupBy sp)) 5000 d rollup
         in Shown \<lparr>sv_rows = rows, sv_sessions = sum_list (map su_sessions rows), sv_legs = sum_list (map su_legs rows),
              sv_billable = sum_list (map su_billable_units rows),
              sv_owners = (if canSeeAll then listShortcodeOwners le d else []),
              sv_csv = csvParams canSeeAll today sp\<rparr>))"

lemma map_filter_ints: "List.map_filter (\<lambda>(k', v). if k' = k then js_parseInt v else None) (map (\<lambda>i. (k, js_String i)) is) = is"
  by (induction "is") (simp_all add: List.map_filter_def)

lemma map_filter_other: "k \<noteq> k' \<Longrightarrow> List.map_filter (\<lambda>(k'', v). if k'' = k then js_parseInt v else None) (map (\<lambda>i. (k', js_String i)) is) = []"
  by (induction "is") (simp_all add: List.map_filter_def)

lemma csv_get:
  "qs_get (csvParams b t sp) ''from'' = Some (or_else (sy_from sp) (defaultFromDate t))"
  "qs_get (csvParams b t sp) ''to'' = Some (or_else (sy_to sp) (dataThroughDate t))"
  "qs_get (csvParams b t sp) ''group_by'' = Some (page_groupBy sp)"
  by (simp_all add: csvParams_def qs_get_def)

lemma map_of_ids: "k \<noteq> k' \<Longrightarrow> map_of (map (\<lambda>i. (k', f i)) is) k = None"
  by (induction "is") simp_all

lemma csv_owner: "qs_get (csvParams b t sp) ''owner_user_id'' =
    (case page_owner sp of Some n \<Rightarrow> if b then Some (case n of None \<Rightarrow> ''NaN'' | Some k \<Rightarrow> js_String k) else None | None \<Rightarrow> None)"
  by (simp add: csvParams_def qs_get_def map_of_ids map_add_def split: option.split)

lemma csv_ints:
  "qs_ints (csvParams b t sp) ''operator_id'' = page_ints (sy_operator_id sp)"
  "qs_ints (csvParams b t sp) ''shortcode_id'' = page_ints (sy_shortcode_id sp)"
proof -
  have app: "List.map_filter f (xs @ ys) = List.map_filter f xs @ List.map_filter f ys" for f :: "string \<times> string \<Rightarrow> int option" and xs ys
    by (simp add: List.map_filter_def)
  have own: "List.map_filter (\<lambda>(k', v). if k' = k then js_parseInt v else None) (case page_owner sp of Some n \<Rightarrow> if b
         then [(''owner_user_id'', case n of None \<Rightarrow> ''NaN'' | Some k \<Rightarrow> js_String k)] else [] | None \<Rightarrow> []) = []"
    if "k \<noteq> ''owner_user_id''" for k
    using that by (simp add: List.map_filter_def split: option.split)
  show "qs_ints (csvParams b t sp) ''operator_id'' = page_ints (sy_operator_id sp)"
    "qs_ints (csvParams b t sp) ''shortcode_id'' = page_ints (sy_shortcode_id sp)"
    unfolding qs_ints_def csvParams_def app map_filter_ints
    by (simp_all add: own map_filter_other List.map_filter_simps)
qed

lemma NaN_parses: "js_parseInt ''NaN'' = None"
  by code_simp

lemma same_summary_filters:
  assumes "8 \<le> t" "t < 2786860" "b = hasPerm (Some session) REPORTS_VIEW_ALL"
  shows "summary_filters session t' (csvParams b t sp) = summary_page_filters b t sp"
    and "qs_group (csvParams b t sp) = summary_group (page_groupBy sp)"
proof -
  have n: "or_else v (fmt_date z) \<noteq> []" if "0 \<le> z" "z < 2786860" for v z
    using that fmt_date_nonempty [of z] by (auto simp: or_else_def truthy_def str_of_def split: option.splits)
  have ne: "or_else (sy_from sp) (defaultFromDate t) \<noteq> []" "or_else (sy_to sp) (dataThroughDate t) \<noteq> []"
    using assms(1,2) n by (simp_all add: defaultFromDate_def dataThroughDate_def)
  have own: "(if b \<and> truthy (qs_get (csvParams b t sp) ''owner_user_id'')
      then js_parseInt (str_of (qs_get (csvParams b t sp) ''owner_user_id'')) else None)
    = (if b then (case page_owner sp of Some (Some n) \<Rightarrow> Some n | _ \<Rightarrow> None) else None)"
    by (auto simp: csv_owner truthy_def str_of_def NaN_parses split: option.splits)
  have "qs_or (csvParams b t sp) ''from'' x = or_else (sy_from sp) (defaultFromDate t)"
    "qs_or (csvParams b t sp) ''to'' x = or_else (sy_to sp) (dataThroughDate t)" for x
    using ne by (simp_all add: qs_or_def csv_get truthy_def str_of_def)
  then show "summary_filters session t' (csvParams b t sp) = summary_page_filters b t sp"
    unfolding summary_filters_def summary_page_filters_def assms(3) [symmetric] own csv_ints by simp
  show "qs_group (csvParams b t sp) = summary_group (page_groupBy sp)"
    by (simp add: qs_group_def csv_get summary_group_def Let_def)
qed

text \<open>
  Download CSV on the summary page exports what the page shows: under the same dates, operators,
  shortcodes, owner, grouping and allowlist, whatever the URL holds, line for line the rows the page shows
  the first five thousand of.
\<close>

theorem summary_csv_is_page:
  assumes "SummaryPage ap g le rq sp d rollup = Shown v" and "hr_session rq' = hr_session rq" "hr_now rq' = hr_now rq"
    and "8 * 86400000000 \<le> hr_now rq" "hr_now rq < 2786860 * 86400000000"
    and "req_session ap rq d = Some session" "report_reader session"
  shows "\<exists>rs. sv_rows v = take 5000 rs \<and> length rs \<le> 50000
    \<and> rp_body (fst (summary_export_GET ap g le truncated detail rq' (sv_csv v) d rollup))
      = RText (join_with '','' (summary_headers (summary_group (page_groupBy sp))) @ [CHR 0x0A]
          @ concat (map (csv_line \<circ> summary_cells (summary_group (page_groupBy sp))) rs)
          @ (if length rs = 50000 then truncated else []))"
proof -
  let ?b = "hasPerm (Some session) REPORTS_VIEW_ALL" and ?t = "hr_now rq div 86400000000" and ?gb = "summary_group (page_groupBy sp)"
  let ?load = "\<lambda>n. loadDailySummary g le (summary_page_filters ?b ?t sp) (sessionAcl (Some session)) ?gb n d rollup"
  have t: "8 \<le> ?t" "?t < 2786860" using assms(4,5) by linarith+
  have v: "sv_rows v = ?load 5000" "sv_csv v = csvParams ?b ?t sp"
    using assms(1,6) by (auto simp: SummaryPage_def Let_def)
  have cut: "?load 5000 = take 5000 (?load 50000)" and len: "length (?load 50000) \<le> 50000"
    by (simp_all add: loadDailySummary_def Let_def split: prod.split)
  have ses: "req_session ap rq' d = Some session"
    using assms(2,3,6) by (simp add: req_session_def req_ms_def)
  have "\<not> (\<not> hasPerm (Some session) REPORTS_VIEW_OWN \<and> \<not> ?b)"
    using assms(7) by (auto simp: report_reader_def hasPerm_def)
  then have "rp_body (fst (summary_export_GET ap g le truncated detail rq' (sv_csv v) d rollup))
      = RText (streamDailySummaryCsv g le truncated (summary_page_filters ?b ?t sp) (sessionAcl (Some session)) ?gb d rollup)"
    unfolding summary_export_GET_def ses option.case v(2) Let_def same_summary_filters [OF t refl] by (simp only: if_False fst_conv reply.select_convs)
  also have "streamDailySummaryCsv g le truncated (summary_page_filters ?b ?t sp) (sessionAcl (Some session)) ?gb d rollup
      = join_with '','' (summary_headers ?gb) @ [CHR 0x0A] @ concat (map (csv_line \<circ> summary_cells ?gb) (?load 50000))
          @ (if length (?load 50000) = 50000 then truncated else [])"
    using len by (auto simp: streamDailySummaryCsv_def SUMMARY_CSV_ROW_CAP_def Let_def)
  finally have body: "rp_body (fst (summary_export_GET ap g le truncated detail rq' (sv_csv v) d rollup)) = RText (join_with '','' (summary_headers ?gb)
      @ [CHR 0x0A] @ concat (map (csv_line \<circ> summary_cells ?gb) (?load 50000)) @ (if length (?load 50000) = 50000 then truncated else []))" .
  show ?thesis by (rule exI [of _ "?load 50000"]) (intro conjI body len, simp only: v(1) cut)
qed

section \<open>Samples\<close>

definition any_audit :: audit_params where
  "any_audit = \<lparr>ad_from = None, ad_to = None, ad_actor = None, ad_action = Some ''all'', ad_outcome = None, ad_page = None\<rparr>"

lemma root_perm: "p \<in> set Perms \<Longrightarrow> hasPerm (Some root_session) p"
proof -
  obtain u where "u \<in> set (users sample_db)" "u_id u = 1" "c_perms root_session = perms_of_role sample_db (u_role_id u)"
    using loadUserClaims_SomeD(3) [OF root_loaded] by blast
  then show "p \<in> set Perms \<Longrightarrow> hasPerm (Some root_session) p"
    by (force simp: hasPerm_def sample_db_def sample_user_def perms_of_role_def)
qed

theorem audit_csv_is_pages_witness:
  "\<exists>v. Audit_page sample_app sample_pg (\<lambda>_ _. True) sample_imp any_audit sample_db = Shown v
     \<and> streamAuditLogCsv sample_pg (\<lambda>_. []) (\<lambda>_. []) [] (audit_filters (al_csv v)) sample_db = csv_line audit_csv_headers"
proof -
  have "require_perm sample_app sample_imp [AUDIT_VIEW] sample_db = Some root_session"
    using root_in_session root_perm [of AUDIT_VIEW] by (simp add: require_perm_def Perms_def)
  then obtain v where v: "Audit_page sample_app sample_pg (\<lambda>_ _. True) sample_imp any_audit sample_db = Shown v"
    by (auto simp: Audit_page_def Let_def)
  have e: "audit_log sample_db = []" by (simp add: sample_db_def)
  then have m: "length (matching_log sample_pg (audit_page_filters any_audit) sample_db) < AUDIT_CSV_ROW_CAP"
    by (simp add: matching_log_def AUDIT_CSV_ROW_CAP_def newest_first_def)
  have "ap_rows (listAuditLog sample_pg f sample_db) = []" for f
    by (simp add: listAuditLog_def e newest_first_def page_of_def Let_def split: prod.split)
  then show ?thesis using v conjunct1 [OF audit_csv_is_pages [OF v m]] by simp
qed

definition week_params :: summary_params where
  "week_params = \<lparr>sy_from = None, sy_to = None, sy_operator_id = None, sy_shortcode_id = None, sy_owner_user_id = None,
     sy_group_by = None\<rparr>"

definition client_later :: "(string \<times> jwt_payload) http_req" where
  "client_later = sample_req JNull (Some (ae_secret sample_env, \<lparr>j_claims = client_session, j_iat = 0, j_exp = 2000000\<rparr>))
     \<lparr>hr_now := 10 * 86400000000\<rparr>"

lemma client_later_session: "req_session sample_app client_later sample_db = Some client_session"
proof -
  have "verifySession sample_verify sample_env (req_ms client_later)
      (ae_secret sample_env, \<lparr>j_claims = client_session, j_iat = 0, j_exp = 2000000\<rparr>) = Some client_session"
    by (simp add: verifySession_def sample_secret sample_verify_def req_ms_def client_later_def sample_req_def)
  moreover have "hr_session client_later
      = Some (ae_secret sample_env, \<lparr>j_claims = client_session, j_iat = 0, j_exp = 2000000\<rparr>)"
    by (simp add: client_later_def sample_req_def)
  moreover have "userStillValid sample_db (js_String 2) 0" by (rule client_still_valid) simp
  ultimately show ?thesis
    by (simp add: req_session_def getSession_def sample_app_def)
      (simp add: client_session_def sample_session_def or0_def)
qed

theorem summary_csv_is_page_witness:
  "\<exists>v. SummaryPage sample_app sample_pg (\<lambda>_ _. True) client_later week_params sample_db [] = Shown v
     \<and> rp_body (fst (summary_export_GET sample_app sample_pg (\<lambda>_ _. True) [] (\<lambda>_ _. JNull) client_later (sv_csv v) sample_db []))
       = RText (''date,operator,unique_session_ids,legs,session_counts'' @ [CHR 0x0A])"
proof -
  obtain v where v: "SummaryPage sample_app sample_pg (\<lambda>_ _. True) client_later week_params sample_db [] = Shown v"
    using client_later_session by (auto simp: SummaryPage_def Let_def)
  have now: "8 * 86400000000 \<le> hr_now client_later" "hr_now client_later < 2786860 * 86400000000"
    by (simp_all add: client_later_def)
  have rr: "report_reader client_session" using client_id(3) by (simp add: report_reader_def)
  have g: "summary_group (page_groupBy week_params) = ByOperator"
    by (simp add: summary_group_def page_groupBy_def week_params_def)
  have none: "sv_rows v = []"
    using v client_later_session
    by (auto simp: SummaryPage_def Let_def loadDailySummary_def buckets_def sort_by_def split: prod.splits)
  obtain rs where rs: "sv_rows v = take 5000 rs"
    "rp_body (fst (summary_export_GET sample_app sample_pg (\<lambda>_ _. True) [] (\<lambda>_ _. JNull) client_later (sv_csv v) sample_db []))
      = RText (join_with '','' (summary_headers ByOperator) @ [CHR 0x0A]
          @ concat (map (csv_line \<circ> summary_cells ByOperator) rs) @ (if length rs = 50000 then [] else []))"
    using summary_csv_is_page [OF v refl refl now client_later_session rr, of "[]" "\<lambda>_ _. JNull"] unfolding g by blast
  then have "rs = []" using none by simp
  then show ?thesis using v rs(2) by (simp add: summary_headers_def group_header_def)
qed

end
