(* ===== verification/Gateway_Pages.thy ===== *)
theory Gateway_Pages
  imports Shortcode_Actions Listing_Pages
begin

text \<open>
  The pages of shortcodes, operators, own shortcodes and exports: \<^verbatim>\<open>(authed)/shortcodes/page.tsx\<close>,
  \<^verbatim>\<open>operators/page.tsx\<close>, \<^verbatim>\<open>my-shortcodes/page.tsx\<close> and \<^verbatim>\<open>exports/page.tsx\<close>.  A page is the rows
  and the controls it shows; markup is left out.
\<close>

section \<open>Shortcodes\<close>

record shortcodes_params =
  hp_operator_id :: "param option"
  hp_status :: "string option"
  hp_auth_mode :: "string option"
  hp_environment :: "string option"
  hp_owner_user_id :: "string option"
  hp_q :: "string option"

definition shortcodes_filters :: "shortcodes_params \<Rightarrow> ShortcodeListFilters" where
  "shortcodes_filters sp = \<lparr>slf_operatorIds = (let ids = page_ints (hp_operator_id sp) in if ids = [] then None else Some ids),
     slf_status = (case hp_status sp of None \<Rightarrow> None | Some s \<Rightarrow> Shortcode_Actions.status_of s),
     slf_authMode = (if hp_auth_mode sp = Some ''none'' then Some AuthNone
       else if hp_auth_mode sp = Some ''bearer'' then Some AuthBearer else None),
     slf_environment = (if hp_environment sp = Some ''sandbox'' then Some Sandbox
       else if hp_environment sp = Some ''production'' then Some Production else None),
     slf_ownerUserId = (if truthy (hp_owner_user_id sp) then js_parseInt (str_of (hp_owner_user_id sp)) else None),
     slf_search = (let q = trim (str_of (hp_q sp)) in if q = [] then None else Some q)\<rparr>"

datatype toggle = Deactivate | Reactivate

record shortcode_line =
  hl_row :: ShortcodeRow
  hl_edit :: bool
  hl_promote :: bool                        \<comment> \<open>the form that picks the live network\<close>
  hl_toggle :: "toggle option"

record shortcodes_view =
  hv_new :: bool
  hv_lines :: "shortcode_line list"
  hv_owners :: "OwnerOption list"
  hv_operators :: "operator_row list"       \<comment> \<open>of the filter and of the promotion forms\<close>

definition ShortcodesPage :: "'j app \<Rightarrow> pg \<Rightarrow> (string \<Rightarrow> string \<Rightarrow> bool) \<Rightarrow> 'j http_req \<Rightarrow> shortcodes_params \<Rightarrow> db \<Rightarrow> shortcodes_view" where
  "ShortcodesPage ap g le rq sp d =
    (let canManage = hasPerm (req_session ap rq d) SHORTCODES_MANAGE
     in \<lparr>hv_new = canManage,
          hv_lines = map (\<lambda>r. \<lparr>hl_row = r, hl_edit = canManage,
              hl_promote = (canManage \<and> sc_environment (sr_row r) = Sandbox),
              hl_toggle = (if canManage then Some (if sc_status (sr_row r) = Active then Deactivate else Reactivate) else None)\<rparr>)
            (listShortcodes g le (shortcodes_filters sp) d),
          hv_owners = listShortcodeOwners le d,
          hv_operators = listOperators d\<rparr>)"

record operators_view =
  ov_rows :: "(operator_row \<times> bool) list"   \<comment> \<open>with the Edit link\<close>

definition OperatorsPage :: "'j app \<Rightarrow> 'j http_req \<Rightarrow> db \<Rightarrow> operators_view" where
  "OperatorsPage ap rq d = \<lparr>ov_rows = map (\<lambda>o'. (o', hasPerm (req_session ap rq d) SHORTCODES_MANAGE)) (listOperatorsAdmin d)\<rparr>"

section \<open>Own shortcodes\<close>

definition hex_val :: "char \<Rightarrow> nat option" where
  "hex_val c = (let n = of_char c :: nat in if 48 \<le> n \<and> n \<le> 57 then Some (n - 48)
     else if 65 \<le> n \<and> n \<le> 70 then Some (n - 55) else if 97 \<le> n \<and> n \<le> 102 then Some (n - 87) else None)"

fun pct_byte :: "string \<Rightarrow> (nat \<times> string) option" where
  "pct_byte (p # a # b # r) = (if p = CHR ''%'' then (case (hex_val a, hex_val b) of
     (Some x, Some y) \<Rightarrow> Some (16 * x + y, r) | _ \<Rightarrow> None) else None)"
| "pct_byte _ = None"

fun pct_tail :: "nat \<Rightarrow> nat \<Rightarrow> string \<Rightarrow> (nat \<times> string) option" where
  \<comment> \<open>the continuation bytes of a code point\<close>
  "pct_tail 0 acc s = Some (acc, s)"
| "pct_tail (Suc n) acc s = (case pct_byte s of None \<Rightarrow> None
     | Some (b, r) \<Rightarrow> if 0x80 \<le> b \<and> b < 0xC0 then pct_tail n (acc * 64 + (b - 0x80)) r else None)"

definition code_units :: "nat \<Rightarrow> ustr" where
  "code_units c = (if c < 0x10000 then [c] else [0xD800 + (c - 0x10000) div 0x400, 0xDC00 + (c - 0x10000) mod 0x400])"

definition pct_char :: "string \<Rightarrow> (ustr \<times> string) option" where
  \<comment> \<open>one escaped code point; \<open>None\<close> is a URIError\<close>
  "pct_char s = (case pct_byte s of None \<Rightarrow> None
     | Some (b, r) \<Rightarrow>
        (let tail = (\<lambda>n acc lo. case pct_tail n acc r of None \<Rightarrow> None
           | Some (c, r') \<Rightarrow> if c < lo \<or> 0x10FFFF < c \<or> is_high c \<or> is_low c then None else Some (code_units c, r'))
         in if b < 0x80 then Some ([b], r)
            else if 0xC0 \<le> b \<and> b < 0xE0 then tail 1 (b - 0xC0) 0x80
            else if 0xE0 \<le> b \<and> b < 0xF0 then tail 2 (b - 0xE0) 0x800
            else if 0xF0 \<le> b \<and> b < 0xF8 then tail 3 (b - 0xF0) 0x10000
            else None))"

lemma pct_byte_shorter: "pct_byte s = Some (b, r) \<Longrightarrow> length r < length s"
  by (induction s rule: pct_byte.induct) (auto split: if_splits option.splits)

lemma pct_tail_shorter: "pct_tail n acc s = Some (c, r) \<Longrightarrow> length r \<le> length s"
  by (induction n acc s rule: pct_tail.induct) (fastforce dest: pct_byte_shorter split: option.splits if_splits prod.splits)+

lemma pct_char_shorter: "pct_char s = Some (us, r) \<Longrightarrow> length r < length s"
  by (auto simp: pct_char_def Let_def dest!: pct_byte_shorter pct_tail_shorter split: option.splits if_splits)

function decodeURIComponent :: "string \<Rightarrow> ustr option" where
  "decodeURIComponent [] = Some []"
| "decodeURIComponent (c # s) = (if c \<noteq> CHR ''%'' then map_option (Cons (of_char c)) (decodeURIComponent s)
     else (case pct_char (c # s) of None \<Rightarrow> None | Some (us, r) \<Rightarrow> map_option (append us) (decodeURIComponent r)))"
  by pat_completeness auto
termination
  by (relation "measure length") (auto dest: pct_char_shorter)

record my_view =
  mv_rows :: "ShortcodeRow list"
  mv_error :: "ustr option"
  mv_ok :: "ustr option"
  mv_create :: bool                          \<comment> \<open>the form for a sandbox shortcode\<close>

definition shown_message :: "string option \<Rightarrow> ustr option option" where
  \<comment> \<open>\<open>None\<close>: rendering throws\<close>
  "shown_message m = (if \<not> truthy m then Some None else map_option Some (decodeURIComponent (str_of m)))"

definition MyShortcodesPage :: "'j app \<Rightarrow> (string \<Rightarrow> string \<Rightarrow> bool) \<Rightarrow> 'j http_req \<Rightarrow> string option \<Rightarrow> string option \<Rightarrow> db
    \<Rightarrow> my_view page_result option" where
  \<comment> \<open>of the params \<open>error\<close> and \<open>ok\<close>, which the framework has decoded already; \<open>None\<close>: rendering throws\<close>
  "MyShortcodesPage ap le rq error ok d = (case req_session ap rq d of None \<Rightarrow> Some (Redirect ''/login'')
     | Some session \<Rightarrow> (case (shown_message error, shown_message ok) of
         (Some e, Some k) \<Rightarrow> Some (Shown \<lparr>mv_rows = listShortcodesOwnedBy le (session_id session) d, mv_error = e, mv_ok = k,
            mv_create = hasPerm (Some session) SHORTCODES_MANAGE_SANDBOX\<rparr>)
       | _ \<Rightarrow> None))"

definition scName :: "ShortcodeRow \<Rightarrow> string" where
  "scName r = (if sc_environment (sr_row r) = Sandbox then sc_code (sr_row r)
     else sr_operator_name r @ '' '' @ sc_code (sr_row r))"

definition then_told :: "ShortcodeRow \<Rightarrow> string \<Rightarrow> 'j acted \<Rightarrow> 'j acted" where
  \<comment> \<open>the redirect after an action that returned; one that redirected or threw is over\<close>
  "then_told r what a = (case a of (Done, _, d) \<Rightarrow> act_go (''/my-shortcodes?ok='' @ scName r @ what) d | _ \<Rightarrow> a)"

definition goActive :: "'j app \<Rightarrow> 'j http_req \<Rightarrow> ShortcodeRow \<Rightarrow> db \<Rightarrow> 'j acted" where
  "goActive ap rq r d = then_told r '' is now active.'' (actionSetShortcodeStatus ap rq (sc_id (sr_row r)) ''active'' None d)"

definition goMaintenance :: "'j app \<Rightarrow> 'j http_req \<Rightarrow> ShortcodeRow \<Rightarrow> form \<Rightarrow> db \<Rightarrow> 'j acted" where
  "goMaintenance ap rq r fd d = then_told r '' is in maintenance.''
     (actionSetShortcodeStatus ap rq (sc_id (sr_row r)) ''maintenance'' (Some (fd_str fd ''status_message'')) d)"

definition saveHandler :: "'j app \<Rightarrow> 'j http_req \<Rightarrow> ShortcodeRow \<Rightarrow> form \<Rightarrow> db \<Rightarrow> 'j acted" where
  "saveHandler ap rq r fd d = then_told r '' handler URL updated.''
     (actionSetShortcodeHandlerUrl ap rq (sc_id (sr_row r)) (Some (fd_str fd ''handler_url'')) d)"

definition owner_form :: "'j app \<Rightarrow> 'j http_req \<Rightarrow> ShortcodeRow \<Rightarrow> form \<Rightarrow> db \<Rightarrow> 'j acted option" where
  \<comment> \<open>the form of the card: none on a deactivated row\<close>
  "owner_form ap rq r fd d = (case sc_status (sr_row r) of Deactivated \<Rightarrow> None
     | Active \<Rightarrow> Some (goMaintenance ap rq r fd d) | Maintenance \<Rightarrow> Some (goActive ap rq r d))"

section \<open>Exports\<close>

datatype export_control = Download int | Error_note "string option" | Retention | No_control

definition export_control :: "export_row \<Rightarrow> export_control" where
  "export_control r = (case e_status r of Ready \<Rightarrow> Download (e_id r) | Failed \<Rightarrow> Error_note (e_error r)
     | Expired \<Rightarrow> Retention | _ \<Rightarrow> No_control)"

record exports_view =
  xv_rows :: "(export_row \<times> export_control) list"
  xv_pending :: nat

definition ExportsPage :: "'j app \<Rightarrow> 'j http_req \<Rightarrow> db \<Rightarrow> exports_view option" where
  "ExportsPage ap rq d = (case req_session ap rq d of None \<Rightarrow> None
     | Some session \<Rightarrow> (let rows = listExportsForUser (session_id session) d
         in Some \<lparr>xv_rows = map (\<lambda>r. (r, export_control r)) rows,
              xv_pending = length (filter (\<lambda>r. e_status r = Queued \<or> e_status r = Running) rows)\<rparr>))"


section \<open>Rows and their links\<close>

lemma view_row: "shortcode_view d s = Some v \<Longrightarrow> sr_row v = s"
  by (auto simp: shortcode_view_def split: option.splits)

lemma getShortcode_listed:
  assumes "wf_shortcodes d" "s \<in> set (shortcodes d)" "shortcode_view d s = Some v"
  shows "getShortcode (sc_id s) d = Some v"
  using assms by (simp add: getShortcode_def wf_shortcodes_def filter_unique_key view_rows_def List.map_filter_def)

text \<open>
  The shortcodes page lists exactly the rows its search params admit, and the operators page every
  operator.  A row carries the Edit link exactly when the caller may use it: the link opens the form on
  that very row, and without it the address leads back to the list.
\<close>

theorem gateway_links_open:
  assumes "wf_shortcodes d" "distinct (map op_id (operators d))"
    and "l \<in> set (hv_lines (ShortcodesPage ap g le rq sp d))" "(o', edit) \<in> set (ov_rows (OperatorsPage ap rq d))"
  shows "hl_row ` set (hv_lines (ShortcodesPage ap g le rq sp d)) = {v. \<exists>s \<in> set (shortcodes d).
        shortcode_view d s = Some v \<and> shortcode_matches (shortcodes_filters sp) (shortcode_sql s)}
    \<and> fst ` set (ov_rows (OperatorsPage ap rq d)) = set (operators d)
    \<and> ShortcodeEdit ap rq (Some (sc_id (sr_row (hl_row l)))) d
        = (if hl_edit l then Shown (hl_row l) else Redirect ''/shortcodes'')
    \<and> OperatorEdit ap rq (Some (op_id o')) d = (if edit then Shown o' else Redirect ''/operators'')"
proof (intro conjI)
  show rows: "hl_row ` set (hv_lines (ShortcodesPage ap g le rq sp d)) = {v. \<exists>s \<in> set (shortcodes d).
      shortcode_view d s = Some v \<and> shortcode_matches (shortcodes_filters sp) (shortcode_sql s)}"
    by (simp add: ShortcodesPage_def Let_def image_image shortcode_listings_exact set_eq_iff)
  show "fst ` set (ov_rows (OperatorsPage ap rq d)) = set (operators d)"
    by (simp add: OperatorsPage_def image_image listOperatorsAdmin_def)
  have "hl_row l \<in> hl_row ` set (hv_lines (ShortcodesPage ap g le rq sp d))" using assms(3) by simp
  then obtain s where s: "s \<in> set (shortcodes d)" "shortcode_view d s = Some (hl_row l)" unfolding rows by blast
  have "hl_edit l = hasPerm (req_session ap rq d) SHORTCODES_MANAGE"
    using assms(3) by (auto simp: ShortcodesPage_def Let_def)
  then show "ShortcodeEdit ap rq (Some (sc_id (sr_row (hl_row l)))) d = (if hl_edit l then Shown (hl_row l) else Redirect ''/shortcodes'')"
    using getShortcode_listed [OF assms(1) s]
    by (simp add: ShortcodeEdit_def guarded_form_def found_form_def view_row [OF s(2)] hasPerm_def split: option.splits)
  have "o' \<in> set (operators d)" and e: "edit = hasPerm (req_session ap rq d) SHORTCODES_MANAGE"
    using assms(4) by (auto simp: OperatorsPage_def listOperatorsAdmin_def)
  then have "getOperator (op_id o') d = Some o'"
    using assms(2) by (simp add: getOperator_def find_operator_def find_unique)
  then show "OperatorEdit ap rq (Some (op_id o')) d = (if edit then Shown o' else Redirect ''/operators'')"
    by (simp add: OperatorEdit_def guarded_form_def found_form_def e hasPerm_def split: option.splits)
qed

section \<open>Downloads\<close>

lemma find_own: "distinct (map e_id rows) \<Longrightarrow> r \<in> set rows \<Longrightarrow>
    List.find (\<lambda>e. e_id e = e_id r \<and> e_user e = e_user r) rows = Some r"
  by (induction rows) auto


text \<open>
  The exports page shows a Download link exactly on the caller's own finished exports, and following
  one serves the file as long as it is on disk; the address of any other row it lists answers 409.
\<close>

theorem download_links_serve:
  assumes "wf_exports d" "ExportsPage ap rq d = Some v" "(r, c) \<in> set (xv_rows v)"
  shows "rp_status (fst (download_GET ap rq (js_String (e_id r)) d fs))
    = (if c = Download (e_id r) \<and> truthy (e_file_path r)
       then (if fs (str_of (e_file_path r)) = None then 410 else 200) else 409)
    \<and> (c = Download i \<longleftrightarrow> e_status r = Ready \<and> i = e_id r)"
proof -
  obtain session where ses: "req_session ap rq d = Some session"
    and r: "r \<in> set (listExportsForUser (session_id session) d)" and c: "c = export_control r"
    using assms(2,3) by (auto simp: ExportsPage_def Let_def split: option.splits)
  have m: "r \<in> set (exports d)" "e_user r = session_id session"
    using r by (auto simp: listExportsForUser_def dest!: in_set_takeD)
  have "getExportForUser (e_id r) (session_id session) d = Some r"
    using assms(1) find_own [OF _ m(1)] by (simp add: getExportForUser_def wf_exports_def m(2))
  then show ?thesis
    by (cases "e_status r") (auto simp: c export_control_def download_GET_def ses reply_error_def reply_json_def split: option.splits)
qed

section \<open>The message of the own-shortcodes page\<close>

lemma no_escape: "CHR ''%'' \<notin> set m \<Longrightarrow> decodeURIComponent m = Some (units m)"
  by (induction m) (auto simp: units_def)

lemma bad_escape:
  assumes "CHR ''%'' \<notin> set xs" "hex_val c = None"
  shows "decodeURIComponent (xs @ CHR ''%'' # c # ys) = None"
proof -
  have "pct_char (CHR ''%'' # c # ys) = None"
    using assms(2) by (cases ys) (simp_all add: pct_char_def)
  then show ?thesis using assms(1) by (induction xs) auto
qed

text \<open>
  After the owner of a shortcode switches it back on, the page is opened with the message of the
  switch, which names the code.  The page decodes the message a second time: a sandbox code holding a
  percent sign without two hex digits makes it throw, although the change was made; a code without a
  percent sign is shown as it is.
\<close>

theorem own_message_crashes:
  assumes "actionSetShortcodeStatus ap rq (sc_id (sr_row r)) ''active'' None d = (Done, k, d')"
    and "sc_environment (sr_row r) = Sandbox" "req_session ap rq d' = Some session"
  shows "goActive ap rq r d = act_go (''/my-shortcodes?ok='' @ scName r @ '' is now active.'') d'
    \<and> (sc_code (sr_row r) = xs @ ''%'' @ c # ys \<and> CHR ''%'' \<notin> set xs \<and> hex_val c = None
        \<longrightarrow> MyShortcodesPage ap le rq None (Some (scName r @ '' is now active.'')) d' = None)
    \<and> (CHR ''%'' \<notin> set (sc_code (sr_row r)) \<longrightarrow>
        (\<exists>v. MyShortcodesPage ap le rq None (Some (scName r @ '' is now active.'')) d' = Some (Shown v)
          \<and> mv_ok v = Some (units (scName r @ '' is now active.''))))"
proof (intro conjI impI)
  show "goActive ap rq r d = act_go (''/my-shortcodes?ok='' @ scName r @ '' is now active.'') d'"
    by (simp add: goActive_def then_told_def assms(1))
  let ?m = "scName r @ '' is now active.''"
  have t: "truthy (Some ?m)" "str_of (Some ?m) = ?m" "truthy None = False" by (simp_all add: truthy_def str_of_def)
  show "MyShortcodesPage ap le rq None (Some ?m) d' = None"
    if "sc_code (sr_row r) = xs @ ''%'' @ c # ys \<and> CHR ''%'' \<notin> set xs \<and> hex_val c = None"
    using that assms(2,3) bad_escape [of xs c "ys @ '' is now active.''"]
    by (simp add: MyShortcodesPage_def shown_message_def truthy_def str_of_def scName_def)
  show "\<exists>v. MyShortcodesPage ap le rq None (Some ?m) d' = Some (Shown v) \<and> mv_ok v = Some (units ?m)"
    if "CHR ''%'' \<notin> set (sc_code (sr_row r))"
  proof -
    have "CHR ''%'' \<notin> set ?m" using that assms(2) by (simp add: scName_def)
    moreover have "shown_message (Some ?m) = map_option Some (decodeURIComponent ?m)"
      by (simp only: shown_message_def t if_False not_True_eq_False)
    ultimately show ?thesis
      using assms(3) by (simp add: MyShortcodesPage_def no_escape shown_message_def [of None] t(3))
  qed
qed


section \<open>A paused sandbox shortcode, a finished export\<close>

definition paused_row :: shortcode_row where
  "paused_row = (sample_shortcode 5 2)\<lparr>sc_code := ''*%#'', sc_environment := Sandbox, sc_status := Maintenance\<rparr>"

definition paused_db :: db where
  "paused_db = sample_table\<lparr>shortcodes := [paused_row]\<rparr>"

definition paused_view :: ShortcodeRow where
  "paused_view = \<lparr>sr_row = paused_row, sr_operator_name = ''o'', sr_owner_email = ''cl'', sr_owner_name = [],
     sr_status_set_by_email = None, sr_reallocated = False\<rparr>"

lemma paused_resumes:
  "\<exists>d'. actionSetShortcodeStatus sample_app client_req 5 ''active'' None paused_db = (Done, None, d') \<and> users d' = users sample_db"
proof -
  have ses: "req_session sample_app client_req paused_db = Some client_session"
    by (rule client_reads) (simp add: paused_db_def sample_table_def)
  have own: "owns client_session 5 paused_db"
    by (simp add: owns_def getShortcode_def view_rows_def List.map_filter_def shortcode_view_def client_id
        find_operator_def find_user_def paused_db_def paused_row_def sample_table_def sample_db_def
        sample_user_def sample_shortcode_def)
  have adm: "\<not> hasPerm (Some client_session) SHORTCODES_MANAGE" by (simp add: hasPerm_def client_id)
  have "\<exists>d'. setShortcodeStatus 1000000 5 Active None 2 paused_db = (Inr (), d') \<and> users d' = users sample_db"
    by (simp add: setShortcodeStatus_def tx_exec_def update_shortcode_def find_shortcode_def shortcode_check_def
        stamp_owner_since_def upd_shortcode_def find_operator_def find_user_def fits_def ufits_def paused_db_def paused_row_def
        sample_table_def sample_db_def sample_user_def sample_shortcode_def)
  then show ?thesis
    by (auto simp: actionSetShortcodeStatus_def ses Let_def adm own Shortcode_Actions.status_of_def client_id client_req_fields
        truthy_def log_audit_def)
qed

theorem own_message_crashes_witness:
  "\<exists>d'. goActive sample_app client_req paused_view paused_db = act_go ''/my-shortcodes?ok=*%# is now active.'' d'
    \<and> MyShortcodesPage sample_app (\<lambda>_ _. True) client_req None (Some ''*%# is now active.'') d' = None"
proof -
  obtain d' where d': "actionSetShortcodeStatus sample_app client_req 5 ''active'' None paused_db = (Done, None, d')"
    "users d' = users sample_db" using paused_resumes by blast
  have f: "sc_id (sr_row paused_view) = 5" "sc_environment (sr_row paused_view) = Sandbox" "scName paused_view = ''*%#''"
    "sc_code (sr_row paused_view) = ''*'' @ ''%'' @ CHR ''#'' # []"
    by (simp_all add: paused_view_def paused_row_def sample_shortcode_def scName_def)
  have h: "hex_val (CHR ''#'') = None" by code_simp
  from own_message_crashes [of sample_app client_req paused_view paused_db None d' client_session "''*''" "CHR ''#''" "[]" "\<lambda>_ _. True"]
  have "goActive sample_app client_req paused_view paused_db = act_go ''/my-shortcodes?ok=*%# is now active.'' d'
    \<and> MyShortcodesPage sample_app (\<lambda>_ _. True) client_req None (Some ''*%# is now active.'') d' = None"
    using d'(1) client_reads [OF d'(2)] h unfolding f by (simp add: f(2,4))
  then show ?thesis by (intro exI [of _ d']) simp
qed

theorem gateway_links_open_witness:
  "ShortcodeEdit sample_app client_req (Some 5) paused_db = Redirect ''/shortcodes''"
proof -
  have ses: "req_session sample_app client_req paused_db = Some client_session"
    by (rule client_reads) (simp add: paused_db_def sample_table_def)
  have adm: "\<not> hasPerm (Some client_session) SHORTCODES_MANAGE" by (simp add: hasPerm_def client_id)
  define sp where "sp = \<lparr>hp_operator_id = None, hp_status = None, hp_auth_mode = None, hp_environment = None,
    hp_owner_user_id = None, hp_q = None\<rparr>"
  have flt: "shortcodes_filters sp = \<lparr>slf_operatorIds = None, slf_status = None, slf_authMode = None, slf_environment = None,
    slf_ownerUserId = None, slf_search = None\<rparr>"
    by (simp add: shortcodes_filters_def sp_def page_ints_def asArray_def truthy_def str_of_def trim_def)
  have w: "wf_shortcodes paused_db" "distinct (map op_id (operators paused_db))" "operators paused_db \<noteq> []"
    by (simp_all add: wf_shortcodes_def paused_db_def paused_row_def sample_shortcode_def sample_table_def sample_db_def)
  obtain v where v: "shortcode_view paused_db paused_row = Some v" "paused_row \<in> set (shortcodes paused_db)"
    by (simp add: shortcode_view_def find_operator_def find_user_def paused_db_def paused_row_def sample_table_def
        sample_db_def sample_user_def sample_shortcode_def)
  have "v \<in> set (listShortcodes sample_pg (\<lambda>_ _. True) (shortcodes_filters sp) paused_db)"
    using v by (auto simp: shortcode_listings_exact shortcode_matches_def flt search_of_def truthy_def)
  then obtain l where l: "l \<in> set (hv_lines (ShortcodesPage sample_app sample_pg (\<lambda>_ _. True) client_req sp paused_db))"
    "hl_row l = v" "\<not> hl_edit l"
    by (fastforce simp: ShortcodesPage_def Let_def ses adm)
  obtain q where "q \<in> set (operators paused_db)" using w(3) by (cases "operators paused_db") auto
  then have o': "(q, hasPerm (req_session sample_app client_req paused_db) SHORTCODES_MANAGE)
      \<in> set (ov_rows (OperatorsPage sample_app client_req paused_db))"
    by (simp add: OperatorsPage_def listOperatorsAdmin_def)
  have "sc_id (sr_row v) = 5" using view_row [OF v(1)] by (simp add: paused_row_def sample_shortcode_def)
  then show ?thesis using gateway_links_open [OF w(1,2) l(1) o'] l by simp
qed

definition done_row :: export_row where
  "done_row = late_row\<lparr>e_status := Ready, e_file_path := Some ''f''\<rparr>"

theorem download_links_serve_witness:
  "rp_status (fst (download_GET sample_app client_req (js_String 10) (sample_db\<lparr>exports := [done_row], next_id := 11\<rparr>)
    ((\<lambda>_. None)(''f'' := Some ''csv'')))) = 200"
proof -
  let ?d = "sample_db\<lparr>exports := [done_row], next_id := 11\<rparr>"
  have ses: "req_session sample_app client_req ?d = Some client_session" by (rule client_reads) simp
  have f: "e_id done_row = 10" "e_user done_row = 2" "e_status done_row = Ready" "e_file_path done_row = Some ''f''"
    by (simp_all add: done_row_def late_row_def)
  have w: "wf_exports ?d" by (simp add: wf_exports_def f)
  obtain v where v: "ExportsPage sample_app client_req ?d = Some v" "(done_row, Download 10) \<in> set (xv_rows v)"
    by (auto simp: ExportsPage_def ses Let_def listExportsForUser_def client_number f export_control_def)
  show ?thesis using download_links_serve [OF w v, of "(\<lambda>_. None)(''f'' := Some ''csv'')"] by (simp add: f truthy_def str_of_def)
qed

end
