(* ===== verification/Browser_Forms.thy ===== *)
theory Browser_Forms
  imports Listing_Pages
begin

text \<open>
  The forms of the browser that talk to the authentication routes: \<^verbatim>\<open>login/LoginForm.tsx\<close>,
  \<^verbatim>\<open>forgot-password/ForgotForm.tsx\<close>, \<^verbatim>\<open>reset-password/ResetForm.tsx\<close>,
  \<^verbatim>\<open>users/_impersonateButton.tsx\<close> and \<^verbatim>\<open>_impersonationBanner.tsx\<close>, each composed with the route it
  posts to.  The network may fail a request; a request's method, headers and cookie are the browser's.
\<close>

section \<open>Replies as the browser reads them\<close>

datatype 'j fetched = Fetch_failed | Got "'j reply"

definition resp_ok :: "'j reply \<Rightarrow> bool" where
  "resp_ok rp \<longleftrightarrow> 200 \<le> rp_status rp \<and> rp_status rp \<le> 299"

definition resp_json :: "'j reply \<Rightarrow> json option" where
  \<comment> \<open>\<open>resp.json()\<close>; \<open>None\<close> when it throws, which the callers turn into an empty object\<close>
  "resp_json rp = (case rp_body rp of RJson j \<Rightarrow> Some j | _ \<Rightarrow> None)"

fun json_truthy :: "json \<Rightarrow> bool" where
  "json_truthy JNull = False"
| "json_truthy (JBool b) = b"
| "json_truthy (JNum n) = (n \<noteq> 0)"
| "json_truthy (JStr s) = (s \<noteq> [])"
| "json_truthy _ = True"

definition field_truthy :: "'j reply \<Rightarrow> string \<Rightarrow> bool" where
  "field_truthy rp k = (case body_field (resp_json rp) k of None \<Rightarrow> False | Some v \<Rightarrow> json_truthy v)"

definition field_or :: "'j reply \<Rightarrow> string \<Rightarrow> string \<Rightarrow> string" where
  \<comment> \<open>\<open>j.k || dflt\<close>, as text\<close>
  "field_or rp k dflt = (if field_truthy rp k then body_text (resp_json rp) k else dflt)"

definition field_nullish :: "'j reply \<Rightarrow> string \<Rightarrow> string \<Rightarrow> string" where
  \<comment> \<open>\<open>body?.k ?? dflt\<close>, as text\<close>
  "field_nullish rp k dflt = (if body_field (resp_json rp) k = None then dflt else body_text (resp_json rp) k)"

datatype ui =
    Push string                                \<comment> \<open>\<open>router.push\<close>\<close>
  | Open string                                \<comment> \<open>\<open>window.location.href\<close>, a GET\<close>
  | Tell string                                \<comment> \<open>the error of the form\<close>
  | Sent                                       \<comment> \<open>the confirmation of the forgot form\<close>
  | Boundary                                   \<comment> \<open>a rejected transition: the error boundary\<close>
  | Nothing

section \<open>Signing in\<close>

definition next_href :: "query_string \<Rightarrow> string" where
  "next_href params = (if truthy (qs_get params ''next'') then str_of (qs_get params ''next'') else ''/'')"

definition login_body :: "string \<Rightarrow> string \<Rightarrow> string \<Rightarrow> json" where
  "login_body email password nextHref = JObj [(''email'', JStr email), (''password'', JStr password), (''next'', JStr nextHref)]"

definition login_answer :: "string \<Rightarrow> 'j fetched \<Rightarrow> ui" where
  "login_answer nextHref f = (case f of Fetch_failed \<Rightarrow> Boundary
     | Got rp \<Rightarrow> if resp_ok rp then Push (field_or rp ''next'' nextHref) else Tell (field_or rp ''error'' ''Login failed''))"

definition LoginForm :: "'j app \<Rightarrow> 'j http_req \<Rightarrow> query_string \<Rightarrow> string \<Rightarrow> string \<Rightarrow> db \<Rightarrow> ui \<times> 'j reply \<times> db" where
  \<comment> \<open>one submit that reaches the server\<close>
  "LoginForm ap rq params email password d =
    (case login_POST ap (rq\<lparr>hr_body := Some (login_body email password (next_href params))\<rparr>) d of
       (rp, d') \<Rightarrow> (login_answer (next_href params) (Got rp), rp, d'))"

definition justReset :: "query_string \<Rightarrow> bool" where
  "justReset params \<longleftrightarrow> qs_get params ''reset'' = Some ''1''"

section \<open>Forgotten passwords\<close>

definition forgot_answer :: "'j fetched \<Rightarrow> ui" where
  "forgot_answer f = (case f of Fetch_failed \<Rightarrow> Boundary
     | Got rp \<Rightarrow> if resp_ok rp then Sent else Tell (field_or rp ''error'' ''Something went wrong. Try again.''))"

definition ForgotForm :: "'j app \<Rightarrow> 'j http_req \<Rightarrow> string \<Rightarrow> db \<Rightarrow> ui \<times> mail option \<times> db" where
  "ForgotForm ap rq email d = (case forgot_POST ap (rq\<lparr>hr_body := Some (JObj [(''email'', JStr email)])\<rparr>) d of
     (rp, m, d') \<Rightarrow> (forgot_answer (Got rp), m, d'))"

datatype reset_state = Checking | Invalid | Ready

definition location_hash :: "string \<Rightarrow> string" where
  \<comment> \<open>\<open>window.location.hash.slice(1)\<close>\<close>
  "location_hash url = drop 1 (dropWhile (\<lambda>c. c \<noteq> CHR ''#'') url)"

definition hash_token :: "(string \<Rightarrow> query_string) \<Rightarrow> string \<Rightarrow> string" where
  \<comment> \<open>the parameter is \<open>new URLSearchParams\<close> on a string\<close>
  "hash_token usp url = str_of (qs_get (usp (location_hash url)) ''token'')"

definition check_body :: "string \<Rightarrow> json" where
  "check_body token = JObj [(''token'', JStr token), (''check'', JBool True)]"

definition check_answer :: "'j fetched \<Rightarrow> reset_state" where
  "check_answer f = (case f of Fetch_failed \<Rightarrow> Invalid
     | Got rp \<Rightarrow> if field_truthy rp ''valid'' then Ready else Invalid)"

definition open_reset :: "(string \<Rightarrow> query_string) \<Rightarrow> 'j app \<Rightarrow> 'j http_req \<Rightarrow> string \<Rightarrow> db \<Rightarrow> reset_state \<times> string \<times> db" where
  \<comment> \<open>the effect of mounting the form at an address, once the check is answered\<close>
  "open_reset usp ap rq url d = (let t = hash_token usp url
     in if t = [] then (Invalid, t, d)
        else (case reset_POST ap (rq\<lparr>hr_body := Some (check_body t)\<rparr>) d of (rp, d') \<Rightarrow> (check_answer (Got rp), t, d')))"

definition reset_body :: "string \<Rightarrow> string \<Rightarrow> string \<Rightarrow> json" where
  "reset_body token password confirm = JObj [(''token'', JStr token), (''password'', JStr password), (''password_confirm'', JStr confirm)]"

definition reset_answer :: "'j fetched \<Rightarrow> ui" where
  "reset_answer f = (case f of Fetch_failed \<Rightarrow> Boundary
     | Got rp \<Rightarrow> if resp_ok rp then Push ''/login?reset=1'' else Tell (field_or rp ''error'' ''Something went wrong. Try again.''))"

definition submit_reset :: "'j app \<Rightarrow> 'j http_req \<Rightarrow> string \<Rightarrow> string \<Rightarrow> string \<Rightarrow> db \<Rightarrow> ui \<times> db" where
  "submit_reset ap rq token password confirm d =
    (case reset_POST ap (rq\<lparr>hr_body := Some (reset_body token password confirm)\<rparr>) d of (rp, d') \<Rightarrow> (reset_answer (Got rp), d'))"

section \<open>Viewing as someone else\<close>

definition impersonate_answer :: "'j fetched \<Rightarrow> ui" where
  "impersonate_answer f = (case f of Fetch_failed \<Rightarrow> Tell ''could not start''
     | Got rp \<Rightarrow> if \<not> resp_ok rp then Tell (field_nullish rp ''error'' ''could not start'') else Open ''/'')"

definition press_view_as :: "'j app \<Rightarrow> 'j http_req \<Rightarrow> int \<Rightarrow> bool \<Rightarrow> db \<Rightarrow> ui \<times> 'j reply option \<times> db" where
  \<comment> \<open>with the answer to the confirmation\<close>
  "press_view_as ap rq userId confirmed d = (if \<not> confirmed then (Nothing, None, d)
     else (case impersonate_POST ap (rq\<lparr>hr_body := Some (JObj [(''userId'', JNum userId)])\<rparr>) d of
         (rp, d') \<Rightarrow> (impersonate_answer (Got rp), Some rp, d')))"

definition stop_answer :: "'j fetched \<Rightarrow> ui" where
  "stop_answer f = (case f of Fetch_failed \<Rightarrow> Tell ''could not stop impersonating''
     | Got rp \<Rightarrow> if \<not> resp_ok rp
         then (if field_truthy rp ''signOut'' then Open ''/api/auth/logout''
               else Tell (field_nullish rp ''error'' ''could not stop impersonating''))
         else Open ''/'')"

definition press_stop :: "'j app \<Rightarrow> 'j http_req \<Rightarrow> db \<Rightarrow> ui \<times> 'j reply \<times> db" where
  "press_stop ap rq d = (case impersonate_stop_POST ap rq d of (rp, d') \<Rightarrow> (stop_answer (Got rp), rp, d'))"

section \<open>Bodies and replies\<close>

lemma posted_fields:
  "body_text (Some (login_body e pw n)) ''email'' = e" "body_text (Some (login_body e pw n)) ''password'' = pw"
  "body_field (Some (login_body e pw n)) ''next'' = Some (JStr n)"
  "body_text (Some (check_body t)) ''token'' = t" "body_field (Some (check_body t)) ''check'' = Some (JBool True)"
  "body_text (Some (reset_body t pw c)) ''token'' = t" "body_text (Some (reset_body t pw c)) ''password'' = pw"
  "body_text (Some (reset_body t pw c)) ''password_confirm'' = c" "body_field (Some (reset_body t pw c)) ''check'' = None"
  "body_text (Some (JObj [(''userId'', JNum i)])) ''userId'' = js_String i"
  by (simp_all add: login_body_def check_body_def reset_body_def body_text_def body_field_def jfield_def)

lemma same_origin_body [simp]: "validateSameOrigin ap (rq\<lparr>hr_body := b\<rparr>) = validateSameOrigin ap rq"
  by (simp add: validateSameOrigin_def expectedHost_def Let_def)

lemma session_body [simp]: "req_session ap (rq\<lparr>hr_body := b\<rparr>) d = req_session ap rq d" "req_ip (rq\<lparr>hr_body := b\<rparr>) = req_ip rq"
  "mint ap (rq\<lparr>hr_body := b\<rparr>) c t = mint ap rq c t"
  by (simp_all add: req_session_def req_ip_def req_ms_def mint_def)

lemma read_json:
  "resp_ok (reply_json st fs) \<longleftrightarrow> 200 \<le> st \<and> st \<le> 299" "resp_json (reply_json st fs) = Some (JObj fs)"
  "resp_ok (r\<lparr>rp_cookie := c\<rparr>) = resp_ok r" "resp_json (r\<lparr>rp_cookie := c\<rparr>) = resp_json r"
  "\<not> resp_ok crash" "resp_json crash = None"
  by (simp_all add: resp_ok_def resp_json_def reply_json_def crash_def)

lemma read_fields:
  "body_field (Some (JObj [(k, JStr s)])) k = Some (JStr s)" "body_field (Some (JObj [(k, JBool b)])) k = Some (JBool b)"
  "body_field None k = None"
  "body_text (Some (JObj [(k, JStr s)])) k = s"
  "k' \<noteq> k \<Longrightarrow> body_field (Some (JObj ((k', v) # fs))) k = body_field (Some (JObj fs)) k"
  "k' \<noteq> k \<Longrightarrow> body_text (Some (JObj ((k', v) # fs))) k = body_text (Some (JObj fs)) k"
  "body_field (Some (JObj [])) k = None"
  by (simp_all add: body_field_def body_text_def jfield_def)

lemmas replies = read_json read_fields field_or_def field_nullish_def field_truthy_def reply_error_def

section \<open>What signing in does\<close>


section \<open>What stopping does\<close>

lemma valid_loads:
  assumes "wf_users d" "userStillValid d s v"
  obtains i own where "js_Number s = Some i" "loadUserClaims d i = Some own"
proof -
  obtain i u where i: "js_Number s = Some i" and u: "List.find (\<lambda>u. u_id u = i \<and> u_active u) (users d) = Some u"
    using assms(2) by (auto simp: userStillValid_def split: option.splits)
  then have "find_user d i = Some u" "u_active u"
    using find_SomeD [OF u] wf_find_user [OF assms(1)] by auto
  then show thesis using loadUserClaims_total [OF assms(1)] i that by blast
qed

text \<open>
  The way out of an impersonation whose admin was deactivated is never taken: no state of the database
  makes the stop route ask the banner to sign out, since a session with an invalid origin is refused
  before the origin is looked up.  Such an admin is told unauthorized, nothing is audited, and the
  cookie of the impersonation stays in the browser.
\<close>

theorem stop_never_signs_out:
  assumes "wf_users d" "validateSameOrigin ap rq" "press_stop ap rq d = (ui, rp, d')"
  shows "ui \<noteq> Open ''/api/auth/logout''
    \<and> (\<forall>jwt c origin. hr_session rq = Some jwt \<longrightarrow> verifySession (app_verify ap) (app_env ap) (req_ms rq) jwt = Some c \<longrightarrow>
        c_imp c = Some origin \<longrightarrow> \<not> userStillValid d (i_sub origin) (or0 (i_pwv origin)) \<longrightarrow>
        ui = Tell ''unauthorized'' \<and> rp_cookie rp = None \<and> d' = d)"
proof (intro conjI allI impI)
  have r: "impersonate_stop_POST ap rq d = (rp, d')" "ui = stop_answer (Got rp)"
    using assms(3) by (auto simp: press_stop_def split: prod.splits)
  show "ui \<noteq> Open ''/api/auth/logout''"
  proof (cases "req_session ap rq d")
    case (Some session)
    show ?thesis
    proof (cases "c_imp session")
      case (Some origin)
      have "userStillValid d (i_sub origin) (or0 (i_pwv origin))"
        using getSession_Some [OF \<open>req_session ap rq d = Some session\<close> [unfolded req_session_def]] Some by blast
      then obtain i own where "js_Number (i_sub origin) = Some i" "loadUserClaims d i = Some own"
        using valid_loads [OF assms(1)] by blast
      then show ?thesis
        using r assms(2) \<open>req_session ap rq d = Some session\<close> Some
        by (auto simp: impersonate_stop_POST_def Let_def stop_answer_def replies split: option.splits)
    qed (use r assms(2) Some in \<open>auto simp: impersonate_stop_POST_def Let_def stop_answer_def replies\<close>)
  qed (use r assms(2) in \<open>auto simp: impersonate_stop_POST_def Let_def stop_answer_def replies\<close>)
  fix jwt c origin
  assume "hr_session rq = Some jwt" "verifySession (app_verify ap) (app_env ap) (req_ms rq) jwt = Some c"
    "c_imp c = Some origin" "\<not> userStillValid d (i_sub origin) (or0 (i_pwv origin))"
  then have "req_session ap rq d = None" by (simp add: req_session_def getSession_def)
  then have "rp = reply_error 401 ''unauthorized''" "d' = d"
    using r(1) assms(2) by (simp_all add: impersonate_stop_POST_def Let_def)
  then show "ui = Tell ''unauthorized''" "rp_cookie rp = None" "d' = d"
    by (simp_all add: r(2) stop_answer_def replies) (simp add: reply_json_def)
qed

section \<open>The way through a forgotten password\<close>

lemma forgot_mail:
  assumes "ForgotForm ap rq email d = (ui, Some m, d1)"
  obtains u dx where "ui = Sent" "u \<in> set (users d)" "u_active u" "u_email u = m_to m" "u_email u \<noteq> []"
    "issueResetToken (app_sha ap) (hr_token rq) (hr_now rq) (u_id u) (req_ip rq) d = (Inr (hr_token rq), dx)"
    "m_link m = str_of (publicBaseUrl ap) @ ''/reset-password#token='' @ hr_token rq"
    "users d1 = users dx" "tokens d1 = tokens dx" "roles d1 = roles dx" "next_id dx \<le> next_id d1"
proof -
  obtain rp where r: "forgot_POST ap (rq\<lparr>hr_body := Some (JObj [(''email'', JStr email)])\<rparr>) d = (rp, Some m, d1)"
    "ui = forgot_answer (Got rp)"
    using assms by (auto simp: ForgotForm_def split: prod.splits)
  let ?e = "toLowerCase (trim email)"
  have b: "body_text (Some (JObj [(''email'', JStr email)])) ''email'' = email" by (simp add: read_fields)
  obtain user dx token where f: "?e \<noteq> []" "findActiveUserByEmail ?e d = Some user" "rp = GENERIC"
    "issueResetToken (app_sha ap) (hr_token rq) (hr_now rq) (rt_id user) (req_ip rq) d = (Inr token, dx)"
    "m_to m = rt_email user" "m_link m = str_of (publicBaseUrl ap) @ ''/reset-password#token='' @ token"
    "users d1 = users dx" "tokens d1 = tokens dx" "roles d1 = roles dx" "next_id dx \<le> next_id d1"
    using r(1) by (auto simp: forgot_POST_def Let_def b log_audit_next_id split: option.splits if_splits prod.splits sum.splits)
  obtain u where u: "List.find (\<lambda>u. toLowerCase (u_email u) = toLowerCase ?e \<and> u_active u) (users d) = Some u"
    "user = \<lparr>rt_id = u_id u, rt_email = u_email u, rt_name = u_name u\<rparr>"
    using f(2) by (auto simp: findActiveUserByEmail_def)
  have t: "token = hr_token rq" using f(4) by (simp add: issueResetToken_Inr)
  have "toLowerCase (u_email u) = ?e" "u \<in> set (users d)" "u_active u"
    using find_SomeD [OF u(1)] by simp_all
  moreover have "u_email u \<noteq> []" using f(1) \<open>toLowerCase (u_email u) = ?e\<close> by auto
  moreover have "ui = Sent" by (simp add: r(2) f(3) forgot_answer_def GENERIC_def replies)
  ultimately show thesis using f u(2) t that by auto
qed

lemma link_token:
  assumes "CHR ''#'' \<notin> set base" "usp (''token='' @ t) = [(''token'', t)]"
  shows "hash_token usp (base @ ''/reset-password#token='' @ t) = t"
proof -
  have "dropWhile (\<lambda>c. c \<noteq> CHR ''#'') (base @ ''/reset-password#token='' @ t) = ''#token='' @ t"
    using assms(1) by (induction base) auto
  then have "location_hash (base @ ''/reset-password#token='' @ t) = ''token='' @ t" by (simp add: location_hash_def)
  then show ?thesis unfolding hash_token_def by (simp only: assms(2)) (simp add: qs_get_def str_of_def)
qed

lemma open_reset_check:
  assumes "validateSameOrigin ap rq" "hash_token usp url = t" "t \<noteq> []"
  shows "open_reset usp ap rq url d = (if peekResetToken (app_sha ap) (hr_now rq) t d then Ready else Invalid, t, d)"
  using assms by (simp add: open_reset_def Let_def reset_POST_def posted_fields check_answer_def replies)

lemma open_reset_spent:
  assumes "hash_token usp url = t" "\<And>now. \<not> peekResetToken (app_sha ap) now t d"
  shows "fst (open_reset usp ap rq url d) = Invalid"
proof (cases "validateSameOrigin ap rq \<and> t \<noteq> []")
  case True
  then show ?thesis using open_reset_check [OF _ assms(1), of ap rq d] assms(2) by simp
next
  case False
  then show ?thesis
    using assms(1) by (auto simp: open_reset_def Let_def reset_POST_def check_answer_def forbidden_reply_def replies)
qed

lemma submit_redeems:
  assumes "validateSameOrigin ap rq" "newPasswordError (units pw) (units pw) = None"
    and "recentAuditCountByIp (hr_now rq) (req_ip rq) RESET_ACTION 60 d < RESET_PER_IP"
    and "consumeResetToken (app_bcrypt ap) (hr_salt rq) (app_sha ap) (hr_now rq) t (units pw) d = (Inr (Some e), d2)" "e \<noteq> []"
  obtains d3 where "submit_reset ap rq t pw pw d = (Push ''/login?reset=1'', d3)" "users d3 = users d2"
    "tokens d3 = tokens d2"
  using assms that
  by (simp add: submit_reset_def reset_POST_def Let_def posted_fields reset_answer_def replies truthy_def not_le)

lemma issued_tokens:
  assumes "issueResetToken sha token now i ip d = (Inr v, d')" "distinct (map t_hash (tokens d))"
  shows "distinct (map t_hash (tokens d'))"
    and "tk \<in> set (tokens d') \<Longrightarrow> t_hash tk = sha token \<Longrightarrow> t_user tk = i"
proof -
  let ?d1 = "retire_tokens now i (purge_tokens now d)"
  have fresh: "\<forall>t \<in> set (tokens ?d1). t_hash t \<noteq> sha token"
    and d': "tokens d' = tokens ?d1 @ [\<lparr>t_id = next_id ?d1, t_user = i, t_hash = sha token,
      t_created_at = now, t_expires_at = now + RESET_TTL_MINUTES * 60 * 1000000, t_used_at = None, t_ip = ip\<rparr>]"
    using assms(1) by (simp_all add: issueResetToken_Inr insert_token_Inr)
  have old: "map t_hash (tokens ?d1) = map t_hash (filter (\<lambda>t. \<not> t_expires_at t < now - 24 * 60 * 60 * 1000000) (tokens d))"
    by (simp add: retire_tokens_def purge_tokens_def)
  show "distinct (map t_hash (tokens d'))"
  proof -
    have "distinct (map t_hash (tokens ?d1))" unfolding old by (rule distinct_map_filter [OF assms(2)])
    moreover have "sha token \<notin> set (map t_hash (tokens ?d1))" using fresh by auto
    ultimately show ?thesis unfolding d' map_append distinct_append by simp
  qed
  show "tk \<in> set (tokens d') \<Longrightarrow> t_hash tk = sha token \<Longrightarrow> t_user tk = i"
    using fresh unfolding d' by auto
qed

text \<open>
  C34. A forgotten password is recovered end to end: the link of the mail the forgot form triggers opens,
  during the next half hour, the form for a new password; submitting it sends the browser to the login
  page with the new hash stored for exactly the account the mail went to, ends every session of that
  account, and from then on the link opens as invalid, whoever opens it.
\<close>

theorem reset_walkthrough:
  assumes "ForgotForm ap rq0 email d0 = (ui, Some m, d1)"
    and "wf_users d0" "distinct (map t_hash (tokens d0))" "TOKEN_RE (hr_token rq0)"
    and "CHR ''#'' \<notin> set (str_of (publicBaseUrl ap))" "usp (''token='' @ hr_token rq0) = [(''token'', hr_token rq0)]"
    and "validateSameOrigin ap rq1" "hr_now rq0 \<le> hr_now rq1" "hr_now rq1 < hr_now rq0 + 30 * 60 * 1000000"
    and "validateSameOrigin ap rq2" "hr_now rq0 \<le> hr_now rq2" "hr_now rq2 < hr_now rq0 + 30 * 60 * 1000000"
    and "newPasswordError (units pw) (units pw) = None"
    and "recentAuditCountByIp (hr_now rq2) (req_ip rq2) RESET_ACTION 60 d1 < RESET_PER_IP"
    and "\<forall>u \<in> set (users d0). user_check d1 (set_password (hr_now rq2) (bc_hash (app_bcrypt ap) (hr_salt rq2) (units pw)) u) = None"
  shows "ui = Sent \<and> open_reset usp ap rq1 (m_link m) d1 = (Ready, hr_token rq0, d1)
    \<and> (\<exists>u d3. u \<in> set (users d0) \<and> u_active u \<and> u_email u = m_to m
        \<and> submit_reset ap rq2 (hr_token rq0) pw pw d1 = (Push ''/login?reset=1'', d3)
        \<and> find_user d3 (u_id u) = Some (set_password (hr_now rq2) (bc_hash (app_bcrypt ap) (hr_salt rq2) (units pw)) u)
        \<and> (\<forall>v. v \<le> u_password_version u \<longrightarrow> \<not> userStillValid d3 (js_String (u_id u)) v)
        \<and> (\<forall>rq3. fst (open_reset usp ap rq3 (m_link m) d3) = Invalid))"
proof -
  let ?t = "hr_token rq0" and ?f = "set_password (hr_now rq2) (bc_hash (app_bcrypt ap) (hr_salt rq2) (units pw))"
  obtain u dx where u: "ui = Sent" "u \<in> set (users d0)" "u_active u" "u_email u = m_to m" "u_email u \<noteq> []"
    and iss: "issueResetToken (app_sha ap) ?t (hr_now rq0) (u_id u) (req_ip rq0) d0 = (Inr ?t, dx)"
    and link: "m_link m = str_of (publicBaseUrl ap) @ ''/reset-password#token='' @ ?t"
    and d1: "users d1 = users dx" "tokens d1 = tokens dx" "roles d1 = roles dx" "next_id dx \<le> next_id d1"
    by (rule forgot_mail [OF assms(1)])
  have ht: "hash_token usp (m_link m) = ?t" unfolding link by (rule link_token) (fact assms(5,6))+
  have ne: "?t \<noteq> []" using assms(4) by (auto simp: TOKEN_RE_def)
  have fu: "find_user d0 (u_id u) = Some u" by (rule wf_find_user [OF assms(2) u(2)])
  have same: "token_row now h d1 = token_row now h dx" for now h
    unfolding token_row_def find_user_frame [OF d1(1)] d1(2) ..
  have peek: "peekResetToken (app_sha ap) t ?t d1 \<longleftrightarrow> t < hr_now rq0 + 30 * 60 * 1000000" if "hr_now rq0 \<le> t" for t
    using reset_link_window [OF iss assms(4) fu u(3) that] unfolding peekResetToken_def same by simp
  have us: "users d1 = users d0" using issue_frame(1) [OF iss] d1(1) by simp
  have wf1: "wf_users d1"
    using assms(2) issue_frame(2,3) [OF iss] d1 us by (force simp: wf_users_def)
  obtain tk w where tk: "token_row (hr_now rq2) (app_sha ap ?t) d1 = Some (tk, w)"
    using peek [OF assms(11)] assms(4,12) by (auto simp: peekResetToken_def)
  have own: "t_user tk = u_id u"
    using issued_tokens(2) [OF iss assms(3)] token_row_Some(1,2) [OF tk] d1(2) by simp
  have "find_user d1 (u_id u) = Some u" using wf_find_user [OF wf1] u(2) us by simp
  then have w: "w = u" "find_user d1 (u_id u) = Some u" using token_row_Some(5) [OF tk] own by simp_all
  have up: "update_user (u_id u) ?f d1 = Inr (upd_user (u_id u) ?f d1)"
    using assms(15) u(2) w(2) by (simp add: update_user_def)
  define d2 where "d2 = retire_tokens (hr_now rq2) (u_id u) (upd_user (u_id u) ?f d1)"
  have con: "consumeResetToken (app_bcrypt ap) (hr_salt rq2) (app_sha ap) (hr_now rq2) ?t (units pw) d1 = (Inr (Some (u_email u)), d2)"
    using assms(4) tk up own by (simp add: consumeResetToken_Inr w(1) d2_def)
  obtain d3 where d3: "submit_reset ap rq2 ?t pw pw d1 = (Push ''/login?reset=1'', d3)" "users d3 = users d2" "tokens d3 = tokens d2"
    by (rule submit_redeems [OF assms(10,13,14) con u(5)])
  have row: "find_user d3 (u_id u) = Some (?f u)"
    using update_user_find [OF up set_password_id] w(2) by (simp add: find_user_frame [OF d3(2)] d2_def)
  have "wf_users d2" by (rule consume_laws(1) [OF con wf1])
  then have v: "\<not> userStillValid d3 (js_String (u_id u)) v" if "v \<le> u_password_version u" for v
    using row that userStillValid_iff [of d2 "u_id u" v]
    by (simp add: userStillValid_def d3(2) find_user_frame [OF d3(2)] set_password_def)
  have "spent (app_sha ap ?t) d2"
    using consume_spends [OF con wf1] issued_tokens(1) [OF iss assms(3)] by (simp add: d1(2))
  then have "spent (app_sha ap ?t) d3" by (simp add: spent_def d3(3))
  then have "\<not> peekResetToken (app_sha ap) now ?t d3" for now
    by (simp add: peekResetToken_def spent_refused)
  then have "fst (open_reset usp ap rq3 (m_link m) d3) = Invalid" for rq3
    by (rule open_reset_spent [OF ht])
  moreover have "open_reset usp ap rq1 (m_link m) d1 = (Ready, ?t, d1)"
    using open_reset_check [OF assms(7) ht ne] peek [OF assms(8)] assms(9) by simp
  ultimately show ?thesis using u d3(1) row v by blast
qed

section \<open>The View as button\<close>

text \<open>
  On the list of portal users, View as does what the button promises: pressed on an enabled row by a
  caller who is not impersonating already, it opens the dashboard as that account, or says that there
  is no permission in common; the rows where it is disabled are exactly those the route would refuse as
  inactive.
\<close>

theorem view_as_works:
  assumes "UsersPage ap g le rq sp d = Shown (All_users fl, flash, err)" "l \<in> set (fl_lines fl)" "ul_view_as l = Some enabled"
    and "wf_users d" "req_session ap rq d = Some session" "c_imp session = None" "validateSameOrigin ap rq" "0 < ur_id (ul_user l)"
  shows "fst (press_view_as ap rq (ur_id (ul_user l)) True d) =
    (case loadUserClaims d (ur_id (ul_user l)) of None \<Rightarrow> Tell ''user not found''
     | Some target \<Rightarrow> if c_perms (impersonatedClaims session target) = []
         then Tell (''you hold no permission in common with '' @ c_role target) else Open ''/'')
    \<and> (enabled \<longleftrightarrow> loadUserClaims d (ur_id (ul_user l)) \<noteq> None)"
proof -
  let ?i = "ur_id (ul_user l)"
  have fl: "fl = FullList g le (\<not> hasPerm (Some session) PORTAL_USERS_MANAGE)
      (hasPerm (Some session) PORTAL_USERS_IMPERSONATE) (session_id session) (users_filters sp) d"
    using assms(1,5) by (auto simp: UsersPage_def Let_def split: if_splits)
  have imp: "hasPerm (Some session) PORTAL_USERS_IMPERSONATE" "?i \<noteq> session_id session" "enabled = ur_active (ul_user l)"
    and listed: "ul_user l \<in> set (listUsers g le (users_filters sp) d)"
    using assms(2,3) by (auto simp: fl FullList_def split: if_splits)
  obtain u ro where u: "u \<in> set (users d)" "ul_user l = user_row_view d u ro" using listed listed_row by blast
  then have id: "?i = u_id u" "ur_active (ul_user l) = u_active u" by (simp_all add: user_row_view_def)
  have fu: "find_user d ?i = Some u" using wf_find_user [OF assms(4) u(1)] id by simp
  have load: "loadUserClaims d ?i \<noteq> None \<longleftrightarrow> u_active u"
    using loadUserClaims_total [OF assms(4) fu] fu assms(4)
    by (auto simp: loadUserClaims_def find_user_def wf_users_def find_active)
  have "js_String ?i \<noteq> c_sub session" using imp(2) js_Number_String [of ?i] by (auto simp del: js_Number_String simp: session_id_def or0_def)
  moreover obtain ck where "\<And>claims ttl. mint ap rq claims ttl = Some (ck claims ttl)"
    using mint_total [OF assms(5), of rq] by metis
  ultimately show ?thesis
    using assms(5-8) imp(1,3) id(2) load
    by (auto simp: press_view_as_def impersonate_POST_def Let_def posted_fields impersonate_answer_def forbidden_reply_def replies split: option.splits)
qed

section \<open>A forgotten password, a deactivated admin\<close>

definition root_as_client :: "(string \<times> jwt_payload) http_req" where
  \<comment> \<open>the super admin viewing as the client\<close>
  "root_as_client = sample_req JNull (Some (ae_secret sample_env,
     \<lparr>j_claims = client_session\<lparr>c_imp := Some \<lparr>i_sub = ''1'', i_email = ''root'', i_name = ''R'', i_role = ''super_admin'', i_pwv = Some 0\<rparr>\<rparr>, j_iat = 0, j_exp = 28800\<rparr>))"

definition without_root :: db where
  "without_root = sample_db\<lparr>users := [(sample_user 1 ''root'' 1)\<lparr>u_active := False\<rparr>, sample_user 2 ''cl'' 2]\<rparr>"

theorem stop_never_signs_out_witness:
  "fst (press_stop sample_app root_as_client without_root) = Tell ''unauthorized''
   \<and> snd (snd (press_stop sample_app root_as_client without_root)) = without_root"
proof -
  obtain ui rp d' where p: "press_stop sample_app root_as_client without_root = (ui, rp, d')" by (cases "press_stop sample_app root_as_client without_root")
  have w: "wf_users without_root"
    using sample_db_wf_users by (force simp: wf_users_def without_root_def sample_db_def sample_user_def)
  have o': "validateSameOrigin sample_app root_as_client" using sample_origin by (simp add: root_as_client_def)
  have v: "verifySession (app_verify sample_app) (app_env sample_app) (req_ms root_as_client) (the (hr_session root_as_client))
      = Some (client_session\<lparr>c_imp := Some \<lparr>i_sub = ''1'', i_email = ''root'', i_name = ''R'', i_role = ''super_admin'', i_pwv = Some 0\<rparr>\<rparr>)"
    by (simp add: verifySession_def sample_app_def sample_secret sample_verify_def req_ms_def root_as_client_def sample_req_def)
  have "\<not> userStillValid without_root ''1'' 0"
    by (simp add: userStillValid_def js_defs without_root_def sample_user_def)
  with stop_never_signs_out [OF w o' p] v show ?thesis
    unfolding p by (force simp: root_as_client_def sample_req_def or0_def)
qed

definition plain_rq :: "(string \<times> jwt_payload) http_req" where
  "plain_rq = sample_req JNull None"

lemma plain_origin: "validateSameOrigin sample_app plain_rq"
  using sample_origin by (simp add: plain_rq_def)


definition mail_db :: db where
  "mail_db = sample_db\<lparr>users := [sample_user 1 ''root'' 1, sample_user 2 ''c@d.e'' 2]\<rparr>"

lemma sample_sha: "app_sha sample_app = sample_digest"
  by (simp add: sample_app_def)

theorem reset_walkthrough_witness:
  "\<exists>m d1 d3. ForgotForm sample_app plain_rq ''C@d.e'' mail_db = (Sent, Some m, d1)
    \<and> submit_reset sample_app plain_rq sample_token ''longsecret'' ''longsecret'' d1 = (Push ''/login?reset=1'', d3)"
proof -
  let ?fd = "ForgotForm sample_app plain_rq ''C@d.e'' mail_db"
  have base: "publicBaseUrl sample_app = Some ''https://h''"
    by (simp add: publicBaseUrl_def sample_app_def js_defs str_of_def)
  have f: "hr_now plain_rq = 1000000" "hr_token plain_rq = sample_token" "req_ip plain_rq = None" "hr_salt plain_rq = 0"
    by (simp_all add: plain_rq_def sample_req_def req_ip_def clientIp_def truthy_def)
  have e: "toLowerCase (trim ''C@d.e'') = ''c@d.e''" "email_re ''c@d.e''" by code_simp+
  have u: "findActiveUserByEmail ''c@d.e'' mail_db = Some \<lparr>rt_id = 2, rt_email = ''c@d.e'', rt_name = ''N''\<rparr>"
    by (simp add: findActiveUserByEmail_def mail_db_def sample_user_def toLowerCase_def lower_char_def)
  have i: "\<exists>d'. issueResetToken sample_digest sample_token 1000000 2 None mail_db = (Inr sample_token, d')"
    by (simp add: issueResetToken_Inr insert_token_Inr retire_tokens_def purge_tokens_def mail_db_def sample_db_def
        sample_digest_def fits_def find_user_def sample_user_def)
  have n: "recentAuditCount now x y z v mail_db = 0" "recentAuditCountByIp now None y v d = 0" for now x y z v d
    by (simp_all add: recentAuditCount_def recentAuditCountByIp_def mail_db_def sample_db_def truthy_def)
  have "mailEnabled sample_app" by (simp add: mailEnabled_def base) (simp add: sample_app_def truthy_def)
  then have "\<exists>m d1. ?fd = (Sent, Some m, d1)"
    using i u e by (auto simp: ForgotForm_def forgot_POST_def Let_def plain_origin read_fields f n FORGOT_PER_IP_def FORGOT_PER_EMAIL_def
        forgot_answer_def GENERIC_def replies sample_sha)
  then obtain m d1 where m: "?fd = (Sent, Some m, d1)" by blast
  have w: "wf_users mail_db" "distinct (map t_hash (tokens mail_db))"
    by (simp_all add: wf_users_def mail_db_def sample_db_def sample_user_def toLowerCase_def lower_char_def)
  obtain dx where d1: "users d1 = users mail_db" "roles d1 = roles mail_db"
    using forgot_mail [OF m] issue_frame(1,2) by metis
  have chk: "\<forall>u \<in> set (users mail_db). user_check d1 (set_password (hr_now plain_rq)
      (bc_hash (app_bcrypt sample_app) (hr_salt plain_rq) (units ''longsecret'')) u) = None"
  proof -
    have "bc_hash (app_bcrypt sample_app) 0 (units ''longsecret'') = ''longsecret''" by code_simp
    then show ?thesis
      by (simp add: user_check_None d1 f set_password_def fits_def find_role_def mail_db_def sample_db_def sample_user_def
          toLowerCase_def lower_char_def)
  qed
  have pw: "newPasswordError (units ''longsecret'') (units ''longsecret'') = None"
    by (simp add: newPasswordError_def units_def MAX_PASSWORD_BYTES_def utf8_bmp_def is_high_def)
  have t: "TOKEN_RE (hr_token plain_rq)" using sample_token_ok f by simp
  have h: "CHR ''#'' \<notin> set (str_of (publicBaseUrl sample_app))" by (simp add: base str_of_def)
  have k: "(\<lambda>_. [(''token'', sample_token)]) (''token='' @ hr_token plain_rq) = [(''token'', hr_token plain_rq)]" by (simp add: f)
  have now: "hr_now plain_rq \<le> hr_now plain_rq" "hr_now plain_rq < hr_now plain_rq + 30 * 60 * 1000000" by simp_all
  have lim: "recentAuditCountByIp (hr_now plain_rq) (req_ip plain_rq) RESET_ACTION 60 d1 < RESET_PER_IP"
    by (simp add: f n RESET_PER_IP_def)
  have "\<exists>d3. submit_reset sample_app plain_rq sample_token ''longsecret'' ''longsecret'' d1 = (Push ''/login?reset=1'', d3)"
    using reset_walkthrough [OF m w t h k plain_origin now plain_origin now pw lim chk] unfolding f by blast
  then show ?thesis using m by blast
qed

theorem view_as_works_witness:
  "fst (press_view_as sample_app sample_imp 2 True sample_db) = Open ''/''"
proof -
  obtain fl where fl: "UsersPage sample_app sample_pg (\<lambda>_ _. True) sample_imp no_params sample_db = Shown (All_users fl, users_flash no_params, users_error no_params)"
    and lines: "fl = FullList sample_pg (\<lambda>_ _. True) (\<not> hasPerm (Some root_session) PORTAL_USERS_MANAGE)
      (hasPerm (Some root_session) PORTAL_USERS_IMPERSONATE) (session_id root_session) (users_filters no_params) sample_db"
    using root_manages root_in_session by (simp add: UsersPage_def)
  obtain ro where ro: "find_role sample_db 2 = Some ro" by (simp add: find_role_def sample_db_def)
  let ?r = "user_row_view sample_db (sample_user 2 ''cl'' 2) ro"
  have "user_matches (users_filters no_params) r" for r
    by (simp add: user_matches_def users_filters_def no_params_def truthy_def str_of_def js_defs)
  then have "?r \<in> set (listUsers sample_pg (\<lambda>_ _. True) (users_filters no_params) sample_db)"
    using ro by (subst listed_row) (auto simp: sample_db_def sample_user_def)
  then have "?r \<in> ul_user ` set (fl_lines fl)" by (simp add: lines FullList_def image_image)
  then obtain l where l: "l \<in> set (fl_lines fl)" "ul_user l = ?r" by auto
  have id: "ur_id (ul_user l) = 2" "ur_active (ul_user l)" by (simp_all add: l(2) user_row_view_def sample_user_def)
  have "ul_view_as l = (if ur_id (ul_user l) \<noteq> session_id root_session then Some (ur_active (ul_user l)) else None)"
    using l(1) root_fields(3) by (auto simp: lines FullList_def hasPerm_def)
  then have on: "ul_view_as l = Some True" using id root_fields(1) by (simp add: session_id_def or0_def)
  have org: "validateSameOrigin sample_app sample_imp" using sample_origin by (simp add: sample_imp_def)
  have "REPORTS_VIEW_OWN \<in> set (c_perms (impersonatedClaims root_session client_claims))"
    using root_fields(4) client_perm by (simp add: impersonated_perms expandPerms_iff)
  then have ne: "c_perms (impersonatedClaims root_session client_claims) \<noteq> []" by auto
  show ?thesis
    using view_as_works [OF fl l(1) on sample_db_wf_users root_in_session root_fields(2) org] id ne by (simp add: client_loaded)
qed

end
