(* ===== verification/Report_Pages.thy ===== *)
theory Report_Pages
  imports Search_Params Rollup_Views
begin

text \<open>
  The two traffic listings as the browser gets them, \<^verbatim>\<open>(authed)/reports/page.tsx\<close> and
  \<^verbatim>\<open>(authed)/sessions/page.tsx\<close>, with the bar of quick filters (\<^verbatim>\<open>_filterBar.tsx\<close>) and the
  filter form they share (\<^verbatim>\<open>reports/Filters.tsx\<close>), whose second button queues an export.  A link and
  a submitted form are lists of pairs, read back by the page they lead to.
\<close>

section \<open>The filter bar\<close>

definition OPERATORS :: "string list" where
  "OPERATORS = [''vodacom'', ''airtel'', ''tigo'', ''halotel'']"

definition setQs :: "params \<Rightarrow> (string \<times> param option) list \<Rightarrow> pairs" where
  "setQs sp overrides = filter (\<lambda>q. fst q \<noteq> ''page'')
     (foldl put_entry (foldl put_entry [] (filter (\<lambda>e. fst e \<notin> set (map fst overrides)) sp))
        (List.map_filter (\<lambda>(k, v). map_option (Pair k) v) overrides))"

definition operator_list :: "params \<Rightarrow> string list" where
  "operator_list sp = (case map_of sp ''operator'' of None \<Rightarrow> [] | Some (Many xs) \<Rightarrow> xs | Some (One s) \<Rightarrow> [s])"

definition toggleOperator :: "params \<Rightarrow> string \<Rightarrow> pairs" where
  "toggleOperator sp op =
    (let arr = operator_list sp; nxt = (if op \<in> set arr then filter (\<lambda>x. x \<noteq> op) arr else arr @ [op])
     in setQs sp [(''operator'', if length nxt \<noteq> 0 then Some (Many nxt) else None)])"

definition isOperatorActive :: "params \<Rightarrow> string \<Rightarrow> bool" where
  "isOperatorActive sp op = (case map_of sp ''operator'' of None \<Rightarrow> False | Some (Many xs) \<Rightarrow> op \<in> set xs | Some (One s) \<Rightarrow> s = op)"

record QuickPick =
  qp_label :: string
  qp_ms :: int

definition QUICK_PICKS :: "QuickPick list" where
  "QUICK_PICKS = [\<lparr>qp_label = ''1h'', qp_ms = 1 * 3600 * 1000\<rparr>, \<lparr>qp_label = ''24h'', qp_ms = 24 * 3600 * 1000\<rparr>,
     \<lparr>qp_label = ''7d'', qp_ms = 168 * 3600 * 1000\<rparr>, \<lparr>qp_label = ''30d'', qp_ms = 720 * 3600 * 1000\<rparr>,
     \<lparr>qp_label = ''90d'', qp_ms = 2160 * 3600 * 1000\<rparr>]"

definition quickPickHref :: "int \<Rightarrow> params \<Rightarrow> QuickPick \<Rightarrow> pairs" where
  "quickPickHref now sp pick = setQs sp [(''from'', Some (One (iso_day (now - qp_ms pick)))), (''to'', None)]"

definition pickActive :: "int \<Rightarrow> params \<Rightarrow> QuickPick \<Rightarrow> bool" where
  "pickActive now sp pick = (if \<not> param_truthy (map_of sp ''from'') \<or> param_truthy (map_of sp ''to'') then False
     else map_of sp ''from'' = Some (One (iso_day (now - qp_ms pick))))"

definition picks :: "int option \<Rightarrow> QuickPick list" where
  \<comment> \<open>\<open>Math.round\<close> of the days of a pick\<close>
  "picks maxWindowDays = (case maxWindowDays of None \<Rightarrow> QUICK_PICKS
     | Some m \<Rightarrow> filter (\<lambda>p. (2 * qp_ms p + 24 * 3600 * 1000) div (2 * (24 * 3600 * 1000)) \<le> m) QUICK_PICKS)"

record bar_link =
  bl_label :: string
  bl_active :: bool
  bl_href :: pairs

record filter_bar =
  fb_operators :: "bar_link list"
  fb_any_operator :: "pairs option"    \<comment> \<open>clear\<close>
  fb_ranges :: "bar_link list"
  fb_any_range :: "pairs option"       \<comment> \<open>clear\<close>

definition FilterBar :: "int \<Rightarrow> params \<Rightarrow> int option \<Rightarrow> filter_bar" where
  "FilterBar now sp maxWindowDays =
    \<lparr>fb_operators = map (\<lambda>op. \<lparr>bl_label = op, bl_active = isOperatorActive sp op, bl_href = toggleOperator sp op\<rparr>) OPERATORS,
     fb_any_operator = (if (case map_of sp ''operator'' of Some (Many xs) \<Rightarrow> length xs > 0 | v \<Rightarrow> param_truthy v)
        then Some (setQs sp [(''operator'', None)]) else None),
     fb_ranges = map (\<lambda>p. \<lparr>bl_label = qp_label p, bl_active = pickActive now sp p, bl_href = quickPickHref now sp p\<rparr>)
       (picks maxWindowDays),
     fb_any_range = (if param_truthy (map_of sp ''from'') \<or> param_truthy (map_of sp ''to'')
        then Some (setQs sp [(''from'', None), (''to'', None)]) else None)\<rparr>"

section \<open>The filter form\<close>

definition PAGE_SIZES :: "int list" where "PAGE_SIZES = [10, 25, 50, 100]"

definition STATUSES :: "string list" where
  \<comment> \<open>the options of Status\<close>
  "STATUSES = [''any'', ''ok'', ''error'', ''shortcode_not_found'', ''auth_failed'', ''handler_timeout'', ''non2xx'', ''transport'']"

definition select_value :: "string list \<Rightarrow> string \<Rightarrow> string" where
  \<comment> \<open>a select shows the option of its default value, or else its first\<close>
  "select_value options v = (if v \<in> set options then v else hd options)"

definition text_value :: "string \<Rightarrow> string" where
  \<comment> \<open>a text input keeps no line breaks\<close>
  "text_value s = filter (\<lambda>c. c \<noteq> CHR 0x0A \<and> c \<noteq> CHR 0x0D) s"

definition date_value :: "string \<Rightarrow> string" where
  \<comment> \<open>a date input holds a calendar date or nothing\<close>
  "date_value s = (if fmt_date (parse_date s) = s \<and> take 4 s \<noteq> ''0000'' then s else [])"

definition form_fields :: "ReportFilters \<Rightarrow> int \<Rightarrow> ShortcodeOption list \<Rightarrow> pairs" where
  \<comment> \<open>\<open>Filters\<close>, submitted as it was rendered\<close>
  "form_fields defaults pageSize shortcodeOptions =
     [(''from'', date_value (str_of (rf_fromTs defaults))), (''to'', date_value (str_of (rf_toTs defaults))),
      (''msisdn'', text_value (str_of (rf_msisdn defaults))), (''session_id'', text_value (str_of (rf_sessionId defaults))),
      (''error_class'', select_value STATUSES (case rf_errorClass defaults of None \<Rightarrow> ''any'' | Some e \<Rightarrow> e)),
      (''page_size'', select_value (map js_String PAGE_SIZES) (js_String pageSize))]
     @ map (Pair ''operator'') (filter (\<lambda>op. op \<in> set (rf_operators defaults)) OPERATORS)
     @ (if length shortcodeOptions > 0
        then map (\<lambda>o'. (''shortcode_id'', js_String (so_id o')))
          (filter (\<lambda>o'. js_String (so_id o') \<in> set (map js_String (rf_shortcodeIds defaults))) shortcodeOptions)
        else [])"

definition export_form :: "string \<Rightarrow> ReportFilters \<Rightarrow> int \<Rightarrow> ShortcodeOption list \<Rightarrow> form" where
  \<comment> \<open>the same form, submitted by Export CSV\<close>
  "export_form action defaults pageSize shortcodeOptions = form_fields defaults pageSize shortcodeOptions
     @ [(''granularity'', if action = ''/sessions'' then ''sessions'' else ''legs'')]"

lemma date_value_fmt:
  assumes "0 \<le> z" "z < 2786860"
  shows "date_value (fmt_date z) = fmt_date z"
proof -
  obtain y m d where c: "civil_from_days z = (y, m, d)" by (cases "civil_from_days z")
  note r = civil_ranges [OF c assms]
  have "take 4 (fmt_date z) = pad 4 (nat y)" using r by (simp add: fmt_date_def c length_pad4)
  moreover have "pad 4 (nat y) \<noteq> ''0000''"
  proof
    assume "pad 4 (nat y) = ''0000''"
    then have "digits_val (pad 4 (nat y)) = digits_val ''0000''" by (rule arg_cong)
    moreover have "digits_val ''0000'' = 0" by (simp add: js_defs)
    ultimately show False using r by simp
  qed
  ultimately show ?thesis using assms by (simp add: date_value_def parse_fmt_date)
qed

section \<open>The pages\<close>

record pg_failure =
  pf_code :: "string option"
  pf_message :: "string option"

definition PG_STATEMENT_TIMEOUT :: string where "PG_STATEMENT_TIMEOUT = ''57014''"

definition text_includes :: "string \<Rightarrow> string \<Rightarrow> bool" where
  "text_includes s pat \<longleftrightarrow> list_ex (\<lambda>i. startsWith (drop i s) pat) [0..<Suc (length s)]"

definition isPgTimeoutError :: "pg_failure \<Rightarrow> bool" where
  "isPgTimeoutError e \<longleftrightarrow> pf_code e = Some PG_STATEMENT_TIMEOUT \<or> text_includes (toLowerCase (str_of (pf_message e))) ''query read timeout''"

datatype 'v listing =
    No_session
  | Listed 'v
  | Too_long pairs int           \<comment> \<open>the form and the days of the window\<close>
  | Rethrown pg_failure

record pager =
  pr_prev :: pairs
  pr_prev_on :: bool
  pr_next :: pairs
  pr_next_on :: bool

definition pager_of :: "params \<Rightarrow> int \<Rightarrow> int \<Rightarrow> int \<Rightarrow> bool \<Rightarrow> pager option" where
  \<comment> \<open>of the page, its size, the total and whether that is capped\<close>
  "pager_of sp page pageSize known capped =
    (let totalPages = max 1 (ceil_div known pageSize)
     in if known > pageSize then Some \<lparr>pr_prev = buildQs sp [(''page'', Some (js_String (max 1 (page - 1))))], pr_prev_on = (page > 1),
          pr_next = buildQs sp [(''page'', Some (js_String (page + 1)))], pr_next_on = (\<not> (page \<ge> totalPages \<and> \<not> capped))\<rparr>
        else None)"

record 'r traffic_view =
  tv_rows :: "'r list"
  tv_known :: int
  tv_capped :: bool
  tv_from :: int
  tv_to :: int
  tv_summary :: BillableSummary
  tv_bar :: filter_bar
  tv_form :: pairs
  tv_export :: form
  tv_pager :: "pager option"
  tv_notice :: bool                \<comment> \<open>the window was shortened\<close>

record browse =
  \<comment> \<open>what a page is rendered with besides the database: the clock, \<open>Date\<close>, the configured maximum, and
      what the queries fail with\<close>
  bw_now :: int
  bw_date_ms :: "string \<Rightarrow> int option"
  bw_maxDays :: int
  bw_failure :: "pg_failure option"
  bw_picker_fails :: bool          \<comment> \<open>the second load of the picker\<close>

definition page_no :: "params \<Rightarrow> int" where "page_no sp = asPositiveInt (map_of sp ''page'') 1 None"

definition page_len :: "params \<Rightarrow> int" where "page_len sp = asPositiveInt (map_of sp ''page_size'') 10 (Some 100)"

definition ReportsPage :: "'j app \<Rightarrow> pg \<Rightarrow> (string \<Rightarrow> string \<Rightarrow> bool) \<Rightarrow> browse \<Rightarrow> 'j http_req \<Rightarrow> params \<Rightarrow> db \<Rightarrow> leg_row list
    \<Rightarrow> ReportRow traffic_view listing" where
  "ReportsPage ap g le bw rq sp d logs = (case req_session ap rq d of None \<Rightarrow> No_session
     | Some session \<Rightarrow>
        (let acl = sessionAcl (Some session); filters = parseFilters (bw_now bw) sp; page = page_no sp; pageSize = page_len sp;
             windowDays = daysBetween (bw_date_ms bw) (bw_now bw) (rf_fromTs filters) (rf_toTs filters)
         in case bw_failure bw of
              Some e \<Rightarrow> (if \<not> isPgTimeoutError e then Rethrown e
                else Too_long (form_fields filters pageSize (if bw_picker_fails bw then [] else loadShortcodeOptions le acl d)) windowDays)
            | None \<Rightarrow>
               (let r = loadReportPage g filters acl page pageSize d logs; opts = loadShortcodeOptions le acl d
                in Listed \<lparr>tv_rows = rp_rows r, tv_known = int (rp_totalKnown r), tv_capped = rp_totalCapped r,
                     tv_from = (if rp_rows r \<noteq> [] then (page - 1) * pageSize + 1 else 0),
                     tv_to = (page - 1) * pageSize + int (length (rp_rows r)),
                     tv_summary = loadBillableSummary g le filters acl d logs, tv_bar = FilterBar (bw_now bw) sp None,
                     tv_form = form_fields filters pageSize opts, tv_export = export_form ''/reports'' filters pageSize opts,
                     tv_pager = pager_of sp page pageSize (int (rp_totalKnown r)) (rp_totalCapped r), tv_notice = False\<rparr>)))"

definition SessionsPage :: "'j app \<Rightarrow> pg \<Rightarrow> (string \<Rightarrow> string \<Rightarrow> bool) \<Rightarrow> browse \<Rightarrow> 'j http_req \<Rightarrow> params \<Rightarrow> db \<Rightarrow> rollup_row list option
    \<Rightarrow> leg_row list \<Rightarrow> SessionRow traffic_view listing" where
  "SessionsPage ap g le bw rq sp d rollup logs = (case req_session ap rq d of None \<Rightarrow> No_session
     | Some session \<Rightarrow>
        (let acl = sessionAcl (Some session); (filters, clampedFrom) = sessions_parseFilters (bw_date_ms bw) (bw_maxDays bw) (bw_now bw) sp;
             page = page_no sp; pageSize = page_len sp;
             windowDays = daysBetween (bw_date_ms bw) (bw_now bw) (rf_fromTs filters) (rf_toTs filters)
         in case bw_failure bw of
              Some e \<Rightarrow> (if \<not> isPgTimeoutError e then Rethrown e
                else Too_long (form_fields filters pageSize (if bw_picker_fails bw then [] else loadShortcodeOptions le acl d)) windowDays)
            | None \<Rightarrow>
               (let r = loadSessionPage g le (iso_day (bw_now bw)) filters acl page pageSize d rollup logs; opts = loadShortcodeOptions le acl d
                in Listed \<lparr>tv_rows = sp_rows r, tv_known = sp_totalKnown r, tv_capped = sp_totalCapped r,
                     tv_from = (if sp_rows r \<noteq> [] then (page - 1) * pageSize + 1 else 0),
                     tv_to = (page - 1) * pageSize + int (length (sp_rows r)),
                     tv_summary = loadBillableSummary g le filters acl d logs,
                     tv_bar = FilterBar (bw_now bw) sp (if bw_maxDays bw > 0 then Some (bw_maxDays bw) else None),
                     tv_form = form_fields filters pageSize opts, tv_export = export_form ''/sessions'' filters pageSize opts,
                     tv_pager = pager_of sp page pageSize (sp_totalKnown r) (sp_totalCapped r), tv_notice = truthy clampedFrom\<rparr>)))"

section \<open>Following a link of the bar\<close>

definition as_read :: "param \<Rightarrow> param option" where
  \<comment> \<open>a value as the page of the link reads it back\<close>
  "as_read v = (case v of Many [] \<Rightarrow> None | Many [s] \<Rightarrow> Some (One s) | _ \<Rightarrow> Some v)"

lemma read_distinct:
  assumes "distinct (map fst es)"
  shows "read_param (concat (map entry_pairs es)) k = (case map_of es k of None \<Rightarrow> None | Some v \<Rightarrow> as_read v)"
  using entries_values [OF assms, of k]
  by (cases "map_of es k") (auto simp: read_param_def as_read_def split: param.splits list.splits)

lemma map_of_keep: "map_of (filter (\<lambda>e. P (fst e)) es) k = (if P k then map_of es k else None)"
  by (induction es) auto

lemma read_without: "read_param (filter (\<lambda>q. fst q \<noteq> k) ps) k' = (if k' = k then None else read_param ps k')"
proof -
  have "filter (\<lambda>q. fst q = k') (filter (\<lambda>q. fst q \<noteq> k) ps) = (if k' = k then [] else filter (\<lambda>q. fst q = k') ps)"
    by (auto simp: filter_filter filter_empty_conv intro: filter_cong)
  then show ?thesis by (simp add: read_param_def)
qed

lemma given_keys: "fst ` set (List.map_filter (\<lambda>(k, v). map_option (Pair k) v) ov) \<subseteq> fst ` set ov"
  by (force simp: List.map_filter_def)

lemma given_distinct: "distinct (map fst ov) \<Longrightarrow> distinct (map fst (List.map_filter (\<lambda>(k, v). map_option (Pair k) v) ov))"
proof (induction ov)
  case (Cons e ov)
  then show ?case using given_keys [of ov] by (cases e; cases "snd e") auto
qed simp

lemma map_of_given:
  "distinct (map fst ov) \<Longrightarrow> map_of (List.map_filter (\<lambda>(k, v). map_option (Pair k) v) ov) k
    = (case map_of ov k of None \<Rightarrow> None | Some v \<Rightarrow> v)"
proof (induction ov)
  case (Cons e ov)
  have "map_of (List.map_filter (\<lambda>(k, v). map_option (Pair k) v) ov) k = None" if "k \<notin> fst ` set ov"
    using that given_keys [of ov] by (auto simp: map_of_eq_None_iff)
  then show ?case using Cons by (cases e; cases "snd e") auto
qed simp

lemma followed_bar:
  assumes "url_params sp" "distinct (map fst ov)"
  shows "map_of (read_params (setQs sp ov)) k = (if k = ''page'' then None
    else case map_of ov k of None \<Rightarrow> map_of sp k | Some None \<Rightarrow> None | Some (Some v) \<Rightarrow> as_read v)"
proof -
  let ?sp = "filter (\<lambda>e. fst e \<notin> set (map fst ov)) sp" and ?ov = "List.map_filter (\<lambda>(k, v). map_option (Pair k) v) ov"
  have d: "distinct (map fst (?sp @ ?ov))"
    using assms given_keys [of ov] given_distinct [OF assms(2)] by (auto simp: url_params_def distinct_map_filter)
  have "foldl put_entry (foldl put_entry [] ?sp) ?ov = concat (map entry_pairs (?sp @ ?ov))"
    using put_entries [OF d, of "[]"] by (simp add: foldl_append)
  moreover have "map_of (?sp @ ?ov) k = (case map_of ov k of None \<Rightarrow> map_of sp k | Some v \<Rightarrow> v)"
  proof (cases "map_of ov k")
    case None
    then have "k \<notin> set (map fst ov)" by (simp add: map_of_eq_None_iff)
    then show ?thesis
      using map_of_keep [of "\<lambda>k. k \<notin> set (map fst ov)" sp k] map_of_given [OF assms(2), of k] None
      by (simp add: map_add_def split: option.split)
  next
    case (Some v)
    then have "k \<in> set (map fst ov)" using map_of_SomeD [OF Some] by force
    then show ?thesis
      using map_of_keep [of "\<lambda>k. k \<notin> set (map fst ov)" sp k] map_of_given [OF assms(2), of k] Some by (simp add: map_add_def)
  qed
  moreover have "as_read v = Some v" if "map_of sp k = Some v" for v
    using assms(1) map_of_SomeD [OF that] by (auto simp: url_params_def as_read_def split: param.splits list.splits)
  ultimately show ?thesis
    unfolding setQs_def map_of_read read_without using read_distinct [OF d, of k] by (auto split: option.splits)
qed

lemma active_listed: "isOperatorActive sp op \<longleftrightarrow> op \<in> set (operator_list sp)"
  by (auto simp: isOperatorActive_def operator_list_def split: option.splits param.splits)

lemma operators_listed: "rf_operators (parseFilters now sp) = filter (\<lambda>s. length s > 0) (operator_list sp)"
  by (simp add: parseFilters_def asStringArray_def operator_list_def)

lemma read_operators:
  "map_of sp' ''operator'' = (if xs = [] then None else as_read (Many xs)) \<Longrightarrow> operator_list sp' = xs"
  by (cases xs; cases "tl xs") (auto simp: operator_list_def as_read_def)

lemma toggled_list:
  assumes "url_params sp"
  shows "operator_list (read_params (toggleOperator sp op)) = (if op \<in> set (operator_list sp)
      then filter (\<lambda>x. x \<noteq> op) (operator_list sp) else operator_list sp @ [op])" (is "_ = ?nxt")
    and "k \<noteq> ''operator'' \<Longrightarrow> k \<noteq> ''page'' \<Longrightarrow> map_of (read_params (toggleOperator sp op)) k = map_of sp k"
    and "map_of (read_params (toggleOperator sp op)) ''page'' = None"
proof -
  have t: "toggleOperator sp op = setQs sp [(''operator'', if ?nxt = [] then None else Some (Many ?nxt))]"
    by (simp add: toggleOperator_def Let_def)
  note r = followed_bar [OF assms, of "[(''operator'', if ?nxt = [] then None else Some (Many ?nxt))]", folded t]
  show "operator_list (read_params (toggleOperator sp op)) = ?nxt"
    by (rule read_operators) (simp add: r del: set_append)
  show "map_of (read_params (toggleOperator sp op)) ''page'' = None" by (simp add: r)
  show "k \<noteq> ''operator'' \<Longrightarrow> k \<noteq> ''page'' \<Longrightarrow> map_of (read_params (toggleOperator sp op)) k = map_of sp k"
    by (simp add: r)
qed

text \<open>
  A pill of the filter bar switches exactly its operator on or off: the page it leads to highlights
  the other pills as before, reads the same filters apart from the operators, whose set gains or loses
  that operator only, and starts again at the first page with the same page size.
\<close>

theorem pills_toggle:
  assumes "url_params sp" "op \<in> set OPERATORS"
  shows "(isOperatorActive (read_params (toggleOperator sp op)) op' \<longleftrightarrow> isOperatorActive sp op' \<noteq> (op' = op))
    \<and> (\<exists>ops. parseFilters now (read_params (toggleOperator sp op)) = (parseFilters now sp)\<lparr>rf_operators := ops\<rparr>
        \<and> set ops = (if isOperatorActive sp op then set (rf_operators (parseFilters now sp)) - {op}
            else insert op (set (rf_operators (parseFilters now sp)))))
    \<and> page_no (read_params (toggleOperator sp op)) = 1 \<and> page_len (read_params (toggleOperator sp op)) = page_len sp"
proof -
  let ?sp = "read_params (toggleOperator sp op)"
  note l = toggled_list [OF assms(1), where op = op]
  have ne: "op \<noteq> []" using assms(2) by (auto simp: OPERATORS_def)
  have "parseFilters now ?sp = (parseFilters now sp)\<lparr>rf_operators := rf_operators (parseFilters now ?sp)\<rparr>"
    by (simp add: parseFilters_def defaultFromIfMissing_def l(2) split: option.split)
  moreover have "set (rf_operators (parseFilters now ?sp)) = (if isOperatorActive sp op
      then set (rf_operators (parseFilters now sp)) - {op} else insert op (set (rf_operators (parseFilters now sp))))"
    using ne by (auto simp: operators_listed l(1) active_listed)
  moreover have "isOperatorActive ?sp op' \<longleftrightarrow> isOperatorActive sp op' \<noteq> (op' = op)"
    by (auto simp: active_listed l(1))
  ultimately show ?thesis by (auto simp: page_no_def page_len_def l asPositiveInt_def asString_def)
qed

section \<open>The quick ranges\<close>

lemma day_diff: "(now - 86400000 * q) div 86400000 = now div 86400000 - (q :: int)"
  using div_mult_self2 [of 86400000 now "- q"] by simp

lemma pick_fits:
  assumes "p \<in> set (picks (Some k))" "0 < k"
  shows "now div 86400000 - (now - qp_ms p) div 86400000 \<le> k"
proof -
  have "(now - qp_ms p) div 86400000 = now div 86400000 - j" if "qp_ms p = 86400000 * j" for j
    unfolding that by (rule day_diff)
  moreover have "qp_ms p = 3600000 \<or> (\<exists>j. qp_ms p = 86400000 * j \<and> j \<le> k)"
    using assms(1) by (auto simp: picks_def QUICK_PICKS_def split: if_splits)
  ultimately show ?thesis using assms(2) by auto
qed

lemma pick_unclamped:
  assumes "utc_dates date_ms" "p \<in> set (picks (if k > 0 then Some k else None))"
    and "0 \<le> now - qp_ms p" "now < 86400000 * 2786860"
    and "rf_fromTs (parseFilters now sp) = Some (iso_day (now - qp_ms p))" "rf_toTs (parseFilters now sp) = None"
  shows "sessions_parseFilters date_ms k now sp = (parseFilters now sp, snd (sessions_parseFilters date_ms k now sp))"
    and "iso_day (now - qp_ms p) \<noteq> []"
proof -
  let ?q = "(now - qp_ms p) div 86400000"
  have "0 \<le> qp_ms p" using assms(2) by (auto simp: picks_def QUICK_PICKS_def split: if_splits)
  then have q: "0 \<le> ?q" "?q < 2786860" using assms(3,4) by simp_all
  then show ne: "iso_day (now - qp_ms p) \<noteq> []" by (simp add: iso_day_def fmt_date_nonempty)
  have ms: "date_ms (iso_day (now - qp_ms p)) = Some (86400000 * ?q)"
    using q assms(1) by (simp add: iso_day_def utc_dates_def)
  have days: "daysBetween date_ms now (rf_fromTs (parseFilters now sp)) (rf_toTs (parseFilters now sp))
      = max 0 (now div 86400000 - ?q) + 1"
    using ne by (simp add: assms(5,6) daysBetween_def truthy_def str_of_def ms day_diff)
  have "iso_day (now - k * 24 * 3600 * 1000) = iso_day (now - qp_ms p)" if "0 < k" "k < max 0 (now div 86400000 - ?q) + 1"
  proof -
    have "k = now div 86400000 - ?q" using pick_fits [of p k now] assms(2) that by simp
    moreover have "(now - 86400000 * k) div 86400000 = now div 86400000 - k" by (rule day_diff)
    moreover have "now - k * 24 * 3600 * 1000 = now - 86400000 * k" by simp
    ultimately have "(now - k * 24 * 3600 * 1000) div 86400000 = ?q" by simp
    then show ?thesis by (simp only: iso_day_def)
  qed
  then show "sessions_parseFilters date_ms k now sp = (parseFilters now sp, snd (sessions_parseFilters date_ms k now sp))"
    unfolding sessions_parseFilters_def Let_def days by (simp add: assms(5,6) truthy_def ne)
qed

text \<open>
  Every quick range offered runs as it says: the page it leads to highlights it, starts on the day
  that many hours ago and has no end, under the other filters as they were; on the sessions page the
  maximum, whatever is configured, shortens none of the ranges that are offered.
\<close>

theorem quick_ranges_run:
  assumes "url_params sp" "utc_dates date_ms" "p \<in> set (picks (if k > 0 then Some k else None))"
    and "0 \<le> now - qp_ms p" "now < 86400000 * 2786860"
  shows "pickActive now (read_params (quickPickHref now sp p)) p
    \<and> parseFilters now (read_params (quickPickHref now sp p))
        = (parseFilters now sp)\<lparr>rf_fromTs := Some (iso_day (now - qp_ms p)), rf_toTs := None\<rparr>
    \<and> fst (sessions_parseFilters date_ms k now (read_params (quickPickHref now sp p)))
        = parseFilters now (read_params (quickPickHref now sp p))"
proof -
  let ?sp = "read_params (quickPickHref now sp p)"
  have r: "map_of ?sp k' = (if k' = ''page'' \<or> k' = ''to'' then None else if k' = ''from'' then Some (One (iso_day (now - qp_ms p)))
      else map_of sp k')" for k'
    by (simp add: quickPickHref_def followed_bar [OF assms(1)] as_read_def)
  have "asString (Some (One (iso_day t))) = (if iso_day t = [] then None else Some (iso_day t))" for t by (simp add: asString_def)
  moreover have "iso_day (now - qp_ms p) \<noteq> []"
  proof -
    have "0 \<le> qp_ms p" using assms(3) by (auto simp: picks_def QUICK_PICKS_def split: if_splits)
    then show ?thesis using assms(4,5) by (simp add: iso_day_def fmt_date_nonempty)
  qed
  ultimately have f: "parseFilters now ?sp = (parseFilters now sp)\<lparr>rf_fromTs := Some (iso_day (now - qp_ms p)), rf_toTs := None\<rparr>"
    by (simp add: parseFilters_def r) (simp add: asString_def)
  then have "rf_fromTs (parseFilters now ?sp) = Some (iso_day (now - qp_ms p))" "rf_toTs (parseFilters now ?sp) = None" by simp_all
  note u = pick_unclamped [OF assms(2-5) this]
  then have "fst (sessions_parseFilters date_ms k now ?sp) = parseFilters now ?sp" by (metis fst_conv)
  then show ?thesis using f u(2) by (simp add: pickActive_def r param_truthy_def)
qed

section \<open>Applying and exporting what is on screen\<close>

definition offered :: "ShortcodeOption list \<Rightarrow> ReportFilters \<Rightarrow> bool" where
  \<comment> \<open>the form has a control for each of the filters\<close>
  "offered opts f \<longleftrightarrow> (truthy (rf_fromTs f) \<or> truthy (rf_toTs f))
     \<and> list_all (\<lambda>s. date_value s = s) [str_of (rf_fromTs f), str_of (rf_toTs f)]
     \<and> list_all (\<lambda>s. text_value s = s \<and> trim s = s) [str_of (rf_msisdn f), str_of (rf_sessionId f)]
     \<and> (\<exists>e \<in> set STATUSES. rf_errorClass f = Some e)
     \<and> set (rf_operators f) \<subseteq> set OPERATORS \<and> set (rf_shortcodeIds f) \<subseteq> so_id ` set opts"

definition same_question :: "ReportFilters \<Rightarrow> ReportFilters \<Rightarrow> bool" where
  "same_question f f' \<longleftrightarrow> str_of (rf_fromTs f) = str_of (rf_fromTs f') \<and> str_of (rf_toTs f) = str_of (rf_toTs f')
     \<and> str_of (rf_msisdn f) = str_of (rf_msisdn f') \<and> str_of (rf_sessionId f) = str_of (rf_sessionId f')
     \<and> rf_errorClass f = rf_errorClass f' \<and> set (rf_operators f) = set (rf_operators f')
     \<and> set (rf_shortcodeIds f) = set (rf_shortcodeIds f')"

lemma truthy_str: "truthy x \<longleftrightarrow> str_of x \<noteq> []"
  by (cases x) (simp_all add: truthy_def str_of_def)

lemma same_question_legs:
  assumes "same_question f f'"
  shows "visible_legs g f acl logs = visible_legs g f' acl logs"
proof -
  have "rf_operators f = [] \<longleftrightarrow> rf_operators f' = []" "rf_shortcodeIds f = [] \<longleftrightarrow> rf_shortcodeIds f' = []"
    using assms by (auto simp: same_question_def)
  then have "leg_matches g m f l = leg_matches g m f' l" for m l
    using assms by (simp add: same_question_def leg_matches_def filter_matches_def in_range_def truthy_str)
  then show ?thesis by (simp add: visible_legs_def)
qed

definition entries :: "ReportFilters \<Rightarrow> int \<Rightarrow> ShortcodeOption list \<Rightarrow> params" where
  \<comment> \<open>\<open>form_fields\<close>, by name\<close>
  "entries f n opts = [(''from'', One (date_value (str_of (rf_fromTs f)))), (''to'', One (date_value (str_of (rf_toTs f)))),
     (''msisdn'', One (text_value (str_of (rf_msisdn f)))), (''session_id'', One (text_value (str_of (rf_sessionId f)))),
     (''error_class'', One (select_value STATUSES (case rf_errorClass f of None \<Rightarrow> ''any'' | Some e \<Rightarrow> e))),
     (''page_size'', One (select_value (map js_String PAGE_SIZES) (js_String n))),
     (''operator'', Many (filter (\<lambda>op. op \<in> set (rf_operators f)) OPERATORS)),
     (''shortcode_id'', Many (map js_String (filter (\<lambda>i. i \<in> set (rf_shortcodeIds f)) (map so_id opts))))]"

lemma js_String_eq [simp]: "js_String i = js_String j \<longleftrightarrow> i = j"
  by (metis js_parseInt_String option.inject)

lemma form_entries: "form_fields f n opts = concat (map entry_pairs (entries f n opts))"
proof -
  have "map (\<lambda>o'. (''shortcode_id'', js_String (so_id o'))) (filter (\<lambda>o'. js_String (so_id o') \<in> set (map js_String is)) opts)
      = map (Pair ''shortcode_id'') (map js_String (filter (\<lambda>i. i \<in> set is) (map so_id opts)))" for "is"
    by (induction opts) (auto simp: image_iff)
  then show ?thesis by (simp add: form_fields_def entries_def entry_pairs_def)
qed

lemma applied_field: "map_of (read_params (form_fields f n opts)) k = (case map_of (entries f n opts) k of None \<Rightarrow> None | Some v \<Rightarrow> as_read v)"
  unfolding map_of_read form_entries by (rule read_distinct) (simp add: entries_def)

lemma read_Many [simp]: "asStringArray (as_read (Many xs)) = filter (\<lambda>s. length s > 0) xs"
  by (cases xs; cases "tl xs") (auto simp: asStringArray_def as_read_def)

lemma ids_back: "List.map_filter js_parseInt (map js_String is) = is"
  by (induction "is") simp_all

lemma offered_fields:
  assumes "offered opts f"
  shows "date_value (str_of (rf_fromTs f)) = str_of (rf_fromTs f)" "date_value (str_of (rf_toTs f)) = str_of (rf_toTs f)"
    "text_value (str_of (rf_msisdn f)) = str_of (rf_msisdn f)" "text_value (str_of (rf_sessionId f)) = str_of (rf_sessionId f)"
    "Some (select_value STATUSES (case rf_errorClass f of None \<Rightarrow> ''any'' | Some e \<Rightarrow> e)) = rf_errorClass f"
    "select_value STATUSES (case rf_errorClass f of None \<Rightarrow> ''any'' | Some e \<Rightarrow> e) \<in> set STATUSES"
    "set (filter (\<lambda>op. op \<in> set (rf_operators f)) OPERATORS) = set (rf_operators f)"
    "set (filter (\<lambda>i. i \<in> set (rf_shortcodeIds f)) (map so_id opts)) = set (rf_shortcodeIds f)"
    "truthy (rf_fromTs f) \<or> truthy (rf_toTs f)"
    "trim (str_of (rf_msisdn f)) = str_of (rf_msisdn f)" "trim (str_of (rf_sessionId f)) = str_of (rf_sessionId f)"
  using assms by (auto simp: offered_def select_value_def)

lemma applied_same:
  assumes "offered opts f"
  shows "same_question f (parseFilters now (read_params (form_fields f n opts)))"
proof -
  note o' = offered_fields [OF assms]
  have one: "str_of (asString (Some (One s))) = s" for s by (simp add: asString_def str_of_def)
  have status: "s \<noteq> []" if "s \<in> set STATUSES" for s using that by (auto simp: STATUSES_def)
  let ?sp = "read_params (form_fields f n opts)"
  have v: "map_of ?sp ''from'' = Some (One (str_of (rf_fromTs f)))" "map_of ?sp ''to'' = Some (One (str_of (rf_toTs f)))"
    "map_of ?sp ''msisdn'' = Some (One (str_of (rf_msisdn f)))" "map_of ?sp ''session_id'' = Some (One (str_of (rf_sessionId f)))"
    "map_of ?sp ''error_class'' = Some (One (select_value STATUSES (case rf_errorClass f of None \<Rightarrow> ''any'' | Some e \<Rightarrow> e)))"
    "map_of ?sp ''operator'' = as_read (Many (filter (\<lambda>op. op \<in> set (rf_operators f)) OPERATORS))"
    "map_of ?sp ''shortcode_id'' = as_read (Many (map js_String (filter (\<lambda>i. i \<in> set (rf_shortcodeIds f)) (map so_id opts))))"
    unfolding applied_field by (simp_all add: entries_def as_read_def o')
  have "str_of (rf_fromTs (parseFilters now ?sp)) = str_of (rf_fromTs f)"
    using o'(9) by (auto simp: parseFilters_def v asString_def defaultFromIfMissing_def param_truthy_def truthy_str str_of_def split: option.splits)
  moreover have "rf_errorClass (parseFilters now ?sp) = rf_errorClass f"
    using status [OF o'(6)] by (intro trans [OF _ o'(5)]) (simp add: parseFilters_def v asString_def Let_def truthy_def)
  moreover have "set (rf_operators (parseFilters now ?sp)) = set (rf_operators f)"
  proof -
    have "filter (\<lambda>s. length s > 0) (filter P OPERATORS) = filter P OPERATORS" for P
      by (intro filter_True) (auto simp: OPERATORS_def)
    then show ?thesis by (simp only: parseFilters_def ReportFilters.simps v read_Many o'(7))
  qed
  moreover have "set (rf_shortcodeIds (parseFilters now ?sp)) = set (rf_shortcodeIds f)"
  proof -
    have "asIntArray (as_read (Many (map js_String xs))) = xs" for xs
      by (simp add: asIntArray_def filter_map comp_def ids_back)
    then have "rf_shortcodeIds (parseFilters now ?sp) = filter (\<lambda>i. i \<in> set (rf_shortcodeIds f)) (map so_id opts)"
      by (simp add: parseFilters_def v)
    then show ?thesis by (simp only: o'(8))
  qed
  moreover have "str_of (rf_toTs (parseFilters now ?sp)) = str_of (rf_toTs f)"
    "str_of (rf_msisdn (parseFilters now ?sp)) = str_of (rf_msisdn f)"
    "str_of (rf_sessionId (parseFilters now ?sp)) = str_of (rf_sessionId f)"
    by (simp_all add: parseFilters_def v one)
  ultimately show ?thesis unfolding same_question_def by simp
qed

lemma date_no_ws: "trim (date_value s) = date_value s"
proof -
  have "\<not> is_ws c" if "c \<in> set (pad w n)" for c w n
    using that dec_no_ws [of n] by (auto simp: pad_def is_ws_def)
  then have "trim (fmt_date z) = fmt_date z" for z
    by (intro trim_no_ws) (auto simp: fmt_date_def is_ws_def split: prod.splits)
  then show ?thesis by (metis date_value_def trim_Nil)
qed

lemma export_field:
  "map_of (export_form action f n opts) k = (case map_of (form_fields f n opts) k of Some v \<Rightarrow> Some v
    | None \<Rightarrow> map_of [(''granularity'', if action = ''/sessions'' then ''sessions'' else ''legs'')] k)"
  by (simp add: export_form_def map_add_def split: option.split)

lemma export_values:
  assumes "k \<noteq> ''granularity''"
  shows "strArrayField (export_form action f n opts) k
    = filter (\<lambda>v. v \<noteq> []) (map trim (case map_of (entries f n opts) k of None \<Rightarrow> [] | Some (One s) \<Rightarrow> [s] | Some (Many xs) \<Rightarrow> xs))"
proof -
  have "map (trim \<circ> snd) (filter (\<lambda>(k', v). k' = k) (export_form action f n opts))
      = map trim (map snd (filter (\<lambda>p. fst p = k) (concat (map entry_pairs (entries f n opts)))))"
    using assms by (simp add: export_form_def form_entries case_prod_beta' comp_def)
  moreover have "distinct (map fst (entries f n opts))" by (simp add: entries_def)
  ultimately show ?thesis unfolding strArrayField_def by (simp only: entries_values)
qed

lemma export_same:
  assumes "offered opts f"
  shows "same_question f (screen_filters (request_filters session (export_form action f n opts)))"
proof -
  note o' = offered_fields [OF assms]
  let ?fd = "export_form action f n opts"
  have "list_all (\<lambda>s. trim s = s \<and> s \<noteq> []) STATUSES" "list_all (\<lambda>s. trim s = s \<and> s \<noteq> []) OPERATORS" by code_simp+
  then have status: "\<And>s. s \<in> set STATUSES \<Longrightarrow> trim s = s \<and> s \<noteq> []"
    and names: "\<And>s. s \<in> set OPERATORS \<Longrightarrow> trim s = s \<and> s \<noteq> []"
    by (simp_all add: list_all_iff)
  have opt: "str_of (fd_opt fd k) = trim (str_of (map_of fd k))" for fd :: form and k
    by (simp add: fd_opt_def fd_str_def fd_get_def Let_def) (simp add: str_of_def)
  have some: "str_of (Some x) = x" for x by (simp add: str_of_def)
  have v: "map_of ?fd ''from'' = Some (date_value (str_of (rf_fromTs f)))" "map_of ?fd ''to'' = Some (date_value (str_of (rf_toTs f)))"
    "map_of ?fd ''msisdn'' = Some (text_value (str_of (rf_msisdn f)))" "map_of ?fd ''session_id'' = Some (text_value (str_of (rf_sessionId f)))"
    "map_of ?fd ''error_class'' = Some (select_value STATUSES (case rf_errorClass f of None \<Rightarrow> ''any'' | Some e \<Rightarrow> e))"
    unfolding export_field by (simp_all add: form_fields_def)
  have ops: "strArrayField ?fd ''operator'' = filter (\<lambda>op. op \<in> set (rf_operators f)) OPERATORS"
  proof -
    have "map trim (filter P OPERATORS) = filter P OPERATORS" for P
      using names by (intro map_idI) auto
    moreover have "filter (\<lambda>s. s \<noteq> []) (filter P OPERATORS) = filter P OPERATORS" for P
      using names by (intro filter_True) auto
    ultimately show ?thesis by (simp add: export_values entries_def del: filter_filter)
  qed
  have ids: "intArrayField ?fd ''shortcode_id'' = filter (\<lambda>i. i \<in> set (rf_shortcodeIds f)) (map so_id opts)"
  proof -
    have "filter (\<lambda>v. v \<noteq> []) (map trim (map js_String xs)) = map js_String xs" for xs
      using trim_no_ws [OF js_String_no_ws] by (simp add: comp_def filter_map)
    moreover have "strArrayField ?fd ''shortcode_id'' = filter (\<lambda>v. v \<noteq> []) (map trim (map js_String
        (filter (\<lambda>i. i \<in> set (rf_shortcodeIds f)) (map so_id opts))))"
      by (subst export_values) (simp_all add: entries_def)
    ultimately show ?thesis by (simp only: intArrayField_def ids_back)
  qed
  have "fd_opt ?fd ''error_class'' = rf_errorClass f"
    using status [OF o'(6)] by (intro trans [OF _ o'(5)]) (simp add: fd_opt_def fd_str_def fd_get_def v str_of_def)
  moreover obtain e where "rf_errorClass f = Some e" using o'(5) by (metis not_Some_eq)
  ultimately have "Some (case fd_opt ?fd ''error_class'' of None \<Rightarrow> ''any'' | Some v \<Rightarrow> v) = rf_errorClass f" by simp
  moreover have "set (strArrayField ?fd ''operator'') = set (rf_operators f)" by (simp only: ops o'(7))
  moreover have "set (intArrayField ?fd ''shortcode_id'') = set (rf_shortcodeIds f)" by (simp only: ids o'(8))
  moreover have "str_of (fd_opt ?fd ''from'') = str_of (rf_fromTs f)" "str_of (fd_opt ?fd ''to'') = str_of (rf_toTs f)"
    "str_of (fd_opt ?fd ''msisdn'') = str_of (rf_msisdn f)" "str_of (fd_opt ?fd ''session_id'') = str_of (rf_sessionId f)"
    using date_no_ws [of "str_of (rf_fromTs f)"] date_no_ws [of "str_of (rf_toTs f)"] by (simp_all only: opt v o' some)
  ultimately show ?thesis unfolding same_question_def screen_filters_def request_filters_def by simp
qed

text \<open>
  C35. What the page of legs shows is what its two buttons act on.  Apply filters, pressed on the form as
  it stands, leads to the same legs; and Export CSV queues a job whose file has exactly one row for each
  leg the listing shows over all its pages, in the same order, under the allowlist of the same session,
  whenever the form has a control for every filter of the address.
\<close>

theorem buttons_act_on_page:
  assumes "ReportsPage ap g le bw rq sp d logs = Listed v" "req_session ap rq d = Some session"
    and "offered (loadShortcodeOptions le (sessionAcl (Some session)) d) (parseFilters (bw_now bw) sp)"
  shows "visible_legs g (parseFilters now (read_params (tv_form v))) (sessionAcl (Some session)) logs
      = visible_legs g (parseFilters (bw_now bw) sp) (sessionAcl (Some session)) logs
    \<and> fd_str (tv_export v) ''granularity'' = ''legs''
    \<and> job_table g le rd Legs (request_filters session (tv_export v)) \<lparr>sn_db = d, sn_logs = logs\<rparr>
      = map (leg_cells rd d) (visible_legs g (parseFilters (bw_now bw) sp) (sessionAcl (Some session)) logs)"
proof -
  let ?f = "parseFilters (bw_now bw) sp" and ?o = "loadShortcodeOptions le (sessionAcl (Some session)) d"
  have v: "tv_form v = form_fields ?f (page_len sp) ?o" "tv_export v = export_form ''/reports'' ?f (page_len sp) ?o"
    using assms(1,2) by (auto simp: ReportsPage_def Let_def split: option.splits if_splits)
  have "map_of (form_fields ?f (page_len sp) ?o) ''granularity'' = None"
    by (auto simp: form_fields_def map_of_eq_None_iff)
  then have "fd_str (tv_export v) ''granularity'' = ''legs''"
    by (simp add: fd_str_def fd_get_def v export_field str_of_def js_defs)
  then show ?thesis
    using same_question_legs [OF applied_same [OF assms(3)]] same_question_legs [OF export_same [OF assms(3)]]
    by (simp add: v job_table_def legs_table_eq request_acl)
qed

section \<open>Walking through the listing\<close>

fun follow_next :: "nat \<Rightarrow> (params \<Rightarrow> ReportRow traffic_view listing) \<Rightarrow> params \<Rightarrow> leg_row list" where
  \<comment> \<open>the legs of at most \<open>n\<close> pages, going on by Next while it is not greyed out\<close>
  "follow_next 0 open sp = []"
| "follow_next (Suc n) open sp = (case open sp of
     Listed v \<Rightarrow> map rr_leg (tv_rows v) @ (case tv_pager v of Some p \<Rightarrow> if pr_next_on p then follow_next n open (read_params (pr_next p)) else []
        | None \<Rightarrow> [])
   | _ \<Rightarrow> [])"

lemma read_url: "url_params (read_params ps)"
proof -
  have m: "map fst (List.map_filter (\<lambda>k. map_option (Pair k) (read_param ps k)) ks) = filter (\<lambda>k. read_param ps k \<noteq> None) ks" for ks
    by (induction ks) (auto split: option.splits)
  have "2 \<le> length xs" if "read_param ps k = Some (Many xs)" for k xs
    using that by (auto simp: read_param_def split: list.splits)
  moreover have "read_param ps (fst e) = Some (snd e)" if "e \<in> set (read_params ps)" for e
    using that by (auto simp: read_params_def List.map_filter_def)
  ultimately have "case snd e of One s \<Rightarrow> True | Many xs \<Rightarrow> 2 \<le> length xs" if "e \<in> set (read_params ps)" for e
    using that by (fastforce split: param.split)
  moreover have "distinct (map fst (read_params ps))" by (simp add: read_params_def m)
  ultimately show ?thesis by (simp add: url_params_def)
qed

lemma page_len_bounds: "1 \<le> page_len sp" "page_len sp \<le> MAX_PAGE_SIZE"
  by (auto simp: page_len_def asPositiveInt_def MAX_PAGE_SIZE_def min_def split: option.splits)

lemma page_no_pos: "1 \<le> page_no sp"
  by (auto simp: page_no_def asPositiveInt_def split: option.splits)

lemma page_link:
  assumes "url_params sp" "1 \<le> n" "nxt = read_params (buildQs sp [(''page'', Some (js_String n))])"
  shows "page_no nxt = n" "page_len nxt = page_len sp" "parseFilters now nxt = parseFilters now sp" "url_params nxt"
proof -
  note l = link_params [OF assms(1), of "js_String n", folded assms(3)]
  show "page_no nxt = n" "page_len nxt = page_len sp"
    using assms(2) by (simp_all add: page_no_def page_len_def l asPositiveInt_def asString_def)
  show "parseFilters now nxt = parseFilters now sp"
    unfolding parseFilters_def defaultFromIfMissing_def by (simp add: l)
  show "url_params nxt" unfolding assms(3) by (rule read_url)
qed

lemma one_page:
  assumes "req_session ap rq d = Some session" "bw_failure bw = None"
  obtains v where "ReportsPage ap g le bw rq sp d logs = Listed v"
    "map rr_leg (tv_rows v) = page_of (nat (page_len sp)) (nat (page_no sp - 1) * nat (page_len sp))
       (visible_legs g (parseFilters (bw_now bw) sp) (sessionAcl (Some session)) logs)"
    "case tv_pager v of Some p \<Rightarrow> pr_next p = buildQs sp [(''page'', Some (js_String (page_no sp + 1)))] | None \<Rightarrow> True"
    "(case tv_pager v of Some p \<Rightarrow> \<not> pr_next_on p | None \<Rightarrow> True) \<Longrightarrow>
       length (visible_legs g (parseFilters (bw_now bw) sp) (sessionAcl (Some session)) logs) \<le> nat (page_no sp) * nat (page_len sp)"
proof -
  let ?f = "parseFilters (bw_now bw) sp" and ?acl = "sessionAcl (Some session)"
  let ?vis = "visible_legs g ?f ?acl logs" and ?r = "loadReportPage g ?f ?acl (page_no sp) (page_len sp) d logs"
  let ?pg = "pager_of sp (page_no sp) (page_len sp) (int (rp_totalKnown ?r)) (rp_totalCapped ?r)"
  have k: "0 < page_len sp" "page_len sp \<le> MAX_PAGE_SIZE" using page_len_bounds [of sp] by simp_all
  note load = loaded_rows [OF k page_no_pos, of g ?f ?acl sp d logs] loaded_count [of g ?f ?acl "page_no sp" "page_len sp" d logs]
  obtain v where v: "ReportsPage ap g le bw rq sp d logs = Listed v" "tv_rows v = rp_rows ?r" "tv_pager v = ?pg"
    using assms by (simp add: ReportsPage_def Let_def)
  have "length ?vis \<le> nat (page_no sp) * nat (page_len sp)" if "case ?pg of Some p \<Rightarrow> \<not> pr_next_on p | None \<Rightarrow> True"
  proof -
    have "int (length ?vis) \<le> page_no sp * page_len sp"
    proof (cases "int (min COUNT_CAP (length ?vis)) > page_len sp")
      case True
      then have "ceil_div (int (min COUNT_CAP (length ?vis))) (page_len sp) \<le> page_no sp" "\<not> length ?vis > COUNT_CAP"
        using that page_no_pos [of sp] by (auto simp: pager_of_def Let_def load(2,3))
      then show ?thesis using k(1) by (simp add: ceil_div_least min_def split: if_splits)
    next
      case False
      then have "int (length ?vis) \<le> page_len sp" using k by (auto simp: COUNT_CAP_def MAX_PAGE_SIZE_def min_def split: if_splits)
      moreover have "1 * page_len sp \<le> page_no sp * page_len sp" using page_no_pos [of sp] k by (intro mult_right_mono) auto
      ultimately show ?thesis by simp
    qed
    then have "length ?vis \<le> nat (page_no sp * page_len sp)" by simp
    then show ?thesis using page_no_pos [of sp] by (simp add: nat_mult_distrib)
  qed
  moreover have "case ?pg of Some p \<Rightarrow> pr_next p = buildQs sp [(''page'', Some (js_String (page_no sp + 1)))] | None \<Rightarrow> True"
    by (simp add: pager_of_def Let_def)
  ultimately show thesis using that [OF v(1)] load(1) unfolding v(2,3) by blast
qed

lemma walk_from:
  assumes "req_session ap rq d = Some session" "bw_failure bw = None" "url_params sp"
  shows "follow_next n (\<lambda>q. ReportsPage ap g le bw rq q d logs) sp
    = page_of (n * nat (page_len sp)) (nat (page_no sp - 1) * nat (page_len sp))
        (visible_legs g (parseFilters (bw_now bw) sp) (sessionAcl (Some session)) logs)"
  using assms(3)
proof (induction n arbitrary: sp)
  case 0
  then show ?case by (simp add: page_of_def)
next
  case (Suc n)
  let ?vis = "visible_legs g (parseFilters (bw_now bw) sp) (sessionAcl (Some session)) logs" and ?k = "nat (page_len sp)"
  let ?off = "nat (page_no sp - 1) * ?k" and ?next = "read_params (buildQs sp [(''page'', Some (js_String (page_no sp + 1)))])"
  obtain v where v: "ReportsPage ap g le bw rq sp d logs = Listed v" "map rr_leg (tv_rows v) = page_of ?k ?off ?vis"
    "case tv_pager v of Some p \<Rightarrow> pr_next p = buildQs sp [(''page'', Some (js_String (page_no sp + 1)))] | None \<Rightarrow> True"
    and last: "(case tv_pager v of Some p \<Rightarrow> \<not> pr_next_on p | None \<Rightarrow> True) \<Longrightarrow> length ?vis \<le> nat (page_no sp) * ?k"
    using one_page [OF assms(1,2), of g le sp logs] by blast
  have off: "nat (page_no sp) * ?k = ?off + ?k"
  proof -
    have "nat (page_no sp) = Suc (nat (page_no sp - 1))" using page_no_pos [of sp] by simp
    then show ?thesis by simp
  qed
  have more: "page_of ?k ?off ?vis @ page_of (n * ?k) (?off + ?k) ?vis = page_of (Suc n * ?k) ?off ?vis"
    by (simp add: page_of_def take_add add.commute)
  show ?case
  proof (cases "case tv_pager v of Some p \<Rightarrow> \<not> pr_next_on p | None \<Rightarrow> True")
    case True
    then have "page_of (n * ?k) (?off + ?k) ?vis = []" using last off by (simp add: page_of_def)
    then show ?thesis using True v more by (simp split: option.splits)
  next
    case False
    have "follow_next n (\<lambda>q. ReportsPage ap g le bw rq q d logs) ?next = page_of (n * ?k) (nat (page_no sp) * ?k) ?vis"
      using Suc.IH [of ?next] page_link [OF Suc.prems _ refl, of "page_no sp + 1"] page_no_pos [of sp] by simp
    moreover obtain p where "tv_pager v = Some p" "pr_next_on p" using False by (auto split: option.splits)
    moreover from this have "pr_next p = buildQs sp [(''page'', Some (js_String (page_no sp + 1)))]" using v(3) by simp
    ultimately show ?thesis using v(1,2) more by (simp add: off)
  qed
qed

text \<open>
  C36. Whoever opens the listing of legs at its first page and goes on by Next until it is greyed out reads
  every leg the session may see and the filters admit, once each and newest first, whatever the page
  size: n pages show the first n pages' worth of them, and Next is not greyed out before the last.
\<close>

theorem next_reads_all:
  assumes "req_session ap rq d = Some session" "bw_failure bw = None" "url_params sp" "page_no sp = 1"
  shows "follow_next n (\<lambda>q. ReportsPage ap g le bw rq q d logs) sp
    = take (n * nat (page_len sp)) (visible_legs g (parseFilters (bw_now bw) sp) (sessionAcl (Some session)) logs)"
  using walk_from [OF assms(1-3)] by (simp add: assms(4) page_of_def)

section \<open>The total of the sessions page\<close>

definition rollup_matches :: "ReportFilters \<Rightarrow> row \<Rightarrow> bool" where
  "rollup_matches f r \<longleftrightarrow> (\<exists>z. r ''d.date'' = VDate z \<and> parse_date (str_of (rf_fromTs f)) \<le> z \<and> z \<le> parse_date (str_of (rf_toTs f)))
     \<and> (rf_operators f \<noteq> [] \<longrightarrow> (\<exists>o' \<in> set (rf_operators f). r ''d.operator_id'' = VStr o'))"

interpretation rollup_builder: cond_builder g rollup_conds rollup_matches for g
proof (unfold_locales)
  fix f ps cs ps' post r
  assume "rollup_conds f ps = (cs, ps')"
  then have e: "cs = fst (rollup_conds f ps)" "ps' = snd (rollup_conds f ps)" by simp_all
  show "\<exists>ext. ps' = ps @ ext" unfolding e rollup_conds_def by (intro push_cond_prefix) simp
  have "holds g (ps' @ post) r (CAll cs) \<longleftrightarrow> (((True
      \<and> (True \<longrightarrow> (\<exists>d. r ''d.date'' = VDate d \<and> int_cmp OpGe d (parse_date (str_of (rf_fromTs f))))))
      \<and> (True \<longrightarrow> (\<exists>d. r ''d.date'' = VDate d \<and> int_cmp OpLe d (parse_date (str_of (rf_toTs f))))))
      \<and> (rf_operators f \<noteq> [] \<longrightarrow> (\<exists>o' \<in> set (rf_operators f). r ''d.operator_id'' = VStr o')))"
    unfolding e rollup_conds_def
    by (intro push_cond_step) (simp_all only: holds_date_cmp holds_any_strs fst_conv snd_conv holds_no_cond)
  then show "holds g (ps' @ post) r (CAll cs) \<longleftrightarrow> rollup_matches f r" by (auto simp: rollup_matches_def)
qed

interpretation rollup_scoped: cond_builder_pair g rollup_conds rollup_matches "acl_conds ''d.shortcode_id'' ''d.date'' GDate"
  "acl_allows GDate ''d.shortcode_id'' ''d.date''" for g
  by unfold_locales

lemma rollup_count:
  assumes "rf_msisdn f = None" "rf_sessionId f = None" "rf_errorClass f = Some ''any''" "truthy (rf_fromTs f)"
    and "truthy (rf_toTs f)" "\<not> str_le today (str_of (rf_toTs f))" "\<not> aclDeniesAll acl"
  shows "tryRollupBoundedCount g today f acl d (Some rows) = Some (if aclIntersect acl (rf_shortcodeIds f) = Some [] then 0
    else sum_list (map ru_sessions (filter (\<lambda>r. rollup_matches f (rollup_sql d r)
      \<and> acl_allows GDate ''d.shortcode_id'' ''d.date'' (aclIntersect acl (rf_shortcodeIds f)) (rollup_sql d r)) rows)))"
proof -
  obtain cs ps where b: "then_build rollup_conds (acl_conds ''d.shortcode_id'' ''d.date'' GDate)
      (f, aclIntersect acl (rf_shortcodeIds f)) [] = (cs, ps)" by fastforce
  have "holds g ps r (CAll cs) \<longleftrightarrow> rollup_matches f r
      \<and> acl_allows GDate ''d.shortcode_id'' ''d.date'' (aclIntersect acl (rf_shortcodeIds f)) r" for r
    using rollup_scoped.seq.where_holds [OF b] by simp
  then show ?thesis using assms by (simp add: tryRollupBoundedCount_def truthy_def b)
qed

lemma sessions_listed:
  assumes "req_session ap rq d = Some session" "bw_failure bw = None"
    and "sessions_parseFilters (bw_date_ms bw) (bw_maxDays bw) (bw_now bw) sp = (f, c)"
    and "r = loadSessionPage g le (iso_day (bw_now bw)) f (sessionAcl (Some session)) (page_no sp) (page_len sp) d rollup logs"
  obtains v where "SessionsPage ap g le bw rq sp d rollup logs = Listed v" "tv_known v = sp_totalKnown r"
    "tv_pager v = pager_of sp (page_no sp) (page_len sp) (sp_totalKnown r) (sp_totalCapped r)"
    "tv_rows v = page_of (nat (page_len sp)) (nat ((page_no sp - 1) * page_len sp))
        (sort_by (by_last_ts le) (session_rows d (where_legs g (buildSessionWhere f (sessionAcl (Some session))) logs)))"
proof -
  have "page_size (page_len sp) = page_len sp" "0 \<le> (page_no sp - 1) * page_len sp"
    using page_len_bounds [of sp] page_no_pos [of sp] by (simp_all add: page_size_def)
  then have "sp_rows r = page_of (nat (page_len sp)) (nat ((page_no sp - 1) * page_len sp))
        (sort_by (by_last_ts le) (session_rows d (where_legs g (buildSessionWhere f (sessionAcl (Some session))) logs)))"
    by (simp add: assms(4) loadSessionPage_def Let_def page_offset_def split: prod.splits)
  then show thesis using assms(1-3) that by (simp add: SessionsPage_def Let_def assms(4))
qed

text \<open>
  C37. The total of the sessions page can be too low, against what is said of it: on the day a shortcode
  changes hands the page lists the sessions of its new owner, but counts none of them once that day has
  passed, whatever the nightly rollup holds, since the rollup is whole days.  The page then says that
  nothing matches, above a table that is not empty, and links to no further page of it.
\<close>

theorem handover_day_uncounted:
  assumes "req_session ap rq d = Some session" "bw_failure bw = None"
    and "sessions_parseFilters (bw_date_ms bw) (bw_maxDays bw) (bw_now bw) sp = (f, c)"
    and "rf_msisdn f = None" "rf_sessionId f = None" "rf_errorClass f = Some ''any''" "truthy (rf_fromTs f)" "truthy (rf_toTs f)"
    and "\<not> str_le (iso_day (bw_now bw)) (str_of (rf_toTs f))"
    and "sessionAcl (Some session) = Some gs" "gs \<noteq> []"
    and "\<forall>gr \<in> set gs. 0 < g_from gr \<and> parse_date (str_of (rf_toTs f)) < parse_date (ceilToLocalDate (g_from gr))"
  shows "\<exists>v. SessionsPage ap g le bw rq sp d (Some rollup) logs = Listed v \<and> tv_known v = 0 \<and> tv_pager v = None
    \<and> tv_rows v = page_of (nat (page_len sp)) (nat ((page_no sp - 1) * page_len sp))
        (sort_by (by_last_ts le) (session_rows d (where_legs g (buildSessionWhere f (Some gs)) logs)))"
proof -
  let ?r = "loadSessionPage g le (iso_day (bw_now bw)) f (Some gs) (page_no sp) (page_len sp) d (Some rollup) logs"
  have none: "\<not> (rollup_matches f (rollup_sql d r) \<and> acl_allows GDate ''d.shortcode_id'' ''d.date''
      (aclIntersect (Some gs) (rf_shortcodeIds f)) (rollup_sql d r))" for r
  proof
    assume h: "rollup_matches f (rollup_sql d r) \<and> acl_allows GDate ''d.shortcode_id'' ''d.date''
      (aclIntersect (Some gs) (rf_shortcodeIds f)) (rollup_sql d r)"
    have date: "rollup_sql d r ''d.date'' = VDate (ru_date r)" by (simp add: rollup_sql_def)
    from h obtain gr where gr: "gr \<in> set gs" "floor_ok GDate (g_from gr) (VDate (ru_date r))"
      unfolding acl_allows_intersect by (auto simp: acl_allows_def date)
    from h have "ru_date r \<le> parse_date (str_of (rf_toTs f))" by (auto simp: rollup_matches_def date)
    with gr assms(12) show False by (force simp: floor_ok_def)
  qed
  have "\<not> aclDeniesAll (Some gs)" using assms(11) by (simp add: aclDeniesAll_def)
  from rollup_count [OF assms(4-9) this]
  have "tryRollupBoundedCount g (iso_day (bw_now bw)) f (Some gs) d (Some rollup) = Some 0" by (simp only: none) simp
  then have known: "sp_totalKnown ?r = 0" "\<not> sp_totalCapped ?r"
    by (simp_all add: loadSessionPage_def Let_def split: prod.splits)
  show ?thesis
    by (rule sessions_listed [OF assms(1-3) refl, of g le "Some rollup" logs, unfolded assms(10)])
      (use known page_len_bounds [of sp] in \<open>auto simp: pager_of_def Let_def\<close>)
qed

section \<open>Samples\<close>

definition first_days :: params where
  \<comment> \<open>days 1 and 2, one row a page\<close>
  "first_days = [(''from'', One (fmt_date 1)), (''to'', One (fmt_date 2)), (''operator'', One ''vodacom''), (''page_size'', One ''1'')]"

definition quiet :: browse where
  "quiet = \<lparr>bw_now = 86400000 * 12, bw_date_ms = url_dates, bw_maxDays = 92, bw_failure = None, bw_picker_fails = False\<rparr>"

definition day_legs :: "leg_row list" where
  "day_legs = [sample_leg 1 (86400000000 * 2) 5, sample_leg 2 (86400000000 * 2 + 1) 5]"

lemma first_days_url: "url_params first_days"
  by (simp add: url_params_def first_days_def)

lemma client_acl: "sessionAcl (Some client_session) = Some [\<lparr>g_id = 5, g_from = 0\<rparr>]"
  by (simp add: sessionAcl_def client_session_def sample_session_def)

lemma client_page: "req_session sample_app client_req sample_db = Some client_session"
  by (rule client_reads) simp

lemma first_days_filters: "parseFilters (bw_now quiet) first_days = \<lparr>rf_fromTs = Some (fmt_date 1), rf_toTs = Some (fmt_date 2),
    rf_msisdn = None, rf_sessionId = None, rf_operators = [''vodacom''], rf_shortcodeIds = [], rf_errorClass = Some ''any''\<rparr>"
  by (simp add: parseFilters_def first_days_def asString_date asStringArray_def asIntArray_def List.map_filter_def)
    (simp add: asString_def truthy_def)

lemma day_legs_visible: "visible_legs sample_pg (parseFilters (bw_now quiet) first_days) (sessionAcl (Some client_session)) day_legs
    = rev day_legs"
  unfolding first_days_filters client_acl
  by (simp add: visible_legs_def day_legs_def leg_allowed_def acl_allows_def leg_matches_def filter_matches_def in_range_def
      leg_sql_def sample_leg_def floor_ok_def error_matches_def sample_pg_def truthy_def str_of_def fmt_date_nonempty parse_fmt_date
      newest_legs_def)

theorem pills_toggle_witness:
  "isOperatorActive (read_params (toggleOperator first_days ''tigo'')) ''vodacom''
    \<and> isOperatorActive (read_params (toggleOperator first_days ''tigo'')) ''tigo''"
proof -
  have "isOperatorActive first_days ''vodacom''" "\<not> isOperatorActive first_days ''tigo''"
    by (simp_all add: isOperatorActive_def first_days_def)
  then show ?thesis
    using pills_toggle [OF first_days_url, of "''tigo''"] by (simp add: OPERATORS_def)
qed

theorem quick_ranges_run_witness:
  "pickActive (86400000 * 12) (read_params (quickPickHref (86400000 * 12) first_days \<lparr>qp_label = ''7d'', qp_ms = 604800000\<rparr>))
     \<lparr>qp_label = ''7d'', qp_ms = 604800000\<rparr>"
proof -
  have "\<lparr>qp_label = ''7d'', qp_ms = 604800000\<rparr> \<in> set (picks (if (7 :: int) > 0 then Some 7 else None))"
    by (simp add: picks_def QUICK_PICKS_def)
  from quick_ranges_run [OF first_days_url url_dates_utc this, of "86400000 * 12"] show ?thesis by simp
qed

theorem buttons_act_on_page_witness:
  "\<exists>v. ReportsPage sample_app sample_pg str_le quiet client_req first_days sample_db day_legs = Listed v
    \<and> length (job_table sample_pg str_le plain_render Legs (request_filters client_session (tv_export v))
        \<lparr>sn_db = sample_db, sn_logs = day_legs\<rparr>) = 2"
proof -
  obtain v where v: "ReportsPage sample_app sample_pg str_le quiet client_req first_days sample_db day_legs = Listed v"
    using client_page by (simp add: ReportsPage_def Let_def quiet_def)
  have "offered opts (parseFilters (bw_now quiet) first_days)" for opts
    by (simp add: first_days_filters offered_def date_value_fmt truthy_def str_of_def text_value_def STATUSES_def OPERATORS_def fmt_date_nonempty)
  from buttons_act_on_page [OF v client_page this, where now = 0 and rd = plain_render] v show ?thesis
    by (simp add: day_legs_visible) (simp add: day_legs_def)
qed

theorem next_reads_all_witness:
  "follow_next 2 (\<lambda>q. ReportsPage sample_app sample_pg str_le quiet client_req q sample_db day_legs) first_days = rev day_legs"
proof -
  have "bw_failure quiet = None" "page_no first_days = 1" "page_len first_days = 1"
    by (simp_all add: quiet_def page_no_def page_len_def first_days_def asPositiveInt_def asString_def js_defs)
  then show ?thesis
    using next_reads_all [OF client_page _ first_days_url, of quiet 2 sample_pg str_le day_legs]
    by (simp add: day_legs_visible) (simp add: day_legs_def)
qed

definition handed_session :: SessionClaims where
  \<comment> \<open>shortcode 5 since ten in the morning of day 2\<close>
  "handed_session = client_session\<lparr>c_shortcodeFrom := Some [(js_String 5, local_midnight 2 + 36000)]\<rparr>"

definition handed_req :: "(string \<times> jwt_payload) http_req" where
  "handed_req = sample_req JNull (Some (ae_secret sample_env, \<lparr>j_claims = handed_session, j_iat = 0, j_exp = 28800\<rparr>))"

definition after_handover :: "leg_row list" where
  "after_handover = [sample_leg 1 ((local_midnight 2 + 40000) * 1000000) 5]"

theorem handover_day_uncounted_witness:
  "\<exists>v. SessionsPage sample_app sample_pg str_le quiet handed_req first_days sample_db (Some []) after_handover = Listed v
    \<and> tv_known v = 0 \<and> tv_rows v \<noteq> []"
proof -
  have "verifySession (app_verify sample_app) (app_env sample_app) (req_ms handed_req) (the (hr_session handed_req)) = Some handed_session"
    by (simp add: verifySession_def sample_app_def sample_secret sample_verify_def req_ms_def handed_req_def sample_req_def)
  moreover have "userStillValid sample_db (js_String 2) 0" by (rule client_still_valid) simp
  ultimately have s: "req_session sample_app handed_req sample_db = Some handed_session"
    by (simp add: req_session_def getSession_def handed_req_def sample_req_def)
      (simp add: handed_session_def client_session_def sample_session_def or0_def)
  have acl: "sessionAcl (Some handed_session) = Some [\<lparr>g_id = 5, g_from = local_midnight 2 + 36000\<rparr>]"
    by (simp add: sessionAcl_def handed_session_def client_session_def sample_session_def)
  let ?f = "parseFilters (bw_now quiet) first_days"
  have f: "sessions_parseFilters (bw_date_ms quiet) (bw_maxDays quiet) (bw_now quiet) first_days = (?f, None)"
    using daysBetween_dates [OF url_dates_utc, of 1 2 "bw_now quiet"] unfolding sessions_parseFilters_def first_days_filters Let_def
    by (simp add: quiet_def)
  have today: "\<not> str_le (iso_day (bw_now quiet)) (str_of (rf_toTs ?f))"
    unfolding first_days_filters by (simp add: quiet_def str_of_def iso_day_def) code_simp
  have floor: "\<forall>gr \<in> set [\<lparr>g_id = 5, g_from = local_midnight 2 + 36000\<rparr>]. 0 < g_from gr
      \<and> parse_date (str_of (rf_toTs ?f)) < parse_date (ceilToLocalDate (g_from gr))"
    using ceilToLocalDate_days [of "local_midnight 2 + 36000"]
    by (simp add: first_days_filters str_of_def parse_fmt_date local_midnight_def tz_secs_def)
  have ff: "rf_msisdn ?f = None" "rf_sessionId ?f = None" "rf_errorClass ?f = Some ''any''" "truthy (rf_fromTs ?f)" "truthy (rf_toTs ?f)"
    by (simp_all add: first_days_filters truthy_def fmt_date_nonempty)
  have q: "bw_failure quiet = None" by (simp add: quiet_def)
  obtain v where v: "SessionsPage sample_app sample_pg str_le quiet handed_req first_days sample_db (Some []) after_handover = Listed v"
    "tv_known v = 0"
    "tv_rows v = page_of (nat (page_len first_days)) (nat ((page_no first_days - 1) * page_len first_days))
        (sort_by (by_last_ts str_le) (session_rows sample_db (where_legs sample_pg
          (buildSessionWhere ?f (Some [\<lparr>g_id = 5, g_from = local_midnight 2 + 36000\<rparr>])) after_handover)))"
    using handover_day_uncounted [OF s q f ff today acl _ floor, of sample_pg str_le "[]" after_handover] by blast
  have w: "where_legs sample_pg (buildSessionWhere ?f (Some [\<lparr>g_id = 5, g_from = local_midnight 2 + 36000\<rparr>])) after_handover
      = after_handover"
  proof -
    obtain c ps where b: "buildWhere ?f (Some [\<lparr>g_id = 5, g_from = local_midnight 2 + 36000\<rparr>]) = (c, ps)" by fastforce
    have n: "\<not> selectsSessionsByLeg ?f" by (simp add: selectsSessionsByLeg_def first_days_filters truthy_def)
    have "filter (\<lambda>l. holds sample_pg ps (leg_sql l) c) after_handover = after_handover"
      unfolding report_where_rows [OF b] first_days_filters
      by (simp add: after_handover_def leg_allowed_def acl_allows_def leg_matches_def filter_matches_def in_range_def
          leg_sql_def sample_leg_def floor_ok_def error_matches_def sample_pg_def truthy_def str_of_def fmt_date_nonempty parse_fmt_date
          local_midnight_def tz_secs_def)
    then show ?thesis using n by (simp add: where_legs_def buildSessionWhere_def b)
  qed
  have "page_no first_days = 1" "page_len first_days = 1"
    by (simp_all add: page_no_def page_len_def first_days_def asPositiveInt_def asString_def js_defs)
  then have "tv_rows v \<noteq> []"
    by (simp add: v(3) w page_of_def) (simp add: after_handover_def session_rows_def session_keys_def sort_by_def)
  then show ?thesis using v by blast
qed

end
