(* ===== verification/Overview_Chart.thy ===== *)
theory Overview_Chart
  imports Overview_Page Report_Pages "HOL-Library.Multiset"
begin

text \<open>
  The rest of the overview page, \<^verbatim>\<open>(authed)/page.tsx\<close>: the chart of daily traffic with its
  ranking and extremes, the month picker, and the tile that leads to the failing sessions.  A day of the
  chart's data is its day number, so keys compare day numbers where the code compares their texts.
\<close>

section \<open>The chart\<close>

definition CHART_OPERATORS :: "string list" where
  "CHART_OPERATORS = [''airtel'', ''vodacom'', ''tigo'', ''halotel'']"

record DayCell =
  dc_day :: int
  dc_total :: int
  dc_counts :: "(string \<times> int) list"

definition month_days :: "string \<Rightarrow> int" where
  \<comment> \<open>\<open>new Date(yr, mo, 0).getDate()\<close>, for the months of a year of the calendar from 100 on\<close>
  "month_days ym = next_month (month_start ym) - month_start ym"

definition buildMonthGrid :: "DailyTrafficRow list \<Rightarrow> string \<Rightarrow> DayCell list" where
  "buildMonthGrid rows ym =
    (let byKey = map_of (rev (map (\<lambda>r. ((dt_day r, dt_operator_name r), dt_billable_units r)) rows))
     in map (\<lambda>d. let ds = parse_date (ym @ ''-'' @ pad 2 (nat d));
            counts = map (\<lambda>op. (op, case byKey (ds, op) of None \<Rightarrow> 0 | Some n \<Rightarrow> n)) CHART_OPERATORS
          in \<lparr>dc_day = d, dc_total = sum_list (map snd counts), dc_counts = counts\<rparr>) [1..month_days ym])"

definition cell_count :: "DayCell \<Rightarrow> string \<Rightarrow> int" where
  \<comment> \<open>\<open>g.counts[op] ?? 0\<close>\<close>
  "cell_count c op = (case map_of (dc_counts c) op of None \<Rightarrow> 0 | Some n \<Rightarrow> n)"

record traffic_chart =
  ch_grid :: "DayCell list"
  ch_max :: int                       \<comment> \<open>a full bar\<close>
  ch_perOp :: "(string \<times> int) list"
  ch_ranked :: "string list"
  ch_peakDay :: int
  ch_lowDay :: int
  ch_grandTotal :: int

definition TrafficBarChart :: "DailyTrafficRow list \<Rightarrow> string \<Rightarrow> traffic_chart" where
  "TrafficBarChart rows ym =
    (let grid = buildMonthGrid rows ym;
         perOp = (\<lambda>op. foldl (\<lambda>s c. s + cell_count c op) 0 grid);
         low = foldl (\<lambda>lo c. if dc_total c > 0 \<and> (case lo of None \<Rightarrow> True | Some n \<Rightarrow> dc_total c < n) then Some (dc_total c) else lo)
           None grid
     in \<lparr>ch_grid = grid,
         ch_max = foldl (\<lambda>m n. if n > m then n else m) 1 (concat (map (\<lambda>c. map (cell_count c) CHART_OPERATORS) grid)),
         ch_perOp = map (\<lambda>op. (op, perOp op)) CHART_OPERATORS,
         ch_ranked = sort_key (\<lambda>op. - perOp op) CHART_OPERATORS,
         ch_peakDay = foldl (\<lambda>p c. if dc_total c > p then dc_total c else p) 0 grid,
         ch_lowDay = or0 low, ch_grandTotal = foldl (\<lambda>s c. s + dc_total c) 0 grid\<rparr>)"

section \<open>The page\<close>

definition month_ok :: "string \<Rightarrow> bool" where
  \<comment> \<open>the pattern of a month\<close>
  "month_ok s \<longleftrightarrow> length s = 7 \<and> list_all is_digit (take 4 s) \<and> s ! 4 = CHR ''-'' \<and> list_all is_digit (drop 5 s)"

definition monthOptions :: "int \<Rightarrow> string list" where
  \<comment> \<open>the values, on a day of the server's calendar\<close>
  "monthOptions z = (case civil_from_days z of (y, m, _) \<Rightarrow>
     map (\<lambda>i. let k = 12 * y + (m - 1) - i in dec (nat (k div 12)) @ ''-'' @ pad 2 (nat (k mod 12 + 1))) [0..11])"

definition errHref :: "int \<Rightarrow> pairs" where
  \<comment> \<open>the search params of the link to the sessions page\<close>
  "errHref now = [(''error_class'', ''error''), (''from'', iso_day (now - 24 * 3600 * 1000))]"

record overview =
  ov_month :: string
  ov_options :: "string list"
  ov_totals :: Totals
  ov_errors :: "pairs option"         \<comment> \<open>the link of the tile of errors\<close>
  ov_chart :: traffic_chart

definition Home :: "'j app \<Rightarrow> pg \<Rightarrow> (string \<Rightarrow> string \<Rightarrow> bool) \<Rightarrow> int \<Rightarrow> int \<Rightarrow> int \<Rightarrow> 'j http_req \<Rightarrow> string option \<Rightarrow> db
    \<Rightarrow> rollup_row list \<Rightarrow> rollup_row list \<Rightarrow> leg_row list \<Rightarrow> overview option" where
  \<comment> \<open>at an instant in milliseconds, with the days of the server's calendar and of the database's; the lists of strings follow in
      \<open>TrailsSection\<close>\<close>
  "Home ap g le now here today rq spmonth d nightly mv logs =
    (let month = (case spmonth of Some m \<Rightarrow> if m \<noteq> [] \<and> month_ok m then m else take 7 (iso_day now) | None \<Rightarrow> take 7 (iso_day now))
     in case req_session ap rq d of None \<Rightarrow> None
        | Some session \<Rightarrow>
           (let acl = sessionAcl (Some session); totals = loadTotals g (1000 * now) acl logs;
                daily = loadDailyTraffic g le acl month today d nightly mv
            in Some \<lparr>ov_month = month, ov_options = monthOptions here, ov_totals = totals,
                 ov_errors = (if tt_err_24h totals > 0 then Some (errHref now) else None),
                 ov_chart = TrafficBarChart daily month\<rparr>))"

section \<open>What the chart draws\<close>

lemma day_of_month: "days_from_civil y m d = days_from_civil y m 1 + d - 1"
  by (simp add: days_from_civil_def Let_def)

lemma day_text:
  assumes "length ym = 7" "0 < i" "i < 100"
  shows "parse_date (ym @ ''-'' @ pad 2 (nat i)) = month_start ym + i - 1"
proof -
  have p: "parse_date (ym @ ''-'' @ pad 2 n) = days_from_civil (int (digits_val (take 4 ym))) (int (digits_val (take 2 (drop 5 ym)))) (int n)"
    if "n < 100" for n
    using assms(1) length_pad2 [OF that] by (simp add: parse_date_def)
  have one: "pad 2 1 = ''01''" by code_simp
  have "parse_date (ym @ ''-01'') = days_from_civil (int (digits_val (take 4 ym))) (int (digits_val (take 2 (drop 5 ym)))) 1"
    using p [of 1] unfolding one by simp
  then show ?thesis using assms(2,3) p [of "nat i"] day_of_month [of _ _ i] by (simp add: month_start_def)
qed

lemma leap: "(y div 400) * 146097 + 365 * (y mod 400) + (y mod 400) div 4 - (y mod 400) div 100
    \<le> ((y - 1) div 400) * 146097 + 365 * ((y - 1) mod 400) + ((y - 1) mod 400) div 4 - ((y - 1) mod 400) div 100 + (366 :: int)"
proof -
  define e r where "e = y div 400" and "r = y mod 400"
  have y: "y = 400 * e + r" "0 \<le> r" "r < 400" by (simp_all add: e_def r_def)
  show ?thesis
  proof (cases "r = 0")
    case True
    then have "y - 1 = 400 * (e - 1) + 399" using y(1) by simp
    then have "(y - 1) div 400 = e - 1" "(y - 1) mod 400 = 399"
      using int_div_pos_eq [of "y - 1" 400 "e - 1" 399] int_mod_pos_eq [of "y - 1" 400 "e - 1" 399] by simp_all
    then show ?thesis using True by (simp add: e_def [symmetric] r_def [symmetric])
  next
    case False
    then have "y - 1 = 400 * e + (r - 1)" "0 \<le> r - 1" "r - 1 < 400" using y by simp_all
    then have "(y - 1) div 400 = e" "(y - 1) mod 400 = r - 1" by (rule int_div_pos_eq, rule int_mod_pos_eq)
    moreover have "A \<le> A' + 1 \<Longrightarrow> B' \<le> B \<Longrightarrow> e * 146097 + 365 * r + A - B \<le> e * 146097 + 365 * (r - 1) + A' - B' + 366"
      for A A' B B' :: int by simp
    moreover have "r div 4 \<le> (r - 1) div 4 + 1" by presburger
    moreover have "(r - 1) div 100 \<le> r div 100" by (rule zdiv_mono1) simp_all
    ultimately show ?thesis by (simp only: e_def [symmetric] r_def [symmetric])
  qed
qed

lemma month_step:
  assumes "1 \<le> m" "m \<le> 11" "1 \<le> dd"
  shows "days_from_civil y (m + 1) 1 \<le> days_from_civil y m dd + 31"
proof -
  have later: "days_from_civil y m 1 \<le> days_from_civil y m dd" using assms(3) by (simp add: days_from_civil_def Let_def)
  have "m = 2 \<or> m \<in> {1, 3, 4, 5, 6, 7, 8, 9, 10, 11}" using assms(1,2) by simp presburger
  moreover have "days_from_civil y (m + 1) 1 \<le> days_from_civil y m 1 + 31" if "m = 2"
    using leap [of y] by (simp add: that days_from_civil_def Let_def)
  moreover have "days_from_civil y (m + 1) 1 \<le> days_from_civil y m 1 + 31" if "m \<in> {1, 3, 4, 5, 6, 7, 8, 9, 10, 11}"
    using that by (elim insertE emptyE) (simp_all add: days_from_civil_def Let_def)
  ultimately show ?thesis using later by fastforce
qed

lemma next_month_soon:
  assumes "0 \<le> z" "z < 2786860"
  shows "next_month z \<le> z + 31"
proof -
  obtain y m dd where c: "civil_from_days z = (y, m, dd)" by (cases "civil_from_days z")
  note r = civil_ranges [OF c assms] and z = days_from_civil_from_days [OF c]
  have "days_from_civil (y + 1) 1 1 = days_from_civil y 12 1 + 31" by (simp add: days_from_civil_def Let_def)
  moreover have "days_from_civil y 12 1 \<le> days_from_civil y 12 dd" using r(5) by (simp add: days_from_civil_def Let_def)
  moreover have "days_from_civil y (m + 1) 1 \<le> days_from_civil y m dd + 31" if "m \<noteq> 12"
    using r that by (intro month_step) auto
  ultimately show ?thesis unfolding next_month_def c prod.case using z by (cases "m = 12") auto
qed

lemma sum_keys:
  "distinct ks \<Longrightarrow> sum_list (map (\<lambda>k. sum_list (map h (filter (\<lambda>x. key x = k) xs))) ks) = (sum_list (map h (filter (\<lambda>x. key x \<in> set ks) xs)) :: int)"
proof (induction ks)
  case (Cons k ks)
  have "sum_list (map h (filter (\<lambda>x. key x = k \<or> key x \<in> set ks) xs)) = sum_list (map h (filter (\<lambda>x. key x = k) xs))
      + sum_list (map h (filter (\<lambda>x. key x \<in> set ks) xs))" if "k \<notin> set ks"
    using that by (induction xs) auto
  then show ?case using Cons by simp
qed simp

lemma last_wins:
  assumes "distinct (map key rows)"
  shows "(case map_of (rev (map (\<lambda>r. (key r, h r)) rows)) k of None \<Rightarrow> 0 | Some n \<Rightarrow> n)
    = (sum_list (map h (filter (\<lambda>r. key r = k) rows)) :: int)"
  using assms
proof (induction rows rule: rev_induct)
  case (snoc r rows)
  have "filter (\<lambda>r. key r = k) rows = []" if "key r = k"
  proof -
    have "k \<notin> key ` set rows" using snoc.prems that by simp
    then show ?thesis unfolding filter_empty_conv by blast
  qed
  then show ?case using snoc by auto
qed simp

lemma daily_rows:
  "distinct (map traffic_key (loadDailyTraffic g le acl ym today d nightly mv))"
  "e \<in> set (loadDailyTraffic g le acl ym today d nightly mv) \<Longrightarrow> in_month ym (dt_day e)"
proof -
  show "distinct (map traffic_key (loadDailyTraffic g le acl ym today d nightly mv))"
  proof (cases "aclDeniesAll acl")
    case True
    then show ?thesis by (simp add: loadDailyTraffic_def)
  qed (simp only: loadDailyTraffic_merged merge_totals_rows(1) simp_thms)
  show "in_month ym (dt_day e)" if "e \<in> set (loadDailyTraffic g le acl ym today d nightly mv)"
    using traffic_units(2) [OF that] by (auto simp: chart_rows_def)
qed

lemma grid_cells:
  assumes "length ym = 7" "0 \<le> month_start ym" "month_start ym < 2786860" "distinct (map traffic_key rows)"
  shows "buildMonthGrid rows ym = map (\<lambda>i. let counts = map (\<lambda>op. (op, sum_list (map dt_billable_units
      (filter (\<lambda>r. traffic_key r = (month_start ym + i - 1, op)) rows)))) CHART_OPERATORS
    in \<lparr>dc_day = i, dc_total = sum_list (map snd counts), dc_counts = counts\<rparr>) [1..month_days ym]"
  unfolding buildMonthGrid_def Let_def
proof (rule map_cong [OF refl])
  fix i assume "i \<in> set [1..month_days ym]"
  then have "0 < i" "i < 100" using next_month_soon [OF assms(2,3)] by (auto simp: month_days_def)
  then have "parse_date (ym @ ''-'' @ pad 2 (nat i)) = month_start ym + i - 1" by (rule day_text [OF assms(1)])
  then show "\<lparr>dc_day = i,
      dc_total = sum_list (map snd (map (\<lambda>op. (op, case map_of (rev (map (\<lambda>r. ((dt_day r, dt_operator_name r), dt_billable_units r)) rows))
        (parse_date (ym @ ''-'' @ pad 2 (nat i)), op) of None \<Rightarrow> 0 | Some n \<Rightarrow> n)) CHART_OPERATORS)),
      dc_counts = map (\<lambda>op. (op, case map_of (rev (map (\<lambda>r. ((dt_day r, dt_operator_name r), dt_billable_units r)) rows))
        (parse_date (ym @ ''-'' @ pad 2 (nat i)), op) of None \<Rightarrow> 0 | Some n \<Rightarrow> n)) CHART_OPERATORS\<rparr>
    = \<lparr>dc_day = i, dc_total = sum_list (map snd (map (\<lambda>op. (op, sum_list (map dt_billable_units
        (filter (\<lambda>r. traffic_key r = (month_start ym + i - 1, op)) rows)))) CHART_OPERATORS)),
      dc_counts = map (\<lambda>op. (op, sum_list (map dt_billable_units
        (filter (\<lambda>r. traffic_key r = (month_start ym + i - 1, op)) rows)))) CHART_OPERATORS\<rparr>"
    using last_wins [OF assms(4), of dt_billable_units] unfolding traffic_key_def by simp
qed

lemma counted:
  "cell_count \<lparr>dc_day = i, dc_total = t, dc_counts = map (\<lambda>op. (op, F op)) CHART_OPERATORS\<rparr> op
    = (if op \<in> set CHART_OPERATORS then F op else 0)"
  by (simp add: cell_count_def CHART_OPERATORS_def)

lemma sum_days:
  assumes "\<forall>r \<in> set rows. a \<le> dt_day r \<and> dt_day r < a + n"
  shows "sum_list (map (\<lambda>i. sum_list (map dt_billable_units (filter (\<lambda>r. traffic_key r = (a + i - 1, op)) rows))) [1..n])
    = sum_list (map dt_billable_units (filter (\<lambda>r. dt_operator_name r = op) rows))"
proof -
  have "distinct (map (\<lambda>i. (a + i - 1, op)) [1..n])" by (simp add: distinct_map inj_on_def)
  from sum_keys [OF this, of dt_billable_units traffic_key rows]
  have "sum_list (map (\<lambda>i. sum_list (map dt_billable_units (filter (\<lambda>r. traffic_key r = (a + i - 1, op)) rows))) [1..n])
    = sum_list (map dt_billable_units (filter (\<lambda>r. traffic_key r \<in> (\<lambda>i. (a + i - 1, op)) ` {1..n}) rows))"
    by (simp add: comp_def)
  also have "filter (\<lambda>r. traffic_key r \<in> (\<lambda>i. (a + i - 1, op)) ` {1..n}) rows = filter (\<lambda>r. dt_operator_name r = op) rows"
  proof (rule filter_cong [OF refl])
    fix r assume "r \<in> set rows"
    then have "a \<le> dt_day r" "dt_day r < a + n" using assms by auto
    then show "traffic_key r \<in> (\<lambda>i. (a + i - 1, op)) ` {1..n} \<longleftrightarrow> dt_operator_name r = op"
      by (auto simp: traffic_key_def intro!: image_eqI [of _ _ "dt_day r - a + 1"])
  qed
  finally show ?thesis .
qed

lemma fold_max: "foldl (\<lambda>m n. if n > m then n else m) (a :: int) xs = Max (insert a (set xs))"
proof (induction xs arbitrary: a)
  case (Cons x xs)
  have "(if x > a then x else a) = max a x" by simp
  moreover have "Max (insert (max a x) (set xs)) = Max (insert a (set (x # xs)))"
    by (cases "xs = []") (simp_all add: insert_commute max.assoc max.left_commute)
  ultimately show ?case using Cons by simp
qed simp

lemma fold_peak: "foldl (\<lambda>p c. if f c > p then f c else p) (a :: int) cs = Max (insert a (f ` set cs))"
  using fold_max [of a "map f cs"] by (simp add: foldl_map)

lemma chart_cells:
  assumes "length ym = 7" "0 \<le> month_start ym" "month_start ym < 2786860"
    and "rows = loadDailyTraffic g le acl ym today d nightly mv" "ch = TrafficBarChart rows ym"
    and "F = (\<lambda>i op. sum_list (map dt_billable_units (filter (\<lambda>r. traffic_key r = (month_start ym + i - 1, op)) rows)))"
  shows "ch_grid ch = map (\<lambda>i. \<lparr>dc_day = i, dc_total = sum_list (map (F i) CHART_OPERATORS),
      dc_counts = map (\<lambda>op. (op, F i op)) CHART_OPERATORS\<rparr>) [1..month_days ym]"
    "sum_list (map (\<lambda>i. F i op) [1..month_days ym]) = sum_list (map dt_billable_units (filter (\<lambda>r. dt_operator_name r = op) rows))"
proof -
  have dist: "distinct (map traffic_key rows)" unfolding assms(4) by (rule daily_rows(1))
  have "\<forall>r \<in> set rows. month_start ym \<le> dt_day r \<and> dt_day r < month_start ym + month_days ym"
    using daily_rows(2) unfolding assms(4) by (auto simp: in_month_def month_days_def)
  then show "sum_list (map (\<lambda>i. F i op) [1..month_days ym]) = sum_list (map dt_billable_units (filter (\<lambda>r. dt_operator_name r = op) rows))"
    unfolding assms(6) by (rule sum_days)
  show "ch_grid ch = map (\<lambda>i. \<lparr>dc_day = i, dc_total = sum_list (map (F i) CHART_OPERATORS),
      dc_counts = map (\<lambda>op. (op, F i op)) CHART_OPERATORS\<rparr>) [1..month_days ym]"
    by (simp add: assms(5,6) TrafficBarChart_def Let_def grid_cells [OF assms(1-3) dist] comp_def)
qed

lemma chart_ranking:
  assumes "ch = TrafficBarChart rows ym" "\<And>op. op \<in> set CHART_OPERATORS \<Longrightarrow> foldl (\<lambda>s c. s + cell_count c op) 0 (ch_grid ch) = R op"
  shows "ch_perOp ch = map (\<lambda>op. (op, R op)) CHART_OPERATORS" "mset (ch_ranked ch) = mset CHART_OPERATORS"
    "sorted_wrt (\<ge>) (map (\<lambda>op. the (map_of (ch_perOp ch) op)) (ch_ranked ch))"
proof -
  show p: "ch_perOp ch = map (\<lambda>op. (op, R op)) CHART_OPERATORS"
    using assms by (simp add: TrafficBarChart_def Let_def)
  have figure: "the (map_of (ch_perOp ch) op) = R op" if "op \<in> set CHART_OPERATORS" for op
    using that by (auto simp: p CHART_OPERATORS_def)
  define K where "K op = - foldl (\<lambda>s c. s + cell_count c op) 0 (ch_grid ch)" for op
  have r: "ch_ranked ch = sort_key K CHART_OPERATORS"
    by (simp add: assms(1) TrafficBarChart_def Let_def K_def [abs_def])
  then show "mset (ch_ranked ch) = mset CHART_OPERATORS" by (simp only: mset_sort)
  have "sorted_wrt (\<lambda>x y. K x \<le> K y) (ch_ranked ch)"
    using sorted_sort_key [of K CHART_OPERATORS] by (simp add: r sorted_map)
  then have "sorted_wrt (\<lambda>x y. the (map_of (ch_perOp ch) x) \<ge> the (map_of (ch_perOp ch) y)) (ch_ranked ch)"
    by (rule sorted_wrt_mono_rel [rotated]) (simp add: r K_def assms(2) figure)
  then show "sorted_wrt (\<ge>) (map (\<lambda>op. the (map_of (ch_perOp ch) op)) (ch_ranked ch))" by (simp add: sorted_wrt_map)
qed


text \<open>
  A network that is not one of the four the page names is left out of the chart altogether, although
  it is said to be drawn in a fallback colour: a month whose traffic is all of such networks shows a
  total and a peak of nothing, while the list of dialled strings beside it reports the busiest day of
  the same rows.
\<close>

theorem unnamed_network_vanishes:
  assumes "rows = loadDailyTraffic g le acl ym today d nightly mv" "length ym = 7" "0 \<le> month_start ym" "month_start ym < 2786860"
    and "rows \<noteq> []" "\<forall>r \<in> set rows. dt_operator_name r \<notin> set CHART_OPERATORS \<and> 0 \<le> dt_billable_units r"
  shows "ch_grandTotal (TrafficBarChart rows ym) = 0 \<and> ch_peakDay (TrafficBarChart rows ym) = 0
    \<and> fst (peak_day rows) \<noteq> None"
proof -
  have dist: "distinct (map traffic_key rows)" unfolding assms(1) by (rule daily_rows(1))
  have "filter (\<lambda>r. traffic_key r = (z, op)) rows = []" if "op \<in> set CHART_OPERATORS" for z op
    using that assms(6) by (auto simp: filter_empty_conv traffic_key_def)
  then have none: "\<forall>c \<in> set (buildMonthGrid rows ym). dc_total c = 0"
    by (auto simp: grid_cells [OF assms(2-4) dist] Let_def CHART_OPERATORS_def)
  have "foldl (\<lambda>s c. s + dc_total c) 0 cs = 0" "foldl (\<lambda>p c. if dc_total c > p then dc_total c else p) 0 cs = 0"
    if "\<forall>c \<in> set cs. dc_total c = (0 :: int)" for cs
    using that by (induction cs) auto
  note zero = this [OF none]
  have up: "fst (foldl (\<lambda>(peakDate, peakVal) (d, v). if v > peakVal then (Some d, v) else (peakDate, peakVal)) (Some p, w) xs) \<noteq> None"
    for p :: int and w :: int and xs
    by (induction xs arbitrary: p w) auto
  obtain r rs where rows: "rows = r # rs" using assms(5) by (cases rows) auto
  then have "day_sums rows \<noteq> []" by (simp add: day_sums_def)
  then obtain z v ds where ds: "day_sums rows = (z, v) # ds" by (cases "day_sums rows") auto
  then have "(z, v) \<in> set (day_sums rows)" by simp
  then have "0 \<le> v" using assms(6) by (auto simp: day_sums_def intro!: sum_list_nonneg)
  then have "fst (peak_day rows) \<noteq> None" using up by (simp add: peak_day_def ds)
  then show ?thesis using zero by (simp add: TrafficBarChart_def Let_def)
qed

section \<open>From the tile of errors to the failing sessions\<close>

lemma error_link: "map_of (read_params (errHref now)) k = map_of [(''error_class'', One ''error''), (''from'', One (iso_day (now - 24 * 3600 * 1000)))] k"
proof -
  let ?es = "[(''error_class'', One ''error''), (''from'', One (iso_day (now - 24 * 3600 * 1000)))]"
  have "errHref now = concat (map entry_pairs ?es)" by (simp add: errHref_def entry_pairs_def)
  then have "map_of (read_params (errHref now)) k = (case map_of ?es k of None \<Rightarrow> None | Some v \<Rightarrow> as_read v)"
    unfolding map_of_read by (simp only:) (rule read_distinct, simp)
  then show ?thesis by (simp add: as_read_def)
qed

lemma errors_counted: "tt_err_24h (loadTotals g now acl logs) = length (filter (\<lambda>l. since now 24 l \<and> l_error_class l \<noteq> None \<and> leg_allowed acl l) logs)"
proof -
  obtain c ps where c: "aclClause acl ''shortcode_id'' ''ts'' GTs [] = (c, ps)" by fastforce
  then show ?thesis by (simp add: loadTotals_def Let_def scoped_legs [OF c])
qed

lemma day_floor: "86400000000 * (x div 86400000) \<le> 1000 * (x :: int)"
proof -
  have "0 \<le> x mod 86400000" by simp
  then show ?thesis using div_mult_mod_eq [of x 86400000] by linarith
qed

lemma home_reads:
  assumes "Home ap g le now here today rq m d nightly mv logs = Some ov"
  shows "\<exists>session. req_session ap rq d = Some session \<and> ov_totals ov = loadTotals g (1000 * now) (sessionAcl (Some session)) logs
    \<and> ov_errors ov = (if tt_err_24h (ov_totals ov) > 0 then Some (errHref now) else None)"
proof (cases "req_session ap rq d")
  case None
  then show ?thesis using assms unfolding Home_def Let_def by simp
next
  case (Some session)
  from assms [unfolded Home_def Let_def Some option.case option.inject] show ?thesis using Some by (auto simp only: overview.select_convs)
qed

text \<open>
  C32. The tile of errors leads to what it counts: when it is a link some leg the session may see failed in
  the last day, and the page it opens highlights the range of a day and shows at least one session,
  whatever maximum is configured, in a database whose days begin no later than those of UTC.
\<close>

theorem errors_tile_leads:
  assumes "Home ap g le (bw_now bw) here today rq m d nightly mv logs = Some ov" "ov_errors ov = Some link"
    and "bw_failure bw = None" "0 \<le> bw_now bw - 86400000" "bw_now bw < 86400000 * 2786860" "utc_dates (bw_date_ms bw)"
    and "\<forall>z \<ge> 0. pg_timestamptz g (fmt_date z) \<le> 86400000000 * z"
  shows "0 < tt_err_24h (ov_totals ov)
    \<and> (\<exists>v. SessionsPage ap g le bw rq (read_params link) d rollup logs = Listed v \<and> tv_rows v \<noteq> []
        \<and> pickActive (bw_now bw) (read_params link) \<lparr>qp_label = ''24h'', qp_ms = 24 * 3600 * 1000\<rparr>)"
proof -
  let ?now = "bw_now bw" and ?day = "\<lparr>qp_label = ''24h'', qp_ms = 24 * 3600 * 1000\<rparr>"
  let ?iso = "iso_day (?now - 24 * 3600 * 1000)" and ?sp = "read_params (errHref ?now)"
  let ?f = "parseFilters ?now ?sp"
  obtain session where s: "req_session ap rq d = Some session" and t: "ov_totals ov = loadTotals g (1000 * ?now) (sessionAcl (Some session)) logs"
    and link: "link = errHref ?now" "0 < tt_err_24h (ov_totals ov)"
    using home_reads [OF assms(1)] assms(2) by (auto split: if_splits)
  let ?acl = "sessionAcl (Some session)"
  have pick: "?day \<in> set (picks (if bw_maxDays bw > 0 then Some (bw_maxDays bw) else None))"
    by (auto simp: picks_def QUICK_PICKS_def)
  have z: "0 \<le> (?now - 86400000) div 86400000" "(?now - 86400000) div 86400000 < 2786860" using assms(4,5) by simp_all
  then have ne: "?iso \<noteq> []" by (simp add: iso_day_def fmt_date_nonempty)
  have f: "?f = \<lparr>rf_fromTs = Some ?iso, rf_toTs = None, rf_msisdn = None, rf_sessionId = None, rf_operators = [], rf_shortcodeIds = [],
      rf_errorClass = Some ''error''\<rparr>"
    using ne by (simp add: parseFilters_def error_link asString_def asStringArray_def asIntArray_def List.map_filter_def truthy_def)
  note u = pick_unclamped(1) [OF assms(6) pick, of ?now ?sp]
  have u: "sessions_parseFilters (bw_date_ms bw) (bw_maxDays bw) ?now ?sp
      = (?f, snd (sessions_parseFilters (bw_date_ms bw) (bw_maxDays bw) ?now ?sp))"
    by (rule u) (use assms(4,5) in \<open>simp_all add: f\<close>)
  obtain l where l: "l \<in> set logs" "since (1000 * ?now) 24 l" "l_error_class l \<noteq> None" "leg_allowed ?acl l"
    using link(2) by (auto simp: t errors_counted filter_empty_conv)
  have "pg_timestamptz g ?iso \<le> 86400000000 * ((?now - 86400000) div 86400000)"
    using assms(7) z(1) by (simp add: iso_day_def)
  also have "\<dots> \<le> 1000 * (?now - 86400000)" by (rule day_floor)
  finally have "pg_timestamptz g ?iso \<le> l_ts l" using l(2) by (simp add: since_def)
  then have "leg_matches g 0 ?f l"
    using l(3) by (auto simp: f leg_matches_def filter_matches_def in_range_def error_matches_def leg_sql_def truthy_def str_of_def opt_str_def)
  then have "l \<in> set (where_legs g (buildSessionWhere ?f ?acl) logs)"
    using l(1,4) matches_shared [of g ?f l SESSION_EDGE_PAD_SECS]
    by (subst where_legs_by_leg) (auto simp: f selectsSessionsByLeg_def truthy_def session_selected_def SESSION_EDGE_PAD_SECS_def)
  then have rows: "session_rows d (where_legs g (buildSessionWhere ?f ?acl) logs) \<noteq> []"
    by (auto simp: session_rows_def session_keys_def)
  obtain v where v: "SessionsPage ap g le bw rq ?sp d rollup logs = Listed v"
    "tv_rows v = page_of (nat (page_len ?sp)) (nat ((page_no ?sp - 1) * page_len ?sp))
        (sort_by (by_last_ts le) (session_rows d (where_legs g (buildSessionWhere ?f ?acl) logs)))"
    by (rule sessions_listed [OF s assms(3) u refl])
  have "page_no ?sp = 1" "page_len ?sp = 10"
    by (simp_all add: page_no_def page_len_def error_link asPositiveInt_def asString_def)
  moreover have "sort_by (by_last_ts le) (session_rows d (where_legs g (buildSessionWhere ?f ?acl) logs)) \<noteq> []"
    using rows by (metis length_0_conv length_sort_by)
  ultimately have "tv_rows v \<noteq> []" by (simp add: v(2) page_of_def)
  moreover have "pickActive ?now ?sp ?day" using ne by (simp add: pickActive_def error_link param_truthy_def)
  ultimately show ?thesis using v(1) link by blast
qed

section \<open>Samples\<close>


definition other_network :: db where
  "other_network = windowed_db\<lparr>operators := map (\<lambda>r. r\<lparr>op_name := ''ttcl''\<rparr>) (operators windowed_db)\<rparr>"

theorem unnamed_network_vanishes_witness:
  "ch_grandTotal (TrafficBarChart (loadDailyTraffic sample_pg str_le None ''2026-05'' 20575 other_network [sample_bucket 20574 5 4] []) ''2026-05'') = 0
   \<and> loadDailyTraffic sample_pg str_le None ''2026-05'' 20575 other_network [sample_bucket 20574 5 4] []
      = [\<lparr>dt_day = 20574, dt_operator_name = ''ttcl'', dt_billable_units = 4\<rparr>]"
proof -
  have "chart_rows None ''2026-05'' (filter (\<lambda>r. ru_date r < 20575) [sample_bucket 20574 5 4]) = [sample_bucket 20574 5 4]"
    "chart_rows None ''2026-05'' [] = []"
    by (simp_all add: chart_rows_def in_month_def may_month date_allowed_def acl_allows_def sample_bucket_def)
  then have c: "loadDailyTraffic sample_pg str_le None ''2026-05'' 20575 other_network [sample_bucket 20574 5 4] []
      = [\<lparr>dt_day = 20574, dt_operator_name = ''ttcl'', dt_billable_units = 4\<rparr>]"
    by (simp add: loadDailyTraffic_merged aclDeniesAll_def chart_eval other_network_def)
  have "length ''2026-05'' = 7" "0 \<le> month_start ''2026-05''" "month_start ''2026-05'' < 2786860" by (simp_all add: may_month)
  from unnamed_network_vanishes [OF c [symmetric] this] show ?thesis by (simp add: c CHART_OPERATORS_def)
qed

definition failing_legs :: "leg_row list" where
  "failing_legs = [(sample_leg 1 (86400000000 * 11 + 5) 5)\<lparr>l_error_class := Some ''timeout''\<rparr>]"

theorem errors_tile_leads_witness:
  "\<exists>v. SessionsPage sample_app sample_pg str_le quiet client_req (read_params (errHref (bw_now quiet))) sample_db (Some []) failing_legs = Listed v
    \<and> tv_rows v \<noteq> []"
proof -
  obtain ov where ov: "Home sample_app sample_pg str_le (bw_now quiet) 12 12 client_req None sample_db [] [] failing_legs = Some ov"
    "ov_totals ov = loadTotals sample_pg (1000 * bw_now quiet) (sessionAcl (Some client_session)) failing_legs"
    "ov_errors ov = (if tt_err_24h (ov_totals ov) > 0 then Some (errHref (bw_now quiet)) else None)"
    by (simp add: Home_def Let_def client_page)
  have "tt_err_24h (ov_totals ov) = 1"
    by (simp add: ov(2) errors_counted client_acl failing_legs_def since_def quiet_def sample_leg_def leg_allowed_def acl_allows_def floor_ok_def leg_sql_def)
  then have e: "ov_errors ov = Some (errHref (bw_now quiet))" by (simp add: ov(3))
  have "utc_dates (bw_date_ms quiet)" using url_dates_utc by (simp add: quiet_def)
  from errors_tile_leads [OF ov(1) e _ _ _ this, of "Some []"] show ?thesis
    by (simp add: quiet_def sample_pg_def) blast
qed

end
