(* ===== verification/Edit_Forms.thy ===== *)
theory Edit_Forms
  imports User_Pages Gateway_Pages Operators Report_Pages
begin

text \<open>
  The fields of the edit forms, \<^verbatim>\<open>shortcodes/_form.tsx\<close>, \<^verbatim>\<open>operators/[id]/_edit.tsx\<close>,
  \<^verbatim>\<open>users/[id]/_edit.tsx\<close> and the cards of \<^verbatim>\<open>users/page.tsx\<close>: what a form holds when
  it opens, what the browser sends when it is submitted, and what the action makes of it.
\<close>

section \<open>Controls\<close>

text \<open>A control has a name and the value it opens with; the options of a choice may be disabled.\<close>

datatype control =
    Field string string
  | Area string string
  | Choice string string "(string \<times> bool) list"
  | Tick string string bool

fun crlf :: "string \<Rightarrow> string" where
  \<comment> \<open>the line breaks of a text area, as they are sent\<close>
  "crlf [] = []"
| "crlf (c # s) = (if c = CHR 0x0D then CHR 0x0D # CHR 0x0A # crlf (if s \<noteq> [] \<and> hd s = CHR 0x0A then tl s else s)
     else if c = CHR 0x0A then CHR 0x0D # CHR 0x0A # crlf s else c # crlf s)"

definition chosen :: "string \<Rightarrow> (string \<times> bool) list \<Rightarrow> string option" where
  \<comment> \<open>the option with the default value, or else the first that is not disabled; a disabled option is not sent\<close>
  "chosen v opts = (case List.find (\<lambda>o'. fst o' = v) opts of
     Some o' \<Rightarrow> if snd o' then None else Some v
   | None \<Rightarrow> map_option fst (List.find (\<lambda>o'. \<not> snd o') opts))"

fun submitted :: "control \<Rightarrow> form" where
  "submitted (Field n v) = [(n, text_value v)]"
| "submitted (Area n v) = [(n, crlf v)]"
| "submitted (Choice n v opts) = (case chosen v opts of None \<Rightarrow> [] | Some w \<Rightarrow> [(n, w)])"
| "submitted (Tick n v checked) = (if checked then [(n, v)] else [])"

definition send_form :: "control list \<Rightarrow> form" where
  "send_form cs = concat (map submitted cs)"

definition options :: "int list \<Rightarrow> (string \<times> bool) list" where
  "options is = map (\<lambda>i. (js_String i, False)) is"

section \<open>The forms\<close>

definition operator_form :: "operator_row \<Rightarrow> control list" where
  \<comment> \<open>the name is shown in a field without a name\<close>
  "operator_form r = [Field ''display_name'' (op_display_name r),
     Field ''billable_window_secs'' (case op_window r of None \<Rightarrow> [] | Some n \<Rightarrow> js_String n),
     Tick ''active'' ''1'' (op_active r)]"

definition user_form :: "role_row list \<Rightarrow> UserRow \<Rightarrow> control list" where
  "user_form rs u = [Field ''email'' (ur_email u), Field ''name'' (ur_name u), Field ''phone'' (str_of (ur_phone u)),
     Choice ''role_id'' (js_String (ur_role_id u)) (options (map r_id rs)), Tick ''active'' ''1'' (ur_active u)]"

definition of_row :: "shortcode_row option \<Rightarrow> (shortcode_row \<Rightarrow> 'a) \<Rightarrow> 'a \<Rightarrow> 'a" where
  \<comment> \<open>a default of the form: \<open>d.x ?? ...\<close>\<close>
  "of_row d f dflt = (case d of None \<Rightarrow> dflt | Some s \<Rightarrow> f s)"

definition ShortcodeFormFields :: "operator_row list \<Rightarrow> (int \<times> string \<times> string) list \<Rightarrow> shortcode_row option \<Rightarrow> control list" where
  \<comment> \<open>\<open>None\<close> is the form of a new shortcode; the label is shown, not a control\<close>
  "ShortcodeFormFields ops owners d =
    [Choice ''operator_id'' (of_row d (\<lambda>s. js_String (sc_operator_id s)) []) (([], False) # options (map op_id ops)),
         Field ''code'' (of_row d sc_code []),
         (let environment = of_row d (\<lambda>s. env_str (sc_environment s)) ''production''
          in if of_row d sc_id 0 \<noteq> 0 then Field ''environment'' environment
             else Choice ''environment'' environment [(''production'', False), (''sandbox'', False)]),
         Choice ''owner_user_id'' (of_row d (\<lambda>s. js_String (sc_owner s)) []) (([], True) # options (map fst owners)),
         Field ''handler_url'' (of_row d sc_handler_url []),
         Choice ''auth_mode'' (of_row d (\<lambda>s. auth_str (sc_auth_mode s)) ''none'') [(''none'', False), (''bearer'', False)],
         Field ''bearer_token'' (of_row d (\<lambda>s. str_of (sc_bearer_token s)) []),
         Choice ''payload_format'' (of_row d (\<lambda>s. format_str (sc_payload_format s)) ''gateway'') [(''gateway'', False), (''legacy'', False)],
         Tick ''skip_tls_verify'' ''1'' (of_row d (\<lambda>s. \<not> sc_verify_tls s) False),
         Field ''timeout_secs'' (js_String (of_row d sc_timeout_secs 5)),
         Choice ''status'' (of_row d (\<lambda>s. Shortcodes.status_str (sc_status s)) ''active'')
           [(''active'', False), (''maintenance'', False), (''deactivated'', False)],
         Area ''status_message'' (of_row d (\<lambda>s. str_of (sc_status_message s)) [])]"

definition profile_form :: "viewer_card \<Rightarrow> control list" where
  \<comment> \<open>of a viewer's card; an e-mail address that may not be edited is read-only, and sent\<close>
  "profile_form c = (let v = vc_viewer c
     in [Field ''email'' (av_email v), Field ''name'' (av_name v), Field ''phone'' (str_of (av_phone v)),
         Tick ''active'' ''1'' (av_active v)])"

definition grants_form :: "viewer_card \<Rightarrow> control list" where
  "grants_form c = map (\<lambda>(s, granted). Tick ''shortcode_ids'' (js_String (sc_id (sr_row s))) granted) (vc_shortcodes c)"

section \<open>Saving what is open\<close>

definition save_operator :: "'j app \<Rightarrow> 'j http_req \<Rightarrow> int \<Rightarrow> db \<Rightarrow> 'j acted option" where
  "save_operator ap rq i d = (case OperatorEdit ap rq (Some i) d of
     Shown r \<Rightarrow> Some (actionUpdateOperator ap rq i (send_form (operator_form r)) d) | _ \<Rightarrow> None)"

definition save_user :: "'j app \<Rightarrow> 'j http_req \<Rightarrow> int \<Rightarrow> db \<Rightarrow> 'j acted option" where
  "save_user ap rq i d = (case UserEdit ap rq (Some i) d of
     Shown u \<Rightarrow> Some (actionUpdateUser ap rq i (send_form (user_form (listRoles d) u)) d) | _ \<Rightarrow> None)"

definition save_shortcode :: "'j app \<Rightarrow> (string \<Rightarrow> string \<Rightarrow> bool) \<Rightarrow> 'j http_req \<Rightarrow> int \<Rightarrow> db \<Rightarrow> 'j acted option" where
  "save_shortcode ap le rq i d = (case ShortcodeEdit ap rq (Some i) d of
     Shown r \<Rightarrow> Some (actionUpdateShortcode ap rq i
       (send_form (ShortcodeFormFields (listOperators d) (listPossibleOwners le d) (Some (sr_row r)))) d) | _ \<Rightarrow> None)"

section \<open>What is sent\<close>

definition plain :: "string \<Rightarrow> bool" where
  \<comment> \<open>what a field keeps as it is\<close>
  "plain s \<longleftrightarrow> trim s = s \<and> CHR 0x0A \<notin> set s \<and> CHR 0x0D \<notin> set s"

definition plain_opt :: "string option \<Rightarrow> bool" where
  "plain_opt s \<longleftrightarrow> (case s of None \<Rightarrow> True | Some x \<Rightarrow> x \<noteq> [] \<and> plain x)"

lemma plain_kept: "plain s \<Longrightarrow> text_value s = s" "plain s \<Longrightarrow> crlf s = s" "plain s \<Longrightarrow> trim s = s" "plain []"
proof -
  have "CHR 0x0A \<notin> set s \<Longrightarrow> CHR 0x0D \<notin> set s \<Longrightarrow> crlf s = s" by (induction s rule: crlf.induct) auto
  then show "plain s \<Longrightarrow> crlf s = s" by (simp add: plain_def)
  show "plain s \<Longrightarrow> text_value s = s" by (auto simp: plain_def text_value_def filter_id_conv)
qed (simp_all add: plain_def trim_def)

lemma plain_opt_kept: "plain_opt s \<Longrightarrow> plain (str_of s)" "plain_opt s \<Longrightarrow> (if str_of s = [] then None else Some (str_of s)) = s"
  by (auto simp: plain_opt_def str_of_def plain_kept split: option.splits)

lemma find_option: "List.find (\<lambda>o'. fst o' = js_String i) (options is) = (if i \<in> set is then Some (js_String i, False) else None)"
  unfolding options_def by (induction "is") auto

lemma chosen_listed: "i \<in> set is \<Longrightarrow> chosen (js_String i) (options is) = Some (js_String i)"
  by (simp add: chosen_def find_option)

lemma chosen_after: "chosen (js_String i) (([], b) # options is) = (if i \<in> set is then Some (js_String i)
    else if \<not> b then Some [] else if is = [] then None else Some (js_String (hd is)))"
  by (cases "is") (auto simp: chosen_def find_option js_String_nonempty [symmetric], auto simp: options_def)

lemma sent_text: "map_of fd k = Some v \<Longrightarrow> plain v \<Longrightarrow> fd_str fd k = v"
  by (simp add: fd_str_def fd_get_def str_of_def plain_kept)

lemma sent_opt: "map_of fd k = Some (str_of v) \<Longrightarrow> plain_opt v \<Longrightarrow> fd_opt fd k = v"
  using sent_text [of fd k "str_of v"] plain_opt_kept [of v] by (simp add: fd_opt_def Let_def)

lemma js_String_plain_text: "plain (js_String i)"
proof -
  have "\<forall>c \<in> set (js_String i). \<not> is_ws c" by (simp add: js_String_no_ws)
  moreover from this have "trim (js_String i) = js_String i" by (simp add: trim_no_ws)
  ultimately show ?thesis by (auto simp: plain_def is_ws_def)
qed

lemma sent_int: "map_of fd k = Some (js_String i) \<Longrightarrow> fd_int fd k = Some i"
  using sent_text [of fd k "js_String i"] js_String_plain_text by (simp add: fd_int_def)

lemma sent_tick: "map_of fd k = (if b then Some ''1'' else None) \<Longrightarrow> fd_bool fd k = b"
  by (simp add: fd_bool_def fd_str_def fd_get_def str_of_def js_defs is_ws_def)

lemma js_String_not: "js_parseInt s = None \<Longrightarrow> js_String n \<noteq> s" "js_parseInt s = Some k \<Longrightarrow> js_String n = s \<Longrightarrow> n = k"
  using js_parseInt_String [of n] by auto

lemma js_parseInt_words: "js_parseInt ''null'' = None" "js_parseInt ''0'' = Some 0"
  by code_simp+

section \<open>Operators and accounts\<close>

text \<open>
  The edit form of an operator, saved as it opened, leaves the operators as they are and returns to
  the list.
\<close>

theorem operator_saved_as_opened:
  assumes "save_operator ap rq i d = Some a" "distinct (map op_id (operators d))"
    and "\<forall>r \<in> set (operators d). operator_ok r \<and> plain (op_display_name r)"
  shows "operators (acted_db a) = operators d \<and> fst a = Actions.Redirect ''/operators''"
proof -
  obtain r where r: "OperatorEdit ap rq (Some i) d = Shown r" and a: "a = actionUpdateOperator ap rq i (send_form (operator_form r)) d"
    using assms(1) by (auto simp: save_operator_def split: page_result.splits)
  let ?fd = "send_form (operator_form r)"
  obtain session where s: "req_session ap rq d = Some session" "hasPerm (Some session) SHORTCODES_MANAGE" and f: "find_operator d i = Some r"
    using r by (auto simp: OperatorEdit_def guarded_form_def found_form_def getOperator_def split: option.splits if_splits)
  have m: "r \<in> set (operators d)" "op_id r = i" using f by (auto simp: find_operator_def dest: find_SomeD)
  with assms(3) have ok: "operator_ok r" "plain (op_display_name r)" by auto
  let ?w = "\<lparr>ow_display_name = op_display_name r, ow_window = op_window r, ow_active = op_active r\<rparr>"
  have sent: "fd_str ?fd ''display_name'' = op_display_name r"
    "fd_str ?fd ''billable_window_secs'' = (case op_window r of None \<Rightarrow> [] | Some n \<Rightarrow> js_String n)"
    by (rule sent_text; simp add: send_form_def operator_form_def plain_kept ok(2) js_String_plain_text split: option.split)+
  have "fd_bool ?fd ''active'' = op_active r" by (rule sent_tick) (simp add: send_form_def operator_form_def)
  moreover have "js_String n \<noteq> ''null''" "1 \<le> n \<Longrightarrow> js_String n \<noteq> ''0''" for n
    using js_String_not(1) [of "''null''" n] js_String_not(2) [of "''0''" 0 n] by (auto simp: js_parseInt_words)
  ultimately have "parseOperatorWrite ?fd = Inr ?w"
    using ok(1) sent by (cases "op_window r") (auto simp: parseOperatorWrite_def Let_def operator_ok_def window_ok_def)
  moreover have "t = r" if "t \<in> set (operators d)" "op_id t = i" for t
    using that m assms(2) by (auto simp: distinct_map dest: inj_onD)
  then have "map (\<lambda>t. if op_id t = i then write_operator ?w t else t) (operators d) = operators d"
    by (intro map_idI) (auto simp: write_operator_def)
  then have "updateOperator i ?w d = (Inr (), d)"
    using f ok(1) by (simp add: updateOperator_def fits_def operator_ok_def)
  ultimately show ?thesis
    by (simp add: a actionUpdateOperator_def require_perm_def s act_go_def)
qed

lemma upd_user_cong: "(\<And>x. x \<in> set (users d) \<Longrightarrow> u_id x = i \<Longrightarrow> f x = g x) \<Longrightarrow> upd_user i f d = upd_user i g d"
proof -
  assume "\<And>x. x \<in> set (users d) \<Longrightarrow> u_id x = i \<Longrightarrow> f x = g x"
  then have "map (\<lambda>u. if u_id u = i then f u else u) (users d) = map (\<lambda>u. if u_id u = i then g u else u) (users d)"
    by (intro map_cong) auto
  then show ?thesis by (simp only: upd_user_def)
qed

lemma touched_user:
  assumes "wf_users d" "find_user d i = Some u" "user_check d u = None" "f u = u\<lparr>u_updated_at := now\<rparr>"
  shows "update_user i f d = Inr (upd_user i (\<lambda>x. x\<lparr>u_updated_at := now\<rparr>) d)"
proof -
  have m: "u \<in> set (users d)" "u_id u = i" using find_user_mem [OF assms(2)] by auto
  have "x = u" if "x \<in> set (users d)" "u_id x = i" for x using wf_user_unique [OF assms(1) that(1) m(1)] that(2) m(2) by simp
  then have "upd_user i f d = upd_user i (\<lambda>x. x\<lparr>u_updated_at := now\<rparr>) d"
    using assms(4) by (intro upd_user_cong) simp
  moreover have "user_check d (f u) = None" using assms(3) by (simp add: assms(4) user_check_None)
  ultimately show ?thesis using assms(2) by (simp add: update_user_def)
qed

lemma session_user:
  assumes "req_session ap rq d = Some session" "wf_users d"
  obtains u where "find_user d (session_id session) = Some u" "u_active u"
proof -
  have "userStillValid d (c_sub session) (or0 (c_pwv session))"
    using getSession_Some assms(1) unfolding req_session_def by blast
  then show ?thesis
    using assms(2) that by (auto simp: userStillValid_def session_id_def or0_def find_user_def wf_users_def find_active
        split: option.splits if_splits)
qed

lemma user_form_parsed:
  assumes "email_re (u_email u)" "toLowerCase (u_email u) = u_email u" "plain (u_email u)"
    and "plain (u_name u)" "u_name u \<noteq> []" "plain_opt (u_phone u)" "u_role_id u \<in> set (map r_id rs)"
  shows "parseUpdate (send_form (user_form rs (user_row_view d u ro))) = Inr \<lparr>uu_email = u_email u, uu_name = u_name u,
      uu_phone = u_phone u, uu_role_id = u_role_id u, uu_active = u_active u\<rparr>"
proof -
  let ?fd = "send_form (user_form rs (user_row_view d u ro))"
  have form: "?fd = [(''email'', u_email u), (''name'', u_name u), (''phone'', str_of (u_phone u)),
      (''role_id'', js_String (u_role_id u))] @ (if u_active u then [(''active'', ''1'')] else [])"
    using assms(3,4,7) plain_opt_kept(1) [OF assms(6)]
    by (simp add: send_form_def user_form_def user_row_view_def plain_kept chosen_listed)
  have "fd_str ?fd ''email'' = u_email u" "fd_str ?fd ''name'' = u_name u"
    by (rule sent_text; simp add: form assms(3,4))+
  moreover have "fd_opt ?fd ''phone'' = u_phone u" by (rule sent_opt) (simp_all add: form assms(6))
  moreover have "fd_int ?fd ''role_id'' = Some (u_role_id u)" by (rule sent_int) (simp add: form)
  moreover have "fd_bool ?fd ''active'' = u_active u" by (rule sent_tick) (simp add: form)
  moreover have "u_email u \<noteq> []" using assms(1) by (auto simp: email_re_def)
  ultimately show ?thesis using assms(1,2,5) by (simp add: parseUpdate_def Let_def)
qed

text \<open>
  The edit form of an account, saved as it opened, changes nothing of any account but the time of its
  last update: its role, its state and its password stay, and so do its sessions.
\<close>

theorem user_saved_as_opened:
  assumes "save_user ap rq i d = Some a" "find_user d i = Some u" "wf_users d" "i \<noteq> 0" "user_check d u = None"
    and "email_re (u_email u)" "toLowerCase (u_email u) = u_email u" "plain (u_email u)"
    and "plain (u_name u)" "u_name u \<noteq> []" "plain_opt (u_phone u)"
  shows "users (acted_db a) = map (\<lambda>v. if u_id v = i then v\<lparr>u_updated_at := hr_now rq\<rparr> else v) (users d)"
proof -
  obtain v where v: "UserEdit ap rq (Some i) d = Shown v" and a: "a = actionUpdateUser ap rq i (send_form (user_form (listRoles d) v)) d"
    using assms(1) by (auto simp: save_user_def split: page_result.splits)
  let ?fd = "send_form (user_form (listRoles d) v)"
  obtain session where s: "req_session ap rq d = Some session" "hasPerm (Some session) PORTAL_USERS_MANAGE"
    using v by (auto simp: UserEdit_def guarded_form_def split: option.splits if_splits)
  obtain ro where ro: "find_role d (u_role_id u) = Some ro"
    using assms(5) by (auto simp: user_check_None)
  have m: "u \<in> set (users d)" "u_id u = i" using find_user_mem [OF assms(2)] by auto
  have "getUser i d = Some (user_row_view d u ro)" using getUser_row [OF assms(3) m(1) ro] m(2) by simp
  then have view: "v = user_row_view d u ro" using v s by (simp add: UserEdit_def guarded_form_def found_form_def)
  have role: "u_role_id u \<in> set (map r_id (listRoles d))" using find_role_mem [OF ro] by (auto simp: listRoles_def intro!: image_eqI [of _ _ ro])
  let ?w = "\<lparr>uu_email = u_email u, uu_name = u_name u, uu_phone = u_phone u, uu_role_id = u_role_id u, uu_active = u_active u\<rparr>"
  have parsed: "parseUpdate ?fd = Inr ?w" unfolding view by (rule user_form_parsed [OF assms(6-11) role])
  have free: "\<not> emailExists (u_email u) (Some i) d"
    using assms(4,5) m by (auto simp: emailExists_def list_ex_iff user_check_None)
  obtain w where w: "find_user d (session_id session) = Some w" "u_active w" by (rule session_user [OF s(1) assms(3)])
  have l: "lockout d i ?w (session_id session) u = None"
    using w assms(2) by (auto simp: lockout_def Let_def isSuperAdminRole_def role_key_of_def ro)
  have "update_user i (set_profile (hr_now rq) ?w) d = Inr (upd_user i (\<lambda>x. x\<lparr>u_updated_at := hr_now rq\<rparr>) d)"
    by (rule touched_user [OF assms(3,2,5)]) (simp add: set_profile_def)
  then have upd: "updateUser (hr_now rq) i ?w (session_id session) d
      = (Inr (u_email u), upd_user i (\<lambda>x. x\<lparr>u_updated_at := hr_now rq\<rparr>) d)"
    using assms(2) l by (simp add: updateUser_Inr role_key_of_def ro)
  show ?thesis
    using s upd by (simp add: a actionUpdateUser_def requireAdmin_def require_perm_def parsed free Let_def upd_user_def
      split: option.split)
qed

section \<open>Shortcodes\<close>

lemma length_ujoin: "xs \<noteq> [] \<Longrightarrow> length (ujoin xs) + 3 = sum_list (map (\<lambda>x. length x + 3) xs)"
  by (induction xs rule: ujoin.induct) (auto simp: LABEL_SEP_def)

lemma label_fits:
  assumes "length code \<le> 32" "length network \<le> 64"
  shows "length (buildShortcodeLabel owner code (Some network) env) \<le> 120"
proof -
  let ?net = "if env = Sandbox then SANDBOX_NETWORK_LABEL else utrim network"
  let ?tail = "filter (\<lambda>x. length x > 0) [utrim code, ?net]"
  define budget where "budget = 120 - foldl (\<lambda>n x. n + int (length x) + int (length LABEL_SEP)) 0 ?tail"
  let ?owner = "if int (length (utrim owner)) > budget
      then (if budget > 1 then take (nat (budget - 1)) (utrim owner) @ [0x2026] else []) else utrim owner"
  have "length (utrim code) \<le> 32" "length ?net \<le> 64"
    using assms length_utrim [of code] length_utrim [of network] by (auto simp: SANDBOX_NETWORK_LABEL_def intro: order_trans)
  then have b: "budget = 120 - int (sum_list (map (\<lambda>x. length x + 3) ?tail))" "18 \<le> budget"
    by (auto simp: budget_def LABEL_SEP_def)
  have o: "int (length ?owner) \<le> budget" using b(2) by auto
  have lab: "buildShortcodeLabel owner code (Some network) env = ujoin (filter (\<lambda>x. length x > 0) (?owner # ?tail))"
    by (simp only: buildShortcodeLabel_def Let_def budget_def option.case)
  show ?thesis
  proof (cases "filter (\<lambda>x. length x > 0) (?owner # ?tail) = []")
    case True
    then show ?thesis by (simp only: lab ujoin.simps list.size)
  next
    case False
    have t: "filter (\<lambda>x. length x > 0) ?tail = ?tail" by simp
    have "sum_list (map (\<lambda>x. length x + 3) (filter (\<lambda>x. length x > 0) (?owner # ?tail)))
        \<le> length ?owner + 3 + sum_list (map (\<lambda>x. length x + 3) ?tail)" unfolding filter.simps t by simp
    then show ?thesis using length_ujoin [OF False] o b(1) unfolding lab by linarith
  qed
qed

definition tidy_row :: "shortcode_row \<Rightarrow> bool" where
  \<comment> \<open>as the actions leave a row\<close>
  "tidy_row s \<longleftrightarrow> row_ok s \<and> (sc_active s \<longleftrightarrow> sc_status s = Active) \<and> plain (sc_code s) \<and> sc_code s \<noteq> [] \<and> length (sc_code s) \<le> 32
     \<and> plain (sc_handler_url s) \<and> plain_opt (sc_bearer_token s) \<and> plain_opt (sc_status_message s)
     \<and> (sc_status s \<noteq> Active \<longrightarrow> sc_status_message s \<noteq> None) \<and> length (str_of (sc_status_message s)) \<le> 160"

definition row_label :: "db \<Rightarrow> shortcode_row \<Rightarrow> ustr" where
  \<comment> \<open>as \<open>parseWrite\<close> builds it\<close>
  "row_label d s = (let (ownerName, operatorDisplayName) = labelPartsFor (sc_owner s) (sc_operator_id s) d
     in buildShortcodeLabel (units ownerName) (units (sc_code s)) (Some (units operatorDisplayName)) (sc_environment s))"

definition row_write :: "db \<Rightarrow> shortcode_row \<Rightarrow> ShortcodeWrite" where
  "row_write d s = \<lparr>w_operator_id = sc_operator_id s, w_code = sc_code s, w_label = Some (row_label d s),
     w_environment = sc_environment s, w_owner_user_id = sc_owner s, w_handler_url = sc_handler_url s,
     w_auth_mode = sc_auth_mode s, w_bearer_token = sc_bearer_token s, w_timeout_secs = sc_timeout_secs s,
     w_status = sc_status s, w_status_message = sc_status_message s, w_payload_format = sc_payload_format s,
     w_verify_tls = sc_verify_tls s\<rparr>"

lemma words_plain: "plain (env_str e)" "plain (auth_str m)" "plain (format_str f)" "plain (Shortcodes.status_str st)"
proof -
  show "plain (env_str e)" by (cases e) (simp_all add: env_str_def plain_def trim_def is_ws_def)
  show "plain (auth_str m)" by (cases m) (simp_all add: auth_str_def plain_def trim_def is_ws_def)
  show "plain (format_str f)" by (cases f) (simp_all add: format_str_def plain_def trim_def is_ws_def)
  show "plain (Shortcodes.status_str st)" by (cases st) (simp_all add: Shortcodes.status_str_def plain_def trim_def is_ws_def)
qed

lemma words_chosen:
  "chosen (auth_str m) [(''none'', False), (''bearer'', False)] = Some (auth_str m)"
  "chosen (format_str f) [(''gateway'', False), (''legacy'', False)] = Some (format_str f)"
  "chosen (Shortcodes.status_str st) [(''active'', False), (''maintenance'', False), (''deactivated'', False)] = Some (Shortcodes.status_str st)"
proof -
  show "chosen (auth_str m) [(''none'', False), (''bearer'', False)] = Some (auth_str m)"
    by (cases m) (simp_all add: auth_str_def chosen_def)
  show "chosen (format_str f) [(''gateway'', False), (''legacy'', False)] = Some (format_str f)"
    by (cases f) (simp_all add: format_str_def chosen_def)
  show "chosen (Shortcodes.status_str st) [(''active'', False), (''maintenance'', False), (''deactivated'', False)]
      = Some (Shortcodes.status_str st)"
    by (cases st) (simp_all add: Shortcodes.status_str_def chosen_def)
qed

lemma sent_fields:
  assumes "tidy_row s" "sc_id s \<noteq> 0" "sc_operator_id s \<in> op_id ` set ops"
    and "chosen (js_String (sc_owner s)) (([], True) # options (map fst owners)) = Some (js_String k)"
    and "fd = send_form (ShortcodeFormFields ops owners (Some s))"
  shows "fd_int fd ''operator_id'' = Some (sc_operator_id s)" "fd_str fd ''code'' = sc_code s"
    "fd_str fd ''environment'' = env_str (sc_environment s)" "fd_int fd ''owner_user_id'' = Some k"
    "fd_str fd ''handler_url'' = sc_handler_url s" "fd_str fd ''auth_mode'' = auth_str (sc_auth_mode s)"
    "fd_opt fd ''bearer_token'' = sc_bearer_token s" "fd_str fd ''payload_format'' = format_str (sc_payload_format s)"
    "fd_bool fd ''skip_tls_verify'' = (\<not> sc_verify_tls s)" "fd_int fd ''timeout_secs'' = Some (sc_timeout_secs s)"
    "fd_str fd ''status'' = Shortcodes.status_str (sc_status s)" "fd_opt fd ''status_message'' = sc_status_message s"
proof -
  have t: "plain (sc_code s)" "plain (sc_handler_url s)" "plain_opt (sc_bearer_token s)" "plain_opt (sc_status_message s)"
    using assms(1) by (auto simp: tidy_row_def)
  have sent: "fd = [(''operator_id'', js_String (sc_operator_id s)), (''code'', sc_code s), (''environment'', env_str (sc_environment s)),
      (''owner_user_id'', js_String k), (''handler_url'', sc_handler_url s), (''auth_mode'', auth_str (sc_auth_mode s)),
      (''bearer_token'', str_of (sc_bearer_token s)), (''payload_format'', format_str (sc_payload_format s))]
      @ (if sc_verify_tls s then [] else [(''skip_tls_verify'', ''1'')])
      @ [(''timeout_secs'', js_String (sc_timeout_secs s)), (''status'', Shortcodes.status_str (sc_status s)),
         (''status_message'', str_of (sc_status_message s))]"
    using assms(2-4) by (simp add: assms(5) send_form_def ShortcodeFormFields_def of_row_def chosen_after words_chosen
        plain_kept(1,2) t words_plain js_String_plain_text plain_opt_kept(1))
  show "fd_int fd ''operator_id'' = Some (sc_operator_id s)" "fd_int fd ''owner_user_id'' = Some k"
    "fd_int fd ''timeout_secs'' = Some (sc_timeout_secs s)"
    by (rule sent_int; simp add: sent)+
  show "fd_str fd ''code'' = sc_code s" "fd_str fd ''environment'' = env_str (sc_environment s)"
    "fd_str fd ''handler_url'' = sc_handler_url s" "fd_str fd ''auth_mode'' = auth_str (sc_auth_mode s)"
    "fd_str fd ''payload_format'' = format_str (sc_payload_format s)" "fd_str fd ''status'' = Shortcodes.status_str (sc_status s)"
    by (rule sent_text; simp add: sent t words_plain)+
  show "fd_opt fd ''bearer_token'' = sc_bearer_token s" "fd_opt fd ''status_message'' = sc_status_message s"
    by (rule sent_opt; simp add: sent t)+
  show "fd_bool fd ''skip_tls_verify'' = (\<not> sc_verify_tls s)" by (rule sent_tick) (simp add: sent)
qed

lemma word_case:
  "toLowerCase (env_str e) = ''sandbox'' \<longleftrightarrow> e = Sandbox" "toLowerCase (format_str f) = ''legacy'' \<longleftrightarrow> f = Legacy"
  "Shortcode_Actions.status_of (toLowerCase (Shortcodes.status_str st)) = Some st" "auth_str m = ''bearer'' \<longleftrightarrow> m = AuthBearer"
  "auth_str m = ''none'' \<longleftrightarrow> m = AuthNone"
proof -
  show "toLowerCase (env_str e) = ''sandbox'' \<longleftrightarrow> e = Sandbox" by (cases e) (simp, code_simp, simp, code_simp)
  show "toLowerCase (format_str f) = ''legacy'' \<longleftrightarrow> f = Legacy" by (cases f) (simp, code_simp, simp, code_simp)
  show "Shortcode_Actions.status_of (toLowerCase (Shortcodes.status_str st)) = Some st" by (cases st) (simp, code_simp, simp, code_simp, simp, code_simp)
  show "auth_str m = ''bearer'' \<longleftrightarrow> m = AuthBearer" "auth_str m = ''none'' \<longleftrightarrow> m = AuthNone"
    by (cases m; simp add: auth_str_def)+
qed

lemma parse_row:
  assumes "tidy_row s" "sc_id s \<noteq> 0" "sc_operator_id s \<in> op_id ` set ops" "0 < sc_operator_id s" "0 < k"
    and "chosen (js_String (sc_owner s)) (([], True) # options (map fst owners)) = Some (js_String k)"
    and "fd = send_form (ShortcodeFormFields ops owners (Some s))"
  shows "parseWrite fd d = Inr (Inr (row_write d (s\<lparr>sc_owner := k\<rparr>)))"
proof -
  note sent = sent_fields [OF assms(1-3,6,7)]
  have op: "form_operator fd (sc_environment s) d = Inr (Some (sc_operator_id s))"
    using assms(4) by (simp add: form_operator_def sent not_positive_def)
  have env: "(if toLowerCase (env_str (sc_environment s)) = ''sandbox'' then Sandbox else Production) = sc_environment s"
    by (simp add: word_case) (cases "sc_environment s"; simp)
  have fmt: "(if toLowerCase (format_str (sc_payload_format s)) = ''legacy'' then Legacy else Gateway) = sc_payload_format s"
    by (simp add: word_case) (cases "sc_payload_format s"; simp)
  have ok: "sc_handler_url s \<noteq> [] \<and> http_url (sc_handler_url s)" "\<not> bad_timeout (Some (sc_timeout_secs s))"
    "sc_auth_mode s = AuthBearer \<longleftrightarrow> truthy (sc_bearer_token s)"
    "sc_code s \<noteq> []" "\<not> 32 < length (sc_code s)" "sc_status s \<noteq> Active \<Longrightarrow> truthy (sc_status_message s)"
    "\<not> 160 < length (str_of (sc_status_message s))" "sc_auth_mode s = AuthNone \<Longrightarrow> sc_bearer_token s = None"
    using assms(1) by (auto simp: tidy_row_def row_ok_def bad_timeout_def http_url_def truthy_def plain_opt_def startsWith_iff
        split: option.splits)
  have mode: "sc_auth_mode s = AuthNone \<or> sc_auth_mode s = AuthBearer" by (cases "sc_auth_mode s") auto
  show ?thesis
    unfolding parseWrite_def Let_def env op sum.case sent word_case(3) option.case fmt row_write_def row_label_def
    using ok mode assms(4,5) by (auto simp: not_positive_def or0_def word_case prod.case_eq_if)
qed

definition edited :: "int \<Rightarrow> int \<Rightarrow> db \<Rightarrow> shortcode_row \<Rightarrow> shortcode_row" where
  \<comment> \<open>what saving a row adds to it\<close>
  "edited now by d s = s\<lparr>sc_label := Some (row_label d s), sc_status_set_by := Some by, sc_status_set_at := now, sc_updated_at := now\<rparr>"

lemma opened_row:
  assumes "save_shortcode ap le rq i d = Some a" "find_shortcode d i = Some s" "wf_shortcodes d"
  obtains session where "require_perm ap rq [SHORTCODES_MANAGE] d = Some session" "req_session ap rq d = Some session"
    "a = actionUpdateShortcode ap rq i (send_form (ShortcodeFormFields (listOperators d) (listPossibleOwners le d) (Some s))) d"
proof -
  obtain r where r: "ShortcodeEdit ap rq (Some i) d = Shown r" and a: "a = actionUpdateShortcode ap rq i
      (send_form (ShortcodeFormFields (listOperators d) (listPossibleOwners le d) (Some (sr_row r)))) d"
    using assms(1) by (auto simp: save_shortcode_def split: page_result.splits)
  obtain session where s: "req_session ap rq d = Some session" "hasPerm (Some session) SHORTCODES_MANAGE" "getShortcode i d = Some r"
    using r by (auto simp: ShortcodeEdit_def guarded_form_def found_form_def split: option.splits if_splits)
  have "filter (\<lambda>t. sc_id t = i) (shortcodes d) = [s]"
    using assms(3) find_shortcode_mem [OF assms(2)] filter_unique_key [of sc_id "shortcodes d" s] by (simp add: wf_shortcodes_def)
  then have "shortcode_view d s = Some r"
    using s(3) by (cases "shortcode_view d s") (auto simp: getShortcode_def view_rows_def List.map_filter_def)
  then have "sr_row r = s" by (rule view_row)
  then show thesis using that a s by (simp add: require_perm_def)
qed

lemma row_label_fits:
  assumes "length (sc_code s) \<le> 32" "\<And>r. find_operator d (sc_operator_id s) = Some r \<Longrightarrow> length (op_display_name r) \<le> 64"
  shows "length (row_label d s) \<le> 120"
proof -
  have "length (snd (labelPartsFor (sc_owner s) (sc_operator_id s) d)) \<le> 64"
    using assms(2) by (auto simp: labelPartsFor_def Let_def split: option.split)
  then show ?thesis
    using assms(1) unfolding row_label_def prod.case_eq_if Let_def by (intro label_fits) simp_all
qed

lemma row_written:
  assumes "find_shortcode d i = Some s" "wf_shortcodes d" "tidy_row s"
    and "shortcode_check d (stamp_owner_since now s (edited now by d (s\<lparr>sc_owner := k\<rparr>))) = None"
  shows "updateShortcode now i (row_write d (s\<lparr>sc_owner := k\<rparr>)) by d = (Inr (), d\<lparr>shortcodes :=
      map (\<lambda>t. if sc_id t = i then stamp_owner_since now t (edited now by d (t\<lparr>sc_owner := k\<rparr>)) else t) (shortcodes d)\<rparr>)"
proof -
  let ?w = "row_write d (s\<lparr>sc_owner := k\<rparr>)"
  define F where "F t = t\<lparr>sc_operator_id := w_operator_id ?w, sc_code := w_code ?w, sc_label := w_label ?w,
     sc_owner := w_owner_user_id ?w, sc_handler_url := w_handler_url ?w,
     sc_auth_mode := w_auth_mode ?w, sc_bearer_token := w_bearer_token ?w,
     sc_timeout_secs := w_timeout_secs ?w, sc_active := (w_status ?w = Active),
     sc_status := w_status ?w, sc_status_message := w_status_message ?w,
     sc_status_set_by := Some by, sc_status_set_at := now,
     sc_payload_format := w_payload_format ?w, sc_verify_tls := w_verify_tls ?w, sc_updated_at := now\<rparr>" for t :: shortcode_row
  have row: "F s = edited now by d (s\<lparr>sc_owner := k\<rparr>)" using assms(3) by (simp add: F_def row_write_def edited_def tidy_row_def)
  have "updateShortcode now i ?w by d = (Inr (), d\<lparr>shortcodes :=
      map (\<lambda>t. if sc_id t = i then stamp_owner_since now t (F t) else t) (shortcodes d)\<rparr>)"
    using assms(1,4) row by (simp add: updateShortcode_def F_def [symmetric] tx_exec_def update_shortcode_def upd_shortcode_def)
  moreover have "t = s" if "t \<in> set (shortcodes d)" "sc_id t = i" for t
    using that find_shortcode_mem [OF assms(1)] assms(2) by (auto simp: wf_shortcodes_def distinct_map dest: inj_onD)
  then have "map (\<lambda>t. if sc_id t = i then stamp_owner_since now t (F t) else t) (shortcodes d)
      = map (\<lambda>t. if sc_id t = i then stamp_owner_since now t (edited now by d (t\<lparr>sc_owner := k\<rparr>)) else t) (shortcodes d)"
    using row by (intro map_cong) auto
  ultimately show ?thesis by (simp only:)
qed

lemma saved_row:
  assumes "save_shortcode ap le rq i d = Some a" "find_shortcode d i = Some s" "wf_users d" "wf_shortcodes d" "tidy_row s" "i \<noteq> 0"
    and op: "find_operator d (sc_operator_id s) = Some ro" "op_active ro" "length (op_display_name ro) \<le> 64" "0 < sc_operator_id s"
    and own: "chosen (js_String (sc_owner s)) (([], True) # options (map fst (listPossibleOwners le d))) = Some (js_String k)"
      "find_user d k \<noteq> None" "0 < k"
  shows "\<exists>session. req_session ap rq d = Some session \<and> fst a = Actions.Redirect ''/shortcodes''
    \<and> shortcodes (acted_db a) = map (\<lambda>t. if sc_id t = i
        then stamp_owner_since (hr_now rq) t (edited (hr_now rq) (session_id session) d (t\<lparr>sc_owner := k\<rparr>)) else t) (shortcodes d)"
proof -
  obtain session where s: "require_perm ap rq [SHORTCODES_MANAGE] d = Some session" "req_session ap rq d = Some session"
    and a: "a = actionUpdateShortcode ap rq i (send_form (ShortcodeFormFields (listOperators d) (listPossibleOwners le d) (Some s))) d"
    by (rule opened_row [OF assms(1,2,4)])
  have m: "s \<in> set (shortcodes d)" "sc_id s = i" using find_shortcode_mem [OF assms(2)] by auto
  have "ro \<in> set (operators d)" "op_id ro = sc_operator_id s" using op(1) by (auto simp: find_operator_def dest: find_SomeD)
  then have listed: "sc_operator_id s \<in> op_id ` set (listOperators d)" using op(2) by (auto simp: listOperators_def intro!: image_eqI [of _ _ ro])
  let ?w = "row_write d (s\<lparr>sc_owner := k\<rparr>)" and ?t = "edited (hr_now rq) (session_id session) d (s\<lparr>sc_owner := k\<rparr>)"
  have parsed: "parseWrite (send_form (ShortcodeFormFields (listOperators d) (listPossibleOwners le d) (Some s))) d = Inr (Inr ?w)"
    using parse_row [OF assms(5) _ listed op(4) own(3,1) refl] m(2) assms(6) by simp
  have other: "sc_id t \<noteq> i \<Longrightarrow> t \<in> set (shortcodes d) \<Longrightarrow> (sc_operator_id t, sc_code t, sc_environment t)
      \<noteq> (sc_operator_id s, sc_code s, sc_environment s)" for t
    using assms(4) m by (auto simp: wf_shortcodes_def distinct_map dest: inj_onD)
  then have free: "\<not> codeExists (w_operator_id ?w) (w_code ?w) (w_environment ?w) (Some i) d"
    using assms(6) by (auto simp: codeExists_def row_write_def list_ex_iff)
  have "length (row_label d (s\<lparr>sc_owner := k\<rparr>)) \<le> 120"
    using assms(5) op by (intro row_label_fits) (simp_all add: tidy_row_def)
  moreover obtain w where "find_user d (session_id session) = Some w" "u_active w" by (rule session_user [OF s(2) assms(3)])
  ultimately have "shortcode_check d (stamp_owner_since (hr_now rq) s ?t) = None"
    using other own(2) op(1) assms(5) m(2)
    by (auto simp: shortcode_check_None stamp_owner_since_def edited_def fits_def ufits_def tidy_row_def)
  then have "updateShortcode (hr_now rq) i ?w (session_id session) d = (Inr (), d\<lparr>shortcodes :=
      map (\<lambda>t. if sc_id t = i then stamp_owner_since (hr_now rq) t (edited (hr_now rq) (session_id session) d (t\<lparr>sc_owner := k\<rparr>)) else t) (shortcodes d)\<rparr>)"
    by (rule row_written [OF assms(2,4,5)])
  then show ?thesis
    using s by (simp add: a actionUpdateShortcode_def requireManager_def parsed free act_go_def)
qed

lemma owner_options: "fst ` set (listPossibleOwners le d) = u_id ` {u \<in> set (users d). u_active u}"
  by (force simp: listPossibleOwners_def)


text \<open>
  C28. A shortcode whose owner is deactivated is handed over by saving its edit form as it opened: the
  owner is not among the options, so the browser selects the first account of the list, the action makes
  it the owner, and the traffic the previous owner could see is cut off at that instant.
\<close>

theorem saving_dispossesses:
  assumes "save_shortcode ap le rq i d = Some a" "find_shortcode d i = Some s" "wf_users d" "wf_shortcodes d" "tidy_row s" "i \<noteq> 0"
    and "find_operator d (sc_operator_id s) = Some ro" "op_active ro" "length (op_display_name ro) \<le> 64" "0 < sc_operator_id s"
    and "find_user d (sc_owner s) = Some u" "\<not> u_active u" "\<forall>v \<in> set (users d). 0 < u_id v"
  shows "\<exists>t. find_shortcode (acted_db a) i = Some t \<and> fst a = Actions.Redirect ''/shortcodes''
    \<and> sc_owner t = fst (hd (listPossibleOwners le d)) \<and> sc_owner t \<noteq> sc_owner s \<and> sc_owner_since t = hr_now rq"
proof -
  let ?k = "fst (hd (listPossibleOwners le d))"
  obtain session where r: "req_session ap rq d = Some session" by (rule opened_row [OF assms(1,2,4)])
  obtain w where "find_user d (session_id session) = Some w" "u_active w" by (rule session_user [OF r assms(3)])
  then have "fst ` set (listPossibleOwners le d) \<noteq> {}" unfolding owner_options using find_user_mem by blast
  then have ne: "listPossibleOwners le d \<noteq> []" by auto
  then have "?k \<in> fst ` set (listPossibleOwners le d)" by simp
  then obtain v where v: "v \<in> set (users d)" "u_active v" "u_id v = ?k" unfolding owner_options by auto
  have own: "sc_owner s \<notin> set (map fst (listPossibleOwners le d))"
  proof
    assume "sc_owner s \<in> set (map fst (listPossibleOwners le d))"
    then obtain x where "x \<in> set (users d)" "u_active x" "u_id x = sc_owner s" using owner_options [of le d] by auto
    then show False using assms(12) find_user_mem [OF assms(11)] wf_user_unique [OF assms(3)] by metis
  qed
  then have c: "chosen (js_String (sc_owner s)) (([], True) # options (map fst (listPossibleOwners le d))) = Some (js_String ?k)"
    using ne by (simp add: chosen_after hd_map)
  have "?k \<noteq> sc_owner s" using own \<open>?k \<in> fst ` set (listPossibleOwners le d)\<close> unfolding set_map by metis
  then have k: "find_user d ?k \<noteq> None" "0 < ?k" "?k \<noteq> sc_owner s"
    using wf_find_user [OF assms(3) v(1)] v assms(13) by auto
  define F where "F by t = stamp_owner_since (hr_now rq) t (edited (hr_now rq) by d (t\<lparr>sc_owner := ?k\<rparr>))" for "by" and t :: shortcode_row
  obtain "by" where saved: "fst a = Actions.Redirect ''/shortcodes''"
    "shortcodes (acted_db a) = map (\<lambda>t. if sc_id t = i then F by t else t) (shortcodes d)"
    using saved_row [OF assms(1-10) c k(1,2)] unfolding F_def by blast
  have "find_shortcode (acted_db a) i = Some (F by s)"
    using assms(2) find_shortcode_upd [of "F by" i d i]
    by (simp add: find_shortcode_def saved(2) upd_shortcode_def F_def stamp_owner_since_def edited_def)
  then show ?thesis using saved(1) k(3) by (simp add: F_def stamp_owner_since_def edited_def)
qed

section \<open>Viewers\<close>

definition tick_grants :: "int set \<Rightarrow> viewer_card \<Rightarrow> viewer_card" where
  \<comment> \<open>the card after the boxes have been set\<close>
  "tick_grants T c = c\<lparr>vc_shortcodes := map (\<lambda>(s, _). (s, sc_id (sr_row s) \<in> T)) (vc_shortcodes c)\<rparr>"

definition save_grants :: "'j app \<Rightarrow> 'j http_req \<Rightarrow> viewer_card \<Rightarrow> db \<Rightarrow> 'j acted" where
  "save_grants ap rq c d = actionAdminSetGrants ap rq (av_id (vc_viewer c)) (send_form (grants_form c)) d"

definition save_profile :: "'j app \<Rightarrow> 'j http_req \<Rightarrow> viewer_card \<Rightarrow> db \<Rightarrow> 'j acted" where
  "save_profile ap rq c d = actionAdminUpdateViewer ap rq (av_id (vc_viewer c)) (send_form (profile_form c)) d"

lemma sent_grants: "fd_ints (send_form (grants_form c)) ''shortcode_ids'' = map (sc_id \<circ> sr_row \<circ> fst) (filter snd (vc_shortcodes c))"
proof -
  have "fd_ints (concat (map submitted (map (\<lambda>(s, granted). Tick ''shortcode_ids'' (js_String (sc_id (sr_row s))) granted) xs))) ''shortcode_ids''
      = map (sc_id \<circ> sr_row \<circ> fst) (filter snd xs)" for xs
    by (induction xs) (auto simp: fd_ints_def)
  then show ?thesis by (simp add: send_form_def grants_form_def)
qed

lemma grants_inserted:
  assumes "find_user d user \<noteq> None" "\<forall>i \<in> set ids. find_shortcode d i \<noteq> None"
  shows "\<exists>d'. tx_for ids (\<lambda>sc. tx_exec (insert_grant now user sc)) d = (Inr (), d')"
  using assms
proof (induction ids arbitrary: d)
  case (Cons i ids)
  obtain d1 where d1: "insert_grant now user i d = Inr d1" "users d1 = users d" "shortcodes d1 = shortcodes d"
    using Cons.prems that
    by (cases "list_ex (\<lambda>g. gr_user g = user \<and> gr_shortcode g = i) (grants d)") (auto simp: insert_grant_def)
  have "\<exists>d'. tx_for ids (\<lambda>sc. tx_exec (insert_grant now user sc)) d1 = (Inr (), d')"
    using Cons.prems by (intro Cons.IH) (simp_all add: find_user_def find_shortcode_def d1)
  then show ?case by (simp add: tx_bind_Inr tx_exec_Inr d1)
qed (simp add: tx_return_def)

lemma set_grants_succeeds:
  assumes "find_user d viewer = Some u" "is_viewer d u" "wf_shortcodes d" "set ids \<subseteq> set (admin_shortcodes d admin)"
  shows "\<exists>d'. setViewerGrantsAsAdmin now viewer ids admin d = (Inr (), d')"
proof -
  have own: "assertShortcodesOwnedBy ids admin d = (Inr (), d)"
    using assms(3,4) by (auto simp: assertShortcodesOwnedBy_Inr admin_shortcodes_def wf_shortcodes_def distinct_map dest: inj_onD)
  have "\<forall>i \<in> set ids. find_shortcode d i \<noteq> None"
    using assms(4) by (auto simp: find_shortcode_def find_None_iff admin_shortcodes_def)
  then obtain d' where "tx_for ids (\<lambda>sc. tx_exec (insert_grant now viewer sc)) (delete_grants viewer admin d) = (Inr (), d')"
    using grants_inserted [of "delete_grants viewer admin d" viewer ids now] assms(1)
    by (auto simp: find_user_def find_shortcode_def delete_grants_def)
  moreover have "viewer_target viewer d = Some (u, ''client_viewer'')"
    using assms(1,2) by (simp add: viewer_target_Some is_viewer_def)
  ultimately have "setViewerGrantsAsAdmin now viewer ids admin d = (Inr (), d')"
    using own by (simp add: setViewerGrantsAsAdmin_def tx_success)
  then show ?thesis by blast
qed

lemma card_viewer:
  assumes "c \<in> set (vw_cards (AdminViewerView le admin d))"
  obtains u where "u \<in> set (users d)" "is_viewer d u" "vc_viewer c = viewer_row u (sort (viewer_grants d admin (u_id u)))"
    "viewer_grants d admin (u_id u) \<noteq> []"
    "vc_shortcodes c = map (\<lambda>s. (s, sc_id (sr_row s) \<in> set (viewer_grants d admin (u_id u)))) (listShortcodesOwnedBy le admin d)"
proof -
  obtain v where v: "v \<in> set (listViewersForAdmin le admin d)" "vc_viewer c = v"
    "vc_shortcodes c = map (\<lambda>s. (s, sc_id (sr_row s) \<in> set (av_granted_shortcode_ids v))) (listShortcodesOwnedBy le admin d)"
    using assms by (auto simp: AdminViewerView_def Let_def)
  then obtain u where "u \<in> set (users d)" "is_viewer d u" "viewer_grants d admin (u_id u) \<noteq> []"
    "v = viewer_row u (sort (viewer_grants d admin (u_id u)))"
    by (auto simp: listViewersForAdmin_def)
  with v that show thesis by (simp add: viewer_row_def)
qed


text \<open>
  Save profile on a viewer's card, pressed as the card opened, changes nothing of any account but the
  time of the viewer's last update.
\<close>

theorem profile_saved_as_opened:
  assumes "req_session ap rq d = Some session" "hasPerm (Some session) VIEWERS_MANAGE_OWN" "wf_users d"
    and "c \<in> set (vw_cards (AdminViewerView le (session_id session) d))" "find_user d i = Some u" "i = av_id (vc_viewer c)" "i \<noteq> 0"
    and "user_check d u = None" "email_re (u_email u)" "toLowerCase (u_email u) = u_email u" "plain (u_email u)"
    and "plain (u_name u)" "u_name u \<noteq> []" "plain_opt (u_phone u)"
  shows "users (acted_db (save_profile ap rq c d)) = map (\<lambda>v. if u_id v = i then v\<lparr>u_updated_at := hr_now rq\<rparr> else v) (users d)"
proof -
  let ?fd = "send_form (profile_form c)" and ?me = "session_id session"
  obtain v where v: "v \<in> set (users d)" "is_viewer d v" "vc_viewer c = viewer_row v (sort (viewer_grants d ?me (u_id v)))"
    "viewer_grants d ?me (u_id v) \<noteq> []" by (rule card_viewer [OF assms(4)])
  then have i: "u_id v = i" by (simp add: assms(6) viewer_row_def)
  then have "v = u" using wf_find_user [OF assms(3) v(1)] assms(5) by simp
  note v = v [unfolded this] and i = i [unfolded this]
  let ?w = "\<lparr>vu_email = u_email u, vu_name = u_name u, vu_phone = u_phone u, vu_active = u_active u\<rparr>"
  have form: "?fd = [(''email'', u_email u), (''name'', u_name u), (''phone'', str_of (u_phone u))]
      @ (if u_active u then [(''active'', ''1'')] else [])"
    using assms(11,12) plain_opt_kept(1) [OF assms(14)]
    by (simp add: send_form_def profile_form_def v(3) viewer_row_def plain_kept Let_def)
  have sent: "fd_str ?fd ''email'' = u_email u" "fd_str ?fd ''name'' = u_name u"
    by (rule sent_text; simp add: form assms(11,12))+
  have sent': "fd_opt ?fd ''phone'' = u_phone u" "fd_bool ?fd ''active'' = u_active u"
    by (rule sent_opt; simp add: form assms(14)) (rule sent_tick; simp add: form)
  have "u_email u \<noteq> []" using assms(9) by (auto simp: email_re_def)
  note ok = this assms(9,10,13)
  have free: "\<not> emailExists (u_email u) (Some i) d"
    using assms(7,8) i by (auto simp: emailExists_def list_ex_iff user_check_None)
  have "update_user i (set_viewer (hr_now rq) ?w 0) d = Inr (upd_user i (\<lambda>x. x\<lparr>u_updated_at := hr_now rq\<rparr>) d)"
    by (rule touched_user [OF assms(3,5,8)]) (simp add: set_viewer_def)
  moreover have "viewer_target i d = Some (u, ''client_viewer'')"
    using assms(5) v(2) by (simp add: viewer_target_Some is_viewer_def)
  ultimately have "updateViewerAsAdmin (hr_now rq) i ?w ?me d = (Inr (u_email u), upd_user i (\<lambda>x. x\<lparr>u_updated_at := hr_now rq\<rparr>) d)"
    using v(4) i by (simp add: updateViewerAsAdmin_def tx_success)
  moreover have "requireViewerManager ap rq d = Some session" using assms(1,2) by (simp add: requireViewerManager_def require_perm_def)
  ultimately show ?thesis
    using ok by (simp add: save_profile_def actionAdminUpdateViewer_def sent sent' assms(6) [symmetric] free Let_def act_go_def upd_user_def)
qed

section \<open>Samples\<close>

definition office_session :: SessionClaims where
  "office_session = sample_session\<lparr>c_perms := [SHORTCODES_MANAGE, PORTAL_USERS_MANAGE, VIEWERS_MANAGE_OWN]\<rparr>"

definition office_req :: "(string \<times> jwt_payload) http_req" where
  "office_req = sample_req JNull (Some (ae_secret sample_env, \<lparr>j_claims = office_session, j_iat = 0, j_exp = 28800\<rparr>))"

definition viewer_user :: user_row where "viewer_user = sample_user 3 ''a@b.c'' 3"

definition edit_db :: db where
  \<comment> \<open>a viewer (3) of the client (2) with a grant on the client's shortcode, and an operator\<close>
  "edit_db = sample_db\<lparr>users := users sample_db @ [viewer_user], operators := [vodacom],
     grants := [\<lparr>gr_user = 3, gr_shortcode = 5, gr_granted_at = 0\<rparr>]\<rparr>"

lemma office_reads: "userStillValid d (js_String 2) 0 \<Longrightarrow> req_session sample_app office_req d = Some office_session"
proof -
  assume "userStillValid d (js_String 2) 0"
  moreover have "verifySession sample_verify sample_env (req_ms office_req)
      (ae_secret sample_env, \<lparr>j_claims = office_session, j_iat = 0, j_exp = 28800\<rparr>) = Some office_session"
    by (simp add: verifySession_def sample_secret sample_verify_def req_ms_def office_req_def sample_req_def)
  moreover have "hr_session office_req = Some (ae_secret sample_env, \<lparr>j_claims = office_session, j_iat = 0, j_exp = 28800\<rparr>)"
    by (simp add: office_req_def sample_req_def)
  ultimately show ?thesis
    by (simp add: req_session_def getSession_def sample_app_def)
      (simp add: office_session_def sample_session_def or0_def)
qed

lemma office_in: "req_session sample_app office_req edit_db = Some office_session"
  by (rule office_reads) (simp add: userStillValid_def edit_db_def sample_db_def sample_user_def)

lemma office_perms: "hasPerm (Some office_session) SHORTCODES_MANAGE" "hasPerm (Some office_session) PORTAL_USERS_MANAGE"
  "hasPerm (Some office_session) VIEWERS_MANAGE_OWN" "session_id office_session = 2"
  by (simp_all add: office_session_def hasPerm_def session_id_def sample_session_def or0_def)

lemma edit_db_wf: "wf_db edit_db"
proof -
  have l: "toLowerCase ''root'' = ''root''" "toLowerCase ''cl'' = ''cl''" "toLowerCase ''a@b.c'' = ''a@b.c''" by code_simp+
  have "wf_shortcodes edit_db" using sample_db_wf by (simp add: wf_db_def wf_shortcodes_def edit_db_def)
  moreover have "wf_users edit_db" "wf_grants edit_db" "wf_refs edit_db"
    by (simp_all add: wf_users_def wf_grants_def wf_refs_def edit_db_def sample_db_def viewer_user_def sample_user_def
        sample_shortcode_def l)
  ultimately show ?thesis by (simp add: wf_db_def)
qed

theorem operator_saved_as_opened_witness:
  "\<exists>a. save_operator sample_app office_req 1 edit_db = Some a \<and> operators (acted_db a) = [vodacom]"
proof -
  have "getOperator 1 edit_db = Some vodacom" by (simp add: getOperator_def find_operator_def edit_db_def vodacom_def)
  then obtain a where a: "save_operator sample_app office_req 1 edit_db = Some a"
    by (simp add: save_operator_def OperatorEdit_def guarded_form_def found_form_def office_in office_perms)
  have "operators edit_db = [vodacom]" by (simp add: edit_db_def)
  with operator_saved_as_opened [OF a] a show ?thesis
    by (simp add: vodacom_def operator_ok_def window_ok_def plain_def trim_def is_ws_def)
qed

lemma viewer_ok: "email_re (u_email viewer_user)" "toLowerCase (u_email viewer_user) = u_email viewer_user" "plain (u_email viewer_user)"
  "plain (u_name viewer_user)" "u_name viewer_user \<noteq> []" "plain_opt (u_phone viewer_user)" "find_user edit_db 3 = Some viewer_user"
  "user_check edit_db viewer_user = None"
proof -
  have l: "toLowerCase ''root'' = ''root''" "toLowerCase ''cl'' = ''cl''" "toLowerCase ''a@b.c'' = ''a@b.c''" by code_simp+
  show "email_re (u_email viewer_user)" by code_simp
  show "toLowerCase (u_email viewer_user) = u_email viewer_user" by (simp add: viewer_user_def sample_user_def l)
  show "plain (u_email viewer_user)" "plain (u_name viewer_user)" "u_name viewer_user \<noteq> []" "plain_opt (u_phone viewer_user)"
    "find_user edit_db 3 = Some viewer_user"
    by (simp_all add: viewer_user_def sample_user_def plain_def plain_opt_def trim_def is_ws_def find_user_def edit_db_def sample_db_def)
  show "user_check edit_db viewer_user = None"
    by (simp add: user_check_None edit_db_def sample_db_def viewer_user_def sample_user_def l fits_def find_role_def)
qed

theorem user_saved_as_opened_witness:
  "\<exists>a. save_user sample_app office_req 3 edit_db = Some a
    \<and> users (acted_db a) = users sample_db @ [viewer_user\<lparr>u_updated_at := 1000000\<rparr>]"
proof -
  have "getUser 3 edit_db \<noteq> None"
    using getUser_row [of edit_db viewer_user] viewer_ok(7,8) edit_db_wf find_user_mem [OF viewer_ok(7)]
    by (auto simp: wf_db_def user_check_None)
  then obtain v where "getUser 3 edit_db = Some v" by blast
  then obtain a where a: "save_user sample_app office_req 3 edit_db = Some a"
    by (simp add: save_user_def UserEdit_def guarded_form_def found_form_def office_in office_perms)
  have wf: "wf_users edit_db" using edit_db_wf by (simp add: wf_db_def)
  have "users (acted_db a) = users sample_db @ [viewer_user\<lparr>u_updated_at := 1000000\<rparr>]"
    using user_saved_as_opened [OF a viewer_ok(7) wf _ viewer_ok(8,1-6)]
    by (simp add: office_req_def sample_req_def edit_db_def sample_db_def sample_user_def viewer_user_def)
  with a show ?thesis by blast
qed

lemma five_tidy: "tidy_row (sample_shortcode 5 k)"
proof -
  have "dec 5 = ''5''" by code_simp
  then show ?thesis
    by (simp add: tidy_row_def sample_shortcode_def row_ok_def http_url_def plain_def plain_opt_def trim_def is_ws_def truthy_def
        str_of_def js_defs)
qed

lemma edit_five: "find_shortcode edit_db 5 = Some (sample_shortcode 5 2)" "find_operator edit_db 1 = Some vodacom"
  by (simp_all add: find_shortcode_def find_operator_def edit_db_def sample_db_def sample_shortcode_def vodacom_def)

lemma saves:
  assumes "req_session sample_app office_req d = Some office_session" "wf_shortcodes d" "find_shortcode d i = Some s"
    "find_operator d (sc_operator_id s) \<noteq> None" "find_user d (sc_owner s) \<noteq> None"
  obtains a where "save_shortcode sample_app le office_req i d = Some a"
proof -
  have "s \<in> set (shortcodes d)" "sc_id s = i" using find_shortcode_mem [OF assms(3)] by auto
  moreover have "shortcode_view d s \<noteq> None" using assms(4,5) by (auto simp: shortcode_view_def)
  ultimately obtain r where "getShortcode i d = Some r" using getShortcode_listed [OF assms(2)] by blast
  then show thesis
    using assms(1) that by (simp add: save_shortcode_def ShortcodeEdit_def guarded_form_def found_form_def office_perms)
qed


definition left_db :: db where
  \<comment> \<open>the owner of shortcode 5 has been deactivated\<close>
  "left_db = edit_db\<lparr>users := users sample_db @ [viewer_user\<lparr>u_active := False\<rparr>], shortcodes := [sample_shortcode 5 3]\<rparr>"

theorem saving_dispossesses_witness:
  "\<exists>a t. save_shortcode sample_app str_le office_req 5 left_db = Some a \<and> find_shortcode (acted_db a) 5 = Some t
    \<and> sc_owner t = 2 \<and> sc_owner_since t = 1000000"
proof -
  have wf: "wf_users left_db" "wf_shortcodes left_db"
    using edit_db_wf by (simp_all add: wf_db_def wf_users_def wf_shortcodes_def left_db_def edit_db_def sample_shortcode_def sample_db_def)
  have ses: "req_session sample_app office_req left_db = Some office_session"
    by (rule office_reads) (simp add: userStillValid_def left_db_def sample_db_def sample_user_def)
  have f: "find_shortcode left_db 5 = Some (sample_shortcode 5 3)" "find_operator left_db 1 = Some vodacom"
    "find_user left_db 3 = Some (viewer_user\<lparr>u_active := False\<rparr>)"
    by (simp_all add: find_shortcode_def find_operator_def find_user_def left_db_def edit_db_def sample_db_def sample_shortcode_def
        vodacom_def sample_user_def viewer_user_def)
  have owner: "sc_owner (sample_shortcode 5 3) = 3" "sc_operator_id (sample_shortcode 5 3) = 1" by (simp_all add: sample_shortcode_def)
  have g: "find_operator left_db (sc_operator_id (sample_shortcode 5 3)) = Some vodacom"
    "find_user left_db (sc_owner (sample_shortcode 5 3)) = Some (viewer_user\<lparr>u_active := False\<rparr>)" by (simp_all add: owner f)
  have v: "op_active vodacom" "length (op_display_name vodacom) \<le> 64" by (simp_all add: vodacom_def)
  obtain a where a: "save_shortcode sample_app str_le office_req 5 left_db = Some a"
    by (rule saves [OF ses wf(2) f(1)]) (simp_all add: sample_shortcode_def f)
  have "fst (hd (listPossibleOwners str_le left_db)) = 2" by code_simp
  moreover have "\<exists>t. find_shortcode (acted_db a) 5 = Some t \<and> fst a = Actions.Redirect ''/shortcodes''
      \<and> sc_owner t = fst (hd (listPossibleOwners str_le left_db)) \<and> sc_owner t \<noteq> sc_owner (sample_shortcode 5 3)
      \<and> sc_owner_since t = hr_now office_req"
    by (rule saving_dispossesses [OF a f(1) wf five_tidy _ g(1) v _ g(2)])
      (simp_all add: owner left_db_def sample_db_def sample_user_def viewer_user_def)
  moreover have "hr_now office_req = 1000000" by (simp add: office_req_def sample_req_def)
  ultimately show ?thesis using a by auto
qed

lemma office_card: "\<exists>c. c \<in> set (vw_cards (AdminViewerView str_le 2 edit_db)) \<and> av_id (vc_viewer c) = 3"
proof -
  have "is_viewer edit_db viewer_user"
    by (simp add: is_viewer_def role_key_of_def find_role_def edit_db_def sample_db_def viewer_user_def sample_user_def)
  moreover have "viewer_grants edit_db 2 3 \<noteq> []"
    by (simp add: viewer_grants_def admin_shortcodes_def edit_db_def sample_db_def sample_shortcode_def)
  moreover have "viewer_user \<in> set (users edit_db)" "u_id viewer_user = 3" by (simp_all add: edit_db_def viewer_user_def sample_user_def)
  ultimately have "viewer_row viewer_user (sort (viewer_grants edit_db 2 3)) \<in> set (listViewersForAdmin str_le 2 edit_db)"
    by (auto simp: listViewersForAdmin_def intro!: image_eqI [of _ _ viewer_user])
  then show ?thesis
    using \<open>u_id viewer_user = 3\<close> by (force simp: AdminViewerView_def Let_def viewer_row_def)
qed


theorem profile_saved_as_opened_witness:
  "\<exists>c. c \<in> set (vw_cards (AdminViewerView str_le 2 edit_db))
    \<and> users (acted_db (save_profile sample_app office_req c edit_db)) = users sample_db @ [viewer_user\<lparr>u_updated_at := 1000000\<rparr>]"
proof -
  obtain c where c: "c \<in> set (vw_cards (AdminViewerView str_le 2 edit_db))" "av_id (vc_viewer c) = 3" using office_card by blast
  have wf: "wf_users edit_db" using edit_db_wf by (simp add: wf_db_def)
  have "users (acted_db (save_profile sample_app office_req c edit_db)) = users sample_db @ [viewer_user\<lparr>u_updated_at := 1000000\<rparr>]"
    unfolding profile_saved_as_opened [OF office_in office_perms(3) wf c(1) [folded office_perms(4)] viewer_ok(7) c(2) [symmetric] _ viewer_ok(8,1-6), simplified]
    by (simp add: office_req_def sample_req_def edit_db_def sample_db_def sample_user_def viewer_user_def)
  with c(1) show ?thesis by blast
qed

end
