(* ===== verification/Session_Row.thy ===== *)
theory Session_Row
  imports Read_Routes Overview_Page Browser_Forms Report_Pages
begin

text \<open>
  A row of the sessions page in the browser, \<^verbatim>\<open>sessions/ExpandableSessionRow.tsx\<close>: its cells, and
  the panel of legs it fetches when it is first opened, composed with the page the row is on and the
  route that answers.  The text of an instant, the JSON of a leg and the message of an exception are
  parameters.
\<close>

section \<open>The cells\<close>

definition fmtDuration :: "int \<Rightarrow> string" where
  \<comment> \<open>of a whole number of seconds\<close>
  "fmtDuration secs = (if secs < 60 then js_String secs @ ''s''
     else js_String (secs div 60) @ ''m '' @ pad 2 (nat (secs mod 60)) @ ''s'')"

definition duration_cell :: "SessionRow \<Rightarrow> string" where
  "duration_cell r = fmtDuration (ceil_div (sn_duration r) 1000000)"

datatype badge = Failure string | Open_dialogue | Ended | No_outcome

definition outcomeBadge :: "string option \<Rightarrow> string option \<Rightarrow> badge" where
  "outcomeBadge act errorClass = (if truthy errorClass then Failure (str_of errorClass)
     else if act = Some ''CON'' then Open_dialogue else if act = Some ''END'' then Ended else No_outcome)"

definition truncatedSid :: "string \<Rightarrow> string \<times> bool" where
  \<comment> \<open>and whether an ellipsis follows\<close>
  "truncatedSid s = (if length s > 22 then (take 22 s, True) else (s, False))"

section \<open>The panel\<close>

datatype legs_state = Idle | Loading | Ready "json list" | Legs_error string

record row_state =
  rs_open :: bool
  rs_legs :: legs_state
  rs_sent :: nat       \<comment> \<open>requests made so far\<close>

definition closed_row :: row_state where
  "closed_row = \<lparr>rs_open = False, rs_legs = Idle, rs_sent = 0\<rparr>"

definition legs_query :: "(int \<Rightarrow> string) \<Rightarrow> SessionRow \<Rightarrow> query_string" where
  \<comment> \<open>the params of the URL, as the route decodes them\<close>
  "legs_query show_ts r = [(''session_id'', sn_session_id r), (''operator'', sn_operator_name r),
     (''first_ts'', show_ts (sn_first_ts r)), (''last_ts'', show_ts (sn_last_ts r))]"

definition plain_key :: "SessionRow \<Rightarrow> bool" where
  \<comment> \<open>an id and a network that the route takes as they are\<close>
  "plain_key r \<longleftrightarrow> sn_session_id r \<noteq> [] \<and> trim (sn_session_id r) = sn_session_id r
     \<and> sn_operator_name r \<noteq> [] \<and> toLowerCase (trim (sn_operator_name r)) = sn_operator_name r"

definition legs_answer :: "string \<Rightarrow> 'j fetched \<Rightarrow> legs_state" where
  \<comment> \<open>\<open>thrown\<close> is the message of whatever was thrown\<close>
  "legs_answer thrown ans = (let failed = Legs_error (if thrown = [] then ''fetch failed'' else thrown)
     in case ans of Fetch_failed \<Rightarrow> failed
      | Got rp \<Rightarrow> (if \<not> resp_ok rp then Legs_error (''HTTP '' @ dec (rp_status rp))
          else (case resp_json rp of None \<Rightarrow> failed | Some JNull \<Rightarrow> failed
            | Some _ \<Rightarrow> (case body_field (resp_json rp) ''legs'' of Some (JArr xs) \<Rightarrow> Ready xs | _ \<Rightarrow> Ready []))))"

definition ensureLegsLoaded :: "row_state \<Rightarrow> row_state" where
  \<comment> \<open>up to the request\<close>
  "ensureLegsLoaded s = (if rs_legs s \<noteq> Idle then s else s\<lparr>rs_legs := Loading, rs_sent := rs_sent s + 1\<rparr>)"

definition toggle :: "row_state \<Rightarrow> row_state" where
  "toggle s = (let willOpen = (\<not> rs_open s); s1 = s\<lparr>rs_open := willOpen\<rparr> in if willOpen then ensureLegsLoaded s1 else s1)"

datatype panel = Hidden | Loading_legs | Failed_legs string | Legs_table "json list" | Blank

definition row_panel :: "row_state \<Rightarrow> panel" where
  "row_panel s = (if \<not> rs_open s then Hidden
     else case rs_legs s of Loading \<Rightarrow> Loading_legs | Legs_error m \<Rightarrow> Failed_legs m | Ready legs \<Rightarrow> Legs_table legs | Idle \<Rightarrow> Blank)"

inductive row_step :: "('j fetched \<Rightarrow> string) \<Rightarrow> row_state \<Rightarrow> row_state \<Rightarrow> bool" for thrown where
  rs_toggle: "row_step thrown s (toggle s)"
| rs_answer: "rs_legs s = Loading \<Longrightarrow> row_step thrown s (s\<lparr>rs_legs := legs_answer (thrown ans) ans\<rparr>)"

inductive_cases row_stepE: "row_step thrown s t"

definition expanded_row :: "string \<Rightarrow> 'j fetched \<Rightarrow> row_state" where
  \<comment> \<open>a row opened for the first time, once the answer is there\<close>
  "expanded_row thrown ans = (toggle closed_row)\<lparr>rs_legs := legs_answer thrown ans\<rparr>"

section \<open>What a row does\<close>

lemma answered [simp]: "legs_answer e ans \<noteq> Idle" "legs_answer e ans \<noteq> Loading"
  by (auto simp: legs_answer_def Let_def split: fetched.splits option.splits json.splits)

lemma toggled [simp]: "rs_open (toggle s) \<longleftrightarrow> \<not> rs_open s"
  "rs_legs (toggle s) = (if \<not> rs_open s \<and> rs_legs s = Idle then Loading else rs_legs s)"
  "rs_sent (toggle s) = (if \<not> rs_open s \<and> rs_legs s = Idle then rs_sent s + 1 else rs_sent s)"
  by (simp_all add: toggle_def ensureLegsLoaded_def Let_def)

text \<open>
  However a row is opened and closed and whatever the server answers, its legs are asked for at most
  once, the panel of an open row is never blank, and once there is an answer the panel shows that answer
  whenever the row is open.
\<close>

theorem row_asks_once:
  fixes thrown :: "'j fetched \<Rightarrow> string"
  assumes "(row_step thrown)\<^sup>*\<^sup>* closed_row s"
  shows "rs_sent s \<le> 1 \<and> row_panel s \<noteq> Blank \<and> (rs_sent s = 0 \<longleftrightarrow> rs_legs s = Idle)
    \<and> (rs_legs s \<noteq> Idle \<longrightarrow> rs_legs s \<noteq> Loading \<longrightarrow> (row_step thrown)\<^sup>*\<^sup>* s t \<longrightarrow> rs_legs t = rs_legs s
        \<and> (rs_open t \<longrightarrow> row_panel t = row_panel (s\<lparr>rs_open := True\<rparr>)))"
proof -
  have inv: "rs_sent s \<le> 1 \<and> (rs_open s \<longrightarrow> rs_legs s \<noteq> Idle) \<and> (rs_sent s = 0 \<longleftrightarrow> rs_legs s = Idle)"
    using assms
  proof (induction rule: rtranclp_induct)
    case (step t u)
    then show ?case by (auto elim!: row_stepE split: if_splits)
  qed (simp add: closed_row_def)
  have final: "rs_legs t = rs_legs s" if "(row_step thrown)\<^sup>*\<^sup>* s t" "rs_legs s \<noteq> Idle" "rs_legs s \<noteq> Loading"
    using that
  proof (induction rule: rtranclp_induct)
    case (step t u)
    then show ?case by (auto elim!: row_stepE)
  qed simp
  have "row_panel s \<noteq> Blank" using inv by (auto simp: row_panel_def split: legs_state.splits)
  then show ?thesis using inv final by (auto simp: row_panel_def)
qed

lemma listed_rows:
  assumes "SessionsPage ap g le bw rq sp d rollup logs = Listed v" "r \<in> set (tv_rows v)"
  obtains session ls P where "req_session ap rq d = Some session" "r = session_row d (sn_session_id r, sn_operator_name r) ls"
    "ls \<noteq> []" "ls = filter P logs"
    "set ls \<subseteq> {l \<in> set logs. session_key l = (sn_session_id r, sn_operator_name r) \<and> leg_allowed (sessionAcl (Some session)) l}"
proof -
  obtain session where s: "req_session ap rq d = Some session" "bw_failure bw = None"
    using assms(1) by (auto simp: SessionsPage_def Let_def split: option.splits prod.splits if_splits)
  let ?acl = "sessionAcl (Some session)"
  obtain f c where f: "sessions_parseFilters (bw_date_ms bw) (bw_maxDays bw) (bw_now bw) sp = (f, c)" by fastforce
  let ?wh = "where_legs g (buildSessionWhere f ?acl) logs"
  obtain w where "SessionsPage ap g le bw rq sp d rollup logs = Listed w"
    "tv_rows w = page_of (nat (page_len sp)) (nat ((page_no sp - 1) * page_len sp)) (sort_by (by_last_ts le) (session_rows d ?wh))"
    by (rule sessions_listed [OF s f refl])
  then have "r \<in> set (session_rows d ?wh)"
    using assms set_sort_by by (auto simp: page_of_def dest!: in_set_takeD in_set_dropD)
  then obtain k where k: "k \<in> set (session_keys ?wh)" "r = session_row d k (group_of k ?wh)" by (auto simp: session_rows_def)
  have names: "k = (sn_session_id r, sn_operator_name r)" by (simp add: k(2) session_row_def Let_def)
  obtain P where P: "?wh = filter P logs" "\<And>l. P l \<Longrightarrow> leg_allowed ?acl l"
    using where_legs_by_leg [of f g ?acl logs] where_legs_plain [of f g ?acl logs] by (cases "selectsSessionsByLeg f") auto
  have "group_of k ?wh \<noteq> []" using k(1) by (auto simp: session_keys_def group_of_def filter_empty_conv)
  moreover have "group_of k ?wh = filter (\<lambda>l. session_key l = k \<and> P l) logs"
    by (simp add: group_of_def P(1) filter_filter conj_commute)
  moreover from this have "set (group_of k ?wh) \<subseteq> {l \<in> set logs. session_key l = k \<and> leg_allowed ?acl l}" using P(2) by auto
  ultimately show thesis using that [OF s(1), of "group_of k ?wh"] k(2) unfolding names [symmetric] by blast
qed

lemma legs_reply:
  assumes "req_session ap rq d = Some session" "plain_key r" "\<forall>t. show_ts t \<noteq> [] \<and> trim (show_ts t) = show_ts t"
  shows "session_legs_GET ap g leg_json rq (legs_query show_ts r) d logs = reply_json 200 [(''legs'', JArr (map leg_json
      (loadLegsForSession g (sn_session_id r) (sn_operator_name r) (sessionAcl (Some session))
        (Some (show_ts (sn_first_ts r))) (Some (show_ts (sn_last_ts r))) logs)))]"
  using assms by (simp add: session_legs_GET_def legs_query_def qs_trim_def qs_or_def qs_get_def plain_key_def opt_nonempty_def
      truthy_def str_of_def Let_def split: if_splits)

text \<open>
  C30. Expanding a row of the sessions page shows the session it stands for: when the answer of the route
  arrives the panel is a table of legs of that session, all of which the caller may read, in order of
  time, and no fewer than the row counts.  The id and the network are written without outer white space
  and in lower case, as the gateway writes them, instants survive being written into the URL, and the
  session has no more than two hundred legs, the most the route sends.
\<close>

theorem expanded_row_whole:
  assumes "SessionsPage ap g le bw rq sp d rollup logs = Listed v" "r \<in> set (tv_rows v)" "plain_key r"
    and "\<forall>t. show_ts t \<noteq> [] \<and> trim (show_ts t) = show_ts t \<and> pg_timestamptz g (show_ts t) = t"
    and "length (filter (\<lambda>l. session_key l = (sn_session_id r, sn_operator_name r)) logs) \<le> 200"
  shows "\<exists>session legs. req_session ap rq d = Some session
    \<and> row_panel (expanded_row thrown (Got (session_legs_GET ap g leg_json rq (legs_query show_ts r) d logs))) = Legs_table (map leg_json legs)
    \<and> set legs \<subseteq> {l \<in> set logs. session_key l = (sn_session_id r, sn_operator_name r) \<and> leg_allowed (sessionAcl (Some session)) l}
    \<and> sorted (map l_ts legs) \<and> sn_leg_count r \<le> length legs"
proof -
  let ?k = "(sn_session_id r, sn_operator_name r)"
  obtain session ls P where r: "req_session ap rq d = Some session" "r = session_row d ?k ls" "ls \<noteq> []" "ls = filter P logs"
    "set ls \<subseteq> {l \<in> set logs. session_key l = ?k \<and> leg_allowed (sessionAcl (Some session)) l}"
    by (rule listed_rows [OF assms(1,2)])
  define legs where "legs = loadLegsForSession g (sn_session_id r) (sn_operator_name r) (sessionAcl (Some session))
        (Some (show_ts (sn_first_ts r))) (Some (show_ts (sn_last_ts r))) logs"
  have shown: "set ls \<subseteq> set legs \<and> set legs \<subseteq> {l \<in> set logs. session_key l = ?k \<and> leg_allowed (sessionAcl (Some session)) l}
      \<and> sorted (map l_ts legs)"
    using expanded_session_whole [OF r(3,5), of show_ts d g legs] assms(4,5) by (simp add: r(2) [symmetric] legs_def)
  have "length ls \<le> length legs"
  proof -
    let ?Q = "\<lambda>l. session_key l = ?k \<and> leg_allowed (sessionAcl (Some session)) l
        \<and> near_session g (Some (show_ts (sn_first_ts r))) (Some (show_ts (sn_last_ts r))) l"
    have legs: "legs = take 200 (sort_key l_ts (filter ?Q logs))" by (simp add: legs_def loadLegs_found)
    have "length (filter ?Q logs) \<le> length (filter (\<lambda>l. session_key l = ?k) logs)" by (rule length_filter_mono) simp
    then have whole: "length legs = length (filter ?Q logs)" using assms(5) by (simp add: legs)
    have "?Q l" if "l \<in> set ls" for l using that shown set_take_subset [of 200 "sort_key l_ts (filter ?Q logs)"] by (auto simp: legs)
    then have "length (filter P logs) \<le> length (filter ?Q logs)" unfolding r(4) by (intro length_filter_mono) auto
    then show ?thesis by (simp add: r(4) whole)
  qed
  moreover have "sn_leg_count (session_row d ?k ls) = length ls" by (simp add: session_row_def Let_def)
  then have "sn_leg_count r = length ls" by (simp only: r(2) [symmetric])
  moreover have "row_panel (expanded_row thrown (Got (session_legs_GET ap g leg_json rq (legs_query show_ts r) d logs))) = Legs_table (map leg_json legs)"
    using legs_reply [OF r(1) assms(3), of show_ts g leg_json logs] assms(4)
    by (simp add: row_panel_def expanded_row_def closed_row_def legs_answer_def resp_ok_def resp_json_def reply_json_def body_field_def jfield_def Let_def legs_def)
  ultimately show ?thesis using r(1) shown by auto
qed

section \<open>Samples\<close>

theorem row_asks_once_witness:
  "rs_sent (toggle (toggle ((toggle closed_row)\<lparr>rs_legs := Ready []\<rparr>))) = 1
    \<and> row_panel (toggle (toggle ((toggle closed_row)\<lparr>rs_legs := Ready []\<rparr>))) = Legs_table []"
proof -
  define thrown :: "unit fetched \<Rightarrow> string" where "thrown = (\<lambda>_. [])"
  let ?s = "(toggle closed_row)\<lparr>rs_legs := Ready []\<rparr>"
  have ready: "legs_answer [] (Got (reply_json 200 [(''legs'', JArr [])]) :: unit fetched) = Ready []"
    by (simp add: legs_answer_def resp_ok_def resp_json_def reply_json_def body_field_def jfield_def)
  have "row_step thrown closed_row (toggle closed_row)" by (rule rs_toggle)
  moreover have "row_step thrown (toggle closed_row) ?s"
    using rs_answer [of "toggle closed_row" thrown "Got (reply_json 200 [(''legs'', JArr [])])"]
    by (simp add: closed_row_def ready thrown_def)
  ultimately have s: "(row_step thrown)\<^sup>*\<^sup>* closed_row ?s" by (rule converse_rtranclp_into_rtranclp [OF _ r_into_rtranclp])
  have t: "(row_step thrown)\<^sup>*\<^sup>* ?s (toggle (toggle ?s))" by (rule rtranclp.rtrancl_into_rtrancl [of _ _ "toggle ?s"]) (rule r_into_rtranclp, rule rs_toggle, rule rs_toggle)
  have "row_panel (toggle (toggle ?s)) = row_panel (?s\<lparr>rs_open := True\<rparr>)"
    using row_asks_once [OF s, of "toggle (toggle ?s)"] t by (simp add: closed_row_def)
  then show ?thesis by (simp add: row_panel_def closed_row_def)
qed

lemma legs_reply_session: "row_panel (expanded_row thrown (Got (reply_json 200 [(''legs'', JArr xs)]))) = Legs_table xs"
  by (simp add: row_panel_def expanded_row_def closed_row_def legs_answer_def resp_ok_def resp_json_def reply_json_def body_field_def jfield_def)

theorem expanded_row_whole_witness:
  "\<exists>v r legs. SessionsPage sample_app clock_pg str_le quiet client_req first_days sample_db (Some []) day_legs = Listed v \<and> tv_rows v = [r]
    \<and> row_panel (expanded_row [] (Got (session_legs_GET sample_app clock_pg (\<lambda>l :: leg_row. JNum (l_id l)) client_req (legs_query js_String r) sample_db day_legs)))
      = Legs_table (map (\<lambda>l :: leg_row. JNum (l_id l)) legs) \<and> 2 \<le> length legs"
proof -
  let ?f = "parseFilters (bw_now quiet) first_days" and ?acl = "sessionAcl (Some client_session)"
  have f: "sessions_parseFilters (bw_date_ms quiet) (bw_maxDays quiet) (bw_now quiet) first_days = (?f, None)"
    using daysBetween_dates [OF url_dates_utc, of 1 2 "bw_now quiet"] unfolding sessions_parseFilters_def first_days_filters Let_def
    by (simp add: quiet_def)
  have day: "pg_timestamptz clock_pg (fmt_date 1) = 0" by code_simp
  have "pg_day_start clock_pg 3 = 86400000000 * 3" by (simp add: clock_pg_def sample_pg_def)
  note day = this day
  have al: "leg_allowed ?acl l \<and> leg_matches clock_pg 0 ?f l" if "l \<in> set day_legs" for l
    using that by (auto simp: first_days_filters client_acl day_legs_def leg_allowed_def acl_allows_def leg_matches_def filter_matches_def in_range_def
        error_matches_def leg_sql_def sample_leg_def floor_ok_def truthy_def str_of_def fmt_date_nonempty day parse_fmt_date)
  have "\<not> selectsSessionsByLeg ?f" by (simp add: first_days_filters selectsSessionsByLeg_def truthy_def)
  then have wh: "where_legs clock_pg (buildSessionWhere ?f ?acl) day_legs = day_legs"
    using al by (simp add: where_legs_plain filter_id_conv)
  have keys: "session_key l = (''s'', ''vodacom'')" if "l \<in> set day_legs" for l
    using that by (auto simp: day_legs_def session_key_def sample_leg_def)
  let ?r = "session_row sample_db (''s'', ''vodacom'') day_legs"
  have rows: "session_rows sample_db day_legs = [?r]"
  proof -
    have "session_keys day_legs = [(''s'', ''vodacom'')]" by (simp add: session_keys_def day_legs_def session_key_def sample_leg_def)
    moreover have "group_of (''s'', ''vodacom'') day_legs = day_legs" using keys by (simp add: group_of_def filter_id_conv)
    ultimately show ?thesis by (simp add: session_rows_def)
  qed
  have q: "bw_failure quiet = None" "page_no first_days = 1" "page_len first_days = 1"
    by (simp_all add: quiet_def page_no_def page_len_def first_days_def asPositiveInt_def asString_def js_defs)
  obtain v where v: "SessionsPage sample_app clock_pg str_le quiet client_req first_days sample_db (Some []) day_legs = Listed v" "tv_rows v = [?r]"
    by (rule sessions_listed [OF client_page q(1) f refl, of clock_pg str_le "Some []" day_legs])
      (auto simp: wh rows q(2,3) sort_by_def page_of_def)
  have key: "sn_session_id ?r = ''s''" "sn_operator_name ?r = ''vodacom''" by (simp_all add: session_row_def Let_def)
  have "plain_key ?r" unfolding plain_key_def key by (simp add: js_defs is_ws_def)
  moreover have "pg_timestamptz clock_pg (js_String t) = t" for t by (simp add: clock_pg_def or0_def)
  moreover have "trim (js_String t) = js_String t" for t by (rule trim_no_ws [OF js_String_no_ws])
  moreover have "length (filter (\<lambda>l. session_key l = (sn_session_id ?r, sn_operator_name ?r)) day_legs) \<le> 200"
    by (rule order_trans [OF length_filter_le]) (simp add: day_legs_def)
  ultimately have "\<exists>session legs. req_session sample_app client_req sample_db = Some session
      \<and> row_panel (expanded_row [] (Got (session_legs_GET sample_app clock_pg (\<lambda>l :: leg_row. JNum (l_id l)) client_req (legs_query js_String ?r) sample_db day_legs)))
        = Legs_table (map (\<lambda>l :: leg_row. JNum (l_id l)) legs)
      \<and> set legs \<subseteq> {l \<in> set day_legs. session_key l = (sn_session_id ?r, sn_operator_name ?r) \<and> leg_allowed (sessionAcl (Some session)) l}
      \<and> sorted (map l_ts legs) \<and> sn_leg_count ?r \<le> length legs"
    by (intro expanded_row_whole [OF v(1)]) (simp_all add: v(2))
  then obtain legs where legs: "row_panel (expanded_row [] (Got (session_legs_GET sample_app clock_pg (\<lambda>l :: leg_row. JNum (l_id l)) client_req
        (legs_query js_String ?r) sample_db day_legs))) = Legs_table (map (\<lambda>l :: leg_row. JNum (l_id l)) legs)" "sn_leg_count ?r \<le> length legs"
    by blast
  have "sn_leg_count ?r = 2" by (simp add: session_row_def Let_def day_legs_def)
  then show ?thesis using v legs by auto
qed

end
