(* ===== verification/Filter_Forms.thy ===== *)
theory Filter_Forms
  imports Gateway_Pages Report_Pages Archive
begin

text \<open>
  The filter forms of the pages of shortcodes, users, audit log, summary and archive: what a form holds when
  its page is rendered, and what the page is asked for when the form is submitted as it is.  Every one is a GET
  form, so what it sends is the query string of the next page.
\<close>

section \<open>The forms\<close>

definition multi_value :: "string \<Rightarrow> int list \<Rightarrow> int list \<Rightarrow> pairs" where
  \<comment> \<open>a select of several: the options that were chosen, in the order they are listed\<close>
  "multi_value name chosen opts = map (\<lambda>i. (name, js_String i)) (filter (\<lambda>i. i \<in> set chosen) opts)"

definition id_value :: "int option \<Rightarrow> string" where
  \<comment> \<open>\<open>n ? String(n) : ""\<close>\<close>
  "id_value n = (if or0 n \<noteq> 0 then js_String (or0 n) else [])"

definition shortcodes_form :: "operator_row list \<Rightarrow> OwnerOption list \<Rightarrow> shortcodes_params \<Rightarrow> pairs" where
  "shortcodes_form ops owners sp = (let f = shortcodes_filters sp
     in [(''q'', text_value (str_of (slf_search f)))]
        @ multi_value ''operator_id'' (page_ints (hp_operator_id sp)) (map op_id ops)
        @ [(''status'', select_value [[], ''active'', ''maintenance'', ''deactivated''] (str_of (map_option Shortcodes.status_str (slf_status f)))),
           (''auth_mode'', select_value [[], ''none'', ''bearer''] (str_of (map_option auth_str (slf_authMode f)))),
           (''environment'', select_value [[], ''production'', ''sandbox''] (str_of (map_option env_str (slf_environment f)))),
           (''owner_user_id'', select_value ([] # map (js_String \<circ> oo_id) owners) (id_value (slf_ownerUserId f)))])"

definition users_form :: "role_row list \<Rightarrow> UserListFilters \<Rightarrow> pairs" where
  "users_form rs f = [(''q'', text_value (str_of (ulf_search f))),
     (''role_id'', select_value ([] # map (js_String \<circ> r_id) rs) (id_value (ulf_roleId f))),
     (''active'', select_value [[], ''1'', ''0''] (case ulf_active f of Some True \<Rightarrow> ''1'' | Some False \<Rightarrow> ''0'' | None \<Rightarrow> []))]"

definition isoToLocal :: "string \<Rightarrow> string" where
  \<comment> \<open>a match of \<open>^\d{4}-\d{2}-\d{2}T\d{2}:\d{2}\<close>\<close>
  "isoToLocal s = (if 16 \<le> length s \<and> list_all is_digit (map (nth s) [0, 1, 2, 3, 5, 6, 8, 9, 11, 12, 14, 15])
       \<and> map (nth s) [4, 7, 10, 13] = ''--T:'' then take 16 s else [])"

definition datetime_value :: "string \<Rightarrow> string" where
  \<comment> \<open>an input of a local date and time holds one or nothing; only the form \<open>isoToLocal\<close> gives matters\<close>
  "datetime_value s = (if date_value (take 10 s) \<noteq> [] \<and> take 2 (drop 11 s) \<in> set (map (pad 2) [0..<24])
       \<and> drop 14 s \<in> set (map (pad 2) [0..<60]) then s else [])"

definition audit_form :: "string list \<Rightarrow> audit_params \<Rightarrow> pairs" where
  "audit_form prefixes sp = [(''from'', datetime_value (isoToLocal (str_of (ad_from sp)))),
     (''to'', datetime_value (isoToLocal (str_of (ad_to sp)))), (''actor'', text_value (str_of (ad_actor sp))),
     (''action'', select_value (''all'' # prefixes) (case ad_action sp of None \<Rightarrow> ''all'' | Some a \<Rightarrow> a)),
     (''outcome'', select_value [[], ''success'', ''failure'', ''denied''] (str_of (ad_outcome sp)))]"

definition summary_form :: "bool \<Rightarrow> int \<Rightarrow> operator_row list \<Rightarrow> ShortcodeOption list \<Rightarrow> OwnerOption list \<Rightarrow> summary_params \<Rightarrow> pairs" where
  \<comment> \<open>of a caller who sees all or not, on a day\<close>
  "summary_form canSeeAll today ops scs owners sp =
     [(''from'', date_value (or_else (sy_from sp) (defaultFromDate today))), (''to'', date_value (or_else (sy_to sp) (dataThroughDate today))),
      (''group_by'', select_value ([''date'', ''date_operator'', ''date_shortcode''] @ (if canSeeAll then [''date_owner''] else [])) (page_groupBy sp))]
     @ multi_value ''operator_id'' (page_ints (sy_operator_id sp)) (map op_id ops)
     @ multi_value ''shortcode_id'' (page_ints (sy_shortcode_id sp)) (map so_id scs)
     @ (if canSeeAll then [(''owner_user_id'', select_value ([] # map (js_String \<circ> oo_id) owners)
          (id_value (case page_owner sp of Some n \<Rightarrow> n | None \<Rightarrow> None)))] else [])"

definition archive_form :: "archive_params \<Rightarrow> pairs" where
  "archive_form sp = [(''from'', date_value (trim (str_of (sp_from sp)))), (''to'', date_value (trim (str_of (sp_to sp)))),
     (''msisdn'', text_value (str_of (sp_msisdn sp))), (''session_id'', text_value (str_of (sp_session_id sp)))]"

section \<open>Reading what a form sent\<close>

definition shortcodes_url :: "pairs \<Rightarrow> shortcodes_params" where
  "shortcodes_url q = \<lparr>hp_operator_id = read_param q ''operator_id'', hp_status = qs_get q ''status'', hp_auth_mode = qs_get q ''auth_mode'',
     hp_environment = qs_get q ''environment'', hp_owner_user_id = qs_get q ''owner_user_id'', hp_q = qs_get q ''q''\<rparr>"

definition users_url :: "pairs \<Rightarrow> users_params" where
  "users_url q = \<lparr>up_error = qs_get q ''error'', up_saved = qs_get q ''saved'', up_created = qs_get q ''created'', up_reset = qs_get q ''reset'',
     up_email = qs_get q ''email'', up_role_id = qs_get q ''role_id'', up_active = qs_get q ''active'', up_q = qs_get q ''q''\<rparr>"

definition summary_url :: "pairs \<Rightarrow> summary_params" where
  "summary_url q = \<lparr>sy_from = qs_get q ''from'', sy_to = qs_get q ''to'', sy_operator_id = read_param q ''operator_id'',
     sy_shortcode_id = read_param q ''shortcode_id'', sy_owner_user_id = qs_get q ''owner_user_id'', sy_group_by = qs_get q ''group_by''\<rparr>"

definition archive_url :: "pairs \<Rightarrow> archive_params" where
  "archive_url q = \<lparr>sp_from = qs_get q ''from'', sp_to = qs_get q ''to'', sp_msisdn = qs_get q ''msisdn'',
     sp_session_id = qs_get q ''session_id'', sp_operator = qs_get q ''operator''\<rparr>"

lemma read_ints: "page_ints (read_param ps k) = List.map_filter js_parseInt (map snd (filter (\<lambda>p. fst p = k) ps))"
proof (cases "map snd (filter (\<lambda>p. fst p = k) ps)")
  case Nil
  then show ?thesis by (simp add: read_param_def page_ints_def asArray_def param_truthy_def List.map_filter_def)
next
  case (Cons s ss)
  have "js_parseInt [] = None" by code_simp
  with Cons show ?thesis
    by (cases ss) (auto simp: read_param_def page_ints_def asArray_def param_truthy_def List.map_filter_def)
qed

lemma multi_of [simp]: "filter (\<lambda>p. fst p = k) (multi_value n c opts) = (if k = n then multi_value n c opts else [])"
  by (auto simp: multi_value_def filter_empty_conv)

lemma multi_ints: "List.map_filter js_parseInt (map snd (multi_value n c opts)) = filter (\<lambda>i. i \<in> set c) opts"
  by (simp add: multi_value_def comp_def ids_back [unfolded comp_def])

lemma multi_get [simp]: "k \<noteq> n \<Longrightarrow> map_of (multi_value n c opts) k = None"
  by (simp add: multi_value_def map_of_ids)

lemma chosen_all: "set c \<subseteq> set opts \<Longrightarrow> set (filter (\<lambda>i. i \<in> set c) opts) = set c"
  by auto

lemma id_listed: "n = None \<or> (\<exists>i \<in> set is. n = Some i \<and> i \<noteq> 0) \<Longrightarrow>
    (let s = select_value ([] # map js_String is) (id_value n) in if truthy (Some s) then js_parseInt s else None) = n"
  by (auto simp: id_value_def or0_def select_value_def truthy_def Let_def js_String_nonempty)


section \<open>Pressing Apply\<close>

lemma trim_trim: "trim (trim s) = trim s"
proof -
  define zs where "zs = rev (dropWhile is_ws (rev (dropWhile is_ws s)))"
  obtain ws where "dropWhile is_ws s = zs @ ws"
    unfolding zs_def by (metis rev_append rev_rev_ident takeWhile_dropWhile_id)
  then have "dropWhile is_ws zs = zs"
    by (cases zs) (auto simp: dropWhile_eq_Cons_conv)
  then show ?thesis by (simp add: trim_def zs_def)
qed

lemma asked_ids: "(case slf_operatorIds (shortcodes_filters sp) of None \<Rightarrow> [] | Some is \<Rightarrow> is) = page_ints (hp_operator_id sp)"
  by (simp add: shortcodes_filters_def Let_def)

lemma shortcodes_asked:
  assumes "text_value (str_of (slf_search (shortcodes_filters sp))) = str_of (slf_search (shortcodes_filters sp))"
    and "set (page_ints (hp_operator_id sp)) \<subseteq> op_id ` set ops"
    and "slf_ownerUserId (shortcodes_filters sp) = None \<or> (\<exists>i \<in> oo_id ` set owners. slf_ownerUserId (shortcodes_filters sp) = Some i \<and> i \<noteq> 0)"
    and "f' = shortcodes_filters (shortcodes_url (shortcodes_form ops owners sp))" "f = shortcodes_filters sp"
  shows "slf_status f' = slf_status f" "slf_authMode f' = slf_authMode f" "slf_environment f' = slf_environment f"
    "slf_ownerUserId f' = slf_ownerUserId f" "search_of (slf_search f') = search_of (slf_search f)"
    "\<And>x. x \<in> set (case slf_operatorIds f' of None \<Rightarrow> [] | Some is \<Rightarrow> is) \<longleftrightarrow> x \<in> set (case slf_operatorIds f of None \<Rightarrow> [] | Some is \<Rightarrow> is)"
proof -
  let ?q = "shortcodes_form ops owners sp" and ?owners = "map oo_id owners"
  note fd = shortcodes_form_def Let_def qs_get_def shortcodes_url_def
  have q: "qs_get ?q ''status'' = Some (select_value [[], ''active'', ''maintenance'', ''deactivated''] (str_of (map_option Shortcodes.status_str (slf_status f))))"
    "qs_get ?q ''auth_mode'' = Some (select_value [[], ''none'', ''bearer''] (str_of (map_option auth_str (slf_authMode f))))"
    "qs_get ?q ''environment'' = Some (select_value [[], ''production'', ''sandbox''] (str_of (map_option env_str (slf_environment f))))"
    "qs_get ?q ''owner_user_id'' = Some (select_value ([] # map js_String ?owners) (id_value (slf_ownerUserId f)))"
    "qs_get ?q ''q'' = Some (str_of (slf_search f))"
    by (simp_all add: fd assms(1,5) map_add_def comp_def)
  have "slf_status f' = (case qs_get ?q ''status'' of None \<Rightarrow> None | Some s \<Rightarrow> Shortcode_Actions.status_of s)"
    by (simp add: assms(4) shortcodes_filters_def shortcodes_url_def)
  then show "slf_status f' = slf_status f"
    by (cases "slf_status f"; cases "the (slf_status f)")
      (simp_all add: q(1) Shortcodes.status_str_def Shortcode_Actions.status_of_def select_value_def str_of_def)
  have "slf_authMode f' = (if qs_get ?q ''auth_mode'' = Some ''none'' then Some AuthNone
      else if qs_get ?q ''auth_mode'' = Some ''bearer'' then Some AuthBearer else None)"
    by (simp add: assms(4) shortcodes_filters_def shortcodes_url_def)
  then show "slf_authMode f' = slf_authMode f"
    by (cases "slf_authMode f"; cases "the (slf_authMode f)") (simp_all add: q(2) auth_str_def select_value_def str_of_def)
  have "slf_environment f' = (if qs_get ?q ''environment'' = Some ''sandbox'' then Some Sandbox
      else if qs_get ?q ''environment'' = Some ''production'' then Some Production else None)"
    by (simp add: assms(4) shortcodes_filters_def shortcodes_url_def)
  then show "slf_environment f' = slf_environment f"
    by (cases "slf_environment f"; cases "the (slf_environment f)") (simp_all add: q(3) env_str_def select_value_def str_of_def)
  have "slf_ownerUserId f' = (let s = select_value ([] # map js_String ?owners) (id_value (slf_ownerUserId f)) in if truthy (Some s) then js_parseInt s else None)"
    by (simp add: assms(4) shortcodes_filters_def shortcodes_url_def q(4) Let_def str_of_def)
  also have "\<dots> = slf_ownerUserId f" using assms(3) by (intro id_listed) (simp add: assms(5))
  finally show "slf_ownerUserId f' = slf_ownerUserId f" .
  have "slf_search f' = (let q = trim (str_of (slf_search f)) in if q = [] then None else Some q)"
    by (simp add: assms(4) shortcodes_filters_def shortcodes_url_def q(5) str_of_def)
  then show "search_of (slf_search f') = search_of (slf_search f)"
    by (simp add: search_of_def Let_def str_of_def truthy_def assms(5) shortcodes_filters_def trim_trim)
  have m: "filter (\<lambda>p. fst p = ''operator_id'') ?q = multi_value ''operator_id'' (page_ints (hp_operator_id sp)) (map op_id ops)"
    by (simp add: fd)
  have "page_ints (read_param ?q ''operator_id'') = filter (\<lambda>i. i \<in> set (page_ints (hp_operator_id sp))) (map op_id ops)"
    unfolding read_ints m multi_ints ..
  then have "set (page_ints (hp_operator_id (shortcodes_url ?q))) = set (page_ints (hp_operator_id sp))"
    using chosen_all [of "page_ints (hp_operator_id sp)" "map op_id ops"] assms(2) by (simp add: shortcodes_url_def)
  then show "x \<in> set (case slf_operatorIds f' of None \<Rightarrow> [] | Some is \<Rightarrow> is) \<longleftrightarrow> x \<in> set (case slf_operatorIds f of None \<Rightarrow> [] | Some is \<Rightarrow> is)" for x
    unfolding assms(4,5) asked_ids by (simp only:)
qed

text \<open>
  Apply, pressed on the shortcodes page as it opened, lists the shortcodes that are listed: when the
  networks and the owner asked for are among the options, the form has a control for every filter.
\<close>

lemma shortcodes_apply_keeps:
  assumes "text_value (str_of (slf_search (shortcodes_filters sp))) = str_of (slf_search (shortcodes_filters sp))"
    and "set (page_ints (hp_operator_id sp)) \<subseteq> op_id ` set (listOperators d)"
    and "slf_ownerUserId (shortcodes_filters sp) = None
      \<or> (\<exists>i \<in> oo_id ` set (listShortcodeOwners le d). slf_ownerUserId (shortcodes_filters sp) = Some i \<and> i \<noteq> 0)"
  shows "ShortcodesPage ap g le rq (shortcodes_url (shortcodes_form (listOperators d) (listShortcodeOwners le d) sp)) d
    = ShortcodesPage ap g le rq sp d"
proof -
  let ?f = "shortcodes_filters sp" and ?f' = "shortcodes_filters (shortcodes_url (shortcodes_form (listOperators d) (listShortcodeOwners le d) sp))"
  note same = shortcodes_asked [OF assms refl refl]
  have ne: "(case x of None \<Rightarrow> False | Some is \<Rightarrow> is \<noteq> []) \<longleftrightarrow> set (case x of None \<Rightarrow> [] | Some is \<Rightarrow> is) \<noteq> {}" for x :: "int list option"
    by (cases x) auto
  have ids: "set (case slf_operatorIds ?f' of None \<Rightarrow> [] | Some is \<Rightarrow> is) = set (case slf_operatorIds ?f of None \<Rightarrow> [] | Some is \<Rightarrow> is)"
    using same(6) by (intro set_eqI)
  have "shortcode_matches ?f' r \<longleftrightarrow> shortcode_matches ?f r" for r
    unfolding shortcode_matches_def ne ids by (simp only: same(1-5))
  moreover obtain cs args cs' args' where b: "shortcode_where ?f [] = (cs, args)" "shortcode_where ?f' [] = (cs', args')" by fastforce
  ultimately have "listShortcodes g le ?f' d = listShortcodes g le ?f d"
    unfolding listShortcodes_def b Let_def
    by (simp only: prod.case shortcode_builder.where_holds [OF b(1), of g] shortcode_builder.where_holds [OF b(2), of g])
  then show ?thesis by (simp add: ShortcodesPage_def Let_def)
qed

lemma users_apply_keeps:
  assumes "text_value (str_of (ulf_search (users_filters sp))) = str_of (ulf_search (users_filters sp))"
    and "ulf_roleId (users_filters sp) = None \<or> (\<exists>i \<in> set (map r_id (listRoles d)). ulf_roleId (users_filters sp) = Some i \<and> i \<noteq> 0)"
  shows "users_filters (users_url (users_form (listRoles d) (users_filters sp))) = users_filters sp"
proof -
  let ?f = "users_filters sp" and ?sp = "users_url (users_form (listRoles d) (users_filters sp))"
  have q: "up_q ?sp = Some (str_of (ulf_search ?f))"
    "up_role_id ?sp = Some (select_value ([] # map js_String (map r_id (listRoles d))) (id_value (ulf_roleId ?f)))"
    "up_active ?sp = Some (select_value [[], ''1'', ''0''] (case ulf_active ?f of Some True \<Rightarrow> ''1'' | Some False \<Rightarrow> ''0'' | None \<Rightarrow> []))"
    by (simp_all add: users_url_def users_form_def qs_get_def assms(1) comp_def)
  have "ulf_roleId (users_filters ?sp) = ulf_roleId ?f"
    using id_listed [OF assms(2)] by (simp add: users_filters_def [of ?sp] q str_of_def Let_def split: if_splits)
  moreover have "ulf_active (users_filters ?sp) = ulf_active ?f"
    by (simp add: users_filters_def [of ?sp] q select_value_def split: option.split bool.split)
  moreover have "ulf_search (users_filters ?sp) = ulf_search ?f"
    by (simp add: users_filters_def [of ?sp] q str_of_def) (simp add: users_filters_def str_of_def Let_def trim_trim)
  ultimately show ?thesis by simp
qed

lemma audit_apply_keeps:
  assumes "\<forall>s. ad_from sp = Some s \<or> ad_to sp = Some s \<longrightarrow> datetime_value (isoToLocal s) = s"
    and "text_value (str_of (ad_actor sp)) = str_of (ad_actor sp)" "truthy (ad_action sp) \<longrightarrow> str_of (ad_action sp) \<in> set (''all'' # prefixes)"
    and "[] \<notin> set prefixes"
  shows "audit_page_filters (audit_url (audit_form prefixes sp)) = (audit_page_filters sp)\<lparr>af_page := Some 1\<rparr>"
proof -
  let ?sp = "audit_url (audit_form prefixes sp)"
  have dt: "datetime_value (isoToLocal (str_of x)) = str_of x" if "x = ad_from sp \<or> x = ad_to sp" for x
  proof (cases x)
    case None
    have "isoToLocal [] = []" by (simp add: isoToLocal_def)
    moreover have "datetime_value [] = []" by (simp add: datetime_value_def)
    ultimately show ?thesis using None by (simp add: str_of_def)
  next
    case (Some s)
    with that assms(1) show ?thesis by (auto simp: str_of_def)
  qed
  have q: "ad_from ?sp = Some (str_of (ad_from sp))" "ad_to ?sp = Some (str_of (ad_to sp))" "ad_actor ?sp = Some (str_of (ad_actor sp))"
    "ad_action ?sp = Some (select_value (''all'' # prefixes) (case ad_action sp of None \<Rightarrow> ''all'' | Some a \<Rightarrow> a))"
    "ad_outcome ?sp = Some (select_value [[], ''success'', ''failure'', ''denied''] (str_of (ad_outcome sp)))" "ad_page ?sp = None"
    by (simp_all add: audit_url_def audit_form_def qs_get_def dt assms(2))
  have one: "(case js_parseInt ''1'' of None \<Rightarrow> 1 | Some n \<Rightarrow> if n = 0 then 1 else n) = 1" by code_simp
  have "af_actionPrefix (audit_page_filters ?sp) = af_actionPrefix (audit_page_filters sp)"
    using assms(3,4) by (auto simp: audit_page_filters_def q select_value_def truthy_def str_of_def split: option.splits)
  moreover have "af_outcome (audit_page_filters ?sp) = af_outcome (audit_page_filters sp)"
    by (cases "ad_outcome sp") (auto simp: audit_page_filters_def q select_value_def str_of_def)
  ultimately show ?thesis
    by (simp add: audit_page_filters_def q str_of_def one)
qed

lemma summary_asked:
  assumes "8 \<le> t" "t < 2786860" "\<forall>s. sy_from sp = Some s \<or> sy_to sp = Some s \<longrightarrow> date_value s = s"
    and "page_groupBy sp \<in> {''date'', ''date_operator'', ''date_shortcode''} \<or> b \<and> page_groupBy sp = ''date_owner''"
    and "page_owner sp = None \<or> (\<exists>i \<in> oo_id ` set owners. page_owner sp = Some (Some i) \<and> i \<noteq> 0)"
    and "sp' = summary_url (summary_form b t ops scs owners sp)"
  shows "or_else (sy_from sp') (defaultFromDate t) = or_else (sy_from sp) (defaultFromDate t)"
    "or_else (sy_to sp') (dataThroughDate t) = or_else (sy_to sp) (dataThroughDate t)" "page_groupBy sp' = page_groupBy sp"
    "b \<Longrightarrow> page_owner sp' = page_owner sp"
proof -
  have dates: "date_value (or_else (sy_from sp) (defaultFromDate t)) = or_else (sy_from sp) (defaultFromDate t)"
    "date_value (or_else (sy_to sp) (dataThroughDate t)) = or_else (sy_to sp) (dataThroughDate t)"
    using assms(1-3) by (auto simp: or_else_def defaultFromDate_def dataThroughDate_def date_value_fmt truthy_def str_of_def split: option.splits)
  have ne: "or_else (sy_from sp) (defaultFromDate t) \<noteq> []" "or_else (sy_to sp) (dataThroughDate t) \<noteq> []"
    using assms(1,2) by (auto simp: or_else_def defaultFromDate_def dataThroughDate_def truthy_str fmt_date_nonempty)
  have g: "sy_from sp' = Some (or_else (sy_from sp) (defaultFromDate t))" "sy_to sp' = Some (or_else (sy_to sp) (dataThroughDate t))"
    "sy_group_by sp' = Some (page_groupBy sp)"
    "sy_owner_user_id sp' = (if b then Some (select_value ([] # map js_String (map oo_id owners)) (id_value (case page_owner sp of Some n \<Rightarrow> n | None \<Rightarrow> None))) else None)"
    using assms(4) by (auto simp: assms(6) summary_form_def qs_get_def summary_url_def map_add_def dates select_value_def comp_def)
  have or_same: "or_else (Some s) y = s" if "s \<noteq> []" for s y using that by (simp add: or_else_def truthy_def str_of_def)
  show "or_else (sy_from sp') (defaultFromDate t) = or_else (sy_from sp) (defaultFromDate t)"
    "or_else (sy_to sp') (dataThroughDate t) = or_else (sy_to sp) (dataThroughDate t)" "page_groupBy sp' = page_groupBy sp"
    unfolding g(1,2) by (simp_all only: or_same ne page_groupBy_def [of sp'] g(3) option.case not_False_eq_True)
  let ?n = "case page_owner sp of Some n \<Rightarrow> n | None \<Rightarrow> None"
  define s where "s = select_value ([] # map js_String (map oo_id owners)) (id_value ?n)"
  have "?n = None \<or> (\<exists>i \<in> set (map oo_id owners). ?n = Some i \<and> i \<noteq> 0)" using assms(5) by auto
  then have n: "(if truthy (Some s) then js_parseInt s else None) = ?n" using id_listed by (simp only: s_def Let_def)
  show "page_owner sp' = page_owner sp" if b
  proof -
    have "sy_owner_user_id sp' = Some s" using g(4) that by (simp only: s_def if_True)
    then have "page_owner sp' = (if truthy (Some s) then Some (js_parseInt s) else None)" by (simp add: page_owner_def [of sp'] str_of_def)
    moreover have "\<not> truthy (Some s)" if "page_owner sp = None" using that by (simp add: s_def id_value_def or0_def select_value_def truthy_def)
    ultimately show ?thesis using n assms(5) by (auto split: if_splits)
  qed
qed

lemma summary_ids:
  assumes "set (page_ints (sy_operator_id sp)) \<subseteq> op_id ` set ops" "set (page_ints (sy_shortcode_id sp)) \<subseteq> so_id ` set scs"
    and "sp' = summary_url (summary_form b t ops scs owners sp)"
  shows "set (page_ints (sy_operator_id sp')) = set (page_ints (sy_operator_id sp))"
    "set (page_ints (sy_shortcode_id sp')) = set (page_ints (sy_shortcode_id sp))"
proof -
  let ?q = "summary_form b t ops scs owners sp"
  have "filter (\<lambda>p. fst p = ''operator_id'') ?q = multi_value ''operator_id'' (page_ints (sy_operator_id sp)) (map op_id ops)"
    "filter (\<lambda>p. fst p = ''shortcode_id'') ?q = multi_value ''shortcode_id'' (page_ints (sy_shortcode_id sp)) (map so_id scs)"
    by (simp_all add: summary_form_def)
  then have "page_ints (sy_operator_id sp') = filter (\<lambda>i. i \<in> set (page_ints (sy_operator_id sp))) (map op_id ops)"
    "page_ints (sy_shortcode_id sp') = filter (\<lambda>i. i \<in> set (page_ints (sy_shortcode_id sp))) (map so_id scs)"
    by (simp_all add: assms(3) summary_url_def read_ints multi_ints)
  then show "set (page_ints (sy_operator_id sp')) = set (page_ints (sy_operator_id sp))"
    "set (page_ints (sy_shortcode_id sp')) = set (page_ints (sy_shortcode_id sp))"
    using assms(1,2) chosen_all by (metis set_map)+
qed

text \<open>
  Apply, pressed on the summary page as it opened, shows the same rows: when the dates are dates and what
  was picked is among the options, the form has a control for every filter and for the grouping.
\<close>

theorem summary_apply_keeps:
  assumes "SummaryPage ap g le rq sp d rollup = Shown v" "req_session ap rq d = Some session"
    and "b = hasPerm (Some session) REPORTS_VIEW_ALL" "t = hr_now rq div 86400000000" "8 \<le> t" "t < 2786860"
    and "\<forall>s. sy_from sp = Some s \<or> sy_to sp = Some s \<longrightarrow> date_value s = s"
    and "page_groupBy sp \<in> {''date'', ''date_operator'', ''date_shortcode''} \<or> b \<and> page_groupBy sp = ''date_owner''"
    and "set (page_ints (sy_operator_id sp)) \<subseteq> op_id ` set (listOperators d)"
    and "set (page_ints (sy_shortcode_id sp)) \<subseteq> so_id ` set (loadShortcodeOptions le (sessionAcl (Some session)) d)"
    and "page_owner sp = None \<or> (\<exists>i \<in> oo_id ` set (listShortcodeOwners le d). page_owner sp = Some (Some i) \<and> i \<noteq> 0)"
  shows "\<exists>v'. SummaryPage ap g le rq (summary_url (summary_form b t (listOperators d)
        (loadShortcodeOptions le (sessionAcl (Some session)) d) (listShortcodeOwners le d) sp)) d rollup = Shown v'
    \<and> sv_rows v' = sv_rows v \<and> sv_billable v' = sv_billable v"
proof -
  let ?acl = "sessionAcl (Some session)"
  let ?sp = "summary_url (summary_form b t (listOperators d) (loadShortcodeOptions le ?acl d) (listShortcodeOwners le d) sp)"
  note asked = summary_asked [OF assms(5-8,11) refl] and ids = summary_ids [OF assms(9,10) refl]
  have nil: "xs = [] \<longleftrightarrow> set xs = {}" for xs :: "int list" by simp
  have own: "(if b then (case page_owner ?sp of Some (Some n) \<Rightarrow> Some n | _ \<Rightarrow> None) else None)
      = (if b then (case page_owner sp of Some (Some n) \<Rightarrow> Some n | _ \<Rightarrow> None) else None)"
  proof (cases b)
    case True
    show ?thesis by (simp only: asked(4) [OF True])
  qed (simp only: if_False)
  have "summary_wants (summary_page_filters b t ?sp) ?acl x \<longleftrightarrow> summary_wants (summary_page_filters b t sp) ?acl x" for x
    unfolding summary_wants_def summary_page_filters_def SummaryFilters.simps nil ids asked(1,2) own ..
  then have "loadDailySummary g le (summary_page_filters b t ?sp) ?acl gb n d rollup
      = loadDailySummary g le (summary_page_filters b t sp) ?acl gb n d rollup" for gb n
    unfolding loadDailySummary_wanted by presburger
  then show ?thesis using assms(1-4) asked(3) by (auto simp: SummaryPage_def Let_def)
qed

text \<open>
  Search, pressed on the archive page as it opened, forgets the network: it runs and records the search of
  the same URL without one, since the form has no control for it.
\<close>

theorem archive_search_forgets_network:
  assumes "date_value (trim (str_of (sp_from sp))) = trim (str_of (sp_from sp))" "date_value (trim (str_of (sp_to sp))) = trim (str_of (sp_to sp))"
    and "text_value (str_of (sp_msisdn sp)) = str_of (sp_msisdn sp)" "text_value (str_of (sp_session_id sp)) = str_of (sp_session_id sp)"
  shows "ArchivePage ap g date_parse pretty fails rq (archive_url (archive_form sp)) parts archived d
    = ArchivePage ap g date_parse pretty fails rq (sp\<lparr>sp_operator := None\<rparr>) parts archived d"
proof -
  let ?sp = "archive_url (archive_form sp)"
  have str: "str_of (Some s) = s" for s :: string by (simp add: str_of_def)
  have q: "sp_from ?sp = Some (trim (str_of (sp_from sp)))" "sp_to ?sp = Some (trim (str_of (sp_to sp)))"
    "sp_msisdn ?sp = Some (str_of (sp_msisdn sp))" "sp_session_id ?sp = Some (str_of (sp_session_id sp))" "sp_operator ?sp = None"
    by (simp_all add: archive_url_def archive_form_def qs_get_def assms)
  have t: "trim (trim (str_of x)) = trim (str_of x)" if "date_value (trim (str_of x)) = trim (str_of x)" for x
    using date_no_ws [of "trim (str_of x)"] that by simp
  have "page_filters ?sp = page_filters (sp\<lparr>sp_operator := None\<rparr>)" "search_detail ?sp = search_detail (sp\<lparr>sp_operator := None\<rparr>)"
    by (simp_all add: page_filters_def search_detail_def fun_eq_iff q str opt_trim_def t assms(1,2))
  then show ?thesis unfolding ArchivePage_def by (simp only:)
qed

section \<open>Samples\<close>

definition picked_week :: summary_params where
  "picked_week = week_params\<lparr>sy_from := Some (fmt_date 3), sy_group_by := Some ''date_shortcode''\<rparr>"

theorem summary_apply_keeps_witness:
  "\<exists>v. SummaryPage sample_app sample_pg (\<lambda>_ _. True) client_later (summary_url (summary_form False 10 (listOperators sample_db)
      (loadShortcodeOptions (\<lambda>_ _. True) (sessionAcl (Some client_session)) sample_db) (listShortcodeOwners (\<lambda>_ _. True) sample_db) picked_week))
      sample_db [] = Shown v \<and> sv_rows v = []"
proof -
  obtain v where v: "SummaryPage sample_app sample_pg (\<lambda>_ _. True) client_later picked_week sample_db [] = Shown v"
    using client_later_session by (auto simp: SummaryPage_def Let_def)
  have none: "sv_rows v = []"
    using v client_later_session
    by (auto simp: SummaryPage_def Let_def loadDailySummary_def buckets_def sort_by_def split: prod.splits)
  have none_picked: "page_ints (sy_shortcode_id picked_week) = []" "page_ints (sy_operator_id picked_week) = []" "page_owner picked_week = None"
    by (simp_all add: picked_week_def week_params_def page_ints_def asArray_def param_truthy_def List.map_filter_def page_owner_def truthy_def)
  have "\<exists>v'. SummaryPage sample_app sample_pg (\<lambda>_ _. True) client_later (summary_url (summary_form False 10 (listOperators sample_db)
      (loadShortcodeOptions (\<lambda>_ _. True) (sessionAcl (Some client_session)) sample_db) (listShortcodeOwners (\<lambda>_ _. True) sample_db) picked_week))
      sample_db [] = Shown v' \<and> sv_rows v' = sv_rows v \<and> sv_billable v' = sv_billable v"
  proof (rule summary_apply_keeps [OF v client_later_session])
    show "False = hasPerm (Some client_session) REPORTS_VIEW_ALL" by code_simp
    show "10 = hr_now client_later div 86400000000" by (simp add: client_later_def)
    show "\<forall>s. sy_from picked_week = Some s \<or> sy_to picked_week = Some s \<longrightarrow> date_value s = s"
      by (auto simp: picked_week_def week_params_def date_value_fmt)
    show "page_groupBy picked_week \<in> {''date'', ''date_operator'', ''date_shortcode''} \<or> False \<and> page_groupBy picked_week = ''date_owner''"
      by (simp add: picked_week_def page_groupBy_def)
  qed (simp_all add: none_picked)
  with none show ?thesis by auto
qed

theorem archive_search_forgets_network_witness:
  "\<exists>v d'. ArchivePage archive_app sample_pg sample_dates js_String None (archivist_req None)
      (archive_url (archive_form ((day_params None)\<lparr>sp_operator := Some ''airtel''\<rparr>))) [] [sample_leg 1 5 5, sample_leg 2 86400000007 5] sample_db
      = (Some v, d') \<and> av_rows v = [sample_leg 2 86400000007 5]"
proof -
  have day: "date_value ''1970-01-02'' = ''1970-01-02''" using date_value_fmt [of 1] by (simp add: fmt_one)
  have "ArchivePage archive_app sample_pg sample_dates js_String None (archivist_req None)
      (archive_url (archive_form ((day_params None)\<lparr>sp_operator := Some ''airtel''\<rparr>))) [] [sample_leg 1 5 5, sample_leg 2 86400000007 5] sample_db
      = ArchivePage archive_app sample_pg sample_dates js_String None (archivist_req None)
      ((day_params None)\<lparr>sp_operator := Some ''airtel''\<rparr>\<lparr>sp_operator := None\<rparr>) [] [sample_leg 1 5 5, sample_leg 2 86400000007 5] sample_db"
    by (rule archive_search_forgets_network)
      (simp_all add: day_params_def str_of_def trim_def is_ws_def day text_value_def)
  also have "\<dots> = day_page None None" by (simp add: day_page_def day_params_def)
  finally show ?thesis using day_page_view [of None None] by (auto simp: opt_trim_def str_of_def)
qed

end
