(* ===== verification/Spec2Isabelle.thy ===== *)
theory Spec2Isabelle
  imports Concurrency Shortcode_Actions Simulating Operators Archive Read_Routes Search_Params Overview_Page
    Simulator_Client Navigation User_Pages Listing_Pages Gateway_Pages Browser_Forms Report_Pages Overview_Chart
    Edit_Forms Session_Row Filter_Forms
begin

text \<open>
  A verification development of the UssdGatewayTz dashboard, the Next.js portal under
  \<^verbatim>\<open>src/dashboard\<close> through which operators of a USSD gateway manage accounts, shortcodes and
  handlers and read, bill and export the gateway's traffic.

  The program.  The dashboard and the Python gateway (\<^verbatim>\<open>src/app\<close>) share one PostgreSQL
  database (\<^verbatim>\<open>src/db\<close>).  A request passes the route guard (\<^verbatim>\<open>middleware.ts\<close>),
  then an API route or server action, which reads the session (\<^verbatim>\<open>lib/auth.ts\<close>), checks a
  permission (\<^verbatim>\<open>lib/rbac.ts\<close>), calls the data layer (\<^verbatim>\<open>lib/*.ts\<close>) and leaves an
  entry in the audit log.  Whatever reads traffic does so under the shortcode allowlist of the session
  (\<^verbatim>\<open>lib/acl.ts\<close>), rendered as SQL.  Exports are queued in a table and written to files by
  worker processes (\<^verbatim>\<open>worker/exports_worker.mjs\<close>).

  The model.  The database is the record \<open>db\<close> of Schema, one list of rows per table, with the
  constraints the statements can violate; an operation of the data layer is a function from the
  database to a result and a database, or of the transaction type \<open>txn\<close> (an exception or a result,
  and the database, with \<open>withTx\<close> rolling back); routes and actions are functions from a request and a
  database to a reply and a database.  Instants are integers in microseconds, days are day numbers,
  strings are lists of characters (lists of UTF-16 code units where the code cuts or measures text that
  people type).  Queries build a syntax tree with numbered placeholders and a list of parameters, as
  the code does, and the tree is evaluated in three-valued logic (Sql).  Code outside the repository is a
  parameter: \<open>jose\<close> and \<open>bcrypt\<close> (with their laws as hypotheses), SHA-256, \<open>new URL\<close>,
  \<open>JSON.parse\<close> and \<open>Date.parse\<close>, the mail transport, the clock, the collation, casts between text and
  timestamps, the handler a simulated leg is posted to, and the rows of the nightly rollup.

  Theories, in dependency order.
  Prelude: the part of the JavaScript runtime the code uses, JSON, pages and sorting.
  Datetime (\<^verbatim>\<open>lib/datetime.ts\<close>), Sql, Acl (\<^verbatim>\<open>lib/acl.ts\<close>), Csv.
  Schema (\<^verbatim>\<open>db/*.sql\<close>, \<open>withTx\<close> of \<^verbatim>\<open>lib/db.ts\<close>).
  Rbac (\<^verbatim>\<open>lib/rbac.ts\<close>), Middleware (\<^verbatim>\<open>middleware.ts\<close>), Auth (\<^verbatim>\<open>lib/auth.ts\<close>).
  Users, Viewers (\<^verbatim>\<open>lib/users.ts\<close>), Password_Reset (\<^verbatim>\<open>lib/passwordReset.ts\<close>), Accounts (all
  writers of accounts as one step relation), Audit_Log (\<^verbatim>\<open>lib/audit.ts\<close>).
  Http (\<^verbatim>\<open>lib/csrf.ts\<close>, \<^verbatim>\<open>lib/mailer.ts\<close>, requests, replies, forms), Login (the routes under
  \<^verbatim>\<open>app/api/auth\<close>), Actions (\<^verbatim>\<open>lib/welcomeEmail.ts\<close> and what server actions share),
  User_Actions (\<^verbatim>\<open>users/actions.ts\<close>, \<^verbatim>\<open>account/actions.ts\<close>).
  Concurrency: account writers overlapping at READ COMMITTED.
  Shortcodes (\<^verbatim>\<open>lib/shortcodes.ts\<close> and the trigger of \<^verbatim>\<open>db/025\<close>), Routing (what they promise),
  Shortcode_Actions (\<^verbatim>\<open>shortcodes/actions.ts\<close>, \<^verbatim>\<open>my-shortcodes/actions.ts\<close>).
  Legs and Reports (\<^verbatim>\<open>lib/reports.ts\<close>: predicates, then queries), Reporting (what they promise).
  Export_Query (the worker's query, columns and chunk loop), Exporting (what one job promises),
  Export_Queue (\<^verbatim>\<open>lib/exports.ts\<close>, \<^verbatim>\<open>exports/actions.ts\<close>, the download route and the worker's
  statements), Export_Lifecycle (requests, workers, reaper and sweep as a system), Export_Access.
  Simulator (\<^verbatim>\<open>lib/simulator.ts\<close>, \<^verbatim>\<open>simulator/actions.ts\<close>), Simulating (what it promises, against
  the reply parser of \<^verbatim>\<open>app/forwarder.py\<close>).
  Rollups (\<^verbatim>\<open>lib/summary.ts\<close>, \<^verbatim>\<open>lib/overview.ts\<close>, the summary export route), Rollup_Views (what
  they show).  Operators (\<^verbatim>\<open>lib/operators.ts\<close>, \<^verbatim>\<open>operators/actions.ts\<close>), Archive
  (\<^verbatim>\<open>lib/archive.ts\<close> and the server part of its page), Read_Routes (session legs, audit CSV, health).
  Pages, from the URL to the data, the controls and the links they show: Search_Params (sessions and
  reports), Overview_Page, Navigation (\<^verbatim>\<open>layout.tsx\<close>, \<^verbatim>\<open>_nav.tsx\<close>), User_Pages (portal users and the
  edit forms and dialogs), Listing_Pages (audit and summary), Gateway_Pages (shortcodes, operators, own
  shortcodes, exports), Simulator_Client (the simulator in the browser as a step relation), Report_Pages
  (the listings of sessions and legs with the filter bar, the filter form and its export button),
  Overview_Chart (the chart of daily traffic and the link of the tile of errors),
  Browser_Forms (the forms of login, forgotten and new password, View as and the impersonation banner,
  each composed with the route it posts to), Edit_Forms (the fields of the edit forms and of a viewer's
  card, as the browser sends them to their actions), Session_Row (a row of the sessions page with the legs
  it fetches when it is opened), Filter_Forms (the filter forms of the other listings and of the archive).

  Interfaces.  \<open>cond_builder\<close> (Sql) is the contract between a module that builds a predicate and the
  query that embeds it: parameters are only appended, and the predicate means what it should whatever is
  appended later; \<open>cond_builder_pair\<close> composes two of them.  It is interpreted on the allowlist, the
  filters of shortcodes, users, audit log and legs, the range and picks of the summary, and the count of
  sessions over the rollup.
  \<open>account_op\<close> (Users) is what every writer of accounts keeps, \<open>session_revoker\<close> adds that it ends the
  sessions of its target, \<open>lane_op\<close> (Viewers) that it stays within one admin's viewers; they are
  interpreted on every operation that claims it and on the step relations of Accounts and Viewers.
  \<open>shortcode_op\<close> (Shortcodes) is what every writer of the routing table keeps.  \<open>paged_source\<close>
  (Exporting) is what the chunk loop of a job relies on, interpreted on the job's own queries.

  What is shown.
  Accounts: an active super admin always remains when operations run one after the other (and may not
  when two demotions overlap, Concurrency); revoked sessions stay revoked; viewers are confined to the
  shortcodes of their admin; reset links work once; failed guesses of the current password are bounded.
  Sessions: a login cookie means the right password and carries the rights the database grants; the
  route guard passes only what a permission allows; impersonation only narrows and only reads.
  Routing: rows stay well formed under every operation and every action; owners reach only their own
  rows; the traffic before a hand-over stays hidden from the new owner.
  Reports: pages show exactly the visible legs, sessions are aggregated over all their legs, units are
  the least number of windows, totals are the sum of the rows, expanded sessions are whole.
  Exports: a job is stamped with the requester's allowlist; over a log that does not change a leg export
  is what the pages show; over one that grows nothing is missed; the loop ends; the queue is served
  oldest first; the system refines the documented lifecycle if the reaper spares live workers; a
  download contains only what the stamped allowlist admits.
  Summary, overview, archive, operators, simulator: totals count each admitted bucket once; the CSV of a
  scoped caller does not depend on anything else; bars are exact while the view of today is fresh;
  archive searches are bounded and recorded; windows stay in range; a simulated leg reaches only the
  caller's handlers and its reply is read as live traffic's is.
  Pages: the sidebar agrees with the route gate; a link or a button is shown exactly when what is behind
  it opens or serves; a Download CSV link exports what the page shows; page links keep the filters;
  cached strings stay within the allowlist; the simulator sends one dialogue; going on by Next reads every
  visible leg once; the buttons of the filter form act on what is on screen; quick ranges run as they
  say; the chart adds up, and the tile of errors leads to the failing sessions it counts; the login form
  lands on this site only; a forgotten password is recovered end to end; an edit form saved as it opened
  changes nothing the gateway routes by or an account relies on; the grants of a viewer are saved as they
  are ticked; an opened row of the sessions page asks once and shows the session it stands for; a filter
  form submitted as it opened asks for what is on screen.
  Where the code falls short of what a comment promises, the theorem says what it does instead, on a
  concrete run (for instance \<open>reaper_breaks_lifecycle\<close>, \<open>viewer_takeover\<close>, \<open>shutdown_truncates\<close>,
  \<open>session_export_underbills\<close>, \<open>overview_double_counts\<close>, \<open>archive_search_unaudited\<close>,
  \<open>handover_day_uncounted\<close>, \<open>stop_never_signs_out\<close>, \<open>unnamed_network_vanishes\<close>, \<open>saving_dispossesses\<close>,
  \<open>archive_search_forgets_network\<close>).

  Bounds and loops.  Every loop over rows is structural.  The one loop that may run for ever, the chunk
  loop of an export over a log that grows while it runs, is a \<open>partial_function\<close>, and its termination
  is a theorem under a bound on the log; no fuel is used.  Ids and counts are unbounded integers; the
  column types that an operation can overflow (VARCHAR lengths, the range of a billing window) are
  checked where the row is written.

  Not modelled.  Markup, the fields of the forms that create something, the checks a browser makes of
  a field before it submits, display formats, progress bars, the chrome of dialogs and the
  integration document; the palette of operator colours; connection pools and statement timeouts; the SMTP transport; HTTP
  headers of replies other than the session cookie; the Python gateway except for the reply parser the
  simulator is compared with; the SQL procedures that partition, roll up and archive the log, whose
  results are inputs here; the polling loop and start-up of the worker process; characters outside
  Latin-1 where the code neither cuts nor measures text.
\<close>

end
